(* ===== verification/Prelude.thy ===== *)
theory Prelude
  imports Main "HOL-Library.Word" "HOL-Library.Sublist"
begin

text \<open>
  The part of Go and of its standard library that the modelled sources use, and the
  generic facts the component theories share.

  \<^item> A Go \<open>string\<close> or \<open>[]byte\<close> is a \<^typ>\<open>string\<close>: a list of 8-bit
    characters. A \<open>uint32\<close> is a \<open>32 word\<close>.
  \<^item> \<open>strings\<close>: \<open>Split\<close> by one byte, \<open>Join\<close>, \<open>TrimSpace\<close>,
    \<open>IndexByte\<close>, \<open>HasPrefix\<close>, \<open>HasSuffix\<close>, \<open>ToUpper\<close>,
    \<open>ToLower\<close>, \<open>EqualFold\<close>. The operations that look at letter case or white
    space are modelled on 7-bit text, which is all that IMAP keywords, flags and numbers may
    contain: a byte above 127 is neither a letter nor a space.
  \<^item> \<open>strconv\<close>: \<open>FormatUint\<close> and \<open>ParseUint\<close> in base ten.
  \<^item> A call that may fail returns \<open>'e + 'a\<close>, the error on the left, or
    \<open>'a option\<close> where the caller only asks whether there was an error.
\<close>

named_theorems go_simps \<open>unfolding the library operations on concrete text\<close>

type_synonym u32 = "32 word"

abbreviation ord :: "char \<Rightarrow> nat" where
  "ord c \<equiv> of_char c"

subsection \<open>Characters\<close>

definition is_digit :: "char \<Rightarrow> bool" where
  "is_digit c \<longleftrightarrow> 48 \<le> ord c \<and> ord c \<le> 57"

definition is_lower :: "char \<Rightarrow> bool" where
  "is_lower c \<longleftrightarrow> 97 \<le> ord c \<and> ord c \<le> 122"

definition is_upper :: "char \<Rightarrow> bool" where
  "is_upper c \<longleftrightarrow> 65 \<le> ord c \<and> ord c \<le> 90"

definition is_space :: "char \<Rightarrow> bool" where
  "is_space c \<longleftrightarrow> ord c = 32 \<or> (9 \<le> ord c \<and> ord c \<le> 13)"

definition upper_char :: "char \<Rightarrow> char" where
  "upper_char c = (if is_lower c then char_of (ord c - 32) else c)"

definition lower_char :: "char \<Rightarrow> char" where
  "lower_char c = (if is_upper c then char_of (ord c + 32) else c)"

definition digit_char :: "nat \<Rightarrow> char" where
  "digit_char d = char_of (48 + d)"

abbreviation CR :: char where "CR \<equiv> CHR 0x0D"
abbreviation LF :: char where "LF \<equiv> CHR 0x0A"
abbreviation DQ :: char where "DQ \<equiv> CHR 0x22"
abbreviation BSL :: char where "BSL \<equiv> CHR 0x5C"
abbreviation SP :: char where "SP \<equiv> CHR 0x20"

subsection \<open>Package strings\<close>

definition ToUpper :: "string \<Rightarrow> string" where
  "ToUpper s = map upper_char s"

definition ToLower :: "string \<Rightarrow> string" where
  "ToLower s = map lower_char s"

definition EqualFold :: "string \<Rightarrow> string \<Rightarrow> bool" where
  "EqualFold s t \<longleftrightarrow> ToUpper s = ToUpper t"

fun split_byte :: "char \<Rightarrow> string \<Rightarrow> string list" where
  "split_byte c [] = [[]]"
| "split_byte c (x # xs) =
     (if x = c then [] # split_byte c xs
      else (case split_byte c xs of
              [] \<Rightarrow> [[x]]
            | y # ys \<Rightarrow> (x # y) # ys))"

fun join :: "string \<Rightarrow> string list \<Rightarrow> string" where
  "join sep [] = []"
| "join sep [x] = x"
| "join sep (x # y # ys) = x @ sep @ join sep (y # ys)"

definition TrimSpace :: "string \<Rightarrow> string" where
  "TrimSpace s = rev (dropWhile is_space (rev (dropWhile is_space s)))"

fun IndexByte :: "string \<Rightarrow> char \<Rightarrow> nat option" where
  "IndexByte [] c = None"
| "IndexByte (x # xs) c = (if x = c then Some 0 else map_option Suc (IndexByte xs c))"

definition HasPrefix :: "string \<Rightarrow> string \<Rightarrow> bool" where
  "HasPrefix s p \<longleftrightarrow> take (length p) s = p"

definition HasSuffix :: "string \<Rightarrow> string \<Rightarrow> bool" where
  "HasSuffix s p \<longleftrightarrow> length p \<le> length s \<and> drop (length s - length p) s = p"

text \<open>\<open>strings.Index\<close> and \<open>bytes.Index\<close>: the first position where the text occurs.\<close>

fun Index :: "string \<Rightarrow> string \<Rightarrow> nat option" where
  "Index [] p = (if p = [] then Some 0 else None)"
| "Index (x # xs) p =
     (if HasPrefix (x # xs) p then Some 0 else map_option Suc (Index xs p))"

definition Contains_str :: "string \<Rightarrow> string \<Rightarrow> bool" where
  "Contains_str s p \<longleftrightarrow> Index s p \<noteq> None"

text \<open>\<open>bytes.Split(s, "\r\n")\<close>.\<close>

fun split_crlf :: "string \<Rightarrow> string list" where
  "split_crlf [] = [[]]"
| "split_crlf [c] = [[c]]"
| "split_crlf (c # d # xs) =
     (if c = CR \<and> d = LF then [] # split_crlf xs
      else (case split_crlf (d # xs) of
              [] \<Rightarrow> [[c]]
            | y # ys \<Rightarrow> (c # y) # ys))"

text \<open>\<open>strings.Trim(s, "\"")\<close>.\<close>

definition TrimQuotes :: "string \<Rightarrow> string" where
  "TrimQuotes s = rev (dropWhile (\<lambda>c. c = DQ) (rev (dropWhile (\<lambda>c. c = DQ) s)))"

text \<open>Signed 64-bit arithmetic on \<^typ>\<open>int\<close>, with the wrap-around written out.\<close>

definition wrap64 :: "int \<Rightarrow> int" where
  "wrap64 x = (x + 2 ^ 63) mod 2 ^ 64 - 2 ^ 63"

text \<open>A run-time panic.\<close>

datatype panic = SliceOutOfRange | NilDereference

subsection \<open>Package strconv\<close>

fun FormatUint :: "nat \<Rightarrow> string" where
  "FormatUint n =
     (if n < 10 then [digit_char n] else FormatUint (n div 10) @ [digit_char (n mod 10)])"

declare FormatUint.simps [simp del]

definition FormatInt :: "int \<Rightarrow> string" where
  "FormatInt n = (if n < 0 then ''-'' @ FormatUint (nat (- n)) else FormatUint (nat n))"

definition digit_val :: "char \<Rightarrow> nat" where
  "digit_val c = ord c - 48"

definition num_value :: "string \<Rightarrow> nat" where
  "num_value s = foldl (\<lambda>n c. 10 * n + digit_val c) 0 s"

definition ParseUint :: "nat \<Rightarrow> string \<Rightarrow> nat option" where
  "ParseUint bits s =
     (if s = [] then None
      else if \<not> list_all is_digit s then None
      else if num_value s < 2 ^ bits then Some (num_value s) else None)"

text \<open>\<open>ParseInt(s, 10, 64)\<close>: an optional sign, then digits, in the range of \<open>int64\<close>.\<close>

definition ParseInt64 :: "string \<Rightarrow> int option" where
  "ParseInt64 s =
     (let neg = (s \<noteq> [] \<and> hd s = CHR ''-'');
          body = (if s \<noteq> [] \<and> (hd s = CHR ''-'' \<or> hd s = CHR ''+'') then tl s else s)
      in case ParseUint 64 body of
           None \<Rightarrow> None
         | Some n \<Rightarrow>
             (if \<not> neg \<and> n \<ge> 2 ^ 63 then None
              else if neg \<and> n > 2 ^ 63 then None
              else Some (if neg then - int n else int n)))"

subsection \<open>Facts on characters\<close>

lemma ord_char_of [simp]: "n < 256 \<Longrightarrow> ord (char_of n) = n" for n :: nat
  by simp

lemma is_digit_digit_char [simp]: "d < 10 \<Longrightarrow> is_digit (digit_char d)"
  by (simp add: is_digit_def digit_char_def)

lemma digit_val_digit_char [simp]: "d < 10 \<Longrightarrow> digit_val (digit_char d) = d"
  by (simp add: digit_val_def digit_char_def)

lemma ord_upper_char: "ord (upper_char c) = (if is_lower c then ord c - 32 else ord c)"
proof -
  have "(ord c - 32) mod 256 = ord c - 32"
    by (rule mod_less) (use nat_of_char_less_256 [of c] in linarith)
  then show ?thesis by (simp add: upper_char_def)
qed

lemma upper_char_not_lower [simp]: "\<not> is_lower (upper_char c)"
  by (auto simp: is_lower_def ord_upper_char)

lemma upper_char_idem [simp]: "upper_char (upper_char c) = upper_char c"
  by (simp add: upper_char_def [of "upper_char c"])

lemma ToUpper_idem [simp]: "ToUpper (ToUpper s) = ToUpper s"
  by (simp add: ToUpper_def)

lemma ToUpper_eq_Nil_iff [simp]: "ToUpper s = [] \<longleftrightarrow> s = []"
  by (simp add: ToUpper_def)

lemma EqualFold_refl [simp]: "EqualFold s s"
  by (simp add: EqualFold_def)

lemma EqualFold_sym: "EqualFold s t \<longleftrightarrow> EqualFold t s"
  by (auto simp: EqualFold_def)

lemma EqualFold_trans: "EqualFold s t \<Longrightarrow> EqualFold t u \<Longrightarrow> EqualFold s u"
  by (simp add: EqualFold_def)

subsection \<open>Numbers as text\<close>

lemma num_value_append_digit:
  "num_value (s @ [c]) = 10 * num_value s + digit_val c"
  by (simp add: num_value_def)

lemma FormatUint_not_Nil [simp]: "FormatUint n \<noteq> []"
  by (subst FormatUint.simps) simp

lemma FormatUint_digits: "list_all is_digit (FormatUint n)"
proof (induction n rule: FormatUint.induct)
  case (1 n)
  then show ?case
    by (subst FormatUint.simps) simp
qed

lemma num_value_FormatUint [simp]: "num_value (FormatUint n) = n"
proof (induction n rule: FormatUint.induct)
  case (1 n)
  show ?case
  proof (cases "n < 10")
    case True
    then show ?thesis
      by (subst FormatUint.simps) (simp add: num_value_def)
  next
    case False
    with "1.IH" show ?thesis
      by (subst FormatUint.simps) (simp add: num_value_append_digit)
  qed
qed

lemma ParseUint_FormatUint: "ParseUint bits (FormatUint n) = (if n < 2 ^ bits then Some n else None)"
  by (simp add: ParseUint_def FormatUint_digits)

lemma ParseUint_Some_less: "ParseUint bits s = Some n \<Longrightarrow> n < 2 ^ bits"
  by (auto simp: ParseUint_def split: if_splits)

lemma ParseUint_Some_digits: "ParseUint bits s = Some n \<Longrightarrow> s \<noteq> [] \<and> list_all is_digit s"
  by (auto simp: ParseUint_def split: if_splits)

lemma FormatUint_inj: "FormatUint m = FormatUint n \<Longrightarrow> m = n"
  by (metis num_value_FormatUint)

lemma digit_in_FormatUint: "c \<in> set (FormatUint n) \<Longrightarrow> is_digit c"
  using FormatUint_digits by (auto simp: list_all_iff)

lemma FormatUint_small: "n < 10 \<Longrightarrow> FormatUint n = [digit_char n]"
  by (subst FormatUint.simps) simp

lemma hd_FormatUint_digit: "is_digit (hd (FormatUint n))"
  by (rule digit_in_FormatUint [of _ n]) simp

lemma ParseInt64_FormatUint: "n < 2 ^ 63 \<Longrightarrow> ParseInt64 (FormatUint n) = Some (int n)"
proof -
  assume n: "n < 2 ^ 63"
  have "hd (FormatUint n) \<noteq> CHR ''-''" "hd (FormatUint n) \<noteq> CHR ''+''"
    using hd_FormatUint_digit [of n] by (auto simp: is_digit_def)
  with n show ?thesis
    by (simp add: ParseInt64_def ParseUint_FormatUint Let_def)
qed

subsection \<open>Splitting and joining\<close>

lemma split_byte_not_Nil [simp]: "split_byte c s \<noteq> []"
  by (induction s) (auto split: list.splits)

lemma split_byte_notin: "c \<notin> set s \<Longrightarrow> split_byte c s = [s]"
  by (induction s) auto

lemma split_byte_append:
  "c \<notin> set p \<Longrightarrow> split_byte c (p @ c # s) = p # split_byte c s"
  by (induction p) auto

lemma split_byte_join:
  assumes "xs \<noteq> []" and "\<And>x. x \<in> set xs \<Longrightarrow> c \<notin> set x"
  shows "split_byte c (join [c] xs) = xs"
  using assms by (induction "[c]" xs rule: join.induct) (auto simp: split_byte_notin split_byte_append)

lemma split_byte_elems: "p \<in> set (split_byte c s) \<Longrightarrow> c \<notin> set p"
  by (induction s arbitrary: p) (auto split: list.splits if_splits)

lemma join_split_byte: "join [c] (split_byte c s) = s"
proof (induction s)
  case (Cons x xs)
  obtain y ys where "split_byte c xs = y # ys"
    by (cases "split_byte c xs") auto
  with Cons show ?case
    by (cases ys) auto
qed simp

lemma join_eq_Nil: "join sep xs = [] \<Longrightarrow> x \<in> set xs \<Longrightarrow> x = []"
  by (induction sep xs rule: join.induct) auto

lemma TrimSpace_no_space:
  assumes "\<And>c. c \<in> set s \<Longrightarrow> \<not> is_space c"
  shows "TrimSpace s = s"
proof -
  have "dropWhile is_space s = s" "dropWhile is_space (rev s) = rev s"
    using assms by (auto simp: dropWhile_eq_self_iff hd_rev)
  then show ?thesis by (simp add: TrimSpace_def)
qed

lemma digit_not_space: "is_digit c \<Longrightarrow> \<not> is_space c"
  by (auto simp: is_digit_def is_space_def)

lemma IndexByte_None: "IndexByte s c = None \<longleftrightarrow> c \<notin> set s"
  by (induction s) auto

lemma IndexByte_append: "c \<notin> set p \<Longrightarrow> IndexByte (p @ c # s) c = Some (length p)"
  by (induction p) auto

lemma IndexByte_Some:
  "IndexByte s c = Some i \<Longrightarrow> i < length s \<and> s ! i = c \<and> c \<notin> set (take i s)"
proof (induction s arbitrary: i)
  case (Cons x xs)
  then show ?case by (cases i) (auto split: if_splits)
qed simp

lemma HasPrefix_append [simp]: "HasPrefix (p @ s) p"
  by (simp add: HasPrefix_def)

lemma HasPrefix_iff: "HasPrefix s p \<longleftrightarrow> (\<exists>t. s = p @ t)"
  by (auto simp: HasPrefix_def) (metis append_take_drop_id)

lemma Index_Some: "Index s p = Some i \<Longrightarrow> s = take i s @ p @ drop (i + length p) s"
proof (induction s arbitrary: i)
  case (Cons x xs)
  show ?case
  proof (cases "HasPrefix (x # xs) p")
    case True
    with Cons.prems have "i = 0" by simp
    with True show ?thesis by (simp add: HasPrefix_def) (metis append_take_drop_id)
  next
    case False
    with Cons.prems obtain j where "Index xs p = Some j" "i = Suc j" by auto
    with Cons.IH [of j] show ?thesis by simp
  qed
qed (auto split: if_splits)

lemma Index_bound: "Index s p = Some i \<Longrightarrow> i + length p \<le> length s"
proof (induction s arbitrary: i)
  case (Cons x xs)
  show ?case
  proof (cases "HasPrefix (x # xs) p")
    case True
    then obtain t where "x # xs = p @ t" by (auto simp: HasPrefix_iff)
    then have "length p \<le> length (x # xs)" by simp
    with True Cons.prems show ?thesis by simp
  next
    case False
    with Cons show ?thesis by auto
  qed
qed (auto split: if_splits)

lemma split_crlf_not_Nil [simp]: "split_crlf s \<noteq> []"
  by (induction s rule: split_crlf.induct) (auto split: list.splits)

lemma split_crlf_line:
  "CR \<notin> set line \<Longrightarrow> split_crlf (line @ [CR, LF] @ s) = line # split_crlf s"
proof (induction line)
  case (Cons c line)
  then have "c \<noteq> CR" by auto
  with Cons show ?case by (cases line) auto
qed simp

subsection \<open>Runs of a transition relation\<close>

text \<open>
  The reflexive transitive closure of a step relation, and the contract of a component that
  is such a relation: an invariant that holds at the start and that every step keeps holds in
  every state a run reaches.
\<close>

inductive steps :: "('s \<Rightarrow> 's \<Rightarrow> bool) \<Rightarrow> 's \<Rightarrow> 's \<Rightarrow> bool" for r where
  steps_refl [simp, intro]: "steps r s s"
| steps_step: "steps r s t \<Longrightarrow> r t u \<Longrightarrow> steps r s u"

lemma steps_trans: "steps r t u \<Longrightarrow> steps r s t \<Longrightarrow> steps r s u"
  by (induction rule: steps.induct) (auto intro: steps_step)

lemma steps_one: "r s t \<Longrightarrow> steps r s t"
  by (rule steps_step [OF steps_refl])

locale transition_system =
  fixes init :: "'s \<Rightarrow> bool"
    and step :: "'s \<Rightarrow> 's \<Rightarrow> bool"
    and inv :: "'s \<Rightarrow> bool"
  assumes inv_init: "init s \<Longrightarrow> inv s"
    and inv_step: "inv s \<Longrightarrow> step s t \<Longrightarrow> inv t"
begin

lemma inv_steps: "steps step s t \<Longrightarrow> inv s \<Longrightarrow> inv t"
  by (induction rule: steps.induct) (auto intro: inv_step)

lemma inv_reachable: "init s \<Longrightarrow> steps step s t \<Longrightarrow> inv t"
  using inv_steps inv_init by blast

end

end
