(* ===== verification/NumSet.thy ===== *)
theory NumSet
  imports Prelude
begin

text \<open>
  Sequence sets and UID sets (\<open>numset.go\<close>): ranges over \<open>uint32\<close> in which 0
  stands for the asterisk, their textual form, and membership.
  \<open>SeqSet\<close> and \<open>UIDSet\<close> are two copies of the same structure; the locale
  \<open>range_set\<close> is the contract they share and each of them is an interpretation of it.
\<close>

record num_range =
  Start :: u32
  Stop :: u32

definition NumRange :: "u32 \<Rightarrow> u32 \<Rightarrow> num_range" where
  "NumRange a b = \<lparr>Start = a, Stop = b\<rparr>"

definition NumRange_Contains :: "num_range \<Rightarrow> u32 \<Rightarrow> bool" where
  "NumRange_Contains r num =
     (if Stop r = 0 then Start r \<le> num
      else let (start, stop) =
                 (if Start r > Stop r then (Stop r, Start r) else (Start r, Stop r))
           in start \<le> num \<and> num \<le> stop)"

definition NumRange_String :: "num_range \<Rightarrow> string" where
  "NumRange_String r =
     (if Start r = Stop r then FormatUint (unat (Start r))
      else let start = FormatUint (unat (Start r));
               stop = (if Stop r = 0 then ''*'' else FormatUint (unat (Stop r)))
           in start @ '':'' @ stop)"

datatype num_set = SeqSet "num_range list" | UIDSet "num_range list"

primrec Ranges :: "num_set \<Rightarrow> num_range list" where
  "Ranges (SeqSet rs) = rs"
| "Ranges (UIDSet rs) = rs"

datatype numset_error =
    EmptyNumberSet
  | EmptyRange
  | InvalidNumber string
  | ZeroNumber

definition parseSeqNum :: "string \<Rightarrow> numset_error + u32" where
  "parseSeqNum s =
     (if s = ''*'' then Inr 0
      else case ParseUint 32 s of
             None \<Rightarrow> Inl (InvalidNumber s)
           | Some n \<Rightarrow> (if n = 0 then Inl ZeroNumber else Inr (of_nat n)))"

definition parseRange :: "string \<Rightarrow> numset_error + num_range" where
  "parseRange p =
     (let part = TrimSpace p in
      if part = [] then Inl EmptyRange
      else case IndexByte part (CHR '':'') of
             None \<Rightarrow>
               (case parseSeqNum part of
                  Inl e \<Rightarrow> Inl e
                | Inr num \<Rightarrow> Inr (NumRange num num))
           | Some colonIdx \<Rightarrow>
               (case parseSeqNum (take colonIdx part) of
                  Inl e \<Rightarrow> Inl e
                | Inr start \<Rightarrow>
                    (case parseSeqNum (drop (colonIdx + 1) part) of
                       Inl e \<Rightarrow> Inl e
                     | Inr stop \<Rightarrow> Inr (NumRange start stop))))"

fun parseRanges :: "string list \<Rightarrow> numset_error + num_range list" where
  "parseRanges [] = Inr []"
| "parseRanges (p # ps) =
     (case parseRange p of
        Inl e \<Rightarrow> Inl e
      | Inr r \<Rightarrow>
          (case parseRanges ps of
             Inl e \<Rightarrow> Inl e
           | Inr rs \<Rightarrow> Inr (r # rs)))"

definition parseNumSet :: "string \<Rightarrow> numset_error + num_range list" where
  "parseNumSet s =
     (if s = [] then Inl EmptyNumberSet else parseRanges (split_byte (CHR '','') s))"

definition formatNumSet :: "num_range list \<Rightarrow> string" where
  "formatNumSet ranges =
     (if ranges = [] then [] else join '','' (map NumRange_String ranges))"

subsection \<open>SeqSet and UIDSet\<close>

definition ParseSeqSet :: "string \<Rightarrow> numset_error + num_range list" where
  "ParseSeqSet s = (case parseNumSet s of Inl e \<Rightarrow> Inl e | Inr ranges \<Rightarrow> Inr ranges)"

definition SeqSet_String :: "num_range list \<Rightarrow> string" where
  "SeqSet_String ss = formatNumSet ss"

definition SeqSet_Dynamic :: "num_range list \<Rightarrow> bool" where
  "SeqSet_Dynamic ss = list_ex (\<lambda>r. Start r = 0 \<or> Stop r = 0) ss"

definition SeqSet_Contains :: "num_range list \<Rightarrow> u32 \<Rightarrow> bool" where
  "SeqSet_Contains ss num = list_ex (\<lambda>r. NumRange_Contains r num) ss"

definition SeqSet_AddNum :: "num_range list \<Rightarrow> u32 list \<Rightarrow> num_range list" where
  "SeqSet_AddNum ss nums = foldl (\<lambda>set n. set @ [NumRange n n]) ss nums"

definition SeqSet_AddRange :: "num_range list \<Rightarrow> u32 \<Rightarrow> u32 \<Rightarrow> num_range list" where
  "SeqSet_AddRange ss start stop = ss @ [NumRange start stop]"

definition SeqSet_IsEmpty :: "num_range list \<Rightarrow> bool" where
  "SeqSet_IsEmpty ss \<longleftrightarrow> length ss = 0"

definition ParseUIDSet :: "string \<Rightarrow> numset_error + num_range list" where
  "ParseUIDSet s = (case parseNumSet s of Inl e \<Rightarrow> Inl e | Inr ranges \<Rightarrow> Inr ranges)"

definition UIDSet_String :: "num_range list \<Rightarrow> string" where
  "UIDSet_String us = formatNumSet us"

definition UIDSet_Dynamic :: "num_range list \<Rightarrow> bool" where
  "UIDSet_Dynamic us = list_ex (\<lambda>r. Start r = 0 \<or> Stop r = 0) us"

definition UIDSet_Contains :: "num_range list \<Rightarrow> u32 \<Rightarrow> bool" where
  "UIDSet_Contains us uid = list_ex (\<lambda>r. NumRange_Contains r uid) us"

definition UIDSet_AddNum :: "num_range list \<Rightarrow> u32 list \<Rightarrow> num_range list" where
  "UIDSet_AddNum us uids = foldl (\<lambda>set u. set @ [NumRange u u]) us uids"

definition UIDSet_AddRange :: "num_range list \<Rightarrow> u32 \<Rightarrow> u32 \<Rightarrow> num_range list" where
  "UIDSet_AddRange us start stop = us @ [NumRange start stop]"

definition UIDSet_IsEmpty :: "num_range list \<Rightarrow> bool" where
  "UIDSet_IsEmpty us \<longleftrightarrow> length us = 0"

subsection \<open>Ranges\<close>

lemma NumRange_sel [simp]: "Start (NumRange a b) = a" "Stop (NumRange a b) = b"
  by (simp_all add: NumRange_def)

lemma NumRange_eq_iff: "r = NumRange a b \<longleftrightarrow> Start r = a \<and> Stop r = b"
  by (cases r) (simp add: NumRange_def)

lemma NumRange_collapse [simp]: "NumRange (Start r) (Stop r) = r"
  by (cases r) (simp add: NumRange_def)

lemma NumRange_Contains_iff:
  "NumRange_Contains r n \<longleftrightarrow>
     (if Stop r = 0 then Start r \<le> n
      else min (Start r) (Stop r) \<le> n \<and> n \<le> max (Start r) (Stop r))"
  by (auto simp: NumRange_Contains_def min_def max_def Let_def split: if_splits)

lemma NumRange_Contains_single: "n \<noteq> 0 \<Longrightarrow> NumRange_Contains (NumRange n n) m \<longleftrightarrow> m = n"
  by (auto simp: NumRange_Contains_iff)

subsection \<open>The contract of a range set\<close>

locale range_set =
  fixes contains :: "'s \<Rightarrow> u32 \<Rightarrow> bool"
    and add_num :: "'s \<Rightarrow> u32 list \<Rightarrow> 's"
    and add_range :: "'s \<Rightarrow> u32 \<Rightarrow> u32 \<Rightarrow> 's"
    and empty :: 's
    and is_empty :: "'s \<Rightarrow> bool"
    and dynamic :: "'s \<Rightarrow> bool"
  assumes contains_empty: "\<not> contains empty n"
    and contains_add_num_Nil: "add_num s [] = s"
    and add_num_Cons: "add_num s (n # ns) = add_num (add_range s n n) ns"
    and contains_add_range:
      "contains (add_range s a b) n \<longleftrightarrow>
         contains s n \<or> (if b = 0 then a \<le> n else min a b \<le> n \<and> n \<le> max a b)"
    and dynamic_empty: "\<not> dynamic empty"
    and dynamic_add_range: "dynamic (add_range s a b) \<longleftrightarrow> dynamic s \<or> a = 0 \<or> b = 0"
    and is_empty_empty: "is_empty empty"
    and is_empty_add_range: "\<not> is_empty (add_range s a b)"
begin

text \<open>Adding numbers adds exactly these numbers, unless one of them is 0 (the asterisk).\<close>

lemma contains_add_num:
  "0 \<notin> set ns \<Longrightarrow> contains (add_num s ns) n \<longleftrightarrow> contains s n \<or> n \<in> set ns"
proof (induction ns arbitrary: s)
  case Nil
  then show ?case by (simp add: contains_add_num_Nil)
next
  case (Cons m ns)
  then have "contains (add_num (add_range s m m) ns) n \<longleftrightarrow>
      contains (add_range s m m) n \<or> n \<in> set ns"
    by simp
  moreover have "contains (add_range s m m) n \<longleftrightarrow> contains s n \<or> n = m"
    using Cons.prems by (auto simp: contains_add_range)
  ultimately show ?case by (auto simp: add_num_Cons)
qed

lemma contains_of_nums: "0 \<notin> set ns \<Longrightarrow> contains (add_num empty ns) n \<longleftrightarrow> n \<in> set ns"
  by (simp add: contains_add_num contains_empty)

lemma contains_add_num_zero:
  "0 \<in> set ns \<Longrightarrow> contains (add_num s ns) n"
proof (induction ns arbitrary: s)
  case Nil
  then show ?case by simp
next
  case (Cons m ns)
  have mono: "contains s' n \<Longrightarrow> contains (add_num s' ns) n" for s'
    by (induction ns arbitrary: s')
      (simp_all add: contains_add_num_Nil add_num_Cons contains_add_range)
  show ?case
  proof (cases "m = 0")
    case True
    then show ?thesis by (simp add: add_num_Cons mono contains_add_range)
  next
    case False
    with Cons show ?thesis by (simp add: add_num_Cons)
  qed
qed

lemma dynamic_add_num: "dynamic (add_num s ns) \<longleftrightarrow> dynamic s \<or> 0 \<in> set ns"
  by (induction ns arbitrary: s)
    (auto simp: contains_add_num_Nil add_num_Cons dynamic_add_range)

lemma is_empty_add_num: "ns \<noteq> [] \<Longrightarrow> \<not> is_empty (add_num s ns)"
proof (induction ns arbitrary: s)
  case (Cons m ns)
  then show ?case
    by (cases ns) (auto simp: add_num_Cons contains_add_num_Nil is_empty_add_range)
qed simp

end

interpretation seq: range_set
  SeqSet_Contains SeqSet_AddNum SeqSet_AddRange "[]" SeqSet_IsEmpty SeqSet_Dynamic
  by unfold_locales
    (auto simp: SeqSet_Contains_def SeqSet_AddNum_def SeqSet_AddRange_def SeqSet_IsEmpty_def
      SeqSet_Dynamic_def NumRange_Contains_iff)

interpretation uid: range_set
  UIDSet_Contains UIDSet_AddNum UIDSet_AddRange "[]" UIDSet_IsEmpty UIDSet_Dynamic
  by unfold_locales
    (auto simp: UIDSet_Contains_def UIDSet_AddNum_def UIDSet_AddRange_def UIDSet_IsEmpty_def
      UIDSet_Dynamic_def NumRange_Contains_iff)

subsection \<open>Text\<close>

lemma parseSeqNum_FormatUint [simp]:
  "parseSeqNum (FormatUint (unat w)) = (if w = 0 then Inl ZeroNumber else Inr w)"
proof -
  have "FormatUint (unat w) \<noteq> ''*''"
    using FormatUint_digits [of "unat w"] by (auto simp: is_digit_def)
  moreover have "unat w < 2 ^ 32"
    using unsigned_less [of w] by simp
  ultimately show ?thesis
    by (simp add: parseSeqNum_def ParseUint_FormatUint unat_eq_zero)
qed

lemma parseSeqNum_star [simp]: "parseSeqNum ''*'' = Inr 0"
  by (simp add: parseSeqNum_def)

lemma NumRange_String_chars:
  "c \<in> set (NumRange_String r) \<Longrightarrow> is_digit c \<or> c = CHR '':'' \<or> c = CHR ''*''"
  by (auto simp: NumRange_String_def Let_def split: if_splits dest: digit_in_FormatUint)

lemma NumRange_String_not_Nil [simp]: "NumRange_String r \<noteq> []"
  by (simp add: NumRange_String_def Let_def)

lemma NumRange_String_no_comma: "CHR '','' \<notin> set (NumRange_String r)"
  using NumRange_String_chars [of "CHR '',''" r] by (auto simp: is_digit_def)

lemma TrimSpace_NumRange_String [simp]: "TrimSpace (NumRange_String r) = NumRange_String r"
proof (rule TrimSpace_no_space)
  fix c assume "c \<in> set (NumRange_String r)"
  then show "\<not> is_space c"
    using NumRange_String_chars [of c r] by (auto simp: is_space_def is_digit_def)
qed

lemma FormatUint_no_colon: "CHR '':'' \<notin> set (FormatUint n)"
  using digit_in_FormatUint [of "CHR '':''" n] by (auto simp: is_digit_def)

text \<open>Parsing a printed range gives it back, unless it starts at 0, which prints as ``0''.\<close>

lemma parseRange_NumRange_String:
  "parseRange (NumRange_String r) = (if Start r = 0 then Inl ZeroNumber else Inr r)"
proof (cases "Start r = Stop r")
  case True
  then have s: "NumRange_String r = FormatUint (unat (Start r))"
    by (simp add: NumRange_String_def)
  then have "IndexByte (NumRange_String r) (CHR '':'') = None"
    by (simp add: IndexByte_None FormatUint_no_colon)
  with s True show ?thesis
    using TrimSpace_NumRange_String [of r]
    by (simp add: parseRange_def Let_def NumRange_def)
next
  case False
  define stop where "stop = (if Stop r = 0 then ''*'' else FormatUint (unat (Stop r)))"
  have s: "NumRange_String r = FormatUint (unat (Start r)) @ CHR '':'' # stop"
    using False by (simp add: NumRange_String_def stop_def)
  then have i: "IndexByte (NumRange_String r) (CHR '':'') = Some (length (FormatUint (unat (Start r))))"
    by (simp add: IndexByte_append FormatUint_no_colon)
  have stop: "parseSeqNum stop = Inr (Stop r)"
    by (simp add: stop_def)
  have "take (length (FormatUint (unat (Start r)))) (NumRange_String r) = FormatUint (unat (Start r))"
    "drop (Suc (length (FormatUint (unat (Start r))))) (NumRange_String r) = stop"
    by (simp_all add: s)
  with i stop show ?thesis
    by (simp add: parseRange_def Let_def)
qed

lemma parseRanges_map:
  "parseRanges (map NumRange_String rs) =
     (if \<exists>r \<in> set rs. Start r = 0 then Inl ZeroNumber else Inr rs)"
  by (induction rs) (auto simp: parseRange_NumRange_String)

lemma split_formatNumSet:
  "rs \<noteq> [] \<Longrightarrow> split_byte (CHR '','') (formatNumSet rs) = map NumRange_String rs"
  by (simp add: formatNumSet_def) (rule split_byte_join, auto simp: NumRange_String_no_comma)

lemma formatNumSet_eq_Nil [simp]: "formatNumSet rs = [] \<longleftrightarrow> rs = []"
proof
  assume a: "formatNumSet rs = []"
  show "rs = []"
  proof (rule ccontr)
    assume ne: "rs \<noteq> []"
    then have "join '','' (map NumRange_String rs) = []"
      using a by (simp add: formatNumSet_def)
    then have "NumRange_String (hd rs) = []"
      using ne join_eq_Nil [of "'',''" "map NumRange_String rs" "NumRange_String (hd rs)"]
      by simp
    then show False by simp
  qed
qed (simp add: formatNumSet_def)

lemma parseNumSet_formatNumSet:
  "parseNumSet (formatNumSet rs) =
     (if rs = [] then Inl EmptyNumberSet
      else if \<exists>r \<in> set rs. Start r = 0 then Inl ZeroNumber else Inr rs)"
  by (simp add: parseNumSet_def split_formatNumSet parseRanges_map)

lemma parseRanges_length: "parseRanges ps = Inr rs \<Longrightarrow> length rs = length ps"
  by (induction ps arbitrary: rs) (auto split: sum.splits)

lemma parseNumSet_not_Nil: "parseNumSet s = Inr rs \<Longrightarrow> rs \<noteq> []"
  by (auto simp: parseNumSet_def dest: parseRanges_length split: if_splits)

subsection \<open>Properties\<close>

text \<open>Printing a number set and parsing the text gives the set back exactly when the set is
  not empty and no range starts at the asterisk.\<close>

theorem numset_roundtrip:
  "parseNumSet (formatNumSet rs) = Inr rs \<longleftrightarrow> rs \<noteq> [] \<and> 0 \<notin> Start ` set rs"
  by (auto simp: parseNumSet_formatNumSet)

text \<open>A UID set built by adding nonzero numbers contains exactly these numbers, and it is
  the same set after it is printed and parsed again.\<close>

theorem uidset_of_nums:
  assumes "0 \<notin> set ns" and "ns \<noteq> []"
  shows "(UIDSet_Contains (UIDSet_AddNum [] ns) n \<longleftrightarrow> n \<in> set ns) \<and>
    ParseUIDSet (UIDSet_String (UIDSet_AddNum [] ns)) = Inr (UIDSet_AddNum [] ns)"
proof
  show "UIDSet_Contains (UIDSet_AddNum [] ns) n \<longleftrightarrow> n \<in> set ns"
    using assms(1) by (rule uid.contains_of_nums)
  have "UIDSet_AddNum s ns = s @ map (\<lambda>n. NumRange n n) ns" for s
    by (induction ns arbitrary: s) (simp_all add: UIDSet_AddNum_def)
  then show "ParseUIDSet (UIDSet_String (UIDSet_AddNum [] ns)) = Inr (UIDSet_AddNum [] ns)"
    using assms by (auto simp: ParseUIDSet_def UIDSet_String_def parseNumSet_formatNumSet)
qed

theorem uidset_of_nums_witness:
  "ParseUIDSet (UIDSet_String (UIDSet_AddNum [] [3, 5])) = Inr [NumRange 3 3, NumRange 5 5] \<and>
   UIDSet_Contains (UIDSet_AddNum [] [3, 5]) 5"
  using uidset_of_nums [of "[3, 5]" 5] by (simp add: UIDSet_AddNum_def)

text \<open>The asterisk alone is parsed, but printed as 0, which does not parse.\<close>

lemma star_prints_as_zero:
  "ParseSeqSet ''*'' = Inr [NumRange 0 0] \<and>
   SeqSet_String [NumRange 0 0] = ''0'' \<and> ParseSeqSet ''0'' = Inl ZeroNumber"
proof -
  have "ParseUint 32 ''0'' = Some 0"
    by (simp add: ParseUint_def is_digit_def num_value_def digit_val_def)
  moreover have "digit_char 0 = CHR ''0''" by code_simp
  ultimately show ?thesis
    by (simp add: ParseSeqSet_def SeqSet_String_def parseNumSet_def formatNumSet_def parseRange_def
        NumRange_String_def FormatUint_small parseSeqNum_def TrimSpace_def is_space_def)
qed

end
