(* ===== verification/Wire.thy ===== *)
theory Wire
  imports Prelude
begin

text \<open>
  The wire protocol (\<open>wire/decoder.go\<close>, \<open>wire/encoder.go\<close>,
  \<open>wire/literal.go\<close>).

  An encoder method is the bytes it appends to the output; a chain of calls is their
  concatenation. A decoder method takes the unread input and returns an error or a value
  together with the input left unread, also when it fails. The input of the model is finite
  and ends with \<open>io.EOF\<close>; the buffer of \<open>bufio.Reader\<close> is not part of the model.
  \<open>ReadList\<close> takes the reader of an element as an argument and may not return for an
  arbitrary one, so it is a \<open>partial_function\<close> whose result \<open>None\<close> means that it
  does not return.
\<close>

named_theorems wire_defs \<open>definitions of the encoder methods\<close>

subsection \<open>Character classes\<close>

definition isAtomChar :: "char \<Rightarrow> bool" where
  "isAtomChar b =
     (if ord b < 0x20 \<or> ord b > 0x7e then False
      else b \<notin> {CHR ''('', CHR '')'', CHR ''{'', CHR '' '', CHR ''%'', CHR ''*'', DQ, BSL, CHR '']''})"

definition IsAtomSpecial :: "char \<Rightarrow> bool" where
  "IsAtomSpecial b \<longleftrightarrow> \<not> isAtomChar b"

definition IsQuotedSpecial :: "char \<Rightarrow> bool" where
  "IsQuotedSpecial b \<longleftrightarrow> b = DQ \<or> b = BSL"

definition NeedsQuoting :: "string \<Rightarrow> bool" where
  "NeedsQuoting s = (if s = [] then True else list_ex (\<lambda>b. \<not> isAtomChar b) s)"

definition NeedsLiteral :: "string \<Rightarrow> bool" where
  "NeedsLiteral s = list_ex (\<lambda>b. b = CR \<or> b = LF \<or> ord b = 0 \<or> ord b > 0x7e) s"

subsection \<open>Encoder\<close>

definition enc_RawString :: "string \<Rightarrow> string" where [wire_defs]: "enc_RawString s = s"

definition enc_Atom :: "string \<Rightarrow> string" where [wire_defs]: "enc_Atom s = s"

definition enc_SP :: string where [wire_defs]: "enc_SP = [SP]"

definition enc_CRLF :: string where [wire_defs]: "enc_CRLF = [CR, LF]"

definition enc_QuotedString :: "string \<Rightarrow> string" where
  "enc_QuotedString s =
     [DQ] @ concat (map (\<lambda>b. if IsQuotedSpecial b then [BSL, b] else [b]) s) @ [DQ]"

definition enc_Literal :: "string \<Rightarrow> string" where
  "enc_Literal data = ''{'' @ FormatUint (length data) @ ''}'' @ [CR, LF] @ data"

definition enc_LiteralNonSync :: "string \<Rightarrow> string" where
  "enc_LiteralNonSync data = ''{'' @ FormatUint (length data) @ ''+}'' @ [CR, LF] @ data"

definition enc_BinaryLiteral :: "string \<Rightarrow> string" where
  "enc_BinaryLiteral data = ''~'' @ ''{'' @ FormatUint (length data) @ ''}'' @ [CR, LF] @ data"

text \<open>\<open>LiteralWriter\<close> writes the header; the caller writes the data. The size is a
  non-negative \<open>int64\<close>.\<close>

definition enc_LiteralWriter :: "nat \<Rightarrow> bool \<Rightarrow> string" where
  "enc_LiteralWriter sz nonSync =
     ''{'' @ FormatUint sz @ (if nonSync then ''+'' else []) @ ''}'' @ [CR, LF]"

definition enc_String :: "string \<Rightarrow> string" where
  "enc_String s =
     (if NeedsLiteral s then enc_Literal s
      else if NeedsQuoting s then enc_QuotedString s
      else enc_Atom s)"

definition enc_AString :: "string \<Rightarrow> string" where [wire_defs]: "enc_AString s = enc_String s"

definition enc_Nil :: string where [wire_defs]: "enc_Nil = ''NIL''"

definition enc_NString :: "string option \<Rightarrow> string" where
  "enc_NString s = (case s of None \<Rightarrow> enc_Nil | Some t \<Rightarrow> enc_String t)"

definition enc_Number :: "u32 \<Rightarrow> string" where
  [wire_defs]: "enc_Number n = FormatUint (unat n)"

definition enc_Number64 :: "64 word \<Rightarrow> string" where
  [wire_defs]: "enc_Number64 n = FormatUint (unat n)"

definition enc_BeginList :: string where [wire_defs]: "enc_BeginList = ''(''"

definition enc_EndList :: string where [wire_defs]: "enc_EndList = '')''"

text \<open>The loop of \<open>List\<close>: a space before every element but the first.\<close>

fun enc_items :: "('a \<Rightarrow> string) \<Rightarrow> 'a list \<Rightarrow> string" where
  "enc_items e [] = []"
| "enc_items e [x] = e x"
| "enc_items e (x # y # ys) = e x @ [SP] @ enc_items e (y # ys)"

definition enc_List :: "string list \<Rightarrow> string" where
  "enc_List items = ''('' @ enc_items enc_String items @ '')''"

definition enc_Flags :: "string list \<Rightarrow> string" where
  [wire_defs]: "enc_Flags flags = enc_List flags"

definition enc_Tag :: "string \<Rightarrow> string" where [wire_defs]: "enc_Tag tag = tag"

definition enc_Star :: string where [wire_defs]: "enc_Star = ''* ''"

definition enc_Plus :: string where [wire_defs]: "enc_Plus = ''+ ''"

definition enc_StatusResponse :: "string \<Rightarrow> string \<Rightarrow> string \<Rightarrow> string \<Rightarrow> string" where
  "enc_StatusResponse tag status code text =
     (if tag = [] \<or> tag = ''*'' then enc_Star else enc_Tag tag @ enc_SP) @
     enc_Atom status @
     (if code \<noteq> [] then '' ['' @ code @ '']'' else []) @
     (if text \<noteq> [] then enc_SP @ text else []) @
     enc_CRLF"

definition enc_BeginResponse :: "string \<Rightarrow> string" where
  [wire_defs]: "enc_BeginResponse name = enc_Star @ enc_Atom name @ enc_SP"

definition enc_NumResponse :: "u32 \<Rightarrow> string \<Rightarrow> string" where
  [wire_defs]: "enc_NumResponse num name =
     enc_Star @ enc_Number num @ enc_SP @ enc_Atom name @ enc_CRLF"

definition enc_ContinuationRequest :: "string \<Rightarrow> string" where
  "enc_ContinuationRequest text = enc_Plus @ (if text \<noteq> [] then text else []) @ enc_CRLF"

definition enc_MailboxName :: "string \<Rightarrow> string" where
  "enc_MailboxName name = (if EqualFold name ''INBOX'' then enc_Atom ''INBOX'' else enc_AString name)"

text \<open>\<open>ResponseCode\<close> with its arguments already printed by \<open>fmt.Fprint\<close>.\<close>

definition enc_ResponseCode :: "string \<Rightarrow> string list \<Rightarrow> string" where
  "enc_ResponseCode code args = ''['' @ code @ concat (map (\<lambda>a. '' '' @ a) args) @ ''] ''"

subsection \<open>Decoder\<close>

datatype wire_error =
    EOF
  | UnexpectedEOF
  | ExpectedAtom
  | ExpectedByte char char
  | ExpectedQuote char
  | ExpectedBrace char
  | BadLiteralChar char
  | BadLiteralSize string
  | LiteralCRLF wire_error
  | BadNumber string
  | ExpectedSP char
  | ExpectedCRLF char char
  | CallbackError string

type_synonym 'a reply = "(wire_error + 'a) \<times> string"
type_synonym 'a decoder = "string \<Rightarrow> 'a reply"

record literal_info =
  Size :: nat
  NonSync :: bool
  Binary :: bool

definition dbind :: "'a reply \<Rightarrow> ('a \<Rightarrow> string \<Rightarrow> 'b reply) \<Rightarrow> 'b reply" where
  "dbind r f = (case r of (Inl e, rest) \<Rightarrow> (Inl e, rest) | (Inr x, rest) \<Rightarrow> f x rest)"

definition ReadByte :: "char decoder" where
  "ReadByte inp = (case inp of [] \<Rightarrow> (Inl EOF, []) | b # bs \<Rightarrow> (Inr b, bs))"

definition PeekByte :: "char decoder" where
  "PeekByte inp = (case inp of [] \<Rightarrow> (Inl EOF, []) | b # bs \<Rightarrow> (Inr b, inp))"

definition ReadLine :: "string decoder" where
  "ReadLine inp =
     (if inp = [] then (Inl EOF, [])
      else let line = takeWhile (\<lambda>c. c \<noteq> LF) inp; rest = dropWhile (\<lambda>c. c \<noteq> LF) inp
           in if rest = [] then (Inr line, [])
              else (Inr (if line \<noteq> [] \<and> last line = CR then butlast line else line), tl rest))"

definition ReadAtom :: "string decoder" where
  "ReadAtom inp =
     (let buf = takeWhile isAtomChar inp; rest = dropWhile isAtomChar inp
      in if rest = [] then (if buf \<noteq> [] then (Inr buf, []) else (Inl EOF, []))
         else if buf = [] then (Inl ExpectedAtom, rest)
         else (Inr buf, rest))"

fun quoted_loop :: "string \<Rightarrow> string decoder" where
  "quoted_loop buf [] = (Inl EOF, [])"
| "quoted_loop buf (ch # inp) =
     (if ch = DQ then (Inr buf, inp)
      else if ch = BSL
      then (case inp of
              [] \<Rightarrow> (Inl EOF, [])
            | escaped # inp' \<Rightarrow> quoted_loop (buf @ [escaped]) inp')
      else quoted_loop (buf @ [ch]) inp)"

definition ReadQuotedString :: "string decoder" where
  "ReadQuotedString inp =
     dbind (ReadByte inp) (\<lambda>b inp1.
       if b \<noteq> DQ then (Inl (ExpectedQuote b), inp1) else quoted_loop [] inp1)"

definition ReadSP :: "unit decoder" where
  "ReadSP inp =
     dbind (ReadByte inp) (\<lambda>b inp1. if b \<noteq> SP then (Inl (ExpectedSP b), inp1) else (Inr (), inp1))"

definition ReadCRLF :: "unit decoder" where
  "ReadCRLF inp =
     dbind (ReadByte inp) (\<lambda>b1 inp1.
     dbind (ReadByte inp1) (\<lambda>b2 inp2.
       if b1 \<noteq> CR \<or> b2 \<noteq> LF then (Inl (ExpectedCRLF b1 b2), inp2) else (Inr (), inp2)))"

definition ExpectByte :: "char \<Rightarrow> unit decoder" where
  "ExpectByte expected inp =
     dbind (ReadByte inp) (\<lambda>b inp1.
       if b \<noteq> expected then (Inl (ExpectedByte expected b), inp1) else (Inr (), inp1))"

text \<open>The digits between the braces of a literal header, with the plus sign noted.\<close>

fun literal_digits :: "string \<Rightarrow> bool \<Rightarrow> (string \<times> bool) decoder" where
  "literal_digits num nonSync [] = (Inl EOF, [])"
| "literal_digits num nonSync (ch # inp) =
     (if ch = CHR ''+'' then literal_digits num True inp
      else if ch = CHR ''}'' then (Inr (num, nonSync), inp)
      else if is_digit ch then literal_digits (num @ [ch]) nonSync inp
      else (Inl (BadLiteralChar ch), inp))"

definition ReadLiteralInfo :: "literal_info decoder" where
  "ReadLiteralInfo inp =
     dbind (ReadByte inp) (\<lambda>b inp1.
       let binary = (b = CHR ''~'') in
       dbind (if binary then ReadByte inp1 else (Inr b, inp1)) (\<lambda>b inp2.
         if b \<noteq> CHR ''{'' then (Inl (ExpectedBrace b), inp2)
         else dbind (literal_digits [] False inp2) (\<lambda>(numStr, nonSync) inp3.
           case ParseInt64 numStr of
             None \<Rightarrow> (Inl (BadLiteralSize numStr), inp3)
           | Some sz \<Rightarrow>
               (case ReadCRLF inp3 of
                  (Inl e, inp4) \<Rightarrow> (Inl (LiteralCRLF e), inp4)
                | (Inr _, inp4) \<Rightarrow>
                    (Inr \<lparr>Size = nat sz, NonSync = nonSync, Binary = binary\<rparr>, inp4)))))"

text \<open>\<open>io.ReadFull\<close> on a buffer of the given size. The buffer is made before anything is read; the model
  has memory for every size, while \<open>make\<close> panics on a size that no slice can have.\<close>

definition ReadFull :: "nat \<Rightarrow> string decoder" where
  "ReadFull sz inp =
     (if sz \<le> length inp then (Inr (take sz inp), drop sz inp)
      else if inp = [] then (Inl EOF, [])
      else (Inl UnexpectedEOF, []))"

definition ReadString :: "string decoder" where
  "ReadString inp =
     dbind (PeekByte inp) (\<lambda>b inp1.
       if b = DQ then ReadQuotedString inp1
       else if b = CHR ''{'' \<or> b = CHR ''~''
       then dbind (ReadLiteralInfo inp1) (\<lambda>info inp2. ReadFull (Size info) inp2)
       else ReadAtom inp1)"

definition ReadAString :: "string decoder" where
  "ReadAString inp = ReadString inp"

text \<open>\<open>NIL\<close> is \<open>None\<close>, a string is \<open>Some\<close>.\<close>

definition ReadNString :: "string option decoder" where
  "ReadNString inp =
     (if inp = [] then (Inl EOF, [])
      else if length (take 3 inp) \<ge> 3 \<and> EqualFold (take 3 inp) ''NIL'' \<and>
              (length inp < 4 \<or> \<not> isAtomChar (inp ! 3))
      then (Inr None, drop 3 inp)
      else dbind (ReadString inp) (\<lambda>s rest. (Inr (Some s), rest)))"

definition ReadNumber :: "u32 decoder" where
  "ReadNumber inp =
     dbind (ReadAtom inp) (\<lambda>atom rest.
       case ParseUint 32 atom of
         None \<Rightarrow> (Inl (BadNumber atom), rest)
       | Some n \<Rightarrow> (Inr (of_nat n), rest))"

definition ReadNumber64 :: "64 word decoder" where
  "ReadNumber64 inp =
     dbind (ReadAtom inp) (\<lambda>atom rest.
       case ParseUint 64 atom of
         None \<Rightarrow> (Inl (BadNumber atom), rest)
       | Some n \<Rightarrow> (Inr (of_nat n), rest))"

text \<open>
  The loop of \<open>ReadList\<close>. The callback reads one element and updates the state it
  closes over; \<open>first\<close> is the loop variable of the same name.
\<close>

partial_function (option) list_loop ::
  "('s \<Rightarrow> string \<Rightarrow> 's reply option) \<Rightarrow> bool \<Rightarrow> 's \<Rightarrow> string \<Rightarrow> 's reply option" where
  "list_loop fn first s inp =
     (case PeekByte inp of
        (Inl e, inp1) \<Rightarrow> Some (Inl e, inp1)
      | (Inr b, inp1) \<Rightarrow>
          if b = CHR '')'' then Some (Inr s, tl inp1)
          else (case (if first then (Inr (), inp1) else ReadSP inp1) of
                  (Inl e, inp2) \<Rightarrow> Some (Inl e, inp2)
                | (Inr _, inp2) \<Rightarrow>
                    Option.bind (fn s inp2) (\<lambda>r.
                      case r of
                        (Inl e, inp3) \<Rightarrow> Some (Inl e, inp3)
                      | (Inr s', inp3) \<Rightarrow> list_loop fn False s' inp3)))"

definition ReadList :: "('s \<Rightarrow> string \<Rightarrow> 's reply option) \<Rightarrow> 's \<Rightarrow> string \<Rightarrow> 's reply option" where
  "ReadList fn s inp =
     (case ExpectByte (CHR ''('') inp of
        (Inl e, inp1) \<Rightarrow> Some (Inl e, inp1)
      | (Inr _, inp1) \<Rightarrow> list_loop fn True s inp1)"

text \<open>A callback that appends one element, as the closures of the callers do.\<close>

definition collect :: "'a decoder \<Rightarrow> 'a list \<Rightarrow> string \<Rightarrow> 'a list reply option" where
  "collect rd xs inp = Some (dbind (rd inp) (\<lambda>x rest. (Inr (xs @ [x]), rest)))"

definition ReadFlags :: "string \<Rightarrow> string list reply option" where
  "ReadFlags inp = ReadList (collect ReadAtom) [] inp"

definition DiscardLine :: "unit decoder" where
  "DiscardLine inp =
     (if LF \<in> set inp then (Inr (), tl (dropWhile (\<lambda>c. c \<noteq> LF) inp)) else (Inl EOF, []))"

definition DiscardN :: "nat \<Rightarrow> unit decoder" where
  "DiscardN n inp = (if n \<le> length inp then (Inr (), drop n inp) else (Inl EOF, []))"

subsection \<open>Decoders only consume\<close>

text \<open>
  What a decoder leaves unread is a suffix of what it was given, also when it fails.
  \<open>keeps_suffix\<close> is closed under sequencing.
\<close>

definition keeps_suffix :: "'a decoder \<Rightarrow> bool" where
  "keeps_suffix d \<longleftrightarrow> (\<forall>inp. suffix (snd (d inp)) inp)"

lemma keeps_suffixD: "keeps_suffix d \<Longrightarrow> d inp = (r, rest) \<Longrightarrow> suffix rest inp"
  unfolding keeps_suffix_def by (metis snd_conv)

lemma keeps_suffix_length: "keeps_suffix d \<Longrightarrow> d inp = (r, rest) \<Longrightarrow> length rest \<le> length inp"
  by (blast dest: keeps_suffixD suffix_length_le)

lemma keeps_suffix_dbind:
  assumes "keeps_suffix d" and "\<And>x. keeps_suffix (f x)"
  shows "keeps_suffix (\<lambda>inp. dbind (d inp) f)"
  unfolding keeps_suffix_def
proof
  fix inp
  obtain r rest where d: "d inp = (r, rest)" by (cases "d inp")
  with assms(1) have "suffix rest inp" by (rule keeps_suffixD)
  moreover have "suffix (snd (f x rest)) rest" for x
    using assms(2) [of x] by (simp add: keeps_suffix_def)
  ultimately show "suffix (snd (dbind (d inp) f)) inp"
    by (cases r) (auto simp: d dbind_def intro: suffix_order.order_trans)
qed

lemma keeps_suffix_return [simp]: "keeps_suffix (\<lambda>inp. (r, inp))"
  by (simp add: keeps_suffix_def)

lemma keeps_suffix_if:
  "keeps_suffix d \<Longrightarrow> keeps_suffix e \<Longrightarrow> keeps_suffix (\<lambda>inp. if b then d inp else e inp)"
  by (simp add: keeps_suffix_def)

lemma keeps_suffix_ReadByte: "keeps_suffix ReadByte"
  by (auto simp: keeps_suffix_def ReadByte_def suffix_ConsI split: list.splits)

lemma keeps_suffix_PeekByte: "keeps_suffix PeekByte"
  by (auto simp: keeps_suffix_def PeekByte_def split: list.splits)

lemma keeps_suffix_ReadAtom: "keeps_suffix ReadAtom"
  unfolding keeps_suffix_def
proof
  fix inp
  show "suffix (snd (ReadAtom inp)) inp"
    using suffix_dropWhile [of isAtomChar inp] by (simp add: ReadAtom_def Let_def)
qed

lemma suffix_quoted_loop: "suffix (snd (quoted_loop buf inp)) inp"
proof (induction buf inp rule: quoted_loop.induct)
  case (2 buf ch inp)
  then show ?case
    by (cases inp) (simp_all add: suffix_ConsI)
qed simp

lemma suffix_literal_digits: "suffix (snd (literal_digits num ns inp)) inp"
  by (induction num ns inp rule: literal_digits.induct) (auto intro: suffix_ConsI)

lemma keeps_suffix_ReadQuotedString: "keeps_suffix ReadQuotedString"
  unfolding ReadQuotedString_def
  by (intro keeps_suffix_dbind keeps_suffix_ReadByte keeps_suffix_if keeps_suffix_return)
    (simp add: keeps_suffix_def suffix_quoted_loop)

lemma keeps_suffix_ReadSP: "keeps_suffix ReadSP"
  unfolding ReadSP_def
  by (intro keeps_suffix_dbind keeps_suffix_ReadByte keeps_suffix_if keeps_suffix_return)

lemma keeps_suffix_ReadCRLF: "keeps_suffix ReadCRLF"
  unfolding ReadCRLF_def
  by (intro keeps_suffix_dbind keeps_suffix_ReadByte keeps_suffix_if keeps_suffix_return)

lemma keeps_suffix_ExpectByte: "keeps_suffix (ExpectByte b)"
  unfolding ExpectByte_def
  by (intro keeps_suffix_dbind keeps_suffix_ReadByte keeps_suffix_if keeps_suffix_return)

lemma keeps_suffix_ReadFull: "keeps_suffix (ReadFull n)"
  by (simp add: keeps_suffix_def ReadFull_def suffix_drop)

lemma keeps_suffix_literal_tail:
  "keeps_suffix (\<lambda>inp. case ParseInt64 s of
      None \<Rightarrow> (Inl e, inp)
    | Some sz \<Rightarrow> (case ReadCRLF inp of
          (Inl e, inp4) \<Rightarrow> (Inl (LiteralCRLF e), inp4)
        | (Inr _, inp4) \<Rightarrow> (Inr (f sz), inp4)))"
  unfolding keeps_suffix_def
proof
  fix inp
  obtain r rest where "ReadCRLF inp = (r, rest)" by (cases "ReadCRLF inp")
  moreover from this have "suffix rest inp" by (rule keeps_suffixD [OF keeps_suffix_ReadCRLF])
  ultimately show "suffix (snd (case ParseInt64 s of
      None \<Rightarrow> (Inl e, inp)
    | Some sz \<Rightarrow> (case ReadCRLF inp of
          (Inl e, inp4) \<Rightarrow> (Inl (LiteralCRLF e), inp4)
        | (Inr _, inp4) \<Rightarrow> (Inr (f sz), inp4)))) inp"
    by (auto split: option.splits sum.splits)
qed

lemma keeps_suffix_ReadLiteralInfo: "keeps_suffix ReadLiteralInfo"
proof -
  have digits: "keeps_suffix (literal_digits [] False)"
    by (simp add: keeps_suffix_def suffix_literal_digits)
  show ?thesis
    unfolding ReadLiteralInfo_def Let_def
    by (intro keeps_suffix_dbind keeps_suffix_ReadByte keeps_suffix_if keeps_suffix_return digits)
      (simp only: keeps_suffix_literal_tail split: prod.split, simp)
qed

lemma keeps_suffix_ReadString: "keeps_suffix ReadString"
  unfolding ReadString_def
  by (intro keeps_suffix_dbind keeps_suffix_PeekByte keeps_suffix_if keeps_suffix_ReadQuotedString
      keeps_suffix_ReadLiteralInfo keeps_suffix_ReadFull keeps_suffix_ReadAtom)

lemma keeps_suffix_ReadAString: "keeps_suffix ReadAString"
  using keeps_suffix_ReadString by (simp add: keeps_suffix_def ReadAString_def)

subsection \<open>ReadList returns\<close>

text \<open>
  A callback that always returns and only consumes makes \<open>ReadList\<close> return: every round
  but the first one reads a space first, so the input shrinks. It is enough that the callback
  returns on the inputs that satisfy a predicate which passes on to every suffix.
\<close>

definition suffix_closed :: "(string \<Rightarrow> bool) \<Rightarrow> bool" where
  "suffix_closed P \<longleftrightarrow> (\<forall>inp rest. P inp \<longrightarrow> suffix rest inp \<longrightarrow> P rest)"

definition returns_on :: "(string \<Rightarrow> bool) \<Rightarrow> ('s \<Rightarrow> string \<Rightarrow> 's reply option) \<Rightarrow> bool" where
  "returns_on P fn \<longleftrightarrow> (\<forall>s inp. P inp \<longrightarrow> (\<exists>r rest. fn s inp = Some (r, rest) \<and> suffix rest inp))"

abbreviation returns :: "('s \<Rightarrow> string \<Rightarrow> 's reply option) \<Rightarrow> bool" where
  "returns \<equiv> returns_on (\<lambda>_. True)"

lemma returnsE:
  assumes "returns_on P fn" "P inp"
  obtains r rest where "fn s inp = Some (r, rest)" and "suffix rest inp"
  using assms unfolding returns_on_def by blast

lemma suffix_closedD: "suffix_closed P \<Longrightarrow> P inp \<Longrightarrow> suffix rest inp \<Longrightarrow> P rest"
  unfolding suffix_closed_def by blast

lemma suffix_closed_True: "suffix_closed (\<lambda>_. True)"
  by (simp add: suffix_closed_def)

lemma ReadSP_Inr: "ReadSP inp = (Inr u, rest) \<longleftrightarrow> inp = SP # rest"
  by (cases inp) (auto simp: ReadSP_def dbind_def ReadByte_def)

lemma PeekByte_Inr: "PeekByte inp = (Inr b, rest) \<longleftrightarrow> rest = inp \<and> inp \<noteq> [] \<and> b = hd inp"
  by (cases inp) (auto simp: PeekByte_def)

lemma list_loop_returns:
  assumes "returns_on P fn" "suffix_closed P"
  shows "P inp \<Longrightarrow> \<exists>r rest. list_loop fn False s inp = Some (r, rest) \<and> suffix rest inp"
proof (induction "length inp" arbitrary: s inp rule: less_induct)
  case less
  show ?case
  proof (cases inp)
    case Nil
    then show ?thesis by (subst list_loop.simps) (simp add: PeekByte_def)
  next
    case (Cons b bs)
    show ?thesis
    proof (cases "b \<noteq> CHR '')'' \<and> b = SP")
      case False
      then show ?thesis
        using Cons
        by (subst list_loop.simps)
          (auto simp: PeekByte_def ReadSP_def dbind_def ReadByte_def intro: suffix_ConsI)
    next
      case True
      have "P bs" using suffix_closedD [OF assms(2) less.prems] Cons by (simp add: suffix_ConsI)
      with assms(1) obtain r rest where fn: "fn s bs = Some (r, rest)" and suf: "suffix rest bs"
        by (rule returnsE)
      have step: "list_loop fn False s inp =
          (case r of Inl e \<Rightarrow> Some (Inl e, rest) | Inr s' \<Rightarrow> list_loop fn False s' rest)"
        using Cons True fn
        by (subst list_loop.simps) (auto simp: PeekByte_def ReadSP_def dbind_def ReadByte_def
            split: sum.splits)
      have len: "length rest < length inp"
        using Cons suf suffix_length_le by fastforce
      have suf': "suffix rest inp"
        using Cons suf by (simp add: suffix_ConsI)
      show ?thesis
      proof (cases r)
        case (Inl e)
        then show ?thesis using step suf' by simp
      next
        case (Inr s')
        from less.hyps [OF len suffix_closedD [OF assms(2) less.prems suf'], of s'] obtain r2 rest2
          where "list_loop fn False s' rest = Some (r2, rest2)" "suffix rest2 rest" by blast
        then show ?thesis
          using step Inr suf' suffix_order.order_trans by fastforce
      qed
    qed
  qed
qed

lemma list_loop_first_returns:
  assumes "returns_on P fn" "suffix_closed P" "P inp"
  shows "\<exists>r rest. list_loop fn True s inp = Some (r, rest) \<and> suffix rest inp"
proof (cases "inp = [] \<or> hd inp = CHR '')''")
  case True
  then show ?thesis
    by (subst list_loop.simps) (auto simp: PeekByte_def split: list.splits intro: suffix_ConsI)
next
  case False
  obtain r rest where fn: "fn s inp = Some (r, rest)" and suf: "suffix rest inp"
    using assms(1,3) by (rule returnsE)
  have step: "list_loop fn True s inp =
      (case r of Inl e \<Rightarrow> Some (Inl e, rest) | Inr s' \<Rightarrow> list_loop fn False s' rest)"
    using False fn by (subst list_loop.simps) (auto simp: PeekByte_def split: sum.splits list.splits)
  show ?thesis
  proof (cases r)
    case (Inr s')
    from list_loop_returns [OF assms(1,2) suffix_closedD [OF assms(2,3) suf], of s'] show ?thesis
      using step Inr suf suffix_order.order_trans by fastforce
  qed (use step suf in simp)
qed

lemma ReadList_returns:
  assumes "returns_on P fn" "suffix_closed P" "P inp"
  shows "\<exists>r rest. ReadList fn s inp = Some (r, rest) \<and> suffix rest inp"
proof -
  obtain r inp1 where e: "ExpectByte (CHR ''('') inp = (r, inp1)"
    by (cases "ExpectByte (CHR ''('') inp")
  then have suf: "suffix inp1 inp"
    by (rule keeps_suffixD [OF keeps_suffix_ExpectByte])
  show ?thesis
    using list_loop_first_returns [OF assms(1,2) suffix_closedD [OF assms(2,3) suf], of s] suf e suffix_order.order_trans
    by (cases r) (fastforce simp: ReadList_def)+
qed

lemma returns_collect: "keeps_suffix rd \<Longrightarrow> returns (collect rd)"
proof -
  assume rd: "keeps_suffix rd"
  have "keeps_suffix (\<lambda>inp. dbind (rd inp) (\<lambda>x rest. (Inr (xs @ [x]), rest)))" for xs
    by (intro keeps_suffix_dbind rd keeps_suffix_return)
  then show ?thesis
    unfolding returns_on_def collect_def keeps_suffix_def by (metis prod.collapse)
qed

end
