(* ===== verification/WireCodec.thy ===== *)
theory WireCodec
  imports Wire
begin

text \<open>
  What the encoder writes, the decoder reads back. The locale \<open>item_codec\<close> is the
  contract of one kind of element (a writer, a reader, the values it carries, the input that
  may follow); its lemmas give the round trip of a parenthesized list of such elements. The
  interpretations are the strings, the numbers and the atoms of \<open>wire\<close>.
\<close>

subsection \<open>Reading what follows\<close>

text \<open>An atom ends at the end of the input or before a character that is not an atom character.\<close>

definition stops :: "string \<Rightarrow> bool" where
  "stops rest \<longleftrightarrow> rest = [] \<or> \<not> isAtomChar (hd rest)"

lemma stops_Nil [simp]: "stops []"
  by (simp add: stops_def)

lemma not_atom_char [simp]:
  "\<not> isAtomChar (CHR '' '')" "\<not> isAtomChar (CHR '')'')" "\<not> isAtomChar (CHR ''('')"
  "\<not> isAtomChar DQ" "\<not> isAtomChar BSL" "\<not> isAtomChar CR" "\<not> isAtomChar LF"
  "\<not> isAtomChar (CHR ''{'')" "\<not> isAtomChar (CHR '']'')" "\<not> isAtomChar (CHR ''*'')"
  "\<not> isAtomChar (CHR ''%'')"
  by (simp_all add: isAtomChar_def)

lemma stops_delim [simp]: "stops (SP # r)" "stops (CHR '')'' # r)" "stops (CR # r)"
  by (simp_all add: stops_def)

lemma is_digit_atom_char: "is_digit c \<Longrightarrow> isAtomChar c"
  by (auto simp: is_digit_def isAtomChar_def)

lemma ReadAtom_append:
  assumes "a \<noteq> []" and "list_all isAtomChar a" and "stops rest"
  shows "ReadAtom (a @ rest) = (Inr a, rest)"
proof -
  have "takeWhile isAtomChar (a @ rest) = a" "dropWhile isAtomChar (a @ rest) = rest"
    using assms by (cases rest; simp add: stops_def list_all_iff)+
  with assms(1) show ?thesis by (simp add: ReadAtom_def)
qed

lemma quoted_loop_body:
  "quoted_loop buf (concat (map (\<lambda>b. if IsQuotedSpecial b then [BSL, b] else [b]) s) @ DQ # rest) =
     (Inr (buf @ s), rest)"
  by (induction s arbitrary: buf) (auto simp: IsQuotedSpecial_def)

lemma ReadQuotedString_enc [simp]:
  "ReadQuotedString (enc_QuotedString s @ rest) = (Inr s, rest)"
  using quoted_loop_body [of "[]" s rest]
  by (simp add: ReadQuotedString_def enc_QuotedString_def dbind_def ReadByte_def)

lemma literal_digits_append:
  "list_all is_digit ds \<Longrightarrow> literal_digits num ns (ds @ rest) = literal_digits (num @ ds) ns rest"
proof (induction ds arbitrary: num)
  case (Cons d ds)
  then have "d \<noteq> CHR ''+''" "d \<noteq> CHR ''}''"
    by (auto simp: is_digit_def)
  with Cons show ?case by simp
qed simp

lemma ReadCRLF_append [simp]: "ReadCRLF (CR # LF # rest) = (Inr (), rest)"
  by (simp add: ReadCRLF_def dbind_def ReadByte_def)

lemma ReadLiteralInfo_enc:
  assumes "n < 2 ^ 63"
  shows "ReadLiteralInfo
      ((if bin then ''~'' else []) @ ''{'' @ FormatUint n @ (if ns then ''+'' else []) @ ''}'' @
       [CR, LF] @ rest) =
    (Inr \<lparr>Size = n, NonSync = ns, Binary = bin\<rparr>, rest)"
proof -
  have "literal_digits [] False (FormatUint n @ (if ns then ''+'' else []) @ ''}'' @ [CR, LF] @ rest) =
      (Inr (FormatUint n, ns), CR # LF # rest)"
    by (simp add: literal_digits_append FormatUint_digits)
  then show ?thesis
    using assms by (simp add: ReadLiteralInfo_def dbind_def ReadByte_def ParseInt64_FormatUint)
qed

lemma ReadFull_append [simp]: "ReadFull (length s) (s @ rest) = (Inr s, rest)"
  by (simp add: ReadFull_def)

lemma ReadString_Literal:
  assumes "length s < 2 ^ 63"
  shows "ReadString (enc_Literal s @ rest) = (Inr s, rest)"
  using ReadLiteralInfo_enc [OF assms, of False False "s @ rest"]
  by (simp add: ReadString_def enc_Literal_def dbind_def PeekByte_def)

lemma enc_QuotedString_Cons: "\<exists>t. enc_QuotedString s = DQ # t"
  by (simp add: enc_QuotedString_def)

lemma ReadString_Quoted: "ReadString (enc_QuotedString s @ rest) = (Inr s, rest)"
proof -
  obtain t where t: "enc_QuotedString s = DQ # t" using enc_QuotedString_Cons by blast
  show ?thesis
    using ReadQuotedString_enc [of s rest] by (simp add: t ReadString_def dbind_def PeekByte_def)
qed

lemma ReadString_Atom:
  assumes "a \<noteq> []" and "list_all isAtomChar a" and "hd a \<noteq> CHR ''~''" and "stops rest"
  shows "ReadString (a @ rest) = (Inr a, rest)"
proof -
  obtain c cs where a: "a = c # cs" using assms(1) by (cases a) auto
  have "c \<noteq> DQ" "c \<noteq> CHR ''{''"
    using assms(2) a by auto
  with assms a ReadAtom_append [of a rest] show ?thesis
    by (simp add: ReadString_def dbind_def PeekByte_def)
qed

lemma not_NeedsQuoting: "\<not> NeedsQuoting s \<Longrightarrow> s \<noteq> [] \<and> list_all isAtomChar s"
  by (auto simp: NeedsQuoting_def list_all_iff list_ex_iff split: if_splits)

text \<open>
  A string that the encoder sends as an atom and that begins with a tilde is taken for a binary
  literal by the decoder; every other string is read back.
\<close>

definition readable :: "string \<Rightarrow> bool" where
  "readable s \<longleftrightarrow>
     length s < 2 ^ 63 \<and> \<not> (s \<noteq> [] \<and> hd s = CHR ''~'' \<and> list_all isAtomChar s)"

lemma ReadString_enc_String:
  assumes "readable s" and "stops rest"
  shows "ReadString (enc_String s @ rest) = (Inr s, rest)"
proof -
  have len: "length s < 2 ^ 63" using assms(1) by (simp add: readable_def)
  consider "NeedsLiteral s" | "\<not> NeedsLiteral s" "NeedsQuoting s"
    | "\<not> NeedsLiteral s" "\<not> NeedsQuoting s" by blast
  then show ?thesis
  proof cases
    case 1
    with len show ?thesis by (simp add: enc_String_def ReadString_Literal)
  next
    case 2
    then show ?thesis by (simp add: enc_String_def ReadString_Quoted)
  next
    case 3
    then have "s \<noteq> []" "list_all isAtomChar s" by (simp_all add: not_NeedsQuoting)
    moreover from this have "hd s \<noteq> CHR ''~''" using assms(1) by (auto simp: readable_def)
    ultimately show ?thesis
      using 3 assms(2) by (simp add: enc_String_def enc_Atom_def ReadString_Atom)
  qed
qed

lemma ReadString_tilde_atom:
  assumes "list_all isAtomChar (CHR ''~'' # s)" and "rest = [] \<or> hd rest \<in> {SP, CHR '')'', CR}"
  shows "fst (ReadString (enc_String (CHR ''~'' # s) @ rest)) \<noteq> Inr (CHR ''~'' # s)"
proof -
  have "\<not> NeedsLiteral (CHR ''~'' # s)"
    using assms(1) by (fastforce simp: NeedsLiteral_def list_all_iff list_ex_iff isAtomChar_def)
  moreover have "\<not> NeedsQuoting (CHR ''~'' # s)"
    using assms(1) by (auto simp: NeedsQuoting_def list_all_iff list_ex_iff)
  ultimately have e: "enc_String (CHR ''~'' # s) = CHR ''~'' # s"
    by (simp add: enc_String_def enc_Atom_def)
  have "\<exists>er rest'. ReadLiteralInfo (CHR ''~'' # s @ rest) = (Inl er, rest')"
    using assms by (cases s; cases rest) (auto simp: ReadLiteralInfo_def dbind_def ReadByte_def)
  then show ?thesis
    by (auto simp: e ReadString_def dbind_def PeekByte_def)
qed

subsection \<open>Lists of elements\<close>

locale item_codec =
  fixes enc :: "'a \<Rightarrow> string"
    and dec :: "'a decoder"
    and ok :: "'a \<Rightarrow> bool"
    and follow :: "string \<Rightarrow> bool"
  assumes dec_enc: "ok x \<Longrightarrow> follow rest \<Longrightarrow> dec (enc x @ rest) = (Inr x, rest)"
    and enc_not_Nil: "ok x \<Longrightarrow> enc x \<noteq> []"
    and enc_hd: "ok x \<Longrightarrow> hd (enc x) \<noteq> CHR '')''"
    and follow_SP: "follow (SP # rest)"
    and follow_close: "follow (CHR '')'' # rest)"
begin

lemma list_loop_first:
  assumes "ok x" and "follow rest"
  shows "list_loop (collect dec) True acc (enc x @ rest) =
    list_loop (collect dec) False (acc @ [x]) rest"
proof -
  obtain c cs where e: "enc x = c # cs" and c: "c \<noteq> CHR '')''"
    using enc_not_Nil [OF assms(1)] enc_hd [OF assms(1)] by (cases "enc x") auto
  show ?thesis
    using dec_enc [OF assms] c
    by (subst list_loop.simps) (simp add: e PeekByte_def collect_def dbind_def)
qed

lemma list_loop_next:
  assumes "ok x" and "follow rest"
  shows "list_loop (collect dec) False acc (SP # enc x @ rest) =
    list_loop (collect dec) False (acc @ [x]) rest"
  using dec_enc [OF assms]
  by (subst list_loop.simps)
    (simp add: PeekByte_def ReadSP_def ReadByte_def collect_def dbind_def)

lemma list_loop_close [simp]:
  "list_loop (collect dec) first acc (CHR '')'' # rest) = Some (Inr acc, rest)"
  by (subst list_loop.simps) (simp add: PeekByte_def)

lemma enc_items_Cons:
  "enc_items enc (x # xs) = enc x @ (if xs = [] then [] else SP # enc_items enc xs)"
  by (cases xs) simp_all

lemma list_loop_tail:
  "list_all ok xs \<Longrightarrow>
   list_loop (collect dec) False acc ((if xs = [] then [] else SP # enc_items enc xs) @ CHR '')'' # rest) =
     Some (Inr (acc @ xs), rest)"
proof (induction xs arbitrary: acc)
  case (Cons x xs)
  let ?tail = "(if xs = [] then [] else SP # enc_items enc xs) @ CHR '')'' # rest"
  have "follow ?tail" by (cases xs) (simp_all add: follow_SP follow_close)
  then have "list_loop (collect dec) False acc (SP # enc x @ ?tail) =
      list_loop (collect dec) False (acc @ [x]) ?tail"
    using Cons.prems by (intro list_loop_next) simp_all
  with Cons show ?case by (simp add: enc_items_Cons del: enc_items.simps)
qed simp

theorem ReadList_enc:
  assumes "list_all ok xs"
  shows "ReadList (collect dec) [] (''('' @ enc_items enc xs @ '')'' @ rest) = Some (Inr xs, rest)"
proof -
  have open_paren: "ReadList (collect dec) [] (''('' @ t) = list_loop (collect dec) True [] t" for t
    by (simp add: ReadList_def ExpectByte_def dbind_def ReadByte_def)
  show ?thesis
  proof (cases xs)
    case Nil
    then show ?thesis using open_paren [of "'')'' @ rest"] by simp
  next
    case (Cons x ys)
    let ?tail = "(if ys = [] then [] else SP # enc_items enc ys) @ CHR '')'' # rest"
    have "follow ?tail" by (cases ys) (simp_all add: follow_SP follow_close)
    then have "list_loop (collect dec) True [] (enc x @ ?tail) =
        list_loop (collect dec) False [x] ?tail"
      using list_loop_first [of x ?tail "[]"] assms Cons by simp
    moreover have "list_loop (collect dec) False [x] ?tail = Some (Inr xs, rest)"
      using list_loop_tail [of ys "[x]" rest] assms Cons by simp
    ultimately show ?thesis
      using open_paren [of "enc x @ ?tail"] Cons
      by (simp add: enc_items_Cons del: enc_items.simps)
  qed
qed

end

lemma enc_String_not_Nil: "enc_String s \<noteq> []"
  by (auto simp: enc_String_def enc_Literal_def enc_QuotedString_def enc_Atom_def
      dest: not_NeedsQuoting)

lemma hd_enc_String: "hd (enc_String s) \<noteq> CHR '')''"
proof -
  have "hd s \<noteq> CHR '')''" if "\<not> NeedsQuoting s"
    using not_NeedsQuoting [OF that] by (cases s) auto
  then show ?thesis
    by (auto simp: enc_String_def enc_Literal_def enc_QuotedString_def enc_Atom_def)
qed

interpretation string_codec: item_codec enc_String ReadAString readable stops
  by unfold_locales
    (auto simp: ReadAString_def ReadString_enc_String enc_String_not_Nil hd_enc_String)

lemma ReadNumber_enc:
  assumes "stops rest"
  shows "ReadNumber (enc_Number n @ rest) = (Inr n, rest)"
proof -
  have "list_all isAtomChar (FormatUint (unat n))"
    using FormatUint_digits by (auto simp: list_all_iff intro: is_digit_atom_char)
  then have "ReadAtom (enc_Number n @ rest) = (Inr (FormatUint (unat n)), rest)"
    using assms by (simp add: enc_Number_def ReadAtom_append)
  moreover have "unat n < 2 ^ 32" using unsigned_less [of n] by simp
  ultimately show ?thesis
    by (simp add: ReadNumber_def dbind_def ParseUint_FormatUint)
qed

lemma ReadNumber64_enc:
  assumes "stops rest"
  shows "ReadNumber64 (enc_Number64 n @ rest) = (Inr n, rest)"
proof -
  have "list_all isAtomChar (FormatUint (unat n))"
    using FormatUint_digits by (auto simp: list_all_iff intro: is_digit_atom_char)
  then have "ReadAtom (enc_Number64 n @ rest) = (Inr (FormatUint (unat n)), rest)"
    using assms by (simp add: enc_Number64_def ReadAtom_append)
  moreover have "unat n < 2 ^ 64" using unsigned_less [of n] by simp
  ultimately show ?thesis
    by (simp add: ReadNumber64_def dbind_def ParseUint_FormatUint)
qed

interpretation number_codec: item_codec enc_Number ReadNumber "\<lambda>_. True" stops
proof unfold_locales
  fix x
  show "enc_Number x \<noteq> []" "hd (enc_Number x) \<noteq> CHR '')''"
    using hd_FormatUint_digit [of "unat x"] by (auto simp: enc_Number_def is_digit_def)
qed (simp_all add: ReadNumber_enc)

text \<open>The atoms, which is what \<open>ReadFlags\<close> reads.\<close>

definition atom_text :: "string \<Rightarrow> bool" where
  "atom_text s \<longleftrightarrow> s \<noteq> [] \<and> list_all isAtomChar s"

interpretation atom_codec: item_codec enc_Atom ReadAtom atom_text stops
proof unfold_locales
  fix x
  assume "atom_text x"
  then show "hd (enc_Atom x) \<noteq> CHR '')''"
    by (cases x) (auto simp: atom_text_def enc_Atom_def)
qed (auto simp: atom_text_def enc_Atom_def ReadAtom_append)

subsection \<open>NIL or a string\<close>

lemma EqualFold_NIL_atom: "EqualFold s ''NIL'' \<Longrightarrow> list_all isAtomChar s \<and> length s = 3"
proof -
  assume "EqualFold s ''NIL''"
  then have u: "map upper_char s = ''NIL''"
    by (simp add: EqualFold_def ToUpper_def upper_char_def is_lower_def)
  have "isAtomChar c" if "upper_char c \<in> {CHR ''N'', CHR ''I'', CHR ''L''}" for c
    using that ord_upper_char [of c]
    by (auto simp: isAtomChar_def is_lower_def split: if_splits)
  moreover from u have "\<forall>c \<in> set s. upper_char c \<in> {CHR ''N'', CHR ''I'', CHR ''L''}"
    by auto
  moreover have "length (map upper_char s) = 3" by (simp only: u) simp
  ultimately show ?thesis by (simp add: list_all_iff)
qed

lemma ReadNString_not_nil:
  assumes "inp \<noteq> []" and "\<not> isAtomChar (hd inp)"
  shows "ReadNString inp = dbind (ReadString inp) (\<lambda>s rest. (Inr (Some s), rest))"
proof -
  have "\<not> EqualFold (take 3 inp) ''NIL''"
    using EqualFold_NIL_atom [of "take 3 inp"] assms by (cases inp) auto
  with assms show ?thesis by (simp add: ReadNString_def)
qed

lemma ReadNString_atom:
  assumes s: "s \<noteq> []" "list_all isAtomChar s" and "stops rest"
  shows "ReadNString (s @ rest) =
    (if EqualFold s ''NIL'' then (Inr None, rest)
     else dbind (ReadString (s @ rest)) (\<lambda>s rest. (Inr (Some s), rest)))"
proof -
  let ?inp = "s @ rest"
  consider "length s < 3" | "length s = 3" | "length s > 3" by linarith
  then have "(length (take 3 ?inp) \<ge> 3 \<and> EqualFold (take 3 ?inp) ''NIL'' \<and>
      (length ?inp < 4 \<or> \<not> isAtomChar (?inp ! 3))) \<longleftrightarrow> EqualFold s ''NIL''"
  proof cases
    case 1
    have "\<not> EqualFold s ''NIL''" using EqualFold_NIL_atom [of s] 1 by auto
    moreover have "\<not> (length (take 3 ?inp) \<ge> 3 \<and> EqualFold (take 3 ?inp) ''NIL'')"
    proof
      assume a: "length (take 3 ?inp) \<ge> 3 \<and> EqualFold (take 3 ?inp) ''NIL''"
      then obtain r rs where r: "rest = r # rs"
        using 1 by (cases rest) auto
      have "3 - length s = Suc (2 - length s)" using 1 by simp
      then have "r \<in> set (take 3 ?inp)" by (simp add: r)
      moreover have "\<not> isAtomChar r" using assms(3) by (simp add: stops_def r)
      ultimately show False
        using a EqualFold_NIL_atom [of "take 3 ?inp"] by (auto simp: list_all_iff)
    qed
    ultimately show ?thesis by blast
  next
    case 2
    then have "take 3 ?inp = s" "length ?inp < 4 \<or> \<not> isAtomChar (?inp ! 3)"
      using assms(3) by (auto simp: stops_def nth_append hd_conv_nth)
    with 2 show ?thesis by simp
  next
    case 3
    then have "isAtomChar (?inp ! 3)" "\<not> length ?inp < 4"
      using s by (auto simp: nth_append list_all_length)
    moreover have "\<not> EqualFold s ''NIL''" using EqualFold_NIL_atom [of s] 3 by auto
    ultimately show ?thesis by simp
  qed
  moreover have "EqualFold s ''NIL'' \<Longrightarrow> drop 3 ?inp = rest"
    using EqualFold_NIL_atom [of s] by auto
  ultimately show ?thesis using s(1) by (simp add: ReadNString_def del: drop_append)
qed

lemma NeedsLiteral_not_atom: "NeedsLiteral s \<Longrightarrow> \<not> list_all isAtomChar s"
proof -
  have "\<not> isAtomChar b" if "b = CR \<or> b = LF \<or> ord b = 0 \<or> ord b > 0x7e" for b
    using that by (elim disjE) (simp_all add: isAtomChar_def)
  then show "NeedsLiteral s \<Longrightarrow> \<not> list_all isAtomChar s"
    by (auto simp: NeedsLiteral_def list_all_iff list_ex_iff)
qed

lemma enc_String_cases:
  obtains (atom) "enc_String s = s" "s \<noteq> []" "list_all isAtomChar s"
    | (quoted) "\<not> isAtomChar (hd (enc_String s))" "enc_String s \<noteq> []" "\<not> list_all isAtomChar s \<or> s = []"
proof (cases "NeedsLiteral s \<or> NeedsQuoting s")
  case True
  have "\<not> list_all isAtomChar s \<or> s = []"
    using True NeedsLiteral_not_atom [of s]
    by (auto simp: NeedsQuoting_def list_all_iff list_ex_iff split: if_splits)
  moreover have "\<not> isAtomChar (hd (enc_String s))"
    using True by (auto simp: enc_String_def enc_Literal_def enc_QuotedString_def)
  ultimately show ?thesis using quoted enc_String_not_Nil by blast
next
  case False
  then show ?thesis
    using atom not_NeedsQuoting [of s] by (auto simp: enc_String_def enc_Atom_def)
qed

lemma ReadNString_enc_Some:
  assumes "readable s" and "stops rest"
  shows "ReadNString (enc_NString (Some s) @ rest) =
    (if EqualFold s ''NIL'' then (Inr None, rest) else (Inr (Some s), rest))"
proof (cases s rule: enc_String_cases)
  case atom
  then show ?thesis
    using ReadNString_atom [of s rest] ReadString_enc_String [OF assms] assms(2)
    by (simp add: enc_NString_def dbind_def)
next
  case quoted
  have "\<not> EqualFold s ''NIL''"
    using quoted(3) EqualFold_NIL_atom [of s] by auto
  then show ?thesis
    using quoted ReadNString_not_nil [of "enc_String s @ rest"] ReadString_enc_String [OF assms]
    by (simp add: enc_NString_def dbind_def)
qed

lemma ReadNString_enc_None:
  assumes "stops rest"
  shows "ReadNString (enc_NString None @ rest) = (Inr None, rest)"
proof -
  have "list_all isAtomChar ''NIL''" by (simp add: isAtomChar_def)
  then show ?thesis
    using ReadNString_atom [of "''NIL''" rest] assms by (simp add: enc_NString_def enc_Nil_def)
qed

subsection \<open>Lines\<close>

lemma ReadLine_CRLF:
  assumes "LF \<notin> set line"
  shows "ReadLine (line @ [CR, LF] @ rest) = (Inr line, rest)"
proof -
  have "takeWhile (\<lambda>c. c \<noteq> LF) (line @ [CR] @ LF # rest) = line @ [CR]"
    "dropWhile (\<lambda>c. c \<noteq> LF) (line @ [CR] @ LF # rest) = LF # rest"
    using assms by (subst takeWhile_append2, auto) (subst dropWhile_append2, auto)
  then show ?thesis by (simp add: ReadLine_def)
qed

subsection \<open>Properties\<close>

text \<open>C33. Strings survive the wire: reading an encoded string, whatever bytes it holds and
  whichever of the three encodings the encoder chose, gives the string back and leaves exactly
  what follows it, except for one kind of string, an atom that begins with a tilde, which the
  decoder takes for a binary literal.\<close>

theorem string_roundtrip:
  assumes "length s < 2 ^ 63" and "rest = [] \<or> hd rest \<in> {SP, CHR '')'', CR}"
  shows "ReadString (enc_String s @ rest) = (Inr s, rest) \<longleftrightarrow>
    \<not> (s \<noteq> [] \<and> hd s = CHR ''~'' \<and> list_all isAtomChar s)"
proof -
  have "stops rest" using assms(2) by (cases rest) auto
  then show ?thesis
    using assms ReadString_enc_String [of s rest] ReadString_tilde_atom [of "tl s" rest]
    by (cases s) (auto simp: readable_def)
qed

theorem string_roundtrip_witness:
  "ReadString (enc_String [CHR ''a'', DQ, CR] @ '' b'') = (Inr [CHR ''a'', DQ, CR], '' b'')"
  using string_roundtrip [of "[CHR ''a'', DQ, CR]" "'' b''"] by simp

text \<open>NIL and strings are told apart: an encoded absent string reads as absent and an
  encoded string reads as itself, unless the string is the word NIL in some letter case, which
  the encoder writes as an atom and the decoder reads as absent.\<close>

theorem nstring_roundtrip:
  assumes "stops rest"
  shows "ReadNString (enc_NString None @ rest) = (Inr None, rest) \<and>
    (readable s \<longrightarrow>
      (ReadNString (enc_NString (Some s) @ rest) = (Inr (Some s), rest) \<longleftrightarrow> \<not> EqualFold s ''NIL''))"
  using ReadNString_enc_None [OF assms] ReadNString_enc_Some [OF _ assms, of s] by auto

theorem nstring_roundtrip_witness:
  "ReadNString (enc_NString None @ '')'') = (Inr None, '')'') \<and>
   ReadNString (enc_NString (Some ''a b'') @ '')'') = (Inr (Some ''a b''), '')'')"
proof -
  have "readable ''a b''" by (simp add: readable_def)
  then show ?thesis
    using nstring_roundtrip [of "'')''" "''a b''"]
    by (simp add: EqualFold_def ToUpper_def upper_char_def is_lower_def)
qed

text \<open>A parenthesized list of strings written by the encoder is read back element by element
  by the decoder, and reading stops right after the closing parenthesis.\<close>

theorem list_roundtrip:
  assumes "list_all readable xs"
  shows "ReadList (collect ReadAString) [] (enc_List xs @ rest) = Some (Inr xs, rest)"
  using string_codec.ReadList_enc [OF assms, of rest] by (simp add: enc_List_def)

theorem list_roundtrip_witness:
  "ReadList (collect ReadAString) [] (enc_List [''From'', [], ''a b''] @ ''x'') =
     Some (Inr [''From'', [], ''a b''], ''x'')"
proof -
  have "list_all readable [''From'', [], ''a b'']" by (simp add: readable_def)
  then show ?thesis by (rule list_roundtrip)
qed

text \<open>\<open>ReadFlags\<close> returns on every input, with an error or a list, and what it
  leaves unread is a suffix of what it was given.\<close>

theorem ReadFlags_returns: "\<exists>r rest. ReadFlags inp = Some (r, rest) \<and> suffix rest inp"
  using ReadList_returns [OF returns_collect [OF keeps_suffix_ReadAtom] suffix_closed_True TrueI]
  by (simp add: ReadFlags_def)

text \<open>\<open>ReadFlags\<close> rejects every list whose first flag is a system flag: the
  backslash with which such a flag begins is not an atom character.\<close>

theorem ReadFlags_system_flag:
  "ReadFlags (''('' @ BSL # rest) = Some (Inl ExpectedAtom, BSL # rest)"
proof -
  have atom: "ReadAtom (BSL # rest) = (Inl ExpectedAtom, BSL # rest)"
    by (simp add: ReadAtom_def)
  show ?thesis
    by (simp add: ReadFlags_def ReadList_def ExpectByte_def ReadByte_def dbind_def)
      (subst list_loop.simps, simp add: PeekByte_def collect_def dbind_def atom)
qed

text \<open>A status response is one line: whatever tag, status, code and text it carries, as long
  as they hold no line feed, reading a line from the output gives the response without its CRLF
  and leaves what follows it.\<close>

theorem StatusResponse_one_line:
  assumes "LF \<notin> set (tag @ status @ code @ text)"
  shows "ReadLine (enc_StatusResponse tag status code text @ rest) =
    (Inr ((if tag = [] \<or> tag = ''*'' then ''* '' else tag @ '' '') @ status @
          (if code = [] then [] else '' ['' @ code @ '']'') @
          (if text = [] then [] else '' '' @ text)), rest)"
  (is "_ = (Inr ?line, rest)")
proof -
  have "enc_StatusResponse tag status code text @ rest = ?line @ [CR, LF] @ rest"
    by (simp add: enc_StatusResponse_def wire_defs)
  moreover have "LF \<notin> set ?line" using assms by auto
  ultimately show ?thesis using ReadLine_CRLF [of ?line rest] by simp
qed

theorem StatusResponse_one_line_witness:
  "ReadLine (enc_StatusResponse ''A1'' ''OK'' ''READ-WRITE'' ''done'' @ ''x'') =
     (Inr ''A1 OK [READ-WRITE] done'', ''x'')"
  using StatusResponse_one_line [of "''A1''" "''OK''" "''READ-WRITE''" "''done''" "''x''"] by simp

end
