(* ===== verification/ConnState.thy ===== *)
theory ConnState
  imports Prelude
begin

text \<open>
  The connection state machine (\<open>state/machine.go\<close>, \<open>state/transitions.go\<close>,
  the states of \<open>imap.go\<close>). A transition hook is a callback with effects of its own,
  so it takes and returns a world \<open>'w\<close> besides its error. The lock of the machine makes
  every method one atomic step.
\<close>

datatype conn_state = NotAuthenticated | Authenticated | Selected | Logout

primrec ConnState_String :: "conn_state \<Rightarrow> string" where
  "ConnState_String NotAuthenticated = ''not authenticated''"
| "ConnState_String Authenticated = ''authenticated''"
| "ConnState_String Selected = ''selected''"
| "ConnState_String Logout = ''logout''"

type_synonym ('w, 'e) hook = "conn_state \<Rightarrow> conn_state \<Rightarrow> 'w \<Rightarrow> 'e option \<times> 'w"

record ('w, 'e) machine =
  cur :: conn_state
  transitions :: "conn_state \<rightharpoonup> conn_state list"
  beforeHooks :: "('w, 'e) hook list"
  afterHooks :: "('w, 'e) hook list"

definition DefaultTransitions :: "conn_state \<rightharpoonup> conn_state list" where
  "DefaultTransitions =
     [NotAuthenticated \<mapsto> [Authenticated, Logout],
      Authenticated \<mapsto> [Selected, Logout, NotAuthenticated],
      Selected \<mapsto> [Authenticated, Selected, Logout]]"

definition New :: "conn_state \<Rightarrow> ('w, 'e) machine" where
  "New initial = \<lparr>cur = initial, transitions = DefaultTransitions, beforeHooks = [], afterHooks = []\<rparr>"

definition State :: "('w, 'e) machine \<Rightarrow> conn_state" where
  "State m = cur m"

definition canTransition :: "('w, 'e) machine \<Rightarrow> conn_state \<Rightarrow> conn_state \<Rightarrow> bool" where
  "canTransition m src dst =
     (case transitions m src of
        None \<Rightarrow> False
      | Some allowed \<Rightarrow> list_ex (\<lambda>s. s = dst) allowed)"

definition CanTransition :: "('w, 'e) machine \<Rightarrow> conn_state \<Rightarrow> bool" where
  "CanTransition m target = canTransition m (cur m) target"

datatype 'e transition_error =
    InvalidTransition conn_state conn_state
  | BeforeHookFailed 'e
  | AfterHookFailed 'e

text \<open>The hooks run in order up to the first that fails.\<close>

fun run_hooks :: "('w, 'e) hook list \<Rightarrow> conn_state \<Rightarrow> conn_state \<Rightarrow> 'w \<Rightarrow> 'e option \<times> 'w" where
  "run_hooks [] src dst w = (None, w)"
| "run_hooks (h # hs) src dst w =
     (case h src dst w of
        (Some e, w') \<Rightarrow> (Some e, w')
      | (None, w') \<Rightarrow> run_hooks hs src dst w')"

definition Transition ::
  "('w, 'e) machine \<Rightarrow> conn_state \<Rightarrow> 'w \<Rightarrow> 'e transition_error option \<times> ('w, 'e) machine \<times> 'w" where
  "Transition m target w =
     (if \<not> canTransition m (cur m) target
      then (Some (InvalidTransition (cur m) target), m, w)
      else let src = cur m in
        case run_hooks (beforeHooks m) src target w of
          (Some e, w1) \<Rightarrow> (Some (BeforeHookFailed e), m, w1)
        | (None, w1) \<Rightarrow>
            (let m' = m\<lparr>cur := target\<rparr> in
             case run_hooks (afterHooks m) src target w1 of
               (Some e, w2) \<Rightarrow> (Some (AfterHookFailed e), m', w2)
             | (None, w2) \<Rightarrow> (None, m', w2)))"

definition RequireState :: "('w, 'e) machine \<Rightarrow> conn_state list \<Rightarrow> conn_state option" where
  "RequireState m allowed = (if list_ex (\<lambda>s. cur m = s) allowed then None else Some (cur m))"

definition OnBefore :: "('w, 'e) machine \<Rightarrow> ('w, 'e) hook \<Rightarrow> ('w, 'e) machine" where
  "OnBefore m hook = m\<lparr>beforeHooks := beforeHooks m @ [hook]\<rparr>"

definition OnAfter :: "('w, 'e) machine \<Rightarrow> ('w, 'e) hook \<Rightarrow> ('w, 'e) machine" where
  "OnAfter m hook = m\<lparr>afterHooks := afterHooks m @ [hook]\<rparr>"

definition SetTransitions ::
  "('w, 'e) machine \<Rightarrow> (conn_state \<rightharpoonup> conn_state list) \<Rightarrow> ('w, 'e) machine" where
  "SetTransitions m ts = m\<lparr>transitions := ts\<rparr>"

definition AddTransition :: "('w, 'e) machine \<Rightarrow> conn_state \<Rightarrow> conn_state \<Rightarrow> ('w, 'e) machine" where
  "AddTransition m src dst =
     m\<lparr>transitions := (transitions m)(src \<mapsto>
         (case transitions m src of None \<Rightarrow> [] | Some xs \<Rightarrow> xs) @ [dst])\<rparr>"

text \<open>\<open>nil\<close>, the result for a command that is not in the table, is \<open>None\<close>.\<close>

definition CommandAllowedStates :: "string \<Rightarrow> conn_state list option" where
  "CommandAllowedStates cmd =
     (if cmd \<in> set [''CAPABILITY'', ''NOOP'', ''LOGOUT'']
      then Some [NotAuthenticated, Authenticated, Selected]
      else if cmd \<in> set [''STARTTLS'', ''AUTHENTICATE'', ''LOGIN'']
      then Some [NotAuthenticated]
      else if cmd \<in> set [''ENABLE'', ''SELECT'', ''EXAMINE'', ''CREATE'', ''DELETE'', ''RENAME'',
          ''SUBSCRIBE'', ''UNSUBSCRIBE'', ''LIST'', ''LSUB'', ''NAMESPACE'',
          ''STATUS'', ''APPEND'', ''IDLE'']
      then Some [Authenticated, Selected]
      else if cmd \<in> set [''CLOSE'', ''UNSELECT'', ''EXPUNGE'', ''SEARCH'', ''FETCH'', ''STORE'',
          ''COPY'', ''MOVE'', ''SORT'', ''THREAD'', ''UID'']
      then Some [Selected]
      else None)"

subsection \<open>The relation of RFC 9051\<close>

inductive rfc_transition :: "conn_state \<Rightarrow> conn_state \<Rightarrow> bool" where
  login: "rfc_transition NotAuthenticated Authenticated"
| select: "rfc_transition Authenticated Selected"
| reselect: "rfc_transition Selected Selected"
| close: "rfc_transition Selected Authenticated"
| unauthenticate: "rfc_transition Authenticated NotAuthenticated"
| logout: "s \<noteq> Logout \<Longrightarrow> rfc_transition s Logout"

inductive_cases rfc_from_NotAuthenticated: "rfc_transition NotAuthenticated s"
inductive_cases rfc_from_Logout: "rfc_transition Logout s"
inductive_cases rfc_to_Selected: "rfc_transition s Selected"

lemma canTransition_default:
  "transitions m = DefaultTransitions \<Longrightarrow> canTransition m s t \<longleftrightarrow> rfc_transition s t"
  by (cases s; cases t) (auto simp: canTransition_def DefaultTransitions_def
      intro: rfc_transition.intros elim: rfc_transition.cases)

subsection \<open>One transition\<close>

lemma Transition_cases:
  assumes "Transition m target w = (r, m', w')"
  obtains (invalid) "\<not> canTransition m (cur m) target"
      "r = Some (InvalidTransition (cur m) target)" "m' = m" "w' = w"
    | (before) e where "canTransition m (cur m) target" "r = Some (BeforeHookFailed e)" "m' = m"
    | (after) e where "canTransition m (cur m) target" "r = Some (AfterHookFailed e)"
      "m' = m\<lparr>cur := target\<rparr>"
    | (moved) "canTransition m (cur m) target" "r = None" "m' = m\<lparr>cur := target\<rparr>"
proof (cases "canTransition m (cur m) target")
  case False
  show ?thesis by (rule invalid) (use False assms in \<open>auto simp: Transition_def\<close>)
next
  case True
  obtain b w1 where b: "run_hooks (beforeHooks m) (cur m) target w = (b, w1)"
    by (cases "run_hooks (beforeHooks m) (cur m) target w")
  obtain a w2 where a: "run_hooks (afterHooks m) (cur m) target w1 = (a, w2)"
    by (cases "run_hooks (afterHooks m) (cur m) target w1")
  note eq = assms [unfolded Transition_def Let_def] True b a
  consider e where "b = Some e" | e where "b = None" "a = Some e" | "b = None" "a = None"
    by (cases b; cases a) auto
  then show ?thesis
  proof cases
    case (1 e)
    show ?thesis by (rule before [of e]) (use eq 1 in auto)
  next
    case (2 e)
    show ?thesis by (rule after [of e]) (use eq 2 in auto)
  next
    case 3
    show ?thesis by (rule moved) (use eq 3 in auto)
  qed
qed

lemma run_hooks_no_error:
  "(\<And>h u. h \<in> set hs \<Longrightarrow> fst (h src dst u) = None) \<Longrightarrow> fst (run_hooks hs src dst w) = None"
proof (induction hs arbitrary: w)
  case (Cons h hs)
  have "fst (h src dst w) = None" using Cons.prems by simp
  then obtain w' where "h src dst w = (None, w')" by (cases "h src dst w") auto
  then show ?case using Cons by simp
qed simp

text \<open>
  A run of the machine: transitions to arbitrary targets, successful or not, and hooks added at
  any time, over the default table.
\<close>

inductive machine_step :: "('w, 'e) machine \<times> 'w \<Rightarrow> ('w, 'e) machine \<times> 'w \<Rightarrow> bool" where
  attempt: "Transition m target w = (r, m', w') \<Longrightarrow> machine_step (m, w) (m', w')"
| add_before: "machine_step (m, w) (OnBefore m h, w)"
| add_after: "machine_step (m, w) (OnAfter m h, w)"

lemma machine_step_keeps_table:
  "machine_step s t \<Longrightarrow> transitions (fst s) = DefaultTransitions \<Longrightarrow>
     transitions (fst t) = DefaultTransitions \<and>
     (cur (fst t) = cur (fst s) \<or> rfc_transition (cur (fst s)) (cur (fst t)))"
proof (induction rule: machine_step.induct)
  case (attempt m target w r m' w')
  from attempt(1) show ?case
    using attempt(2) canTransition_default [of m] by (cases rule: Transition_cases) auto
qed (simp_all add: OnBefore_def OnAfter_def)

text \<open>The states along a run, as a specification: what the table allows, and being past login.\<close>

interpretation table: transition_system
  "\<lambda>s. \<exists>w. s = (New NotAuthenticated, w)"
  machine_step
  "\<lambda>s. transitions (fst s) = DefaultTransitions"
  by unfold_locales (auto simp: New_def dest: machine_step_keeps_table)

lemma Logout_stays:
  assumes "steps machine_step s t" and "transitions (fst s) = DefaultTransitions"
    and "cur (fst s) = Logout"
  shows "cur (fst t) = Logout"
  using assms
proof (induction rule: steps.induct)
  case (steps_step s t u)
  then have "cur (fst t) = Logout" by simp
  moreover have "transitions (fst t) = DefaultTransitions"
    using steps_step.hyps(1) steps_step.prems(1) by (rule table.inv_steps)
  ultimately show ?case
    using machine_step_keeps_table [OF steps_step.hyps(2)] by (auto elim: rfc_from_Logout)
qed simp

subsection \<open>Properties\<close>

text \<open>A transition is atomic: it returns without error exactly when the table allows the
  move and no hook fails; if it fails before the move, or the move is not allowed, the machine
  is unchanged; the state is the target in every other case, also when an after-hook fails.\<close>

theorem Transition_atomic:
  assumes "Transition m target w = (r, m', w')"
  shows "(r = None \<longrightarrow> canTransition m (cur m) target \<and> cur m' = target) \<and>
    (r = Some (InvalidTransition (cur m) target) \<longleftrightarrow> \<not> canTransition m (cur m) target) \<and>
    (case r of
       None \<Rightarrow> m' = m\<lparr>cur := target\<rparr>
     | Some (AfterHookFailed e) \<Rightarrow> m' = m\<lparr>cur := target\<rparr>
     | Some _ \<Rightarrow> m' = m)"
  using assms by (cases rule: Transition_cases) auto

theorem Transition_atomic_witness:
  "case Transition (New NotAuthenticated :: (unit, unit) machine) Selected () of
     (r, m', w') \<Rightarrow> r = Some (InvalidTransition NotAuthenticated Selected) \<and>
        m' = New NotAuthenticated"
  using Transition_atomic [of "New NotAuthenticated :: (unit, unit) machine" Selected "()"
      "Some (InvalidTransition NotAuthenticated Selected)" "New NotAuthenticated" "()"]
  by (simp add: Transition_def New_def canTransition_def DefaultTransitions_def)

text \<open>C26. Logout is final: as long as a machine keeps the default table, no sequence of attempted
  transitions, whatever their targets and whatever the hooks do, and of hook registrations leads
  out of the logout state.\<close>

theorem logout_is_final:
  assumes "steps machine_step (m, w) (m', w')" and "transitions m = DefaultTransitions"
    and "State m = Logout"
  shows "State m' = Logout"
  using Logout_stays [OF assms(1)] assms(2,3) by (simp add: State_def)

theorem logout_is_final_witness:
  "\<exists>m' w'. steps machine_step (New Logout :: (unit, unit) machine, ()) (m', w') \<and> State m' = Logout"
proof -
  have "machine_step (New Logout :: (unit, unit) machine, ())
      (snd (snd (Some (InvalidTransition Logout Selected :: unit transition_error), (), New Logout)), ())"
    by (rule machine_step.attempt [of _ Selected _ "Some (InvalidTransition Logout Selected)"])
      (simp add: Transition_def New_def canTransition_def DefaultTransitions_def)
  then have "steps machine_step (New Logout :: (unit, unit) machine, ()) (New Logout, ())"
    by (auto intro: steps_one)
  with logout_is_final [OF this] show ?thesis by (auto simp: New_def State_def)
qed

text \<open>No command is allowed after logout, and the commands allowed before authentication
  are only those six.\<close>

theorem unauthenticated_commands:
  "(\<exists>allowed. CommandAllowedStates cmd = Some allowed \<and> Logout \<in> set allowed) = False \<and>
   (\<exists>allowed. CommandAllowedStates cmd = Some allowed \<and> NotAuthenticated \<in> set allowed) =
     (cmd \<in> {''CAPABILITY'', ''NOOP'', ''LOGOUT'', ''STARTTLS'', ''AUTHENTICATE'', ''LOGIN''})"
  by (auto simp: CommandAllowedStates_def)

end
