(* ===== verification/Message.thy ===== *)
theory Message
  imports Prelude
begin

text \<open>
  Messages of the in-memory backend (\<open>server/memserver/message.go\<close>) and the sections
  that FETCH takes from them (\<open>fetchSection\<close> and \<open>filterHeaders\<close> of
  \<open>server/memserver/session.go\<close>).

  A \<open>time.Time\<close> is an \<^typ>\<open>int\<close>, the nanoseconds since the zero time, so that
  \<open>IsZero\<close> is equality with 0. Two functions of the standard library are parameters of
  \<open>ParseEnvelope\<close>: \<open>readHeader\<close> for \<open>textproto.Reader.ReadMIMEHeader\<close>
  followed by \<open>Get\<close> (\<open>None\<close> is the nil header) and \<open>parseTime\<close> for
  \<open>time.Parse\<close> with its layout.
  A slice expression out of range is the value \<open>Inl SliceOutOfRange\<close>.
\<close>

type_synonym flag = string
type_synonym time = int

definition FlagSeen :: flag where "FlagSeen = BSL # ''Seen''"
definition FlagAnswered :: flag where "FlagAnswered = BSL # ''Answered''"
definition FlagFlagged :: flag where "FlagFlagged = BSL # ''Flagged''"
definition FlagDeleted :: flag where "FlagDeleted = BSL # ''Deleted''"
definition FlagDraft :: flag where "FlagDraft = BSL # ''Draft''"
definition FlagRecent :: flag where "FlagRecent = BSL # ''Recent''"
definition FlagWildcard :: flag where "FlagWildcard = BSL # ''*''"

lemmas flag_defs = FlagSeen_def FlagAnswered_def FlagFlagged_def FlagDeleted_def FlagDraft_def
  FlagRecent_def FlagWildcard_def

record message =
  msg_UID :: u32
  msg_Flags :: "flag list"
  msg_InternalDate :: time
  msg_Size :: int
  msg_Body :: string

subsection \<open>Flags\<close>

definition HasFlag :: "message \<Rightarrow> flag \<Rightarrow> bool" where
  "HasFlag m flag = list_ex (\<lambda>f. EqualFold f flag) (msg_Flags m)"

definition SetFlag :: "message \<Rightarrow> flag \<Rightarrow> message" where
  "SetFlag m flag = (if \<not> HasFlag m flag then m\<lparr>msg_Flags := msg_Flags m @ [flag]\<rparr> else m)"

text \<open>The loop of \<open>RemoveFlag\<close> (and of \<open>CopyMessageTo\<close>) removes the first match.\<close>

fun drop_first_flag :: "flag \<Rightarrow> flag list \<Rightarrow> flag list" where
  "drop_first_flag flag [] = []"
| "drop_first_flag flag (f # fs) = (if EqualFold f flag then fs else f # drop_first_flag flag fs)"

definition RemoveFlag :: "message \<Rightarrow> flag \<Rightarrow> message" where
  "RemoveFlag m flag = m\<lparr>msg_Flags := drop_first_flag flag (msg_Flags m)\<rparr>"

definition CopyFlags :: "message \<Rightarrow> flag list" where
  "CopyFlags m = msg_Flags m"

subsection \<open>Header and text\<close>

definition HeaderBytes :: "message \<Rightarrow> string" where
  "HeaderBytes m =
     (case Index (msg_Body m) [CR, LF, CR, LF] of
        None \<Rightarrow>
          (case Index (msg_Body m) [LF, LF] of
             None \<Rightarrow> msg_Body m
           | Some idx \<Rightarrow> take (idx + 2) (msg_Body m))
      | Some idx \<Rightarrow> take (idx + 2) (msg_Body m))"

definition TextBytes :: "message \<Rightarrow> string" where
  "TextBytes m =
     (case Index (msg_Body m) [CR, LF, CR, LF] of
        None \<Rightarrow>
          (case Index (msg_Body m) [LF, LF] of
             None \<Rightarrow> []
           | Some idx \<Rightarrow> drop (idx + 2) (msg_Body m))
      | Some idx \<Rightarrow> drop (idx + 4) (msg_Body m))"

subsection \<open>Addresses and envelopes\<close>

record address =
  addr_Name :: string
  addr_Mailbox :: string
  addr_Host :: string

text \<open>\<open>strings.SplitN(s, "@", 2)\<close>: the text before the first at sign and the rest.\<close>

definition parse_mailbox_host :: "string \<Rightarrow> string \<Rightarrow> address" where
  "parse_mailbox_host name s =
     (case IndexByte s (CHR ''@'') of
        None \<Rightarrow> \<lparr>addr_Name = name, addr_Mailbox = TrimSpace s, addr_Host = []\<rparr>
      | Some i \<Rightarrow> \<lparr>addr_Name = name, addr_Mailbox = TrimSpace (take i s),
                    addr_Host = TrimSpace (drop (i + 1) s)\<rparr>)"

definition parseAddress :: "string \<Rightarrow> panic + address option" where
  "parseAddress s0 =
     (let s = TrimSpace s0 in
      if s = [] then Inr None
      else case IndexByte s (CHR ''<'') of
             None \<Rightarrow> Inr (Some (parse_mailbox_host [] s))
           | Some idx \<Rightarrow>
               (let name = TrimQuotes (TrimSpace (take idx s));
                    stop = (case IndexByte s (CHR ''>'') of None \<Rightarrow> length s | Some e \<Rightarrow> e)
                in if stop < idx + 1 then Inl SliceOutOfRange
                   else Inr (Some (parse_mailbox_host name (take (stop - (idx + 1)) (drop (idx + 1) s))))))"

fun parse_addresses :: "string list \<Rightarrow> panic + address list" where
  "parse_addresses [] = Inr []"
| "parse_addresses (p # ps) =
     (let part = TrimSpace p in
      if part = [] then parse_addresses ps
      else case parseAddress part of
             Inl e \<Rightarrow> Inl e
           | Inr a \<Rightarrow>
               (case parse_addresses ps of
                  Inl e \<Rightarrow> Inl e
                | Inr as \<Rightarrow> Inr (case a of None \<Rightarrow> as | Some x \<Rightarrow> x # as)))"

definition parseAddressList :: "string \<Rightarrow> panic + address list" where
  "parseAddressList s0 =
     (let s = TrimSpace s0 in
      if s = [] then Inr [] else parse_addresses (split_byte (CHR '','') s))"

record envelope =
  env_Date :: time
  env_Subject :: string
  env_From :: "address list"
  env_Sender :: "address list"
  env_ReplyTo :: "address list"
  env_To :: "address list"
  env_Cc :: "address list"
  env_Bcc :: "address list"
  env_InReplyTo :: string
  env_MessageID :: string

definition empty_envelope :: envelope where
  "empty_envelope = \<lparr>env_Date = 0, env_Subject = [], env_From = [], env_Sender = [],
     env_ReplyTo = [], env_To = [], env_Cc = [], env_Bcc = [], env_InReplyTo = [], env_MessageID = []\<rparr>"

definition date_layouts :: "string list" where
  "date_layouts =
     [''Mon, 02 Jan 2006 15:04:05 -0700'', ''Mon, 02 Jan 2006 15:04:05 MST'',
      ''02 Jan 06 15:04 -0700'', ''02 Jan 06 15:04 MST'',
      ''Mon, 2 Jan 2006 15:04:05 -0700'', ''2 Jan 2006 15:04:05 -0700'']"

fun first_parsed :: "(string \<Rightarrow> string \<Rightarrow> time option) \<Rightarrow> string list \<Rightarrow> string \<Rightarrow> time" where
  "first_parsed parseTime [] s = 0"
| "first_parsed parseTime (l # ls) s =
     (case parseTime l s of Some t \<Rightarrow> t | None \<Rightarrow> first_parsed parseTime ls s)"

fun parse_fields :: "string list \<Rightarrow> panic + address list list" where
  "parse_fields [] = Inr []"
| "parse_fields (v # vs) =
     (case parseAddressList v of
        Inl e \<Rightarrow> Inl e
      | Inr as \<Rightarrow> (case parse_fields vs of Inl e \<Rightarrow> Inl e | Inr r \<Rightarrow> Inr (as # r)))"

definition ParseEnvelope ::
  "(string \<Rightarrow> (string \<Rightarrow> string) option) \<Rightarrow> (string \<Rightarrow> string \<Rightarrow> time option) \<Rightarrow> message \<Rightarrow> panic + envelope" where
  "ParseEnvelope readHeader parseTime m =
     (case readHeader (msg_Body m) of
        None \<Rightarrow> Inr empty_envelope
      | Some get \<Rightarrow>
          (case parse_fields (map get [''From'', ''Sender'', ''Reply-To'', ''To'', ''Cc'', ''Bcc'']) of
             Inl e \<Rightarrow> Inl e
           | Inr as \<Rightarrow>
               Inr \<lparr>env_Date = (if get ''Date'' \<noteq> [] then first_parsed parseTime date_layouts (get ''Date'') else 0),
                    env_Subject = get ''Subject'',
                    env_From = as ! 0,
                    env_Sender = (if as ! 1 = [] then as ! 0 else as ! 1),
                    env_ReplyTo = (if as ! 2 = [] then as ! 0 else as ! 2),
                    env_To = as ! 3,
                    env_Cc = as ! 4,
                    env_Bcc = as ! 5,
                    env_InReplyTo = get ''In-Reply-To'',
                    env_MessageID = get ''Message-ID''\<rparr>))"

subsection \<open>Sections\<close>

record body_section =
  Specifier :: string
  Part :: "int list"
  Fields :: "string list"
  NotFields :: bool
  Peek :: bool
  Partial :: "(int \<times> int) option"

text \<open>The loop of \<open>filterHeaders\<close> over the lines, with its variable \<open>include\<close>.\<close>

fun filter_lines :: "string set \<Rightarrow> bool \<Rightarrow> bool \<Rightarrow> string list \<Rightarrow> string" where
  "filter_lines fieldSet neg include [] = []"
| "filter_lines fieldSet neg include (line # lines) =
     (if line = [] then []
      else if hd line = SP \<or> hd line = CHR 0x09
      then (if include then line @ [CR, LF] else []) @ filter_lines fieldSet neg include lines
      else case IndexByte line (CHR '':'') of
             None \<Rightarrow> filter_lines fieldSet neg include lines
           | Some colonIdx \<Rightarrow>
               (let fieldName = ToLower (TrimSpace (take colonIdx line));
                    inSet = (fieldName \<in> fieldSet);
                    include' = (if neg then \<not> inSet else inSet)
                in (if include' then line @ [CR, LF] else []) @
                   filter_lines fieldSet neg include' lines))"

definition filterHeaders :: "string \<Rightarrow> string list \<Rightarrow> bool \<Rightarrow> string" where
  "filterHeaders headerBytes names neg =
     filter_lines (set (map ToLower names)) neg False (split_crlf headerBytes) @ [CR, LF]"

definition section_data :: "message \<Rightarrow> body_section \<Rightarrow> string" where
  "section_data m section =
     (let spec = ToUpper (Specifier section) in
      if spec = ''HEADER'' then HeaderBytes m
      else if spec = ''HEADER.FIELDS'' then filterHeaders (HeaderBytes m) (Fields section) False
      else if spec = ''HEADER.FIELDS.NOT'' then filterHeaders (HeaderBytes m) (Fields section) True
      else if spec = ''TEXT'' then TextBytes m
      else msg_Body m)"

definition fetchSection :: "message \<Rightarrow> body_section \<Rightarrow> panic + string" where
  "fetchSection m section =
     (let data = section_data m section in
      case Partial section of
        None \<Rightarrow> Inr data
      | Some (offset, count) \<Rightarrow>
          (if offset \<ge> int (length data) then Inr []
           else let e = wrap64 (offset + count);
                    e' = (if e > int (length data) then int (length data) else e)
                in if offset < 0 \<or> e' < offset then Inl SliceOutOfRange
                   else Inr (take (nat (e' - offset)) (drop (nat offset) data))))"

subsection \<open>Flags behave as a set\<close>

text \<open>Flags are compared without letter case; a list without two equal flags in this sense.\<close>

definition distinct_flags :: "flag list \<Rightarrow> bool" where
  "distinct_flags fs \<longleftrightarrow> distinct (map ToUpper fs)"

lemma HasFlag_iff: "HasFlag m f \<longleftrightarrow> ToUpper f \<in> ToUpper ` set (msg_Flags m)"
  unfolding HasFlag_def list_ex_iff EqualFold_def image_iff by metis

lemma HasFlag_SetFlag: "HasFlag (SetFlag m f) g \<longleftrightarrow> HasFlag m g \<or> EqualFold f g"
  by (auto simp: SetFlag_def HasFlag_def list_ex_iff EqualFold_def)

lemma SetFlag_idem: "SetFlag (SetFlag m f) f = SetFlag m f"
  by (simp add: SetFlag_def HasFlag_def)

lemma distinct_SetFlag: "distinct_flags (msg_Flags m) \<Longrightarrow> distinct_flags (msg_Flags (SetFlag m f))"
  by (auto simp: SetFlag_def distinct_flags_def HasFlag_iff)

lemma drop_first_flag_absent:
  "ToUpper f \<notin> ToUpper ` set fs \<Longrightarrow> drop_first_flag f fs = fs"
  by (induction fs) (auto simp: EqualFold_def)

lemma drop_first_flag_subset: "set (drop_first_flag f fs) \<subseteq> set fs"
  by (induction fs) auto

lemma distinct_drop_first:
  "distinct_flags fs \<Longrightarrow> distinct_flags (drop_first_flag f fs)"
proof (induction fs)
  case (Cons g fs)
  then show ?case
    using drop_first_flag_subset [of f fs] by (auto simp: distinct_flags_def)
qed simp

lemma drop_first_flag_upper:
  assumes "distinct_flags fs"
  shows "ToUpper ` set (drop_first_flag f fs) = ToUpper ` set fs - {ToUpper f}"
  using assms
proof (induction fs)
  case (Cons g fs)
  then have g: "ToUpper g \<notin> ToUpper ` set fs" and fs: "distinct_flags fs"
    by (auto simp: distinct_flags_def)
  show ?case
  proof (cases "ToUpper g = ToUpper f")
    case True
    with g show ?thesis by (simp add: EqualFold_def)
  next
    case False
    with Cons.IH [OF fs] show ?thesis by (auto simp: EqualFold_def)
  qed
qed simp

lemma HasFlag_RemoveFlag:
  assumes "distinct_flags (msg_Flags m)"
  shows "HasFlag (RemoveFlag m f) g \<longleftrightarrow> HasFlag m g \<and> \<not> EqualFold f g"
  using drop_first_flag_upper [OF assms, of f]
  by (auto simp: HasFlag_iff RemoveFlag_def EqualFold_def)

lemma distinct_RemoveFlag:
  "distinct_flags (msg_Flags m) \<Longrightarrow> distinct_flags (msg_Flags (RemoveFlag m f))"
  by (simp add: RemoveFlag_def distinct_drop_first)

lemma SetFlag_sel [simp]:
  "msg_UID (SetFlag m f) = msg_UID m" "msg_Size (SetFlag m f) = msg_Size m"
  "msg_Body (SetFlag m f) = msg_Body m" "msg_InternalDate (SetFlag m f) = msg_InternalDate m"
  by (simp_all add: SetFlag_def)

lemma RemoveFlag_sel [simp]:
  "msg_UID (RemoveFlag m f) = msg_UID m" "msg_Size (RemoveFlag m f) = msg_Size m"
  "msg_Body (RemoveFlag m f) = msg_Body m" "msg_InternalDate (RemoveFlag m f) = msg_InternalDate m"
  by (simp_all add: RemoveFlag_def)

subsection \<open>Selecting header fields\<close>

text \<open>
  A header as a list of fields: the name, the rest of the first line after the colon, and the
  continuation lines. \<open>render\<close> is its text, with each line ended by CRLF.
\<close>

record header_field =
  hf_name :: string
  hf_value :: string
  hf_more :: "string list"

definition field_lines :: "header_field \<Rightarrow> string list" where
  "field_lines h = (hf_name h @ '':'' @ hf_value h) # hf_more h"

definition render :: "header_field list \<Rightarrow> string" where
  "render hs = concat (map (\<lambda>l. l @ [CR, LF]) (concat (map field_lines hs)))"

definition field_ok :: "header_field \<Rightarrow> bool" where
  "field_ok h \<longleftrightarrow>
     hf_name h \<noteq> [] \<and> hd (hf_name h) \<noteq> SP \<and> hd (hf_name h) \<noteq> CHR 0x09 \<and>
     CHR '':'' \<notin> set (hf_name h) \<and> CR \<notin> set (hf_name h) \<and> CR \<notin> set (hf_value h) \<and>
     list_all (\<lambda>l. l \<noteq> [] \<and> (hd l = SP \<or> hd l = CHR 0x09) \<and> CR \<notin> set l) (hf_more h)"

definition selected :: "string list \<Rightarrow> bool \<Rightarrow> header_field \<Rightarrow> bool" where
  "selected names neg h \<longleftrightarrow>
     (ToLower (TrimSpace (hf_name h)) \<in> set (map ToLower names)) \<noteq> neg"

lemma split_crlf_lines:
  "list_all (\<lambda>l. CR \<notin> set l) ls \<Longrightarrow>
   split_crlf (concat (map (\<lambda>l. l @ [CR, LF]) ls)) = ls @ [[]]"
proof (induction ls)
  case (Cons l ls)
  then show ?case
    using split_crlf_line [of l "concat (map (\<lambda>l. l @ [CR, LF]) ls)"] by simp
qed simp

lemma filter_lines_more:
  "list_all (\<lambda>l. l \<noteq> [] \<and> (hd l = SP \<or> hd l = CHR 0x09) \<and> CR \<notin> set l) ms \<Longrightarrow>
   filter_lines S neg inc (ms @ lines) =
     (if inc then concat (map (\<lambda>l. l @ [CR, LF]) ms) else []) @ filter_lines S neg inc lines"
  by (induction ms) auto

lemma filter_lines_field:
  assumes "field_ok h"
  shows "filter_lines (set (map ToLower names)) neg inc (field_lines h @ lines) =
    (if selected names neg h then concat (map (\<lambda>l. l @ [CR, LF]) (field_lines h)) else []) @
    filter_lines (set (map ToLower names)) neg (selected names neg h) lines"
proof -
  let ?line = "hf_name h @ CHR '':'' # hf_value h"
  have i: "IndexByte ?line (CHR '':'') = Some (length (hf_name h))"
    using assms by (simp add: field_ok_def IndexByte_append)
  have "hd ?line = hd (hf_name h)"
    using assms by (simp add: field_ok_def)
  moreover have "(if neg then ToLower (TrimSpace (hf_name h)) \<notin> ToLower ` set names
      else ToLower (TrimSpace (hf_name h)) \<in> ToLower ` set names) = selected names neg h"
    by (auto simp: selected_def)
  ultimately show ?thesis
    using assms i filter_lines_more [of "hf_more h" "set (map ToLower names)" neg
        "selected names neg h" lines]
    by (auto simp: field_lines_def field_ok_def Let_def)
qed

lemma filter_lines_render:
  "list_all field_ok hs \<Longrightarrow>
   filter_lines (set (map ToLower names)) neg inc (concat (map field_lines hs) @ [[]]) =
     render (filter (selected names neg) hs)"
proof (induction hs arbitrary: inc)
  case (Cons h hs)
  then show ?case
    using filter_lines_field [of h names neg inc "concat (map field_lines hs) @ [[]]"]
    by (simp add: render_def)
qed (simp add: render_def)

lemma field_ok_no_CR: "field_ok h \<Longrightarrow> list_all (\<lambda>l. CR \<notin> set l) (field_lines h)"
  by (auto simp: field_ok_def field_lines_def list_all_iff)

lemma filterHeaders_render:
  assumes "list_all field_ok hs"
  shows "filterHeaders (render hs) names neg = render (filter (selected names neg) hs) @ [CR, LF]"
proof -
  have "list_all (\<lambda>l. CR \<notin> set l) (concat (map field_lines hs))"
    using assms field_ok_no_CR by (fastforce simp: list_all_iff)
  then have "split_crlf (render hs) = concat (map field_lines hs) @ [[]]"
    unfolding render_def by (rule split_crlf_lines)
  then show ?thesis
    unfolding filterHeaders_def by (simp only: filter_lines_render [OF assms])
qed

subsection \<open>Properties\<close>

text \<open>Flags behave as a set without letter case: setting a flag adds it and keeps every
  other, removing a flag removes it and keeps every other, setting twice changes nothing, and
  both keep the flags of a message distinct.\<close>

theorem flags_are_a_set:
  assumes "distinct_flags (msg_Flags m)"
  shows "(HasFlag (SetFlag m f) g \<longleftrightarrow> HasFlag m g \<or> EqualFold f g) \<and>
    (HasFlag (RemoveFlag m f) g \<longleftrightarrow> HasFlag m g \<and> \<not> EqualFold f g) \<and>
    SetFlag (SetFlag m f) f = SetFlag m f \<and>
    distinct_flags (msg_Flags (SetFlag m f)) \<and> distinct_flags (msg_Flags (RemoveFlag m f))"
  by (simp add: assms HasFlag_SetFlag HasFlag_RemoveFlag SetFlag_idem distinct_SetFlag
      distinct_RemoveFlag)

theorem flags_are_a_set_witness:
  "\<not> HasFlag (RemoveFlag \<lparr>msg_UID = 1, msg_Flags = [''a'', ''B''], msg_InternalDate = 0,
       msg_Size = 0, msg_Body = []\<rparr> ''b'') ''B''"
proof -
  note a = flags_are_a_set [of "\<lparr>msg_UID = 1, msg_Flags = [''a'', ''B''], msg_InternalDate = 0,
       msg_Size = 0, msg_Body = []\<rparr>" "''b''" "''B''"]
  have "EqualFold ''b'' ''B''" "distinct_flags [''a'', ''B'']" by code_simp+
  with a show ?thesis by simp
qed

text \<open>Without distinctness, which APPEND and STORE FLAGS do not establish, removing a flag once
  can leave the message with the flag.\<close>

lemma RemoveFlag_duplicate:
  "HasFlag (RemoveFlag \<lparr>msg_UID = 1, msg_Flags = [''a'', ''a''], msg_InternalDate = 0,
     msg_Size = 0, msg_Body = []\<rparr> ''a'') ''a''"
  by (simp add: RemoveFlag_def HasFlag_def)

text \<open>The header, the blank line and the text make up the message: the text begins after the
  first blank line, the header ends before it, and nothing else is lost. With CRLF line ends
  the blank line belongs to neither part; with bare line feeds it is part of the header.\<close>

theorem header_blank_text:
  "\<exists>blank. msg_Body m = HeaderBytes m @ blank @ TextBytes m \<and>
     (blank = [] \<or> blank = [CR, LF]) \<and>
     (blank = [CR, LF] \<longleftrightarrow> Contains_str (msg_Body m) [CR, LF, CR, LF])"
proof (cases "Index (msg_Body m) [CR, LF, CR, LF]")
  case None
  then show ?thesis
    by (intro exI [of _ "[]"])
      (auto simp: HeaderBytes_def TextBytes_def Contains_str_def split: option.splits)
next
  case (Some i)
  then have eq: "msg_Body m = take i (msg_Body m) @ [CR, LF, CR, LF] @ drop (i + 4) (msg_Body m)"
    using Index_Some [OF Some] by (simp add: numeral_eq_Suc)
  have "i \<le> length (msg_Body m)" using Index_bound [OF Some] by simp
  then have "take (i + 2) (msg_Body m) = take i (msg_Body m) @ [CR, LF]"
    by (subst eq) simp
  with eq Some show ?thesis
    by (intro exI [of _ "[CR, LF]"]) (simp add: HeaderBytes_def TextBytes_def Contains_str_def)
qed

text \<open>HEADER.FIELDS and HEADER.FIELDS.NOT: for a header made of fields with CRLF line ends
  and folded values, the result is the text of exactly the fields whose name, without letter
  case, is (or is not) listed, in their order and with their continuation lines, and a final
  CRLF.\<close>

theorem filterHeaders_selects:
  assumes "list_all field_ok hs"
  shows "filterHeaders (render hs) names neg =
    render (filter (\<lambda>h. (ToLower (TrimSpace (hf_name h)) \<in> set (map ToLower names)) \<noteq> neg) hs) @
    [CR, LF]"
  using filterHeaders_render [OF assms, of names neg] by (simp add: selected_def [abs_def])

theorem filterHeaders_selects_witness:
  "filterHeaders (render
     [\<lparr>hf_name = ''To'', hf_value = '' a'', hf_more = ['' b'']\<rparr>, \<lparr>hf_name = ''Cc'', hf_value = '' c'', hf_more = []\<rparr>])
     [''to''] False = ''To: a'' @ [CR, LF] @ '' b'' @ [CR, LF] @ [CR, LF]"
proof -
  have trims: "TrimSpace ''To'' = ''To''" "TrimSpace ''Cc'' = ''Cc''"
    by (simp_all add: TrimSpace_def is_space_def)
  have lower: "ToLower ''To'' = ''to''" "ToLower ''to'' = ''to''" "ToLower ''Cc'' = ''cc''"
    by code_simp+
  show ?thesis
    by (subst filterHeaders_selects)
      (simp_all add: field_ok_def trims lower render_def field_lines_def)
qed

text \<open>Fetching part of a section: when offset and count are not negative and their sum does
  not overflow, the result is the bytes of the section from the offset on, at most count of
  them; no slice is out of range.\<close>

theorem fetchSection_partial:
  assumes "Partial section = Some (offset, count)"
    and "0 \<le> offset" and "0 \<le> count" and "offset + count < 2 ^ 63"
  shows "fetchSection m section = Inr (take (nat count) (drop (nat offset) (section_data m section)))"
proof -
  have "wrap64 (offset + count) = offset + count"
    using assms(2-4) by (simp add: wrap64_def)
  with assms show ?thesis
    by (auto simp: fetchSection_def Let_def nat_diff_distrib nat_add_distrib)
qed

theorem fetchSection_partial_witness:
  "fetchSection \<lparr>msg_UID = 1, msg_Flags = [], msg_InternalDate = 0, msg_Size = 5, msg_Body = ''hello''\<rparr>
     \<lparr>Specifier = [], Part = [], Fields = [], NotFields = False, Peek = True, Partial = Some (1, 3)\<rparr> =
   Inr ''ell''"
  by (subst fetchSection_partial [of _ 1 3])
    (simp_all add: section_data_def ToUpper_def numeral_eq_Suc)

text \<open>A count near the upper end of \<open>int64\<close> overflows, and the slice expression panics.\<close>

lemma fetchSection_overflow:
  "fetchSection \<lparr>msg_UID = 1, msg_Flags = [], msg_InternalDate = 0, msg_Size = 5, msg_Body = ''hello''\<rparr>
     \<lparr>Specifier = [], Part = [], Fields = [], NotFields = False, Peek = True,
      Partial = Some (1, 2 ^ 63 - 1)\<rparr> = Inl SliceOutOfRange"
  by (simp add: fetchSection_def section_data_def ToUpper_def Let_def wrap64_def)

text \<open>A closing angle bracket before the opening one makes \<open>parseAddress\<close> panic.\<close>

lemma parseAddress_panics: "parseAddress ''a> <b'' = Inl SliceOutOfRange"
  by (simp add: parseAddress_def TrimSpace_def is_space_def Let_def)

end
