(* ===== verification/Mailbox.thy ===== *)
theory Mailbox
  imports NumSet Message
begin

text \<open>
  Mailboxes of the in-memory backend (\<open>server/memserver/mailbox.go\<close>): appending,
  expunging, counting, number sets, searching, copying and the LIST patterns. The lock of a
  mailbox makes each of these one step; the operations return the new mailbox.
  The parameter \<open>now\<close> is the value of \<open>time.Now()\<close>.
\<close>

datatype num_kind = NumKindSeq | NumKindUID

record mailbox =
  mb_Name :: string
  mb_Messages :: "message list"
  mb_Flags :: "flag list"
  mb_PermanentFlags :: "flag list"
  mb_UIDNext :: u32
  mb_UIDValidity :: u32
  mb_Subscribed :: bool

definition NewMailbox :: "string \<Rightarrow> mailbox" where
  "NewMailbox name =
     \<lparr>mb_Name = name,
      mb_Messages = [],
      mb_Flags = [FlagSeen, FlagAnswered, FlagFlagged, FlagDeleted, FlagDraft],
      mb_PermanentFlags = [FlagSeen, FlagAnswered, FlagFlagged, FlagDeleted, FlagDraft, FlagWildcard],
      mb_UIDNext = 1,
      mb_UIDValidity = 1,
      mb_Subscribed = False\<rparr>"

definition Mailbox_Append ::
  "mailbox \<Rightarrow> string \<Rightarrow> flag list \<Rightarrow> time \<Rightarrow> time \<Rightarrow> message \<times> mailbox" where
  "Mailbox_Append mbox body flags date now =
     (let msg = \<lparr>msg_UID = mb_UIDNext mbox,
                 msg_Flags = flags,
                 msg_InternalDate = (if date = 0 then now else date),
                 msg_Size = int (length body),
                 msg_Body = body\<rparr>
      in (msg, mbox\<lparr>mb_UIDNext := mb_UIDNext mbox + 1,
                    mb_Messages := mb_Messages mbox @ [msg]\<rparr>))"

text \<open>The loop of \<open>Expunge\<close>: the sequence numbers removed and the messages that remain.\<close>

fun expunge_loop :: "num_range list option \<Rightarrow> nat \<Rightarrow> message list \<Rightarrow> u32 list \<times> message list" where
  "expunge_loop uidSet i [] = ([], [])"
| "expunge_loop uidSet i (msg # msgs) =
     (let seqNum = of_nat (i + 1);
          (expunged, remaining) = expunge_loop uidSet (i + 1) msgs
      in if HasFlag msg FlagDeleted
         then (case uidSet of
                 None \<Rightarrow> (seqNum # expunged, remaining)
               | Some us \<Rightarrow>
                   (if \<not> UIDSet_Contains us (msg_UID msg) then (expunged, msg # remaining)
                    else (seqNum # expunged, remaining)))
         else (expunged, msg # remaining))"

fun adjust_from :: "nat \<Rightarrow> u32 list \<Rightarrow> u32 list" where
  "adjust_from i [] = []"
| "adjust_from i (seq # seqs) = (seq - of_nat i) # adjust_from (i + 1) seqs"

definition Mailbox_Expunge :: "mailbox \<Rightarrow> num_range list option \<Rightarrow> u32 list \<times> mailbox" where
  "Mailbox_Expunge mbox uidSet =
     (let (expunged, remaining) = expunge_loop uidSet 0 (mb_Messages mbox)
      in (adjust_from 0 expunged, mbox\<lparr>mb_Messages := remaining\<rparr>))"

definition MessageBySeqNum :: "mailbox \<Rightarrow> u32 \<Rightarrow> message option" where
  "MessageBySeqNum mbox seqNum =
     (let idx = int (unat seqNum) - 1 in
      if idx < 0 \<or> idx \<ge> int (length (mb_Messages mbox)) then None
      else Some (mb_Messages mbox ! nat idx))"

fun by_uid_loop :: "nat \<Rightarrow> u32 \<Rightarrow> message list \<Rightarrow> message option \<times> u32" where
  "by_uid_loop i uid [] = (None, 0)"
| "by_uid_loop i uid (msg # msgs) =
     (if msg_UID msg = uid then (Some msg, of_nat (i + 1)) else by_uid_loop (i + 1) uid msgs)"

definition MessageByUID :: "mailbox \<Rightarrow> u32 \<Rightarrow> message option \<times> u32" where
  "MessageByUID mbox uid = by_uid_loop 0 uid (mb_Messages mbox)"

definition NumMessages :: "mailbox \<Rightarrow> u32" where
  "NumMessages mbox = of_nat (length (mb_Messages mbox))"

definition NumUnseen :: "mailbox \<Rightarrow> u32" where
  "NumUnseen mbox =
     foldl (\<lambda>count msg. if \<not> HasFlag msg FlagSeen then count + 1 else count) 0 (mb_Messages mbox)"

definition NumRecent :: "mailbox \<Rightarrow> u32" where
  "NumRecent mbox =
     foldl (\<lambda>count msg. if HasFlag msg FlagRecent then count + 1 else count) 0 (mb_Messages mbox)"

definition NumDeleted :: "mailbox \<Rightarrow> u32" where
  "NumDeleted mbox =
     foldl (\<lambda>count msg. if HasFlag msg FlagDeleted then count + 1 else count) 0 (mb_Messages mbox)"

fun first_unseen_loop :: "nat \<Rightarrow> message list \<Rightarrow> u32" where
  "first_unseen_loop i [] = 0"
| "first_unseen_loop i (msg # msgs) =
     (if \<not> HasFlag msg FlagSeen then of_nat (i + 1) else first_unseen_loop (i + 1) msgs)"

definition FirstUnseen :: "mailbox \<Rightarrow> u32" where
  "FirstUnseen mbox = first_unseen_loop 0 (mb_Messages mbox)"

definition TotalSize :: "mailbox \<Rightarrow> int" where
  "TotalSize mbox = foldl (\<lambda>total msg. wrap64 (total + msg_Size msg)) 0 (mb_Messages mbox)"

record select_data =
  sd_Flags :: "flag list"
  sd_PermanentFlags :: "flag list"
  sd_NumMessages :: u32
  sd_NumRecent :: u32
  sd_UIDNext :: u32
  sd_UIDValidity :: u32
  sd_FirstUnseen :: u32
  sd_HighestModSeq :: "64 word"
  sd_ReadOnly :: bool
  sd_Vanished :: "num_range list option"
  sd_MailboxID :: string

definition Mailbox_SelectData :: "mailbox \<Rightarrow> bool \<Rightarrow> select_data" where
  "Mailbox_SelectData mbox readOnly =
     \<lparr>sd_Flags = mb_Flags mbox,
      sd_PermanentFlags = mb_PermanentFlags mbox,
      sd_NumMessages = NumMessages mbox,
      sd_NumRecent = NumRecent mbox,
      sd_UIDNext = mb_UIDNext mbox,
      sd_UIDValidity = mb_UIDValidity mbox,
      sd_FirstUnseen = FirstUnseen mbox,
      sd_HighestModSeq = 0,
      sd_ReadOnly = readOnly,
      sd_Vanished = None,
      sd_MailboxID = []\<rparr>"

record status_options =
  so_NumMessages :: bool
  so_UIDNext :: bool
  so_UIDValidity :: bool
  so_NumUnseen :: bool
  so_NumRecent :: bool
  so_Size :: bool
  so_AppendLimit :: bool
  so_NumDeleted :: bool
  so_HighestModSeq :: bool
  so_MailboxID :: bool

record status_data =
  st_Mailbox :: string
  st_NumMessages :: "u32 option"
  st_UIDNext :: "u32 option"
  st_UIDValidity :: "u32 option"
  st_NumUnseen :: "u32 option"
  st_NumRecent :: "u32 option"
  st_Size :: "int option"
  st_AppendLimit :: "u32 option"
  st_NumDeleted :: "u32 option"
  st_HighestModSeq :: "64 word option"
  st_MailboxID :: string

definition Mailbox_StatusData :: "mailbox \<Rightarrow> string \<Rightarrow> status_options \<Rightarrow> status_data" where
  "Mailbox_StatusData mbox name options =
     \<lparr>st_Mailbox = name,
      st_NumMessages = (if so_NumMessages options then Some (NumMessages mbox) else None),
      st_UIDNext = (if so_UIDNext options then Some (mb_UIDNext mbox) else None),
      st_UIDValidity = (if so_UIDValidity options then Some (mb_UIDValidity mbox) else None),
      st_NumUnseen = (if so_NumUnseen options then Some (NumUnseen mbox) else None),
      st_NumRecent = (if so_NumRecent options then Some (NumRecent mbox) else None),
      st_Size = (if so_Size options then Some (TotalSize mbox) else None),
      st_AppendLimit = None,
      st_NumDeleted = (if so_NumDeleted options then Some (NumDeleted mbox) else None),
      st_HighestModSeq = None,
      st_MailboxID = []\<rparr>"

subsection \<open>Number sets\<close>

definition numSetContains :: "num_range list \<Rightarrow> u32 \<Rightarrow> u32 \<Rightarrow> bool" where
  "numSetContains ranges num maxNum =
     list_ex (\<lambda>r.
       let start = (if Start r = 0 then maxNum else Start r);
           stop = (if Stop r = 0 then maxNum else Stop r);
           (start, stop) = (if start > stop then (stop, start) else (start, stop))
       in start \<le> num \<and> num \<le> stop) ranges"

text \<open>
  A matched message: its sequence number and the message. The messages are pointers in the
  source; here a message is found again at the position that \<open>mm_Pos\<close> records.
\<close>

record matched_message =
  mm_SeqNum :: u32
  mm_Pos :: nat
  mm_Message :: message

fun matches_loop :: "num_range list \<Rightarrow> num_kind \<Rightarrow> u32 \<Rightarrow> nat \<Rightarrow> message list \<Rightarrow> matched_message list" where
  "matches_loop ranges kind maxNum i [] = []"
| "matches_loop ranges kind maxNum i (msg # msgs) =
     (let seqNum = of_nat (i + 1);
          num = (case kind of NumKindSeq \<Rightarrow> seqNum | NumKindUID \<Rightarrow> msg_UID msg)
      in (if numSetContains ranges num maxNum
          then [\<lparr>mm_SeqNum = seqNum, mm_Pos = i, mm_Message = msg\<rparr>] else []) @
         matches_loop ranges kind maxNum (i + 1) msgs)"

definition MatchesMessages :: "mailbox \<Rightarrow> num_set \<Rightarrow> num_kind \<Rightarrow> matched_message list" where
  "MatchesMessages mbox numSet kind =
     matches_loop (Ranges numSet) kind (of_nat (length (mb_Messages mbox))) 0 (mb_Messages mbox)"

subsection \<open>Searching\<close>

record search_modseq =
  sm_ModSeq :: "64 word"
  sm_MetadataName :: string
  sm_MetadataType :: string

record search_base =
  sc_SeqNum :: "num_range list option"
  sc_UID :: "num_range list option"
  sc_Since :: time
  sc_Before :: time
  sc_On :: time
  sc_SentSince :: time
  sc_SentBefore :: time
  sc_SentOn :: time
  sc_SavedBefore :: time
  sc_SavedSince :: time
  sc_SavedOn :: time
  sc_Header :: "(string \<times> string) list"
  sc_Body :: "string list"
  sc_Text :: "string list"
  sc_Larger :: int
  sc_Smaller :: int
  sc_Flag :: "flag list"
  sc_NotFlag :: "flag list"
  sc_ModSeq :: "search_modseq option"
  sc_Younger :: int
  sc_Older :: int
  sc_SaveResult :: bool
  sc_Fuzzy :: bool

text \<open>
  The criteria nest only in \<open>Or\<close> and \<open>Not\<close>: the other fields are the record
  \<open>search_base\<close>.
\<close>

datatype search_criteria = Criteria search_base "or_pair list" "search_criteria list"
  and or_pair = OrPair search_criteria search_criteria

definition day :: int where "day = 24 * 60 * 60 * 1000000000"

definition Truncate :: "time \<Rightarrow> int \<Rightarrow> time" where
  "Truncate t d = t - t mod d"

text \<open>The checks of \<open>matchesCriteria\<close> up to the internal date.\<close>

definition match_head :: "message \<Rightarrow> u32 \<Rightarrow> search_base \<Rightarrow> bool" where
  "match_head msg seqNum c \<longleftrightarrow>
     (case sc_SeqNum c of None \<Rightarrow> True | Some ss \<Rightarrow> SeqSet_Contains ss seqNum) \<and>
     (case sc_UID c of None \<Rightarrow> True | Some us \<Rightarrow> UIDSet_Contains us (msg_UID msg)) \<and>
     list_all (\<lambda>flag. HasFlag msg flag) (sc_Flag c) \<and>
     list_all (\<lambda>flag. \<not> HasFlag msg flag) (sc_NotFlag c) \<and>
     \<not> (sc_Since c \<noteq> 0 \<and> msg_InternalDate msg < sc_Since c) \<and>
     \<not> (sc_Before c \<noteq> 0 \<and> \<not> msg_InternalDate msg < sc_Before c) \<and>
     \<not> (sc_On c \<noteq> 0 \<and> Truncate (msg_InternalDate msg) day \<noteq> Truncate (sc_On c) day)"

text \<open>The checks on the sent date, which parse the envelope and may panic with it.\<close>

definition match_sent ::
  "(message \<Rightarrow> panic + envelope) \<Rightarrow> message \<Rightarrow> search_base \<Rightarrow> panic + bool" where
  "match_sent parseEnv msg c =
     (if sc_SentSince c \<noteq> 0 \<or> sc_SentBefore c \<noteq> 0 \<or> sc_SentOn c \<noteq> 0
      then (case parseEnv msg of
              Inl p \<Rightarrow> Inl p
            | Inr env \<Rightarrow>
                Inr (\<not> (sc_SentSince c \<noteq> 0 \<and> env_Date env < sc_SentSince c) \<and>
                     \<not> (sc_SentBefore c \<noteq> 0 \<and> \<not> env_Date env < sc_SentBefore c) \<and>
                     \<not> (sc_SentOn c \<noteq> 0 \<and>
                        Truncate (env_Date env) day \<noteq> Truncate (sc_SentOn c) day)))
      else Inr True)"

definition match_header ::
  "(string \<Rightarrow> (string \<Rightarrow> string) option) \<Rightarrow> message \<Rightarrow> string \<times> string \<Rightarrow> bool" where
  "match_header readHeader msg hdr =
     (case readHeader (msg_Body msg) of
        None \<Rightarrow> False
      | Some get \<Rightarrow>
          (let val = get (fst hdr) in
           if snd hdr = [] then val \<noteq> []
           else Contains_str (ToLower val) (ToLower (snd hdr))))"

text \<open>The checks on size, header, body and text.\<close>

definition match_tail ::
  "(string \<Rightarrow> (string \<Rightarrow> string) option) \<Rightarrow> message \<Rightarrow> search_base \<Rightarrow> bool" where
  "match_tail readHeader msg c \<longleftrightarrow>
     \<not> (sc_Larger c > 0 \<and> msg_Size msg \<le> sc_Larger c) \<and>
     \<not> (sc_Smaller c > 0 \<and> msg_Size msg \<ge> sc_Smaller c) \<and>
     list_all (match_header readHeader msg) (sc_Header c) \<and>
     list_all (\<lambda>text. Contains_str (ToLower (TextBytes msg)) (ToLower text)) (sc_Body c) \<and>
     list_all (\<lambda>text. Contains_str (ToLower (msg_Body msg)) (ToLower text)) (sc_Text c)"

fun matchesCriteria ::
    "(string \<Rightarrow> (string \<Rightarrow> string) option) \<Rightarrow> (string \<Rightarrow> string \<Rightarrow> time option) \<Rightarrow>
     message \<Rightarrow> u32 \<Rightarrow> search_criteria \<Rightarrow> panic + bool"
  and none_matches ::
    "(string \<Rightarrow> (string \<Rightarrow> string) option) \<Rightarrow> (string \<Rightarrow> string \<Rightarrow> time option) \<Rightarrow>
     message \<Rightarrow> u32 \<Rightarrow> search_criteria list \<Rightarrow> panic + bool"
  and each_or_matches ::
    "(string \<Rightarrow> (string \<Rightarrow> string) option) \<Rightarrow> (string \<Rightarrow> string \<Rightarrow> time option) \<Rightarrow>
     message \<Rightarrow> u32 \<Rightarrow> or_pair list \<Rightarrow> panic + bool" where
  "matchesCriteria rh pt msg seqNum (Criteria c ors nots) =
     (if \<not> match_head msg seqNum c then Inr False
      else case match_sent (ParseEnvelope rh pt) msg c of
             Inl p \<Rightarrow> Inl p
           | Inr sent \<Rightarrow>
               (if \<not> sent then Inr False
                else if \<not> match_tail rh msg c then Inr False
                else case none_matches rh pt msg seqNum nots of
                       Inl p \<Rightarrow> Inl p
                     | Inr b \<Rightarrow> (if \<not> b then Inr False else each_or_matches rh pt msg seqNum ors)))"
| "none_matches rh pt msg seqNum [] = Inr True"
| "none_matches rh pt msg seqNum (c # cs) =
     (case matchesCriteria rh pt msg seqNum c of
        Inl p \<Rightarrow> Inl p
      | Inr b \<Rightarrow> (if b then Inr False else none_matches rh pt msg seqNum cs))"
| "each_or_matches rh pt msg seqNum [] = Inr True"
| "each_or_matches rh pt msg seqNum (OrPair a b # ors) =
     (case matchesCriteria rh pt msg seqNum a of
        Inl p \<Rightarrow> Inl p
      | Inr ma \<Rightarrow>
          (if ma then each_or_matches rh pt msg seqNum ors
           else case matchesCriteria rh pt msg seqNum b of
                  Inl p \<Rightarrow> Inl p
                | Inr mb \<Rightarrow> (if mb then each_or_matches rh pt msg seqNum ors else Inr False)))"

definition matchesCriteriaPtr ::
  "(string \<Rightarrow> (string \<Rightarrow> string) option) \<Rightarrow> (string \<Rightarrow> string \<Rightarrow> time option) \<Rightarrow>
   message \<Rightarrow> u32 \<Rightarrow> search_criteria option \<Rightarrow> panic + bool" where
  "matchesCriteriaPtr rh pt msg seqNum criteria =
     (case criteria of None \<Rightarrow> Inr True | Some c \<Rightarrow> matchesCriteria rh pt msg seqNum c)"

fun search_loop ::
  "(string \<Rightarrow> (string \<Rightarrow> string) option) \<Rightarrow> (string \<Rightarrow> string \<Rightarrow> time option) \<Rightarrow>
   num_kind \<Rightarrow> search_criteria option \<Rightarrow> nat \<Rightarrow> message list \<Rightarrow> panic + u32 list" where
  "search_loop rh pt kind criteria i [] = Inr []"
| "search_loop rh pt kind criteria i (msg # msgs) =
     (let seqNum = of_nat (i + 1) in
      case matchesCriteriaPtr rh pt msg seqNum criteria of
        Inl p \<Rightarrow> Inl p
      | Inr b \<Rightarrow>
          (case search_loop rh pt kind criteria (i + 1) msgs of
             Inl p \<Rightarrow> Inl p
           | Inr results \<Rightarrow>
               Inr ((if b then [case kind of NumKindSeq \<Rightarrow> seqNum | NumKindUID \<Rightarrow> msg_UID msg] else []) @
                    results)))"

definition SearchMessages ::
  "(string \<Rightarrow> (string \<Rightarrow> string) option) \<Rightarrow> (string \<Rightarrow> string \<Rightarrow> time option) \<Rightarrow>
   mailbox \<Rightarrow> num_kind \<Rightarrow> search_criteria option \<Rightarrow> panic + u32 list" where
  "SearchMessages rh pt mbox kind criteria = search_loop rh pt kind criteria 0 (mb_Messages mbox)"

subsection \<open>Copying\<close>

definition CopyMessageTo :: "message \<Rightarrow> mailbox \<Rightarrow> time \<Rightarrow> u32 \<times> mailbox" where
  "CopyMessageTo msg dest now =
     (let flags = drop_first_flag FlagRecent (CopyFlags msg);
          (newMsg, dest') = Mailbox_Append dest (msg_Body msg) flags (msg_InternalDate msg) now
      in (msg_UID newMsg, dest'))"

subsection \<open>LIST patterns\<close>

text \<open>A delimiter is a rune up to U+00FF: its UTF-8 form has one byte below U+0080 and two above, and
  \<open>strings.ContainsRune\<close> looks for that form. The loops compare it with single bytes.\<close>

definition rune_string :: "char \<Rightarrow> string" where
  "rune_string r =
     (if of_char r < (0x80 :: nat) then [r]
      else [char_of (0xC0 + of_char r div 64 :: nat), char_of (0x80 + of_char r mod 64 :: nat)])"

definition ContainsRune :: "string \<Rightarrow> char \<Rightarrow> bool" where
  "ContainsRune s r = (if of_char r < (0x80 :: nat) then r \<in> set s else Contains_str s (rune_string r))"

text \<open>The two loops over the positions of the name, for the asterisk and the percent sign.\<close>

fun at_some_suffix :: "(string \<Rightarrow> bool) \<Rightarrow> string \<Rightarrow> bool" where
  "at_some_suffix f [] = f []"
| "at_some_suffix f (n # ns) = (if f (n # ns) then True else at_some_suffix f ns)"

fun at_suffix_in_level :: "char \<Rightarrow> (string \<Rightarrow> bool) \<Rightarrow> string \<Rightarrow> bool" where
  "at_suffix_in_level delim f [] = f []"
| "at_suffix_in_level delim f (n # ns) =
     (if f (n # ns) then True
      else if n = delim then False
      else at_suffix_in_level delim f ns)"

primrec matchPatternRecursive :: "char \<Rightarrow> string \<Rightarrow> string \<Rightarrow> bool" where
  "matchPatternRecursive delim [] = (\<lambda>name. length name = 0)"
| "matchPatternRecursive delim (c # pattern) = (\<lambda>name.
     if c = CHR ''*''
     then (if pattern = [] then True
           else at_some_suffix (matchPatternRecursive delim pattern) name)
     else if c = CHR ''%''
     then (if pattern = [] then \<not> ContainsRune name delim
           else at_suffix_in_level delim (matchPatternRecursive delim pattern) name)
     else (case name of
             [] \<Rightarrow> False
           | n # ns \<Rightarrow> (if c \<noteq> n then False else matchPatternRecursive delim pattern ns)))"

definition matchPattern :: "string \<Rightarrow> string \<Rightarrow> char \<Rightarrow> bool" where
  "matchPattern name pattern delim = matchPatternRecursive delim pattern name"

definition HasChildren :: "string \<Rightarrow> string list \<Rightarrow> char \<Rightarrow> bool" where
  "HasChildren name allNames delim =
     (let prefix = name @ rune_string delim in list_ex (\<lambda>other. HasPrefix other prefix) allNames)"

section \<open>LIST patterns against their declarative reading\<close>

inductive pattern_matches :: "char \<Rightarrow> string \<Rightarrow> string \<Rightarrow> bool" for delim where
  pm_nil: "pattern_matches delim [] []"
| pm_star: "pattern_matches delim ps ns \<Longrightarrow> pattern_matches delim (CHR ''*'' # ps) (xs @ ns)"
| pm_percent: "pattern_matches delim ps ns \<Longrightarrow> delim \<notin> set xs \<Longrightarrow>
    pattern_matches delim (CHR ''%'' # ps) (xs @ ns)"
| pm_char: "pattern_matches delim ps ns \<Longrightarrow> c \<noteq> CHR ''*'' \<Longrightarrow> c \<noteq> CHR ''%'' \<Longrightarrow>
    pattern_matches delim (c # ps) (c # ns)"

inductive_simps pattern_matches_Nil: "pattern_matches delim [] name"
inductive_simps pattern_matches_Cons: "pattern_matches delim (c # ps) name"

lemma at_some_suffix_iff: "at_some_suffix f name \<longleftrightarrow> (\<exists>xs ns. name = xs @ ns \<and> f ns)"
proof (induction name)
  case (Cons n name)
  show ?case by (simp add: Cons.IH Cons_eq_append_conv) blast
qed simp

lemma at_suffix_in_level_iff:
  "at_suffix_in_level delim f name \<longleftrightarrow> (\<exists>xs ns. name = xs @ ns \<and> delim \<notin> set xs \<and> f ns)"
proof (induction name)
  case (Cons n name)
  have "(\<exists>xs ns. n # name = xs @ ns \<and> delim \<notin> set xs \<and> f ns) \<longleftrightarrow>
      f (n # name) \<or> n \<noteq> delim \<and> (\<exists>xs ns. name = xs @ ns \<and> delim \<notin> set xs \<and> f ns)"
    (is "?L \<longleftrightarrow> ?R")
  proof
    assume ?L
    then obtain xs ns where *: "n # name = xs @ ns" "delim \<notin> set xs" "f ns" by blast
    then show ?R by (cases xs) auto
  next
    assume ?R
    then show ?L
    proof
      assume "f (n # name)"
      then show ?L by - (rule exI [of _ "[]"], simp)
    next
      assume "n \<noteq> delim \<and> (\<exists>xs ns. name = xs @ ns \<and> delim \<notin> set xs \<and> f ns)"
      then obtain xs ns where "n \<noteq> delim" "name = xs @ ns" "delim \<notin> set xs" "f ns" by blast
      then show ?L by - (rule exI [of _ "n # xs"], simp)
    qed
  qed
  then show ?case by (simp add: Cons.IH)
qed simp

lemma pattern_matches_star:
  "pattern_matches delim (CHR ''*'' # ps) name \<longleftrightarrow>
     (\<exists>xs ns. name = xs @ ns \<and> pattern_matches delim ps ns)"
  by (simp add: pattern_matches_Cons) blast

lemma pattern_matches_percent:
  "pattern_matches delim (CHR ''%'' # ps) name \<longleftrightarrow>
     (\<exists>xs ns. name = xs @ ns \<and> delim \<notin> set xs \<and> pattern_matches delim ps ns)"
  by (simp add: pattern_matches_Cons) blast

lemma matchPatternRecursive_iff:
  assumes ascii: "of_char delim < (0x80 :: nat)"
  shows "matchPatternRecursive delim pattern name \<longleftrightarrow> pattern_matches delim pattern name"
proof (induction pattern arbitrary: name)
  case Nil
  show ?case by (simp add: pattern_matches_Nil)
next
  case (Cons c ps)
  have IH: "matchPatternRecursive delim ps = pattern_matches delim ps"
    using Cons.IH by blast
  consider (star) "c = CHR ''*''" | (percent) "c = CHR ''%''"
    | (other) "c \<noteq> CHR ''*''" "c \<noteq> CHR ''%''" by blast
  then show ?case
  proof cases
    case star
    then show ?thesis
      by (simp add: IH at_some_suffix_iff pattern_matches_star pattern_matches_Nil)
  next
    case percent
    then show ?thesis
      by (simp add: IH at_suffix_in_level_iff pattern_matches_percent pattern_matches_Nil ContainsRune_def ascii)
  next
    case other
    then show ?thesis
      by (cases name) (auto simp: IH pattern_matches_Cons)
  qed
qed

text \<open>C18. With an ASCII delimiter, such as the slash of the backend, the backtracking matcher of LIST
  decides exactly the declarative reading of a pattern: an asterisk stands for any string, a
  percent sign for any string without the delimiter, every other character for itself and only in
  the same case, in INBOX as elsewhere. In particular it always returns.\<close>

theorem matchPattern_correct:
  assumes "of_char delim < (0x80 :: nat)"
  shows "matchPattern name pattern delim \<longleftrightarrow> pattern_matches delim pattern name"
  by (simp add: matchPattern_def matchPatternRecursive_iff [OF assms])

theorem matchPattern_correct_witness:
  "pattern_matches (CHR ''/'') ''a/%'' ''a/b'' \<and> \<not> pattern_matches (CHR ''/'') ''%'' ''a/b'' \<and> \<not> pattern_matches (CHR ''/'') ''INBOX'' ''inbox''"
proof -
  have "matchPattern ''a/b'' ''a/%'' (CHR ''/'')" "\<not> matchPattern ''a/b'' ''%'' (CHR ''/'')" "\<not> matchPattern ''inbox'' ''INBOX'' (CHR ''/'')"
    by code_simp+
  moreover have "of_char (CHR ''/'') < (0x80 :: nat)" by code_simp
  ultimately show ?thesis by (simp only: matchPattern_correct simp_thms)
qed

section \<open>The UID invariant\<close>

text \<open>UIDs are positive, strictly ascending and below \<open>UIDNext\<close>.\<close>

definition mailbox_ok :: "mailbox \<Rightarrow> bool" where
  "mailbox_ok mbox \<longleftrightarrow>
     sorted_wrt (<) (map msg_UID (mb_Messages mbox)) \<and>
     (\<forall>m \<in> set (mb_Messages mbox). 0 < msg_UID m \<and> msg_UID m < mb_UIDNext mbox) \<and>
     0 < mb_UIDNext mbox"

lemma mailbox_ok_New: "mailbox_ok (NewMailbox name)"
  by (simp add: mailbox_ok_def NewMailbox_def)

lemma word_less_Suc:
  fixes a :: u32
  assumes "a \<noteq> - 1"
  shows "a < a + 1"
proof -
  have "1 + a \<noteq> 0" using assms by (metis add.commute eq_neg_iff_add_eq_0)
  then have "unat (a + 1) = Suc (unat a)" by (metis unatSuc add.commute)
  then show ?thesis by (simp add: word_less_nat_alt)
qed

lemma mailbox_ok_Append:
  assumes "mailbox_ok mbox" "mb_UIDNext mbox \<noteq> - 1"
  shows "mailbox_ok (snd (Mailbox_Append mbox body flags date now))"
proof -
  let ?n = "mb_UIDNext mbox"
  have "?n < ?n + 1" using assms(2) by (rule word_less_Suc)
  then show ?thesis
    using assms(1) by (auto simp: mailbox_ok_def Mailbox_Append_def Let_def sorted_wrt_append
        intro: order.strict_trans)
qed

lemma expunge_loop_remaining:
  "snd (expunge_loop us i msgs) =
     filter (\<lambda>m. \<not> (HasFlag m FlagDeleted \<and>
                   (case us of None \<Rightarrow> True | Some u \<Rightarrow> UIDSet_Contains u (msg_UID m)))) msgs"
  by (induction us i msgs rule: expunge_loop.induct)
    (auto simp: Let_def split: prod.splits option.splits)

lemma Expunge_messages:
  "mb_Messages (snd (Mailbox_Expunge mbox us)) =
     filter (\<lambda>m. \<not> (HasFlag m FlagDeleted \<and>
                   (case us of None \<Rightarrow> True | Some u \<Rightarrow> UIDSet_Contains u (msg_UID m)))) (mb_Messages mbox)"
  using expunge_loop_remaining [of us 0 "mb_Messages mbox"]
  by (simp add: Mailbox_Expunge_def Let_def case_prod_beta)

lemma Expunge_UIDNext [simp]: "mb_UIDNext (snd (Mailbox_Expunge mbox us)) = mb_UIDNext mbox"
  by (simp add: Mailbox_Expunge_def Let_def case_prod_beta)

lemma sorted_wrt_map_filter: "sorted_wrt P (map f xs) \<Longrightarrow> sorted_wrt P (map f (filter Q xs))"
  by (induction xs) auto

lemma mailbox_ok_Expunge: "mailbox_ok mbox \<Longrightarrow> mailbox_ok (snd (Mailbox_Expunge mbox us))"
  by (simp add: mailbox_ok_def Expunge_messages sorted_wrt_map_filter)

subsection \<open>Mailboxes as a transition system\<close>

text \<open>
  What happens to a mailbox over its life: messages arrive (APPEND, COPY), messages are
  expunged, the flags of a message change, the mailbox is subscribed and renamed. The number
  counts the messages that have arrived.
\<close>

inductive mailbox_step :: "nat \<times> mailbox \<Rightarrow> nat \<times> mailbox \<Rightarrow> bool" where
  step_append: "mailbox_step (n, mbox) (n + 1, snd (Mailbox_Append mbox body flags date now))"
| step_copy: "mailbox_step (n, mbox) (n + 1, snd (CopyMessageTo msg mbox now))"
| step_expunge: "mailbox_step (n, mbox) (n, snd (Mailbox_Expunge mbox us))"
| step_flags: "i < length (mb_Messages mbox) \<Longrightarrow>
    mailbox_step (n, mbox) (n, mbox\<lparr>mb_Messages :=
      (mb_Messages mbox)[i := (mb_Messages mbox ! i)\<lparr>msg_Flags := flags\<rparr>]\<rparr>)"
| step_subscribe: "mailbox_step (n, mbox) (n, mbox\<lparr>mb_Subscribed := b\<rparr>)"
| step_rename: "mailbox_step (n, mbox) (n, mbox\<lparr>mb_Name := name\<rparr>)"

text \<open>Up to \<open>2^32 - 2\<close> arrivals the counter of UIDs does not wrap.\<close>

definition counted_ok :: "nat \<times> mailbox \<Rightarrow> bool" where
  "counted_ok = (\<lambda>(n, mbox). n < 2 ^ 32 - 1 \<longrightarrow> mailbox_ok mbox \<and> unat (mb_UIDNext mbox) = n + 1)"

lemma CopyMessageTo_Append:
  "snd (CopyMessageTo msg dest now) =
     snd (Mailbox_Append dest (msg_Body msg) (drop_first_flag FlagRecent (CopyFlags msg)) (msg_InternalDate msg) now)"
  by (simp add: CopyMessageTo_def Let_def case_prod_beta)

lemma map_UID_update_flags:
  assumes "i < length ms"
  shows "map msg_UID (ms[i := (ms ! i)\<lparr>msg_Flags := flags\<rparr>]) = map msg_UID ms"
  using assms by (simp add: map_update list_update_same_conv)

lemma mailbox_ok_map:
  "mailbox_ok mbox \<longleftrightarrow>
     sorted_wrt (<) (map msg_UID (mb_Messages mbox)) \<and>
     (\<forall>u \<in> set (map msg_UID (mb_Messages mbox)). 0 < u \<and> u < mb_UIDNext mbox) \<and>
     0 < mb_UIDNext mbox"
  by (simp add: mailbox_ok_def)

lemma next_UID:
  fixes a :: u32
  assumes "unat a = n + 1" "n + 1 < 2 ^ 32 - 1"
  shows "a \<noteq> - 1" "unat (a + 1) = n + 2"
proof -
  show ne: "a \<noteq> - 1"
  proof
    assume "a = - 1"
    then have "unat a = 2 ^ 32 - 1" by (simp add: unsigned_minus_1_eq_mask mask_eq_exp_minus_1)
    then show False using assms by simp
  qed
  then have "1 + a \<noteq> 0" by (metis add.commute eq_neg_iff_add_eq_0)
  then show "unat (a + 1) = n + 2" using assms(1) by (metis unatSuc add.commute add_2_eq_Suc Suc_eq_plus1)
qed

lemma counted_Append:
  assumes "counted_ok (n, mbox)"
  shows "counted_ok (n + 1, snd (Mailbox_Append mbox body flags date now))"
proof (unfold counted_ok_def prod.case, rule impI)
  assume n: "n + 1 < 2 ^ 32 - 1"
  then have u: "mailbox_ok mbox" "unat (mb_UIDNext mbox) = n + 1" using assms by (simp_all add: counted_ok_def)
  show "mailbox_ok (snd (Mailbox_Append mbox body flags date now)) \<and>
      unat (mb_UIDNext (snd (Mailbox_Append mbox body flags date now))) = n + 1 + 1"
    using mailbox_ok_Append [OF u(1) next_UID(1) [OF u(2) n]] next_UID(2) [OF u(2) n] by (simp add: Mailbox_Append_def Let_def)
qed

lemma counted_ok_step: "mailbox_step p q \<Longrightarrow> counted_ok p \<Longrightarrow> counted_ok q"
proof (induction rule: mailbox_step.induct)
  case (step_flags i mbox n flags)
  then show ?case
    unfolding counted_ok_def mailbox_ok_map using map_UID_update_flags [of i "mb_Messages mbox" flags]
    by (simp del: set_map)
next
  case (step_append n mbox body flags date now)
  then show ?case by (rule counted_Append)
next
  case (step_copy n mbox msg now)
  then show ?case unfolding CopyMessageTo_Append by (rule counted_Append)
qed (simp_all add: counted_ok_def mailbox_ok_Expunge, simp_all add: mailbox_ok_def)

interpretation mailboxes: transition_system "\<lambda>p. \<exists>name. p = (0, NewMailbox name)" mailbox_step counted_ok
proof unfold_locales
  show "\<exists>name. p = (0, NewMailbox name) \<Longrightarrow> counted_ok p" for p
    using mailbox_ok_New by (auto simp: counted_ok_def) (simp_all add: NewMailbox_def)
qed (rule counted_ok_step)

text \<open>The UIDs in use after a step: those in use before, or a new one from \<open>UIDNext\<close> on.\<close>

definition uids :: "mailbox \<Rightarrow> u32 set" where
  "uids mbox = msg_UID ` set (mb_Messages mbox)"

definition uid_extends :: "mailbox \<Rightarrow> mailbox \<Rightarrow> bool" where
  "uid_extends a b \<longleftrightarrow>
     mb_UIDNext a \<le> mb_UIDNext b \<and> mb_UIDValidity a = mb_UIDValidity b \<and>
     (\<forall>u \<in> uids b. u \<in> uids a \<or> mb_UIDNext a \<le> u)"

lemma uid_extends_refl: "uid_extends a a"
  by (simp add: uid_extends_def)

lemma uid_extends_trans: "uid_extends a b \<Longrightarrow> uid_extends b c \<Longrightarrow> uid_extends a c"
  unfolding uid_extends_def by (auto intro: order.trans [of "mb_UIDNext a" "mb_UIDNext b"])

lemma uids_map: "uids mbox = set (map msg_UID (mb_Messages mbox))"
  by (simp add: uids_def)

lemma uid_extends_Append:
  assumes "mb_UIDNext mbox \<noteq> - 1"
  shows "uid_extends mbox (snd (Mailbox_Append mbox body flags date now))"
proof -
  let ?m = "snd (Mailbox_Append mbox body flags date now)"
  have "mb_UIDNext mbox \<le> mb_UIDNext ?m"
    using word_less_Suc [OF assms] by (simp add: Mailbox_Append_def Let_def)
  moreover have "uids ?m = insert (mb_UIDNext mbox) (uids mbox)"
    by (simp add: uids_def Mailbox_Append_def Let_def)
  moreover have "mb_UIDValidity ?m = mb_UIDValidity mbox"
    by (simp add: Mailbox_Append_def Let_def)
  ultimately show ?thesis by (simp add: uid_extends_def)
qed

lemma uid_extends_same:
  assumes "mb_UIDNext b = mb_UIDNext a" "mb_UIDValidity b = mb_UIDValidity a" "uids b \<subseteq> uids a"
  shows "uid_extends a b"
  using assms by (auto simp: uid_extends_def)

lemma arrivals_mono: "steps mailbox_step p q \<Longrightarrow> fst p \<le> fst q"
proof (induction rule: steps.induct)
  case (steps_step s t u)
  then show ?case by (auto elim: mailbox_step.cases)
qed simp

lemma uid_extends_step:
  "mailbox_step p q \<Longrightarrow> counted_ok p \<Longrightarrow> fst q < 2 ^ 32 - 1 \<Longrightarrow> uid_extends (snd p) (snd q)"
proof (induction rule: mailbox_step.induct)
  case (step_append n mbox body flags date now)
  then show ?case using next_UID(1) [of "mb_UIDNext mbox" n] by (auto simp: counted_ok_def intro!: uid_extends_Append)
next
  case (step_copy n mbox msg now)
  then show ?case
    using next_UID(1) [of "mb_UIDNext mbox" n] by (auto simp: counted_ok_def CopyMessageTo_Append intro!: uid_extends_Append)
next
  case (step_expunge n mbox us)
  have "uids (snd (Mailbox_Expunge mbox us)) \<subseteq> uids mbox"
    unfolding uids_def Expunge_messages by auto
  then show ?case
    by (auto intro!: uid_extends_same simp: Mailbox_Expunge_def case_prod_beta Let_def)
next
  case (step_flags i mbox n flags)
  then show ?case
    by (auto intro!: uid_extends_same simp: uids_map map_UID_update_flags simp del: set_map)
qed (auto intro!: uid_extends_same simp: uids_def)

lemma uid_extends_steps:
  "steps mailbox_step p q \<Longrightarrow> counted_ok p \<Longrightarrow> fst q < 2 ^ 32 - 1 \<Longrightarrow> uid_extends (snd p) (snd q) \<and> counted_ok q"
proof (induction rule: steps.induct)
  case (steps_step s t u)
  have "fst t \<le> fst u" using arrivals_mono [OF steps_one [where r = mailbox_step, OF steps_step.hyps(2)]] .
  then show ?case
    using steps_step uid_extends_step [of t u] counted_ok_step [of t u] uid_extends_trans by fastforce
qed (simp add: uid_extends_refl)

text \<open>C16. As long as fewer than \<open>2^32 - 1\<close> messages have arrived in a mailbox, its UIDs are positive,
  strictly ascending in the order of the messages and below \<open>UIDNext\<close>, which counts the arrivals;
  and once the UID of a message has gone it is not given to another message under the same
  \<open>UIDVALIDITY\<close>. With more messages the 32-bit counter wraps.\<close>

theorem uid_never_reused:
  assumes "steps mailbox_step (0, NewMailbox name) (i, a)" "steps mailbox_step (i, a) (j, b)" "steps mailbox_step (j, b) (k, c)"
    and "k < 2 ^ 32 - 1"
  shows "mailbox_ok a \<and> uids a \<inter> uids c \<subseteq> uids b \<and> mb_UIDValidity c = 1 \<and> unat (mb_UIDNext c) = k + 1"
proof -
  have start: "counted_ok (0, NewMailbox name)" using mailbox_ok_New by (simp add: counted_ok_def) (simp add: NewMailbox_def)
  have le: "i \<le> j" "j \<le> k" using arrivals_mono [OF assms(2)] arrivals_mono [OF assms(3)] by simp_all
  have na: "uid_extends (NewMailbox name) a" "counted_ok (i, a)"
    using uid_extends_steps [OF assms(1) start] le assms(4) by simp_all
  have ab: "uid_extends a b" "counted_ok (j, b)" using uid_extends_steps [OF assms(2) na(2)] le assms(4) by simp_all
  have bc: "uid_extends b c" "counted_ok (k, c)" using uid_extends_steps [OF assms(3) ab(2)] assms(4) by simp_all
  have ok: "mailbox_ok a" using na(2) le assms(4) by (simp add: counted_ok_def)
  have "u \<in> uids b" if "u \<in> uids a" "u \<in> uids c" for u
  proof (rule ccontr)
    assume "u \<notin> uids b"
    then have "mb_UIDNext b \<le> u" using bc(1) that(2) by (auto simp: uid_extends_def)
    moreover have "u < mb_UIDNext a" using ok that(1) by (auto simp: mailbox_ok_def uids_def)
    ultimately show False using ab(1) by (auto simp: uid_extends_def)
  qed
  moreover have "mb_UIDValidity c = 1"
    using na(1) ab(1) bc(1) by (simp add: uid_extends_def NewMailbox_def)
  moreover have "unat (mb_UIDNext c) = k + 1" using bc(2) assms(4) by (simp add: counted_ok_def)
  ultimately show ?thesis using ok by blast
qed

theorem uid_never_reused_witness:
  "let a = snd (Mailbox_Append (NewMailbox ''INBOX'') ''x'' [FlagDeleted] 5 7);
       b = snd (Mailbox_Expunge a None);
       c = snd (Mailbox_Append b ''y'' [] 5 7)
   in mailbox_ok a \<and> uids a \<inter> uids c \<subseteq> uids b \<and> mb_UIDValidity c = 1 \<and> unat (mb_UIDNext c) = 3"
proof -
  define a where "a = snd (Mailbox_Append (NewMailbox ''INBOX'') ''x'' [FlagDeleted] 5 7)"
  define b where "b = snd (Mailbox_Expunge a None)"
  define c where "c = snd (Mailbox_Append b ''y'' [] 5 7)"
  have "steps mailbox_step (0, NewMailbox ''INBOX'') (0 + 1, a)"
    unfolding a_def by (rule steps_one, rule step_append)
  moreover have "steps mailbox_step (0 + 1, a) (0 + 1, b)"
    unfolding b_def by (rule steps_one, rule step_expunge)
  moreover have "steps mailbox_step (0 + 1, b) (0 + 1 + 1, c)"
    unfolding c_def by (rule steps_one, rule step_append)
  ultimately have "mailbox_ok a \<and> uids a \<inter> uids c \<subseteq> uids b \<and> mb_UIDValidity c = 1 \<and> unat (mb_UIDNext c) = 0 + 1 + 1 + 1"
    by (rule uid_never_reused) simp
  then show ?thesis by (simp add: a_def b_def c_def)
qed

end
