(* ===== verification/MailboxLaws.thy ===== *)
theory MailboxLaws
  imports Mailbox "HOL-Library.Multiset"
begin

text \<open>
  What the operations of a mailbox promise a client: the EXPUNGE responses can be replayed one
  by one, number sets select the messages they name, the counters of SELECT and STATUS agree,
  and SEARCH keys compose.
\<close>

section \<open>Expunge responses\<close>

text \<open>What a client does to its list of messages on \<open>* n EXPUNGE\<close>.\<close>

definition client_expunge :: "'a list \<Rightarrow> u32 \<Rightarrow> 'a list" where
  "client_expunge xs n = take (unat n - 1) xs @ drop (unat n) xs"

fun replay_valid :: "'a list \<Rightarrow> u32 list \<Rightarrow> bool" where
  "replay_valid xs [] = True"
| "replay_valid xs (n # ns) =
     (0 < n \<and> unat n \<le> length xs \<and> replay_valid (client_expunge xs n) ns)"

lemma client_expunge_middle:
  "unat n = Suc (length pre) \<Longrightarrow> client_expunge (pre @ x # xs) n = pre @ xs"
  by (simp add: client_expunge_def)

lemma unat_offset:
  assumes "p + k + 1 < 2 ^ 32"
  shows "unat (of_nat (p + k + 1) - of_nat k :: u32) = Suc p"
proof -
  have "of_nat (p + k + 1) - of_nat k = (of_nat (p + 1) :: u32)" by simp
  then have "unat (of_nat (p + k + 1) - of_nat k :: u32) = unat (of_nat (p + 1) :: u32)" by (simp only:)
  also have "\<dots> = Suc p" using assms by (simp only: unat_of_nat len_num0 len_bit0 len_num1) simp
  finally show ?thesis .
qed

definition expunge_hit :: "num_range list option \<Rightarrow> message \<Rightarrow> bool" where
  "expunge_hit us m \<longleftrightarrow> HasFlag m FlagDeleted \<and>
     (case us of None \<Rightarrow> True | Some u \<Rightarrow> UIDSet_Contains u (msg_UID m))"

lemma expunge_loop_Cons:
  "expunge_loop us i (m # ms) =
     (if expunge_hit us m
      then (of_nat (i + 1) # fst (expunge_loop us (i + 1) ms), snd (expunge_loop us (i + 1) ms))
      else (fst (expunge_loop us (i + 1) ms), m # snd (expunge_loop us (i + 1) ms)))"
  by (simp add: expunge_hit_def case_prod_beta Let_def split: option.splits)

declare expunge_loop.simps(2) [simp del]

lemma replay_loop:
  assumes "length pre + k + length msgs < 2 ^ 32"
  shows "foldl client_expunge (pre @ msgs) (adjust_from k (fst (expunge_loop us (length pre + k) msgs))) =
           pre @ snd (expunge_loop us (length pre + k) msgs) \<and>
         replay_valid (pre @ msgs) (adjust_from k (fst (expunge_loop us (length pre + k) msgs)))"
  using assms
proof (induction msgs arbitrary: pre k)
  case (Cons m ms)
  show ?case
  proof (cases "expunge_hit us m")
    case True
    define n :: u32 where "n = of_nat (length pre + k + 1) - of_nat k"
    have n: "unat n = Suc (length pre)"
      unfolding n_def using Cons.prems by (intro unat_offset) simp
    have IH: "foldl client_expunge (pre @ ms) (adjust_from (k + 1) (fst (expunge_loop us (length pre + (k + 1)) ms))) =
           pre @ snd (expunge_loop us (length pre + (k + 1)) ms) \<and>
         replay_valid (pre @ ms) (adjust_from (k + 1) (fst (expunge_loop us (length pre + (k + 1)) ms)))"
      using Cons.prems by (intro Cons.IH) simp
    have "adjust_from k (fst (expunge_loop us (length pre + k) (m # ms))) =
        n # adjust_from (k + 1) (fst (expunge_loop us (length pre + (k + 1)) ms))"
      using True by (simp only: expunge_loop_Cons if_True fst_conv adjust_from.simps n_def add.assoc)
    moreover have "snd (expunge_loop us (length pre + k) (m # ms)) = snd (expunge_loop us (length pre + (k + 1)) ms)"
      using True by (simp only: expunge_loop_Cons if_True snd_conv add.assoc)
    moreover have "0 < n" using n by (metis unat_gt_0 zero_less_Suc word_neq_0_conv)
    ultimately show ?thesis
      using IH n by (simp add: client_expunge_middle)
  next
    case False
    have "foldl client_expunge ((pre @ [m]) @ ms) (adjust_from k (fst (expunge_loop us (length (pre @ [m]) + k) ms))) =
           (pre @ [m]) @ snd (expunge_loop us (length (pre @ [m]) + k) ms) \<and>
         replay_valid ((pre @ [m]) @ ms) (adjust_from k (fst (expunge_loop us (length (pre @ [m]) + k) ms)))"
      using Cons.prems by (intro Cons.IH) simp
    then show ?thesis using False by (simp add: expunge_loop_Cons)
  qed
qed simp

text \<open>C17. The numbers that \<open>Expunge\<close> returns are the ones a client needs: applied one after
  the other, each is a valid sequence number of the mailbox at that moment, and together they
  turn the client's list into exactly the messages that remain.\<close>

theorem expunge_replays:
  assumes "length (mb_Messages mbox) < 2 ^ 32"
  shows "replay_valid (mb_Messages mbox) (fst (Mailbox_Expunge mbox us)) \<and>
         foldl client_expunge (mb_Messages mbox) (fst (Mailbox_Expunge mbox us)) =
           mb_Messages (snd (Mailbox_Expunge mbox us))"
  using replay_loop [of "[]" 0 "mb_Messages mbox" us] assms
  by (simp add: Mailbox_Expunge_def case_prod_beta Let_def)

theorem expunge_replays_witness:
  "let mbox = (NewMailbox ''INBOX'')\<lparr>mb_Messages :=
       [\<lparr>msg_UID = 1, msg_Flags = [FlagDeleted], msg_InternalDate = 1, msg_Size = 0, msg_Body = []\<rparr>,
        \<lparr>msg_UID = 2, msg_Flags = [], msg_InternalDate = 1, msg_Size = 0, msg_Body = []\<rparr>,
        \<lparr>msg_UID = 3, msg_Flags = [FlagDeleted], msg_InternalDate = 1, msg_Size = 0, msg_Body = []\<rparr>]\<rparr>
   in fst (Mailbox_Expunge mbox None) = [1, 2] \<and>
      foldl client_expunge (mb_Messages mbox) (fst (Mailbox_Expunge mbox None)) =
        mb_Messages (snd (Mailbox_Expunge mbox None))"
proof -
  define mbox where "mbox = (NewMailbox ''INBOX'')\<lparr>mb_Messages :=
       [\<lparr>msg_UID = 1, msg_Flags = [FlagDeleted], msg_InternalDate = 1, msg_Size = 0, msg_Body = []\<rparr>,
        \<lparr>msg_UID = 2, msg_Flags = [], msg_InternalDate = 1, msg_Size = 0, msg_Body = []\<rparr>,
        \<lparr>msg_UID = 3, msg_Flags = [FlagDeleted], msg_InternalDate = 1, msg_Size = 0, msg_Body = []\<rparr>]\<rparr>"
  have "fst (Mailbox_Expunge mbox None) = [1, 2]"
    by (simp add: mbox_def Mailbox_Expunge_def expunge_loop_Cons expunge_hit_def HasFlag_def)
  moreover have "length (mb_Messages mbox) < 2 ^ 32" by (simp add: mbox_def)
  ultimately show ?thesis
    using expunge_replays [of mbox None] by (simp add: mbox_def Let_def)
qed

section \<open>Number sets\<close>

definition msg_num :: "num_kind \<Rightarrow> nat \<Rightarrow> message \<Rightarrow> u32" where
  "msg_num kind i m = (case kind of NumKindSeq \<Rightarrow> of_nat (i + 1) | NumKindUID \<Rightarrow> msg_UID m)"

lemma matches_loop_filter:
  "matches_loop rs kind mx i msgs =
     map (\<lambda>j. \<lparr>mm_SeqNum = of_nat (i + j + 1), mm_Pos = i + j, mm_Message = msgs ! j\<rparr>)
       (filter (\<lambda>j. numSetContains rs (msg_num kind (i + j) (msgs ! j)) mx) [0..<length msgs])"
proof (induction msgs arbitrary: i)
  case (Cons m ms)
  have upt: "[0..<length (m # ms)] = 0 # map Suc [0..<length ms]"
    by (simp add: map_Suc_upt upt_conv_Cons del: upt_Suc)
  show ?case
    unfolding upt by (simp add: Cons.IH [of "Suc i"] msg_num_def filter_map o_def add.assoc split: num_kind.splits)
qed simp

lemmas MatchesMessages_filter =
  MatchesMessages_def [unfolded matches_loop_filter, simplified]

text \<open>The numbers a range names when the asterisk (stored as 0) stands for \<open>mx\<close>.\<close>

definition range_names :: "u32 \<Rightarrow> num_range \<Rightarrow> u32 set" where
  "range_names mx r =
     (let a = (if Start r = 0 then mx else Start r);
          b = (if Stop r = 0 then mx else Stop r)
      in {min a b..max a b})"

lemma ordered_bounds:
  "(case (if (a :: u32) > b then (b, a) else (a, b)) of (s, t) \<Rightarrow> s \<le> n \<and> n \<le> t) \<longleftrightarrow>
   n \<in> {min a b..max a b}"
  by (auto simp: min_def max_def)

lemma numSetContains_iff: "numSetContains rs n mx \<longleftrightarrow> (\<exists>r \<in> set rs. n \<in> range_names mx r)"
  unfolding numSetContains_def range_names_def list_ex_iff Let_def ordered_bounds by (rule refl)

lemma unat_of_nat_u32: "n < 2 ^ 32 \<Longrightarrow> unat (of_nat n :: u32) = n"
  by (simp only: unat_of_nat len_num0 len_bit0 len_num1) simp

lemma MessageBySeqNum_nth:
  "i < length (mb_Messages mbox) \<Longrightarrow> length (mb_Messages mbox) < 2 ^ 32 \<Longrightarrow>
   MessageBySeqNum mbox (of_nat (i + 1)) = Some (mb_Messages mbox ! i)"
  using unat_of_nat_u32 [of "i + 1"] by (simp add: MessageBySeqNum_def Let_def)

text \<open>A sequence-number set selects, in ascending order and each once, exactly the
  numbers of existing messages that lie in one of its ranges (the asterisk being the last
  message, in either order of the bounds), and pairs each with the message that has it.\<close>

theorem seq_set_selects:
  assumes "length (mb_Messages mbox) < 2 ^ 32"
  shows "map mm_SeqNum (MatchesMessages mbox (SeqSet rs) NumKindSeq) =
           filter (\<lambda>n. \<exists>r \<in> set rs. n \<in> range_names (NumMessages mbox) r)
             (map of_nat [1..<length (mb_Messages mbox) + 1]) \<and>
         (\<forall>mm \<in> set (MatchesMessages mbox (SeqSet rs) NumKindSeq).
            MessageBySeqNum mbox (mm_SeqNum mm) = Some (mm_Message mm))"
proof
  have upt: "[1..<length (mb_Messages mbox) + 1] = map Suc [0..<length (mb_Messages mbox)]"
    by (simp add: map_Suc_upt del: upt_Suc)
  show "map mm_SeqNum (MatchesMessages mbox (SeqSet rs) NumKindSeq) =
           filter (\<lambda>n. \<exists>r \<in> set rs. n \<in> range_names (NumMessages mbox) r)
             (map of_nat [1..<length (mb_Messages mbox) + 1])"
    unfolding upt
    by (simp add: MatchesMessages_filter msg_num_def numSetContains_iff filter_map o_def NumMessages_def)
next
  show "\<forall>mm \<in> set (MatchesMessages mbox (SeqSet rs) NumKindSeq).
            MessageBySeqNum mbox (mm_SeqNum mm) = Some (mm_Message mm)"
    using assms MessageBySeqNum_nth [of _ mbox] by (auto simp: MatchesMessages_filter)
qed

theorem seq_set_selects_witness:
  "let m = \<lparr>msg_UID = 7, msg_Flags = [], msg_InternalDate = 1, msg_Size = 0, msg_Body = []\<rparr>;
       mbox = (NewMailbox ''INBOX'')\<lparr>mb_Messages := [m, m, m]\<rparr>;
       rs = [\<lparr>Start = 0, Stop = 2\<rparr>]
   in map mm_SeqNum (MatchesMessages mbox (SeqSet rs) NumKindSeq) =
        filter (\<lambda>n. \<exists>r \<in> set rs. n \<in> range_names (NumMessages mbox) r) (map of_nat [1..<4]) \<and>
      map mm_SeqNum (MatchesMessages mbox (SeqSet rs) NumKindSeq) = [2, 3]"
proof -
  define m where "m = \<lparr>msg_UID = 7, msg_Flags = [], msg_InternalDate = 1, msg_Size = 0, msg_Body = []\<rparr>"
  define mbox where "mbox = (NewMailbox ''INBOX'')\<lparr>mb_Messages := [m, m, m]\<rparr>"
  define rs where "rs = [\<lparr>Start = 0, Stop = 2\<rparr>]"
  have len: "length (mb_Messages mbox) = 3" by (simp add: mbox_def)
  have upt: "[1..<4] = [1, 2, 3 :: nat]" by (simp add: upt_rec)
  have "map mm_SeqNum (MatchesMessages mbox (SeqSet rs) NumKindSeq) =
        filter (\<lambda>n. \<exists>r \<in> set rs. n \<in> range_names (NumMessages mbox) r) (map of_nat [1..<4])"
    using seq_set_selects [of mbox rs] len by simp
  moreover have "filter (\<lambda>n. \<exists>r \<in> set rs. n \<in> range_names (NumMessages mbox) r) (map of_nat [1..<4]) = [2, 3]"
    unfolding upt by (simp add: rs_def range_names_def NumMessages_def len word_le_nat_alt)
  ultimately show ?thesis by (simp add: m_def mbox_def rs_def Let_def)
qed

text \<open>
  For UIDs the asterisk is resolved with the number of messages, not with the highest UID: as
  soon as messages have been expunged, \<open>*\<close> names no message.
\<close>

text \<open>With UIDs the asterisk is resolved with the number of messages instead of the highest
  UID: when every UID is above the number of messages, as it is once enough messages have been
  expunged, the set consisting of the asterisk selects nothing at all.\<close>

theorem uid_star_selects_nothing:
  assumes "\<forall>m \<in> set (mb_Messages mbox). NumMessages mbox < msg_UID m"
  shows "MatchesMessages mbox (UIDSet [\<lparr>Start = 0, Stop = 0\<rparr>]) NumKindUID = []"
proof -
  have "\<not> numSetContains [\<lparr>Start = 0, Stop = 0\<rparr>] (msg_num NumKindUID j (mb_Messages mbox ! j)) (NumMessages mbox)"
    if "j < length (mb_Messages mbox)" for j
  proof -
    have "NumMessages mbox < msg_UID (mb_Messages mbox ! j)" using assms that by simp
    then show ?thesis by (auto simp: numSetContains_def msg_num_def Let_def)
  qed
  then show ?thesis
    by (simp add: MatchesMessages_filter filter_empty_conv NumMessages_def)
qed

theorem uid_star_selects_nothing_witness:
  "MatchesMessages ((NewMailbox ''INBOX'')\<lparr>mb_UIDNext := 3, mb_Messages :=
      [\<lparr>msg_UID = 2, msg_Flags = [], msg_InternalDate = 1, msg_Size = 0, msg_Body = []\<rparr>]\<rparr>)
     (UIDSet [\<lparr>Start = 0, Stop = 0\<rparr>]) NumKindUID = []"
  by (rule uid_star_selects_nothing) (simp add: NumMessages_def)

section \<open>The counters of SELECT and STATUS\<close>

lemma count_foldl:
  "foldl (\<lambda>count m. if P m then count + 1 else count) (c :: u32) ms = c + of_nat (length (filter P ms))"
  by (induction ms arbitrary: c) (auto simp: add.assoc)

lemmas counter_defs = NumUnseen_def NumRecent_def NumDeleted_def NumMessages_def

lemma first_unseen_loop_zero:
  "i + length ms < 2 ^ 32 \<Longrightarrow> first_unseen_loop i ms = 0 \<longleftrightarrow> (\<forall>m \<in> set ms. HasFlag m FlagSeen)"
proof (induction ms arbitrary: i)
  case (Cons m ms)
  have "unat (of_nat (i + 1) :: u32) = i + 1" using Cons.prems by (intro unat_of_nat_u32) simp
  then have "(of_nat (i + 1) :: u32) \<noteq> 0" by (metis add_is_0 unat_0 one_neq_zero)
  moreover have "first_unseen_loop (i + 1) ms = 0 \<longleftrightarrow> (\<forall>m \<in> set ms. HasFlag m FlagSeen)"
    using Cons.prems by (intro Cons.IH) simp
  ultimately show ?case by simp
qed simp

lemma first_unseen_loop_nonzero:
  "i + length ms < 2 ^ 32 \<Longrightarrow> \<not> (\<forall>m \<in> set ms. HasFlag m FlagSeen) \<Longrightarrow>
   \<exists>j < length ms. unat (first_unseen_loop i ms) = i + j + 1 \<and> \<not> HasFlag (ms ! j) FlagSeen \<and>
     (\<forall>k < j. HasFlag (ms ! k) FlagSeen)"
proof (induction ms arbitrary: i)
  case (Cons m ms)
  show ?case
  proof (cases "HasFlag m FlagSeen")
    case True
    then have "\<exists>j < length ms. unat (first_unseen_loop (i + 1) ms) = (i + 1) + j + 1 \<and>
        \<not> HasFlag (ms ! j) FlagSeen \<and> (\<forall>k < j. HasFlag (ms ! k) FlagSeen)"
      using Cons.prems by (intro Cons.IH) auto
    then obtain j where j: "j < length ms" "unat (first_unseen_loop (i + 1) ms) = (i + 1) + j + 1"
      "\<not> HasFlag (ms ! j) FlagSeen" "\<forall>k < j. HasFlag (ms ! k) FlagSeen" by blast
    have "\<forall>k < Suc j. HasFlag ((m # ms) ! k) FlagSeen"
      using j(4) True by (auto simp: less_Suc_eq_0_disj)
    then show ?thesis using j True by (intro exI [of _ "Suc j"]) simp
  next
    case False
    moreover have "unat (of_nat (i + 1) :: u32) = i + 1" using Cons.prems by (intro unat_of_nat_u32) simp
    ultimately show ?thesis by (intro exI [of _ 0]) simp
  qed
qed simp

text \<open>The numbers SELECT reports are those of the mailbox: EXISTS is the number of messages,
  the unseen count of STATUS the number of messages without the seen flag, and the first-unseen
  number is 0 when all messages are seen and otherwise the number of an unseen message before
  which all are seen.\<close>

theorem select_counters:
  assumes "length (mb_Messages mbox) < 2 ^ 32"
  shows "unat (sd_NumMessages (Mailbox_SelectData mbox ro)) = length (mb_Messages mbox) \<and>
         unat (NumUnseen mbox) = length (filter (\<lambda>m. \<not> HasFlag m FlagSeen) (mb_Messages mbox)) \<and>
         (if \<forall>m \<in> set (mb_Messages mbox). HasFlag m FlagSeen
          then sd_FirstUnseen (Mailbox_SelectData mbox ro) = 0
          else \<exists>j < length (mb_Messages mbox).
                 unat (sd_FirstUnseen (Mailbox_SelectData mbox ro)) = j + 1 \<and>
                 \<not> HasFlag (mb_Messages mbox ! j) FlagSeen \<and>
                 (\<forall>k < j. HasFlag (mb_Messages mbox ! k) FlagSeen))"
proof (intro conjI)
  show "unat (sd_NumMessages (Mailbox_SelectData mbox ro)) = length (mb_Messages mbox)"
    using unat_of_nat_u32 [OF assms] by (simp add: Mailbox_SelectData_def NumMessages_def)
  have "length (filter (\<lambda>m. \<not> HasFlag m FlagSeen) (mb_Messages mbox)) < 2 ^ 32"
    using assms length_filter_le le_less_trans by blast
  then show "unat (NumUnseen mbox) = length (filter (\<lambda>m. \<not> HasFlag m FlagSeen) (mb_Messages mbox))"
    unfolding NumUnseen_def count_foldl using unat_of_nat_u32 by simp
  show "if \<forall>m \<in> set (mb_Messages mbox). HasFlag m FlagSeen
          then sd_FirstUnseen (Mailbox_SelectData mbox ro) = 0
          else \<exists>j < length (mb_Messages mbox).
                 unat (sd_FirstUnseen (Mailbox_SelectData mbox ro)) = j + 1 \<and>
                 \<not> HasFlag (mb_Messages mbox ! j) FlagSeen \<and>
                 (\<forall>k < j. HasFlag (mb_Messages mbox ! k) FlagSeen)"
    using first_unseen_loop_zero [of 0 "mb_Messages mbox"] first_unseen_loop_nonzero [of 0 "mb_Messages mbox"] assms
    by (simp add: Mailbox_SelectData_def FirstUnseen_def)
qed

theorem select_counters_witness:
  "let m = \<lparr>msg_UID = 1, msg_Flags = [FlagSeen], msg_InternalDate = 1, msg_Size = 0, msg_Body = []\<rparr>;
       mbox = (NewMailbox ''INBOX'')\<lparr>mb_Messages := [m, m\<lparr>msg_Flags := []\<rparr>]\<rparr>
   in unat (sd_NumMessages (Mailbox_SelectData mbox False)) = 2 \<and> unat (NumUnseen mbox) = 1"
proof -
  define m where "m = \<lparr>msg_UID = 1, msg_Flags = [FlagSeen], msg_InternalDate = 1, msg_Size = 0, msg_Body = []\<rparr>"
  define mbox where "mbox = (NewMailbox ''INBOX'')\<lparr>mb_Messages := [m, m\<lparr>msg_Flags := []\<rparr>]\<rparr>"
  have "HasFlag m FlagSeen" "\<not> HasFlag (m\<lparr>msg_Flags := []\<rparr>) FlagSeen"
    by (simp_all add: m_def HasFlag_def)
  then have "length (mb_Messages mbox) < 2 ^ 32" "length (mb_Messages mbox) = 2"
    "length (filter (\<lambda>m. \<not> HasFlag m FlagSeen) (mb_Messages mbox)) = 1"
    by (simp_all add: mbox_def)
  then have "unat (sd_NumMessages (Mailbox_SelectData mbox False)) = 2 \<and> unat (NumUnseen mbox) = 1"
    using select_counters [of mbox False] by simp
  then show ?thesis by (simp add: mbox_def m_def Let_def)
qed

section \<open>SEARCH\<close>

text \<open>The zero value of \<open>SearchCriteria\<close>, which every message matches.\<close>

definition zero_base :: search_base where
  "zero_base =
     \<lparr>sc_SeqNum = None, sc_UID = None, sc_Since = 0, sc_Before = 0, sc_On = 0,
      sc_SentSince = 0, sc_SentBefore = 0, sc_SentOn = 0,
      sc_SavedBefore = 0, sc_SavedSince = 0, sc_SavedOn = 0,
      sc_Header = [], sc_Body = [], sc_Text = [], sc_Larger = 0, sc_Smaller = 0,
      sc_Flag = [], sc_NotFlag = [], sc_ModSeq = None, sc_Younger = 0, sc_Older = 0,
      sc_SaveResult = False, sc_Fuzzy = False\<rparr>"

lemma zero_base_matches [simp]:
  "match_head m n zero_base" "match_sent pe m zero_base = Inr True" "match_tail rh m zero_base"
  by (simp_all add: match_head_def match_sent_def match_tail_def zero_base_def)

lemma matches_not:
  "matchesCriteria rh pt m n c = Inr b \<Longrightarrow>
   matchesCriteria rh pt m n (Criteria zero_base [] [c]) = Inr (\<not> b)"
  by simp

lemma matches_or:
  "matchesCriteria rh pt m n a = Inr ba \<Longrightarrow> matchesCriteria rh pt m n b = Inr bb \<Longrightarrow>
   matchesCriteria rh pt m n (Criteria zero_base [OrPair a b] []) = Inr (ba \<or> bb)"
  by simp

text \<open>The search loop is a filter as long as no criterion panics.\<close>

definition total_on :: "('m \<Rightarrow> nat \<Rightarrow> panic + bool) \<Rightarrow> ('m \<Rightarrow> nat \<Rightarrow> bool) \<Rightarrow> nat \<Rightarrow> 'm list \<Rightarrow> bool" where
  "total_on f P i ms \<longleftrightarrow> (\<forall>j < length ms. f (ms ! j) (i + j) = Inr (P (ms ! j) (i + j)))"

lemma total_on_Cons:
  "total_on f P i (m # ms) \<longleftrightarrow> f m i = Inr (P m i) \<and> total_on f P (Suc i) ms"
  by (auto simp: total_on_def less_Suc_eq_0_disj nth_Cons')

lemma search_loop_total:
  assumes "search_loop rh pt kind (Some c) i ms = Inr xs"
  shows "total_on (\<lambda>m j. matchesCriteria rh pt m (of_nat (j + 1)) c)
           (\<lambda>m j. matchesCriteria rh pt m (of_nat (j + 1)) c = Inr True) i ms"
  using assms
proof (induction ms arbitrary: i xs)
  case (Cons m ms)
  obtain b ys where "matchesCriteria rh pt m (of_nat (i + 1)) c = Inr b"
    "search_loop rh pt kind (Some c) (i + 1) ms = Inr ys"
    using Cons.prems by (auto simp: matchesCriteriaPtr_def Let_def split: sum.splits)
  then show ?case using Cons.IH [of "i + 1" ys] by (cases b) (simp_all add: total_on_Cons)
qed (simp add: total_on_def)

lemma search_loop_filter:
  assumes "total_on (\<lambda>m j. matchesCriteria rh pt m (of_nat (j + 1)) c) P i ms"
  shows "search_loop rh pt kind (Some c) i ms =
     Inr (map (\<lambda>(m, j). msg_num kind j m) (filter (\<lambda>(m, j). P m j) (zip ms [i..<i + length ms])))"
  using assms
proof (induction ms arbitrary: i)
  case (Cons m ms)
  have upt: "[i..<i + length (m # ms)] = i # [Suc i..<Suc i + length ms]"
    by (simp add: upt_conv_Cons del: upt_Suc)
  have "matchesCriteria rh pt m (of_nat (i + 1)) c = Inr (P m i)"
    using Cons.prems by (simp add: total_on_Cons)
  moreover have "search_loop rh pt kind (Some c) (Suc i) ms =
     Inr (map (\<lambda>(m, j). msg_num kind j m) (filter (\<lambda>(m, j). P m j) (zip ms [Suc i..<Suc i + length ms])))"
    using Cons.prems by (intro Cons.IH) (simp add: total_on_Cons)
  ultimately show ?case
    unfolding upt by (simp add: matchesCriteriaPtr_def Let_def msg_num_def split: num_kind.splits)
qed simp

lemma search_loop_all:
  "search_loop rh pt kind None i ms = Inr (map (\<lambda>(m, j). msg_num kind j m) (zip ms [i..<i + length ms]))"
proof (induction ms arbitrary: i)
  case (Cons m ms)
  have upt: "[i..<i + length (m # ms)] = i # [Suc i..<Suc i + length ms]"
    by (simp add: upt_conv_Cons del: upt_Suc)
  show ?case unfolding upt
    using Cons.IH [of "Suc i"] by (simp add: matchesCriteriaPtr_def Let_def msg_num_def split: num_kind.splits)
qed simp

lemma SearchMessages_returns:
  assumes "SearchMessages rh pt mbox kind (Some c) = Inr xs"
  obtains P where
    "total_on (\<lambda>m j. matchesCriteria rh pt m (of_nat (j + 1)) c) P 0 (mb_Messages mbox)"
    "xs = map (\<lambda>(m, j). msg_num kind j m)
            (filter (\<lambda>(m, j). P m j) (zip (mb_Messages mbox) [0..<length (mb_Messages mbox)]))"
proof -
  have t: "total_on (\<lambda>m j. matchesCriteria rh pt m (of_nat (j + 1)) c)
           (\<lambda>m j. matchesCriteria rh pt m (of_nat (j + 1)) c = Inr True) 0 (mb_Messages mbox)"
    using assms search_loop_total [of rh pt kind c 0] by (simp add: SearchMessages_def)
  show thesis
    using that [OF t] assms search_loop_filter [OF t, of kind] by (simp add: SearchMessages_def)
qed

text \<open>C28. SEARCH answers NOT and OR as set operations: if a search for a criterion returns,
  the search for its negation returns too, and the two results together are, each message
  counted once, the numbers of all messages; and the search for the disjunction of two criteria
  that each return gives the union of the two results.\<close>

theorem search_boolean:
  assumes a: "SearchMessages rh pt mbox kind (Some c) = Inr xs"
    and b: "SearchMessages rh pt mbox kind (Some d) = Inr ys"
  shows "(\<exists>zs all. SearchMessages rh pt mbox kind (Some (Criteria zero_base [] [c])) = Inr zs \<and>
                  SearchMessages rh pt mbox kind None = Inr all \<and> mset xs + mset zs = mset all) \<and>
         (\<exists>us. SearchMessages rh pt mbox kind (Some (Criteria zero_base [OrPair c d] [])) = Inr us \<and>
               set us = set xs \<union> set ys)"
proof -
  let ?ms = "mb_Messages mbox" and ?zip = "zip (mb_Messages mbox) [0..<length (mb_Messages mbox)]"
  let ?num = "\<lambda>(m, j). msg_num kind j m"
  obtain P where P: "total_on (\<lambda>m j. matchesCriteria rh pt m (of_nat (j + 1)) c) P 0 ?ms"
    "xs = map ?num (filter (\<lambda>(m, j). P m j) ?zip)"
    using a by (rule SearchMessages_returns)
  obtain Q where Q: "total_on (\<lambda>m j. matchesCriteria rh pt m (of_nat (j + 1)) d) Q 0 ?ms"
    "ys = map ?num (filter (\<lambda>(m, j). Q m j) ?zip)"
    using b by (rule SearchMessages_returns)
  have n: "total_on (\<lambda>m j. matchesCriteria rh pt m (of_nat (j + 1)) (Criteria zero_base [] [c]))
      (\<lambda>m j. \<not> P m j) 0 ?ms"
    using P(1) by (simp add: total_on_def)
  have o: "total_on (\<lambda>m j. matchesCriteria rh pt m (of_nat (j + 1)) (Criteria zero_base [OrPair c d] []))
      (\<lambda>m j. P m j \<or> Q m j) 0 ?ms"
    using P(1) Q(1) by (simp add: total_on_def)
  have "mset (filter (\<lambda>(m, j). P m j) ?zip) + mset (filter (\<lambda>(m, j). \<not> P m j) ?zip) = mset ?zip"
    using multiset_partition [of "mset ?zip" "\<lambda>(m, j). P m j"] by (simp add: case_prod_beta')
  then have "mset xs + mset (map ?num (filter (\<lambda>(m, j). \<not> P m j) ?zip)) = mset (map ?num ?zip)"
    unfolding P(2) mset_map by (metis image_mset_union)
  moreover have "set (map ?num (filter (\<lambda>(m, j). P m j \<or> Q m j) ?zip)) = set xs \<union> set ys"
    unfolding P(2) Q(2) by auto
  ultimately show ?thesis
    using search_loop_filter [OF n, of kind] search_loop_filter [OF o, of kind] search_loop_all [of rh pt kind 0 ?ms]
    by (simp add: SearchMessages_def)
qed

theorem search_boolean_witness:
  "let m = \<lparr>msg_UID = 4, msg_Flags = [FlagSeen], msg_InternalDate = 1, msg_Size = 0, msg_Body = []\<rparr>;
       mbox = (NewMailbox ''INBOX'')\<lparr>mb_Messages := [m, m\<lparr>msg_UID := 9, msg_Flags := []\<rparr>]\<rparr>;
       c = Criteria (zero_base\<lparr>sc_Flag := [FlagSeen]\<rparr>) [] []
   in \<exists>zs all. SearchMessages (\<lambda>_. None) (\<lambda>_ _. None) mbox NumKindUID (Some (Criteria zero_base [] [c])) = Inr zs \<and>
               SearchMessages (\<lambda>_. None) (\<lambda>_ _. None) mbox NumKindUID None = Inr all \<and>
               {#4#} + mset zs = mset all"
proof -
  define m where "m = \<lparr>msg_UID = 4, msg_Flags = [FlagSeen], msg_InternalDate = 1, msg_Size = 0, msg_Body = []\<rparr>"
  define mbox where "mbox = (NewMailbox ''INBOX'')\<lparr>mb_Messages := [m, m\<lparr>msg_UID := 9, msg_Flags := []\<rparr>]\<rparr>"
  define c where "c = Criteria (zero_base\<lparr>sc_Flag := [FlagSeen]\<rparr>) [] []"
  have "SearchMessages (\<lambda>_. None) (\<lambda>_ _. None) mbox NumKindUID (Some c) = Inr [4]"
    by (simp add: SearchMessages_def mbox_def m_def c_def matchesCriteriaPtr_def HasFlag_def
        match_head_def match_sent_def match_tail_def zero_base_def)
  from search_boolean [OF this this] show ?thesis
    by (simp add: mbox_def m_def c_def Let_def)
qed

end
