(* ===== verification/Types.thy ===== *)
theory Types
  imports Mailbox
begin

text \<open>
  The option and data structures that the server passes to a session and back
  (\<open>fetch.go\<close>, \<open>store.go\<close>, \<open>append.go\<close>, \<open>copy.go\<close>, \<open>list.go\<close>, \<open>search.go\<close>, \<open>select.go\<close>,
  \<open>imap.go\<close>). A pointer that may be nil is an option; a slice whose nil-ness the code tests
  is an option of a list; the maps keyed by section pointers are lists of pairs.
\<close>

record fetch_options =
  fo_BodySection :: "body_section list"
  fo_BodyStructure :: bool
  fo_Envelope :: bool
  fo_Flags :: bool
  fo_InternalDate :: bool
  fo_RFC822Size :: bool
  fo_UID :: bool
  fo_ModSeq :: bool
  fo_Preview :: bool
  fo_PreviewLazy :: bool
  fo_SaveDate :: bool
  fo_EmailID :: bool
  fo_ThreadID :: bool
  fo_BinarySection :: "(int list \<times> bool \<times> (int \<times> int) option) list"
  fo_BinarySizeSection :: "int list list"
  fo_ChangedSince :: "64 word"
  fo_Vanished :: bool

definition zero_fetch_options :: fetch_options where
  "zero_fetch_options =
     \<lparr>fo_BodySection = [], fo_BodyStructure = False, fo_Envelope = False, fo_Flags = False,
      fo_InternalDate = False, fo_RFC822Size = False, fo_UID = False, fo_ModSeq = False,
      fo_Preview = False, fo_PreviewLazy = False, fo_SaveDate = False, fo_EmailID = False,
      fo_ThreadID = False, fo_BinarySection = [], fo_BinarySizeSection = [],
      fo_ChangedSince = 0, fo_Vanished = False\<rparr>"

record fetch_data =
  fd_SeqNum :: u32
  fd_Envelope :: "envelope option"
  fd_Flags :: "flag list option"
  fd_InternalDate :: time
  fd_RFC822Size :: int
  fd_UID :: u32
  fd_ModSeq :: "64 word"
  fd_Preview :: string
  fd_PreviewNIL :: bool
  fd_SaveDate :: "time option"
  fd_SaveDateNIL :: bool
  fd_EmailID :: string
  fd_ThreadID :: string
  fd_BodySection :: "(body_section \<times> string) list"
  fd_BinarySection :: "(int list \<times> string) list"
  fd_BinarySizeSection :: "(int list \<times> u32) list"

definition new_fetch_data :: "u32 \<Rightarrow> fetch_data" where
  "new_fetch_data seqNum =
     \<lparr>fd_SeqNum = seqNum, fd_Envelope = None, fd_Flags = None, fd_InternalDate = 0,
      fd_RFC822Size = 0, fd_UID = 0, fd_ModSeq = 0, fd_Preview = [], fd_PreviewNIL = False,
      fd_SaveDate = None, fd_SaveDateNIL = False, fd_EmailID = [], fd_ThreadID = [],
      fd_BodySection = [], fd_BinarySection = [], fd_BinarySizeSection = []\<rparr>"

datatype store_action = StoreFlagsSet | StoreFlagsAdd | StoreFlagsDel

definition StoreAction_String :: "store_action \<Rightarrow> string" where
  "StoreAction_String a =
     (case a of
        StoreFlagsSet \<Rightarrow> ''FLAGS''
      | StoreFlagsAdd \<Rightarrow> ''+FLAGS''
      | StoreFlagsDel \<Rightarrow> ''-FLAGS'')"

record store_flags =
  sf_Action :: store_action
  sf_Silent :: bool
  sf_Flags :: "flag list"

record store_options =
  UnchangedSince :: "64 word"

record create_options =
  SpecialUse :: string

record append_options =
  ao_Flags :: "flag list"
  ao_InternalDate :: time
  ao_Binary :: bool
  ao_UTF8 :: bool

record append_data =
  ad_UIDValidity :: u32
  ad_UID :: u32

record copy_data =
  cd_UIDValidity :: u32
  cd_SourceUIDs :: "num_range list"
  cd_DestUIDs :: "num_range list"

record list_return_metadata =
  lm_Options :: "string list"
  lm_MaxSize :: int
  lm_Depth :: string

record list_options =
  lo_SelectSubscribed :: bool
  lo_SelectRemote :: bool
  lo_SelectRecursiveMatch :: bool
  lo_SelectSpecialUse :: bool
  lo_ReturnSubscribed :: bool
  lo_ReturnChildren :: bool
  lo_ReturnSpecialUse :: bool
  lo_ReturnStatus :: "status_options option"
  lo_ReturnMyRights :: bool
  lo_ReturnMetadata :: "list_return_metadata option"

definition zero_list_options :: list_options where
  "zero_list_options =
     \<lparr>lo_SelectSubscribed = False, lo_SelectRemote = False, lo_SelectRecursiveMatch = False,
      lo_SelectSpecialUse = False, lo_ReturnSubscribed = False, lo_ReturnChildren = False,
      lo_ReturnSpecialUse = False, lo_ReturnStatus = None, lo_ReturnMyRights = False,
      lo_ReturnMetadata = None\<rparr>"

definition MailboxAttrHasChildren :: string where
  "MailboxAttrHasChildren = BSL # ''HasChildren''"

definition MailboxAttrHasNoChildren :: string where
  "MailboxAttrHasNoChildren = BSL # ''HasNoChildren''"

definition MailboxAttrSubscribed :: string where
  "MailboxAttrSubscribed = BSL # ''Subscribed''"

text \<open>\<open>Delim\<close> is a rune; the value 0 means that there is none.\<close>

record list_data =
  ld_Attrs :: "string list"
  ld_Delim :: "char option"
  ld_Mailbox :: string
  ld_OldName :: string
  ld_ChildInfo :: "string list"
  ld_Status :: "status_data option"
  ld_MyRights :: string
  ld_Metadata :: "(string \<times> string) list option"

record search_options =
  sr_ReturnMin :: bool
  sr_ReturnMax :: bool
  sr_ReturnAll :: bool
  sr_ReturnCount :: bool
  sr_ReturnSave :: bool
  sr_ReturnContext :: bool
  sr_ReturnUpdate :: bool
  sr_ReturnPartial :: "(int \<times> u32) option"

text \<open>The offset of a partial result is negative when it counts from the end.\<close>

record search_partial_data =
  sp_Offset :: int
  sp_Total :: u32
  sp_UIDs :: "u32 list"

record search_context_update =
  cu_Position :: u32
  cu_SeqSet :: "num_range list option"

record search_data =
  sd_AllSeqNums :: "u32 list"
  sd_AllUIDs :: "u32 list"
  sd_Min :: u32
  sd_Max :: u32
  sd_All :: "num_range list option"
  sd_Count :: u32
  sd_ModSeq :: "64 word"
  sd_Partial :: "search_partial_data option"
  sd_AddTo :: "search_context_update list"
  sd_RemoveFrom :: "search_context_update list"

record qresync_seq_match =
  qm_SeqNums :: "num_range list"
  qm_UIDs :: "num_range list"

record select_qresync =
  qr_UIDValidity :: u32
  qr_ModSeq :: "64 word"
  qr_KnownUIDs :: "num_range list option"
  qr_SeqMatch :: "qresync_seq_match option"

record select_options =
  sel_ReadOnly :: bool
  sel_CondStore :: bool
  sel_QResync :: "select_qresync option"

definition zero_select_options :: "bool \<Rightarrow> select_options" where
  "zero_select_options readOnly = \<lparr>sel_ReadOnly = readOnly, sel_CondStore = False, sel_QResync = None\<rparr>"

end
