(* ===== verification/MemStore.thy ===== *)
theory MemStore
  imports Types
begin

text \<open>
  The users and mailboxes of the in-memory backend (\<open>server/memserver/user.go\<close> and
  \<open>server.go\<close>). Mailboxes and the \<open>UserData\<close> objects are shared through pointers, so
  they live in a heap: an address of \<open>w_mailbox\<close> stands for a \<open>*Mailbox\<close>, an address of
  \<open>w_userData\<close> for a \<open>*UserData\<close>, whose \<open>Mailboxes\<close> map leads from names to addresses.
  Addresses below the two counters have been allocated.
\<close>

type_synonym addr = nat

record world =
  w_mailbox :: "addr \<Rightarrow> mailbox"
  w_nextMailbox :: addr
  w_userData :: "addr \<Rightarrow> (string \<rightharpoonup> addr)"
  w_nextUserData :: addr
  w_users :: "string \<rightharpoonup> string"
  w_dataOf :: "string \<rightharpoonup> addr"

datatype mem_error =
    IMAPError string
  | ErrNoSuchMailbox
  | ErrMailboxAlreadyExists
  | ReadError string

definition mem_New :: world where
  "mem_New =
     \<lparr>w_mailbox = (\<lambda>_. NewMailbox []), w_nextMailbox = 0,
      w_userData = (\<lambda>_. Map.empty), w_nextUserData = 0,
      w_users = Map.empty, w_dataOf = Map.empty\<rparr>"

definition alloc_mailbox :: "mailbox \<Rightarrow> world \<Rightarrow> addr \<times> world" where
  "alloc_mailbox mbox w =
     (w_nextMailbox w,
      w\<lparr>w_mailbox := (w_mailbox w)(w_nextMailbox w := mbox), w_nextMailbox := w_nextMailbox w + 1\<rparr>)"

definition NewUserData :: "world \<Rightarrow> addr \<times> world" where
  "NewUserData w =
     (let (inbox, w) = alloc_mailbox ((NewMailbox ''INBOX'')\<lparr>mb_Subscribed := True\<rparr>) w;
          u = w_nextUserData w
      in (u, w\<lparr>w_userData := (w_userData w)(u := [''INBOX'' \<mapsto> inbox]), w_nextUserData := u + 1\<rparr>))"

definition AddUser :: "string \<Rightarrow> string \<Rightarrow> world \<Rightarrow> world" where
  "AddUser username password w =
     (let w = w\<lparr>w_users := (w_users w)(username \<mapsto> password)\<rparr> in
      case w_dataOf w username of
        Some _ \<Rightarrow> w
      | None \<Rightarrow> (let (u, w) = NewUserData w in w\<lparr>w_dataOf := (w_dataOf w)(username \<mapsto> u)\<rparr>))"

definition RemoveUser :: "string \<Rightarrow> world \<Rightarrow> world" where
  "RemoveUser username w =
     w\<lparr>w_users := (w_users w)(username := None), w_dataOf := (w_dataOf w)(username := None)\<rparr>"

definition GetUserData :: "string \<Rightarrow> world \<Rightarrow> addr option" where
  "GetUserData username w = w_dataOf w username"

definition normalizeINBOX :: "string \<Rightarrow> string" where
  "normalizeINBOX name =
     (if length name = 5 \<and> map upper_char name = ''INBOX'' then ''INBOX'' else name)"

definition getMailboxLocked :: "addr \<Rightarrow> string \<Rightarrow> world \<Rightarrow> addr option" where
  "getMailboxLocked u name w =
     (case w_userData w u name of
        Some a \<Rightarrow> Some a
      | None \<Rightarrow> (if normalizeINBOX name = ''INBOX'' then w_userData w u ''INBOX'' else None))"

definition GetMailbox :: "addr \<Rightarrow> string \<Rightarrow> world \<Rightarrow> addr option" where
  "GetMailbox u name w = getMailboxLocked u name w"

definition CreateMailbox :: "addr \<Rightarrow> string \<Rightarrow> world \<Rightarrow> mem_error option \<times> world" where
  "CreateMailbox u name w =
     (if getMailboxLocked u name w \<noteq> None then (Some ErrMailboxAlreadyExists, w)
      else (let (a, w) = alloc_mailbox (NewMailbox name) w in
            (None, w\<lparr>w_userData := (w_userData w)(u := (w_userData w u)(name \<mapsto> a))\<rparr>)))"

definition DeleteMailbox :: "addr \<Rightarrow> string \<Rightarrow> world \<Rightarrow> mem_error option \<times> world" where
  "DeleteMailbox u name w =
     (if normalizeINBOX name = ''INBOX'' then (Some (IMAPError ''cannot delete INBOX''), w)
      else if getMailboxLocked u name w = None then (Some ErrNoSuchMailbox, w)
      else (None, w\<lparr>w_userData := (w_userData w)(u := (w_userData w u)(name := None))\<rparr>))"

definition RenameMailbox :: "addr \<Rightarrow> string \<Rightarrow> string \<Rightarrow> world \<Rightarrow> mem_error option \<times> world" where
  "RenameMailbox u oldName newName w =
     (case getMailboxLocked u oldName w of
        None \<Rightarrow> (Some ErrNoSuchMailbox, w)
      | Some a \<Rightarrow>
          (if getMailboxLocked u newName w \<noteq> None then (Some ErrMailboxAlreadyExists, w)
           else (None,
             w\<lparr>w_mailbox := (w_mailbox w)(a := (w_mailbox w a)\<lparr>mb_Name := newName\<rparr>),
               w_userData := (w_userData w)(u := (w_userData w u)(oldName := None, newName \<mapsto> a))\<rparr>)))"

text \<open>
  \<open>MailboxNames\<close> returns the names in the order in which the runtime iterates over the map,
  which Go leaves open: \<open>iteration\<close> says that a list is such an order.
\<close>

definition iteration :: "string list \<Rightarrow> (string \<rightharpoonup> addr) \<Rightarrow> bool" where
  "iteration names m \<longleftrightarrow> distinct names \<and> set names = dom m"

section \<open>Laws\<close>

text \<open>What a lookup finds, for names spelled canonically and for the spellings of INBOX.\<close>

lemma normalizeINBOX_iff: "normalizeINBOX name = ''INBOX'' \<longleftrightarrow> map upper_char name = ''INBOX''"
proof -
  have "length name = 5" if "map upper_char name = ''INBOX''"
    using arg_cong [OF that, of length] by simp
  moreover have "map upper_char ''INBOX'' = ''INBOX''" by code_simp
  ultimately show ?thesis by (auto simp: normalizeINBOX_def)
qed

lemma normalizeINBOX_INBOX [simp]: "normalizeINBOX ''INBOX'' = ''INBOX''"
  by code_simp

text \<open>
  The invariant of the store: every pointer leads to an allocated object, and users with a
  password are those with data, and mailboxes satisfy the UID invariant.
\<close>

definition world_ok :: "world \<Rightarrow> bool" where
  "world_ok w \<longleftrightarrow>
     dom (w_users w) = dom (w_dataOf w) \<and>
     (\<forall>n u. w_dataOf w n = Some u \<longrightarrow> u < w_nextUserData w) \<and>
     (\<forall>u n a. u < w_nextUserData w \<longrightarrow> w_userData w u n = Some a \<longrightarrow> a < w_nextMailbox w) \<and>
     (\<forall>a < w_nextMailbox w. mailbox_ok (w_mailbox w a))"

lemma world_ok_New: "world_ok mem_New"
  by (simp add: world_ok_def mem_New_def)

lemma mailbox_ok_field [simp]:
  "mailbox_ok (mbox\<lparr>mb_Name := n\<rparr>) = mailbox_ok mbox"
  "mailbox_ok (mbox\<lparr>mb_Subscribed := b\<rparr>) = mailbox_ok mbox"
  by (simp_all add: mailbox_ok_def)

lemma world_ok_AddUser:
  assumes "world_ok w"
  shows "world_ok (AddUser username password w)"
proof (cases "w_dataOf w username")
  case (Some u)
  then have "insert username (dom (w_users w)) = dom (w_users w)"
    using assms by (auto simp: world_ok_def)
  with Some assms show ?thesis by (simp add: AddUser_def world_ok_def)
next
  case None
  then show ?thesis
    using assms mailbox_ok_New [of "''INBOX''"]
    by (auto simp: AddUser_def world_ok_def NewUserData_def alloc_mailbox_def Let_def less_Suc_eq)
qed

lemma world_ok_RemoveUser: "world_ok w \<Longrightarrow> world_ok (RemoveUser username w)"
  by (auto simp: world_ok_def RemoveUser_def)

lemma getMailboxLocked_allocated:
  "getMailboxLocked u name w = Some a \<Longrightarrow> world_ok w \<Longrightarrow> u < w_nextUserData w \<Longrightarrow> a < w_nextMailbox w"
  unfolding getMailboxLocked_def world_ok_def by (auto split: option.splits if_splits)

lemma world_ok_names:
  assumes "world_ok w" "\<And>n a. m n = Some a \<Longrightarrow> a < w_nextMailbox w"
  shows "world_ok (w\<lparr>w_userData := (w_userData w)(u := m)\<rparr>)"
  using assms by (simp add: world_ok_def)

lemma world_ok_mailbox:
  assumes "world_ok w" "mailbox_ok mbox"
  shows "world_ok (w\<lparr>w_mailbox := (w_mailbox w)(a := mbox)\<rparr>)"
  using assms by (simp add: world_ok_def)

lemma world_ok_Create:
  assumes "world_ok w" "u < w_nextUserData w"
  shows "world_ok (snd (CreateMailbox u name w))"
  using assms mailbox_ok_New [of name]
  by (auto simp: CreateMailbox_def world_ok_def alloc_mailbox_def less_Suc_eq)

lemma userData_allocated:
  "world_ok w \<Longrightarrow> u < w_nextUserData w \<Longrightarrow> w_userData w u n = Some a \<Longrightarrow> a < w_nextMailbox w"
  by (simp add: world_ok_def)

lemma world_ok_Delete:
  assumes "world_ok w" "u < w_nextUserData w"
  shows "world_ok (snd (DeleteMailbox u name w))"
  using assms userData_allocated [OF assms]
  by (auto simp: DeleteMailbox_def intro!: world_ok_names split: if_splits)

lemma world_ok_Rename:
  assumes "world_ok w" "u < w_nextUserData w"
  shows "world_ok (snd (RenameMailbox u old new w))"
proof (cases "getMailboxLocked u old w")
  case (Some a)
  have a: "a < w_nextMailbox w" by (rule getMailboxLocked_allocated [OF Some assms])
  then have ok: "mailbox_ok (w_mailbox w a)" using assms by (simp add: world_ok_def)
  let ?w = "w\<lparr>w_mailbox := (w_mailbox w)(a := (w_mailbox w a)\<lparr>mb_Name := new\<rparr>)\<rparr>"
  have "world_ok (?w\<lparr>w_userData := (w_userData ?w)(u := (w_userData w u)(old := None, new \<mapsto> a))\<rparr>)"
    using assms a ok userData_allocated [OF assms]
    by (intro world_ok_names world_ok_mailbox) (auto split: if_splits)
  then show ?thesis using Some assms by (simp add: RenameMailbox_def)
qed (use assms in \<open>simp add: RenameMailbox_def\<close>)

section \<open>The directory of a user\<close>

text \<open>
  What the sessions rely on: names are looked up up to a canonical spelling, and creating,
  deleting and renaming change the lookups of the names concerned and no others.
\<close>

locale directory =
  fixes ok :: "'d \<Rightarrow> bool"
    and canon :: "string \<Rightarrow> string"
    and look :: "'d \<Rightarrow> string \<Rightarrow> 'a option"
    and create :: "string \<Rightarrow> 'd \<Rightarrow> 'd option"
    and delete :: "string \<Rightarrow> 'd \<Rightarrow> 'd option"
    and rename :: "string \<Rightarrow> string \<Rightarrow> 'd \<Rightarrow> 'd option"
  assumes look_canon: "ok d \<Longrightarrow> canon m = canon n \<Longrightarrow> look d m = look d n"
    and create_fails: "ok d \<Longrightarrow> create n d = None \<longleftrightarrow> look d n \<noteq> None"
    and create_ok: "ok d \<Longrightarrow> create n d = Some d' \<Longrightarrow> ok d'"
    and look_create: "ok d \<Longrightarrow> create n d = Some d' \<Longrightarrow>
          (if canon m = canon n then look d' m \<noteq> None else look d' m = look d m)"
    and delete_ok: "ok d \<Longrightarrow> delete n d = Some d' \<Longrightarrow> ok d'"
    and look_delete: "ok d \<Longrightarrow> delete n d = Some d' \<Longrightarrow>
          look d' m = (if canon m = canon n then None else look d m)"
    and rename_fails: "ok d \<Longrightarrow> rename n n' d = None \<longleftrightarrow> look d n = None \<or> look d n' \<noteq> None"
    and rename_ok: "ok d \<Longrightarrow> canon n \<noteq> canon ''INBOX'' \<Longrightarrow> rename n n' d = Some d' \<Longrightarrow> ok d'"
    and look_rename: "ok d \<Longrightarrow> canon n \<noteq> canon ''INBOX'' \<Longrightarrow> rename n n' d = Some d' \<Longrightarrow>
          look d' m = (if canon m = canon n' then look d n else if canon m = canon n then None else look d m)"
begin

lemma create_delete:
  assumes "ok d" "create n d = Some d'" "delete n d' = Some d''"
  shows "look d'' m = look d m"
proof -
  have "look d n = None" using create_fails [OF assms(1), of n] assms(2) by simp
  moreover have "ok d'" by (rule create_ok [OF assms(1,2)])
  ultimately show ?thesis
    using look_delete [OF _ assms(3), of m] look_create [OF assms(1,2), of m] look_canon [OF assms(1), of m n]
    by (auto split: if_splits)
qed

lemma rename_canon_differs:
  assumes "ok d" "rename n n' d = Some d'"
  shows "canon n \<noteq> canon n'"
proof
  assume "canon n = canon n'"
  then have "look d n = look d n'" by (rule look_canon [OF assms(1)])
  then show False using rename_fails [OF assms(1), of n n'] assms(2) by auto
qed

lemma rename_back:
  assumes "ok d" "canon n \<noteq> canon ''INBOX''" "canon n' \<noteq> canon ''INBOX''" "rename n n' d = Some d'"
  shows "\<exists>d''. rename n' n d' = Some d'' \<and> (\<forall>m. look d'' m = look d m)"
proof -
  have ok': "ok d'" by (rule rename_ok [OF assms(1,2,4)])
  have ne: "canon n \<noteq> canon n'" by (rule rename_canon_differs [OF assms(1,4)])
  have some: "look d n \<noteq> None" and none: "look d n' = None"
    using rename_fails [OF assms(1), of n n'] assms(4) by auto
  have l': "look d' m = (if canon m = canon n' then look d n else if canon m = canon n then None else look d m)" for m
    by (rule look_rename [OF assms(1,2,4)])
  have "rename n' n d' \<noteq> None"
    using rename_fails [OF ok', of n' n] l' [of n'] l' [of n] some ne by simp
  then obtain d'' where d'': "rename n' n d' = Some d''" by blast
  have "look d'' m = look d m" for m
    using look_rename [OF ok' assms(3) d'', of m] l' [of m] l' [of n'] ne none
      look_canon [OF assms(1), of m n] look_canon [OF assms(1), of m n'] by (auto split: if_splits)
  with d'' show ?thesis by blast
qed

end

text \<open>The operations of \<open>UserData\<close> as partial functions on the store.\<close>

definition run :: "mem_error option \<times> world \<Rightarrow> world option" where
  "run r = (case fst r of None \<Rightarrow> Some (snd r) | Some _ \<Rightarrow> None)"

definition directory_ok :: "addr \<Rightarrow> world \<Rightarrow> bool" where
  "directory_ok u w \<longleftrightarrow>
     w_userData w u ''INBOX'' \<noteq> None \<and>
     (\<forall>n. w_userData w u n \<noteq> None \<longrightarrow> normalizeINBOX n = ''INBOX'' \<longrightarrow> n = ''INBOX'')"

lemma run_Some: "run r = Some w \<longleftrightarrow> fst r = None \<and> snd r = w"
  by (auto simp: run_def split: option.splits)

lemma run_None: "run r = None \<longleftrightarrow> fst r \<noteq> None"
  by (auto simp: run_def split: option.splits)

lemma normalize_other: "normalizeINBOX n \<noteq> ''INBOX'' \<Longrightarrow> normalizeINBOX n = n"
  by (simp add: normalizeINBOX_def split: if_splits)

lemma GetMailbox_canon:
  assumes "directory_ok u w"
  shows "GetMailbox u n w = w_userData w u (normalizeINBOX n)"
proof (cases "normalizeINBOX n = ''INBOX''")
  case True
  show ?thesis
  proof (cases "w_userData w u n")
    case None
    then show ?thesis using True by (simp add: GetMailbox_def getMailboxLocked_def)
  next
    case (Some a)
    then have "n = ''INBOX''" using assms True by (simp add: directory_ok_def)
    then show ?thesis using Some True by (simp add: GetMailbox_def getMailboxLocked_def)
  qed
next
  case False
  then show ?thesis
    using normalize_other [OF False] by (simp add: GetMailbox_def getMailboxLocked_def split: option.splits)
qed

lemma create_run:
  assumes ok: "directory_ok u w" and r: "run (CreateMailbox u n w) = Some w'"
  shows "normalizeINBOX n = n" "n \<noteq> ''INBOX''"
    "w_userData w' u = (w_userData w u)(n \<mapsto> w_nextMailbox w)" "directory_ok u w'"
proof -
  have none: "GetMailbox u n w = None"
    using r by (auto simp: run_Some CreateMailbox_def GetMailbox_def split: if_splits)
  then have "normalizeINBOX n \<noteq> ''INBOX''"
    using GetMailbox_canon [OF ok, of n] ok by (auto simp: directory_ok_def)
  then show n: "normalizeINBOX n = n" "n \<noteq> ''INBOX''" using normalize_other by auto
  show d: "w_userData w' u = (w_userData w u)(n \<mapsto> w_nextMailbox w)"
    using r none by (auto simp: run_Some CreateMailbox_def GetMailbox_def alloc_mailbox_def)
  show "directory_ok u w'" using ok n unfolding directory_ok_def d by auto
qed

lemma delete_run:
  assumes ok: "directory_ok u w" and r: "run (DeleteMailbox u n w) = Some w'"
  shows "normalizeINBOX n = n" "n \<noteq> ''INBOX''"
    "w_userData w' u = (w_userData w u)(n := None)" "directory_ok u w'"
proof -
  have "normalizeINBOX n \<noteq> ''INBOX''"
    using r by (auto simp: run_Some DeleteMailbox_def split: if_splits)
  then show n: "normalizeINBOX n = n" "n \<noteq> ''INBOX''" using normalize_other by auto
  show d: "w_userData w' u = (w_userData w u)(n := None)"
    using r by (auto simp: run_Some DeleteMailbox_def split: if_splits)
  show "directory_ok u w'" using ok n unfolding directory_ok_def d by auto
qed

lemma rename_run:
  assumes ok: "directory_ok u w" and r: "run (RenameMailbox u n n' w) = Some w'"
    and n: "normalizeINBOX n \<noteq> ''INBOX''"
  shows "normalizeINBOX n' = n'" "n' \<noteq> ''INBOX''"
    "w_userData w' u = (w_userData w u)(n := None, n' := w_userData w u n)" "directory_ok u w'"
proof -
  have none: "GetMailbox u n' w = None"
    using r by (auto simp: run_Some RenameMailbox_def GetMailbox_def split: option.splits if_splits)
  then have "normalizeINBOX n' \<noteq> ''INBOX''"
    using GetMailbox_canon [OF ok, of n'] ok by (auto simp: directory_ok_def)
  then show n': "normalizeINBOX n' = n'" "n' \<noteq> ''INBOX''" using normalize_other by auto
  have "GetMailbox u n w = w_userData w u n"
    using GetMailbox_canon [OF ok, of n] normalize_other [OF n] by simp
  then show d: "w_userData w' u = (w_userData w u)(n := None, n' := w_userData w u n)"
    using r by (auto simp: run_Some RenameMailbox_def GetMailbox_def split: option.splits if_splits)
  have "n \<noteq> ''INBOX''" using n by auto
  then show "directory_ok u w'" using ok n' unfolding directory_ok_def d by auto
qed

interpretation dir: directory "directory_ok u" normalizeINBOX "\<lambda>w n. GetMailbox u n w"
  "\<lambda>n w. run (CreateMailbox u n w)" "\<lambda>n w. run (DeleteMailbox u n w)" "\<lambda>n n' w. run (RenameMailbox u n n' w)"
  for u
proof unfold_locales
  fix d d' :: world and m n n' :: string
  assume ok: "directory_ok u d"
  note canon = GetMailbox_canon [OF ok]
  show "normalizeINBOX m = normalizeINBOX n \<Longrightarrow> GetMailbox u m d = GetMailbox u n d"
    by (simp add: canon)
  show "run (CreateMailbox u n d) = None \<longleftrightarrow> GetMailbox u n d \<noteq> None"
    by (auto simp: run_None CreateMailbox_def GetMailbox_def split: prod.splits)
  show "run (RenameMailbox u n n' d) = None \<longleftrightarrow> GetMailbox u n d = None \<or> GetMailbox u n' d \<noteq> None"
    by (auto simp: run_None RenameMailbox_def GetMailbox_def split: option.splits)
  {
    assume r: "run (CreateMailbox u n d) = Some d'"
    note c = create_run [OF ok r]
    show "directory_ok u d'" by (rule c(4))
    show "if normalizeINBOX m = normalizeINBOX n then GetMailbox u m d' \<noteq> None
          else GetMailbox u m d' = GetMailbox u m d"
      by (simp add: canon GetMailbox_canon [OF c(4)] c)
  }
  {
    assume r: "run (DeleteMailbox u n d) = Some d'"
    note c = delete_run [OF ok r]
    show "directory_ok u d'" by (rule c(4))
    show "GetMailbox u m d' = (if normalizeINBOX m = normalizeINBOX n then None else GetMailbox u m d)"
      by (simp add: canon GetMailbox_canon [OF c(4)] c)
  }
  {
    assume n: "normalizeINBOX n \<noteq> normalizeINBOX ''INBOX''" and r: "run (RenameMailbox u n n' d) = Some d'"
    have n': "normalizeINBOX n \<noteq> ''INBOX''" using n by simp
    note c = rename_run [OF ok r n']
    show "directory_ok u d'" by (rule c(4))
    show "GetMailbox u m d' =
        (if normalizeINBOX m = normalizeINBOX n' then GetMailbox u n d
         else if normalizeINBOX m = normalizeINBOX n then None else GetMailbox u m d)"
      using normalize_other [OF n'] by (simp add: canon GetMailbox_canon [OF c(4)] c)
  }
qed

text \<open>Renaming is reversible and touches nothing else: in a well-formed directory, after a
  mailbox other than INBOX has been renamed, renaming it back succeeds and every name leads to
  the mailbox it led to before.\<close>

theorem rename_back_restores:
  assumes "directory_ok u w" "normalizeINBOX n \<noteq> ''INBOX''" "normalizeINBOX n' \<noteq> ''INBOX''"
    and "RenameMailbox u n n' w = (None, w')"
  shows "\<exists>w''. RenameMailbox u n' n w' = (None, w'') \<and> (\<forall>m. GetMailbox u m w'' = GetMailbox u m w)"
proof -
  have "run (RenameMailbox u n n' w) = Some w'" using assms(4) by (simp add: run_def)
  then obtain w'' where "run (RenameMailbox u n' n w') = Some w''" "\<forall>m. GetMailbox u m w'' = GetMailbox u m w"
    using dir.rename_back [of u w n n'] assms(1-3) by auto
  moreover from this(1) have "RenameMailbox u n' n w' = (None, w'')" by (simp add: run_Some prod_eq_iff)
  ultimately show ?thesis by blast
qed

definition example_world :: world where
  "example_world = snd (CreateMailbox 0 ''Work'' (AddUser ''ann'' ''pw'' mem_New))"

lemma example_userData:
  "w_userData example_world 0 = [''INBOX'' \<mapsto> 0, ''Work'' \<mapsto> 1]"
proof -
  have "normalizeINBOX ''Work'' = ''Work''" by code_simp
  then show ?thesis
    by (simp add: example_world_def AddUser_def NewUserData_def alloc_mailbox_def mem_New_def
        CreateMailbox_def getMailboxLocked_def Let_def)
qed

lemma example_directory_ok: "directory_ok 0 example_world"
proof -
  have "normalizeINBOX ''Work'' \<noteq> ''INBOX''" by code_simp
  then show ?thesis unfolding directory_ok_def example_userData by (auto split: if_splits)
qed

theorem rename_back_restores_witness:
  "\<exists>w''. RenameMailbox 0 ''Jobs'' ''Work'' (snd (RenameMailbox 0 ''Work'' ''Jobs'' example_world)) = (None, w'') \<and>
         GetMailbox 0 ''Work'' w'' = Some 1"
proof -
  have n: "normalizeINBOX ''Work'' = ''Work''" "normalizeINBOX ''Jobs'' = ''Jobs''" by code_simp+
  have r: "RenameMailbox 0 ''Work'' ''Jobs'' example_world =
      (None, snd (RenameMailbox 0 ''Work'' ''Jobs'' example_world))"
    by (simp add: RenameMailbox_def getMailboxLocked_def example_userData n)
  have g: "GetMailbox 0 ''Work'' example_world = Some 1"
    by (simp add: GetMailbox_def getMailboxLocked_def example_userData)
  obtain w'' where "RenameMailbox 0 ''Jobs'' ''Work'' (snd (RenameMailbox 0 ''Work'' ''Jobs'' example_world)) = (None, w'')"
    "\<forall>m. GetMailbox 0 m w'' = GetMailbox 0 m example_world"
    using rename_back_restores [OF example_directory_ok _ _ r] n by auto
  then show ?thesis using g by auto
qed

text \<open>A flaw of RENAME: renaming INBOX through another spelling (such as \<open>inbox\<close>) finds the
  mailbox but deletes the wrong key, so that afterwards INBOX and the new name are two names of
  one mailbox, which now bears the new name.\<close>

theorem rename_inbox_aliases:
  assumes "directory_ok u w" "normalizeINBOX n = ''INBOX''" "n \<noteq> ''INBOX''" "GetMailbox u n' w = None"
  shows "\<exists>a w'. RenameMailbox u n n' w = (None, w') \<and>
           GetMailbox u ''INBOX'' w' = Some a \<and> GetMailbox u n' w' = Some a \<and>
           GetMailbox u ''INBOX'' w = Some a \<and> mb_Name (w_mailbox w' a) = n'"
proof -
  obtain a where a: "w_userData w u ''INBOX'' = Some a" using assms(1) by (auto simp: directory_ok_def)
  have n: "getMailboxLocked u n w = Some a"
    using GetMailbox_canon [OF assms(1), of n] assms(2) a by (simp add: GetMailbox_def)
  have n': "getMailboxLocked u n' w = None" using assms(4) by (simp add: GetMailbox_def)
  then have "n' \<noteq> ''INBOX''" using a by (auto simp: getMailboxLocked_def)
  then show ?thesis
    using n n' a assms(3) by (auto simp: RenameMailbox_def GetMailbox_def getMailboxLocked_def)
qed

theorem rename_inbox_aliases_witness:
  "\<exists>a w'. RenameMailbox 0 ''inbox'' ''Old'' example_world = (None, w') \<and>
          GetMailbox 0 ''INBOX'' w' = Some a \<and> GetMailbox 0 ''Old'' w' = Some a"
proof -
  have "normalizeINBOX ''inbox'' = ''INBOX''" "normalizeINBOX ''Old'' \<noteq> ''INBOX''" by code_simp+
  moreover from this(2) have "GetMailbox 0 ''Old'' example_world = None"
    by (simp add: GetMailbox_def getMailboxLocked_def example_userData)
  ultimately show ?thesis
    using rename_inbox_aliases [OF example_directory_ok, of "''inbox''" "''Old''"] by auto
qed

end
