(* ===== verification/MemSession.thy ===== *)
theory MemSession
  imports MemStore
begin

text \<open>
  The sessions of the in-memory backend (\<open>server/memserver/session.go\<close>), one definition per
  method. A session holds two pointers, to the data of the user and to the selected mailbox.
  A method returns its result (or its error, or the panic it dies with), what it wrote to its
  writer, and the new session and store.
\<close>

record session =
  ss_userData :: "addr option"
  ss_selected :: "addr option"
  ss_readOnly :: bool

datatype 'a outcome = Done 'a | Failed mem_error | Panicked panic

definition mem_NewSession :: session where
  "mem_NewSession = \<lparr>ss_userData = None, ss_selected = None, ss_readOnly = False\<rparr>"

definition Delimiter :: char where "Delimiter = CHR ''/''"

definition update_mailbox :: "addr \<Rightarrow> mailbox \<Rightarrow> world \<Rightarrow> world" where
  "update_mailbox a mbox w = w\<lparr>w_mailbox := (w_mailbox w)(a := mbox)\<rparr>"

definition Session_Close :: "session \<Rightarrow> session" where
  "Session_Close s = s\<lparr>ss_selected := None, ss_userData := None\<rparr>"

definition Session_Login :: "string \<Rightarrow> string \<Rightarrow> session \<Rightarrow> world \<Rightarrow> mem_error option \<times> session" where
  "Session_Login username password s w =
     (case w_users w username of
        None \<Rightarrow> (Some (IMAPError ''invalid credentials''), s)
      | Some expected \<Rightarrow>
          (if expected \<noteq> password then (Some (IMAPError ''invalid credentials''), s)
           else (None, s\<lparr>ss_userData := w_dataOf w username\<rparr>)))"

definition Session_Select ::
  "string \<Rightarrow> select_options option \<Rightarrow> session \<Rightarrow> world \<Rightarrow> select_data outcome \<times> session" where
  "Session_Select mailbox options s w =
     (case ss_userData s of
        None \<Rightarrow> (Failed (IMAPError ''not authenticated''), s)
      | Some u \<Rightarrow>
          (case GetMailbox u mailbox w of
             None \<Rightarrow> (Failed ErrNoSuchMailbox, s)
           | Some a \<Rightarrow>
               (let readOnly = (case options of None \<Rightarrow> False | Some opts \<Rightarrow> sel_ReadOnly opts)
                in (Done (Mailbox_SelectData (w_mailbox w a) readOnly),
                    s\<lparr>ss_selected := Some a, ss_readOnly := readOnly\<rparr>))))"

definition Session_Create :: "string \<Rightarrow> session \<Rightarrow> world \<Rightarrow> mem_error option \<times> world" where
  "Session_Create mailbox s w =
     (case ss_userData s of
        None \<Rightarrow> (Some (IMAPError ''not authenticated''), w)
      | Some u \<Rightarrow> CreateMailbox u mailbox w)"

definition Session_Delete :: "string \<Rightarrow> session \<Rightarrow> world \<Rightarrow> mem_error option \<times> session \<times> world" where
  "Session_Delete mailbox s w =
     (case ss_userData s of
        None \<Rightarrow> (Some (IMAPError ''not authenticated''), s, w)
      | Some u \<Rightarrow>
          (let s = (case ss_selected s of
                      None \<Rightarrow> s
                    | Some a \<Rightarrow>
                        (if mb_Name (w_mailbox w a) = mailbox
                         then s\<lparr>ss_selected := None, ss_readOnly := False\<rparr> else s));
               (e, w) = DeleteMailbox u mailbox w
           in (e, s, w)))"

definition Session_Rename :: "string \<Rightarrow> string \<Rightarrow> session \<Rightarrow> world \<Rightarrow> mem_error option \<times> world" where
  "Session_Rename mailbox newName s w =
     (case ss_userData s of
        None \<Rightarrow> (Some (IMAPError ''not authenticated''), w)
      | Some u \<Rightarrow> RenameMailbox u mailbox newName w)"

definition Session_Subscribe :: "string \<Rightarrow> session \<Rightarrow> world \<Rightarrow> mem_error option \<times> world" where
  "Session_Subscribe mailbox s w =
     (case ss_userData s of
        None \<Rightarrow> (Some (IMAPError ''not authenticated''), w)
      | Some u \<Rightarrow>
          (case GetMailbox u mailbox w of
             None \<Rightarrow> (Some ErrNoSuchMailbox, w)
           | Some a \<Rightarrow> (None, update_mailbox a ((w_mailbox w a)\<lparr>mb_Subscribed := True\<rparr>) w)))"

definition Session_Unsubscribe :: "string \<Rightarrow> session \<Rightarrow> world \<Rightarrow> mem_error option \<times> world" where
  "Session_Unsubscribe mailbox s w =
     (case ss_userData s of
        None \<Rightarrow> (Some (IMAPError ''not authenticated''), w)
      | Some u \<Rightarrow>
          (case GetMailbox u mailbox w of
             None \<Rightarrow> (Some ErrNoSuchMailbox, w)
           | Some a \<Rightarrow> (None, update_mailbox a ((w_mailbox w a)\<lparr>mb_Subscribed := False\<rparr>) w)))"

text \<open>
  LIST: \<open>allNames\<close> and \<open>names\<close> are the orders of the two iterations over the map of
  mailboxes (see \<open>iteration\<close>).
\<close>

definition list_entry ::
  "string \<Rightarrow> string list \<Rightarrow> list_options option \<Rightarrow> string list \<Rightarrow> string \<Rightarrow> mailbox \<Rightarrow> list_data option" where
  "list_entry ref patterns options allNames name mbox =
     (if \<not> list_ex (\<lambda>pattern. matchPattern name (ref @ pattern) Delimiter) patterns then None
      else if (case options of None \<Rightarrow> False | Some opts \<Rightarrow> lo_SelectSubscribed opts) \<and> \<not> mb_Subscribed mbox
      then None
      else
        (let attrs =
           (if (case options of None \<Rightarrow> False | Some opts \<Rightarrow> lo_ReturnSubscribed opts) \<and> mb_Subscribed mbox
            then [MailboxAttrSubscribed] else []) @
           (if (case options of None \<Rightarrow> False | Some opts \<Rightarrow> lo_ReturnChildren opts)
            then [if HasChildren name allNames Delimiter then MailboxAttrHasChildren
                  else MailboxAttrHasNoChildren]
            else [])
         in Some \<lparr>ld_Attrs = attrs, ld_Delim = Some Delimiter, ld_Mailbox = name, ld_OldName = [],
                  ld_ChildInfo = [], ld_Status = None, ld_MyRights = [], ld_Metadata = None\<rparr>))"

definition Session_List ::
  "string \<Rightarrow> string list \<Rightarrow> list_options option \<Rightarrow> string list \<Rightarrow> string list \<Rightarrow> session \<Rightarrow> world \<Rightarrow>
   mem_error + list_data list" where
  "Session_List ref patterns options allNames names s w =
     (case ss_userData s of
        None \<Rightarrow> Inl (IMAPError ''not authenticated'')
      | Some u \<Rightarrow>
          (if length patterns = 1 \<and> patterns ! 0 = []
           then Inr [\<lparr>ld_Attrs = [], ld_Delim = Some Delimiter, ld_Mailbox = [], ld_OldName = [],
                      ld_ChildInfo = [], ld_Status = None, ld_MyRights = [], ld_Metadata = None\<rparr>]
           else Inr (List.map_filter
                  (\<lambda>name. case w_userData w u name of
                            None \<Rightarrow> None
                          | Some a \<Rightarrow> list_entry ref patterns options allNames name (w_mailbox w a))
                  names)))"

definition Session_Status ::
  "string \<Rightarrow> status_options \<Rightarrow> session \<Rightarrow> world \<Rightarrow> mem_error + status_data" where
  "Session_Status mailbox options s w =
     (case ss_userData s of
        None \<Rightarrow> Inl (IMAPError ''not authenticated'')
      | Some u \<Rightarrow>
          (case GetMailbox u mailbox w of
             None \<Rightarrow> Inl ErrNoSuchMailbox
           | Some a \<Rightarrow> Inr (Mailbox_StatusData (w_mailbox w a) mailbox options)))"

text \<open>APPEND: \<open>r\<close> is what reading the literal gives, an error or the body.\<close>

definition Session_Append ::
  "string \<Rightarrow> string + string \<Rightarrow> append_options option \<Rightarrow> time \<Rightarrow> session \<Rightarrow> world \<Rightarrow>
   (mem_error + append_data) \<times> world" where
  "Session_Append mailbox r options now s w =
     (case ss_userData s of
        None \<Rightarrow> (Inl (IMAPError ''not authenticated''), w)
      | Some u \<Rightarrow>
          (case GetMailbox u mailbox w of
             None \<Rightarrow> (Inl ErrNoSuchMailbox, w)
           | Some a \<Rightarrow>
               (case r of
                  Inl err \<Rightarrow> (Inl (ReadError (''failed to read message: '' @ err)), w)
                | Inr body \<Rightarrow>
                    (let (flags, internalDate) =
                           (case options of None \<Rightarrow> ([], 0) | Some opts \<Rightarrow> (ao_Flags opts, ao_InternalDate opts));
                         (msg, mbox) = Mailbox_Append (w_mailbox w a) body flags internalDate now
                     in (Inr \<lparr>ad_UIDValidity = mb_UIDValidity mbox, ad_UID = msg_UID msg\<rparr>,
                         update_mailbox a mbox w)))))"

definition Session_Unselect :: "session \<Rightarrow> session" where
  "Session_Unselect s = s\<lparr>ss_selected := None, ss_readOnly := False\<rparr>"

definition Session_Expunge ::
  "num_range list option \<Rightarrow> session \<Rightarrow> world \<Rightarrow> (mem_error + u32 list) \<times> world" where
  "Session_Expunge uidSet s w =
     (case ss_selected s of
        None \<Rightarrow> (Inl (IMAPError ''no mailbox selected''), w)
      | Some a \<Rightarrow>
          (let (expunged, mbox) = Mailbox_Expunge (w_mailbox w a) uidSet
           in (Inr expunged, update_mailbox a mbox w)))"

definition Session_Search ::
  "(string \<Rightarrow> (string \<Rightarrow> string) option) \<Rightarrow> (string \<Rightarrow> string \<Rightarrow> time option) \<Rightarrow>
   num_kind \<Rightarrow> search_criteria option \<Rightarrow> search_options option \<Rightarrow> session \<Rightarrow> world \<Rightarrow>
   search_data outcome" where
  "Session_Search rh pt kind criteria options s w =
     (case ss_selected s of
        None \<Rightarrow> Failed (IMAPError ''no mailbox selected'')
      | Some a \<Rightarrow>
          (case SearchMessages rh pt (w_mailbox w a) kind criteria of
             Inl p \<Rightarrow> Panicked p
           | Inr results \<Rightarrow>
               (let data = \<lparr>sd_AllSeqNums = (if kind = NumKindUID then [] else results),
                            sd_AllUIDs = (if kind = NumKindUID then results else []),
                            sd_Min = 0, sd_Max = 0, sd_All = None, sd_Count = 0, sd_ModSeq = 0,
                            sd_Partial = None, sd_AddTo = [], sd_RemoveFrom = []\<rparr>
                in case options of
                     None \<Rightarrow> Done data
                   | Some opts \<Rightarrow>
                       (if results = [] then Done data
                        else Done (data\<lparr>
                          sd_Count := (if sr_ReturnCount opts then of_nat (length results) else 0),
                          sd_Min := (if sr_ReturnMin opts then foldl min (hd results) (tl results) else 0),
                          sd_Max := (if sr_ReturnMax opts then foldl max (hd results) (tl results) else 0),
                          sd_All := (if sr_ReturnAll opts
                                     then Some (foldl (\<lambda>ss r. SeqSet_AddNum ss [r]) [] results)
                                     else None)\<rparr>)))))"

definition set_kind :: "num_set \<Rightarrow> num_kind" where
  "set_kind numSet = (case numSet of SeqSet _ \<Rightarrow> NumKindSeq | UIDSet _ \<Rightarrow> NumKindUID)"

subsection \<open>FETCH\<close>

fun fetch_sections ::
  "bool \<Rightarrow> body_section list \<Rightarrow> message \<Rightarrow> (panic + (body_section \<times> string) list) \<times> message" where
  "fetch_sections readOnly [] msg = (Inr [], msg)"
| "fetch_sections readOnly (section # sections) msg =
     (case fetchSection msg section of
        Inl p \<Rightarrow> (Inl p, msg)
      | Inr bodyData \<Rightarrow>
          (let msg = (if \<not> Peek section \<and> \<not> readOnly then SetFlag msg FlagSeen else msg);
               (r, msg) = fetch_sections readOnly sections msg
           in (map_sum (\<lambda>p. p) (\<lambda>ds. (section, bodyData) # ds) r, msg)))"

definition fetch_message ::
  "(string \<Rightarrow> (string \<Rightarrow> string) option) \<Rightarrow> (string \<Rightarrow> string \<Rightarrow> time option) \<Rightarrow>
   fetch_options \<Rightarrow> bool \<Rightarrow> u32 \<Rightarrow> message \<Rightarrow> (panic + fetch_data) \<times> message" where
  "fetch_message rh pt options readOnly seqNum msg =
     (let data = (new_fetch_data seqNum)\<lparr>
            fd_UID := (if fo_UID options then msg_UID msg else 0),
            fd_Flags := (if fo_Flags options then Some (CopyFlags msg) else None),
            fd_InternalDate := (if fo_InternalDate options then msg_InternalDate msg else 0),
            fd_RFC822Size := (if fo_RFC822Size options then msg_Size msg else 0)\<rparr>
      in case (if fo_Envelope options then map_sum (\<lambda>p. p) Some (ParseEnvelope rh pt msg) else Inr None) of
           Inl p \<Rightarrow> (Inl p, msg)
         | Inr env \<Rightarrow>
             (let (r, msg) = fetch_sections readOnly (fo_BodySection options) msg
              in (map_sum (\<lambda>p. p) (\<lambda>ds. data\<lparr>fd_Envelope := env, fd_BodySection := ds\<rparr>) r, msg)))"

text \<open>The loop over the matched messages: what was written, the panic if any, the messages.\<close>

fun fetch_loop ::
  "(string \<Rightarrow> (string \<Rightarrow> string) option) \<Rightarrow> (string \<Rightarrow> string \<Rightarrow> time option) \<Rightarrow>
   fetch_options \<Rightarrow> bool \<Rightarrow> matched_message list \<Rightarrow> message list \<Rightarrow>
   fetch_data list \<times> panic option \<times> message list" where
  "fetch_loop rh pt options readOnly [] msgs = ([], None, msgs)"
| "fetch_loop rh pt options readOnly (m # ms) msgs =
     (let (r, msg) = fetch_message rh pt options readOnly (mm_SeqNum m) (msgs ! mm_Pos m);
          msgs = msgs[mm_Pos m := msg]
      in case r of
           Inl p \<Rightarrow> ([], Some p, msgs)
         | Inr data \<Rightarrow>
             (let (written, p, msgs) = fetch_loop rh pt options readOnly ms msgs
              in (data # written, p, msgs)))"

definition Session_Fetch ::
  "(string \<Rightarrow> (string \<Rightarrow> string) option) \<Rightarrow> (string \<Rightarrow> string \<Rightarrow> time option) \<Rightarrow>
   num_set \<Rightarrow> fetch_options \<Rightarrow> session \<Rightarrow> world \<Rightarrow> unit outcome \<times> fetch_data list \<times> world" where
  "Session_Fetch rh pt numSet options s w =
     (case ss_selected s of
        None \<Rightarrow> (Failed (IMAPError ''no mailbox selected''), [], w)
      | Some a \<Rightarrow>
          (let mbox = w_mailbox w a;
               matches = MatchesMessages mbox numSet (set_kind numSet);
               (written, p, msgs) = fetch_loop rh pt options (ss_readOnly s) matches (mb_Messages mbox)
           in ((case p of None \<Rightarrow> Done () | Some p \<Rightarrow> Panicked p), written,
               update_mailbox a (mbox\<lparr>mb_Messages := msgs\<rparr>) w)))"

subsection \<open>STORE\<close>

definition store_message :: "store_flags \<Rightarrow> message \<Rightarrow> message" where
  "store_message flags msg =
     (case sf_Action flags of
        StoreFlagsSet \<Rightarrow> msg\<lparr>msg_Flags := sf_Flags flags\<rparr>
      | StoreFlagsAdd \<Rightarrow> foldl SetFlag msg (sf_Flags flags)
      | StoreFlagsDel \<Rightarrow> foldl RemoveFlag msg (sf_Flags flags))"

fun store_loop ::
  "store_flags \<Rightarrow> matched_message list \<Rightarrow> message list \<Rightarrow> (u32 \<times> flag list) list \<times> message list" where
  "store_loop flags [] msgs = ([], msgs)"
| "store_loop flags (m # ms) msgs =
     (let msg = store_message flags (msgs ! mm_Pos m);
          (written, msgs) = store_loop flags ms (msgs[mm_Pos m := msg])
      in ((if sf_Silent flags then [] else [(mm_SeqNum m, CopyFlags msg)]) @ written, msgs))"

definition Session_Store ::
  "num_set \<Rightarrow> store_flags \<Rightarrow> session \<Rightarrow> world \<Rightarrow> (mem_error + (u32 \<times> flag list) list) \<times> world" where
  "Session_Store numSet flags s w =
     (case ss_selected s of
        None \<Rightarrow> (Inl (IMAPError ''no mailbox selected''), w)
      | Some a \<Rightarrow>
          (if ss_readOnly s then (Inl (IMAPError ''mailbox is read-only''), w)
           else
             (let mbox = w_mailbox w a;
                  matches = MatchesMessages mbox numSet (set_kind numSet);
                  (written, msgs) = store_loop flags matches (mb_Messages mbox)
              in (Inr written, update_mailbox a (mbox\<lparr>mb_Messages := msgs\<rparr>) w))))"

subsection \<open>COPY\<close>

fun copy_loop ::
  "time \<Rightarrow> matched_message list \<Rightarrow> copy_data \<Rightarrow> mailbox \<Rightarrow> copy_data \<times> mailbox" where
  "copy_loop now [] copyData dest = (copyData, dest)"
| "copy_loop now (m # ms) copyData dest =
     (let (newUID, dest) = CopyMessageTo (mm_Message m) dest now
      in copy_loop now ms
           (copyData\<lparr>cd_SourceUIDs := UIDSet_AddNum (cd_SourceUIDs copyData) [msg_UID (mm_Message m)],
                     cd_DestUIDs := UIDSet_AddNum (cd_DestUIDs copyData) [newUID]\<rparr>) dest)"

definition Session_Copy ::
  "num_set \<Rightarrow> string \<Rightarrow> time \<Rightarrow> session \<Rightarrow> world \<Rightarrow> copy_data outcome \<times> world" where
  "Session_Copy numSet dest now s w =
     (case ss_selected s of
        None \<Rightarrow> (Failed (IMAPError ''no mailbox selected''), w)
      | Some src \<Rightarrow>
          (case ss_userData s of
             None \<Rightarrow> (Panicked NilDereference, w)
           | Some u \<Rightarrow>
               (case GetMailbox u dest w of
                  None \<Rightarrow> (Failed ErrNoSuchMailbox, w)
                | Some d \<Rightarrow>
                    (let matches = MatchesMessages (w_mailbox w src) numSet (set_kind numSet);
                         (copyData, mbox) = copy_loop now matches
                           \<lparr>cd_UIDValidity = mb_UIDValidity (w_mailbox w d), cd_SourceUIDs = [], cd_DestUIDs = []\<rparr>
                           (w_mailbox w d)
                     in (Done copyData, update_mailbox d mbox w)))))"

end
