(* ===== verification/MemSystem.thy ===== *)
theory MemSystem
  imports MemSession MailboxLaws
begin

text \<open>
  Several sessions on one store: the system that \<open>memserver\<close> runs, as a step relation whose
  steps are the methods of the sessions and the administrative calls. The invariant of the
  system says that every pointer is valid, that every mailbox satisfies the UID invariant, and
  that every mailbox belongs to one user, who is the only one to reach it.
\<close>

section \<open>The loops keep the UIDs\<close>

lemma SetFlag_UID [simp]: "msg_UID (SetFlag m f) = msg_UID m" "msg_Body (SetFlag m f) = msg_Body m"
  by (simp_all add: SetFlag_def)

lemma RemoveFlag_UID [simp]: "msg_UID (RemoveFlag m f) = msg_UID m" "msg_Body (RemoveFlag m f) = msg_Body m"
  by (simp_all add: RemoveFlag_def)

lemma foldl_flags_UID:
  "msg_UID (foldl SetFlag m fs) = msg_UID m" "msg_UID (foldl RemoveFlag m fs) = msg_UID m"
  by (induction fs arbitrary: m) simp_all

lemma store_message_UID [simp]: "msg_UID (store_message flags m) = msg_UID m"
  by (simp add: store_message_def foldl_flags_UID split: store_action.split)

lemma map_update_same:
  assumes "i < length xs \<Longrightarrow> f y = f (xs ! i)"
  shows "map f (xs[i := y]) = map f xs"
proof (cases "i < length xs")
  case True
  then have "(map f xs)[i := f y] = map f xs" using assms by (simp add: list_update_same_conv)
  then show ?thesis by (simp add: map_update)
qed (simp add: list_update_beyond)

lemma store_loop_UID: "map msg_UID (snd (store_loop flags ms msgs)) = map msg_UID msgs"
proof (induction ms arbitrary: msgs)
  case (Cons m ms)
  have "map msg_UID (msgs[mm_Pos m := store_message flags (msgs ! mm_Pos m)]) = map msg_UID msgs"
    by (rule map_update_same) simp
  then show ?case by (simp add: Let_def case_prod_beta Cons.IH)
qed simp

lemma fetch_sections_UID: "msg_UID (snd (fetch_sections ro ss m)) = msg_UID m"
  by (induction ro ss m rule: fetch_sections.induct)
    (auto simp: Let_def case_prod_beta split: sum.split)

lemma fetch_message_UID: "msg_UID (snd (fetch_message rh pt opts ro n m)) = msg_UID m"
  using fetch_sections_UID [of ro "fo_BodySection opts" m]
  by (simp add: fetch_message_def Let_def case_prod_beta split: sum.split)

lemma fetch_loop_UID: "map msg_UID (snd (snd (fetch_loop rh pt opts ro ms msgs))) = map msg_UID msgs"
proof (induction ms arbitrary: msgs)
  case (Cons m ms)
  have "map msg_UID (msgs[mm_Pos m := snd (fetch_message rh pt opts ro (mm_SeqNum m) (msgs ! mm_Pos m))]) =
      map msg_UID msgs"
    by (rule map_update_same) (simp add: fetch_message_UID)
  then show ?case by (simp add: Let_def case_prod_beta Cons.IH split: sum.split)
qed simp

lemma mailbox_ok_same_UIDs:
  assumes "mailbox_ok mbox" "map msg_UID msgs = map msg_UID (mb_Messages mbox)"
  shows "mailbox_ok (mbox\<lparr>mb_Messages := msgs\<rparr>)"
  using assms unfolding mailbox_ok_map by simp

lemma CopyMessageTo_UIDNext: "mb_UIDNext (snd (CopyMessageTo m dest now)) = mb_UIDNext dest + 1"
  by (simp add: CopyMessageTo_Append Mailbox_Append_def Let_def)

lemma unat_next:
  fixes a :: u32
  assumes "unat a + 1 < 2 ^ 32"
  shows "a \<noteq> - 1" "unat (a + 1) = unat a + 1"
proof -
  show n: "a \<noteq> - 1"
  proof
    assume "a = - 1"
    then have "unat a = 2 ^ 32 - 1" by (simp add: unsigned_minus_1_eq_mask mask_eq_exp_minus_1)
    then show False using assms by simp
  qed
  then have "1 + a \<noteq> 0" by (metis add.commute eq_neg_iff_add_eq_0)
  then show "unat (a + 1) = unat a + 1" by (metis unatSuc add.commute Suc_eq_plus1)
qed

lemma mailbox_ok_copy_loop:
  assumes "mailbox_ok dest" "unat (mb_UIDNext dest) + length ms < 2 ^ 32"
  shows "mailbox_ok (snd (copy_loop now ms cd dest))"
  using assms
proof (induction ms arbitrary: cd dest)
  case (Cons m ms)
  have lt: "unat (mb_UIDNext dest) + 1 < 2 ^ 32" using Cons.prems(2) by simp
  let ?dest = "snd (CopyMessageTo (mm_Message m) dest now)"
  have "mailbox_ok ?dest"
    unfolding CopyMessageTo_Append by (rule mailbox_ok_Append [OF Cons.prems(1) unat_next(1) [OF lt]])
  moreover have "unat (mb_UIDNext ?dest) + length ms < 2 ^ 32"
    using Cons.prems(2) unat_next(2) [OF lt] by (simp add: CopyMessageTo_UIDNext)
  ultimately show ?case by (simp add: Let_def case_prod_beta Cons.IH)
qed simp

section \<open>The system\<close>

text \<open>Room for \<open>n\<close> more messages before the UID counter of a mailbox would wrap.\<close>

definition room :: "nat \<Rightarrow> mailbox \<Rightarrow> bool" where
  "room n mbox \<longleftrightarrow> unat (mb_UIDNext mbox) + n < 2 ^ 32"

text \<open>
  The steps of one session. LOGIN happens with no mailbox selected, which the server
  guarantees by accepting it in the not-authenticated state only.
\<close>

inductive session_step :: "session \<times> world \<Rightarrow> session \<times> world \<Rightarrow> bool" where
  do_login: "ss_selected s = None \<Longrightarrow> session_step (s, w) (snd (Session_Login user pass s w), w)"
| do_close: "session_step (s, w) (Session_Close s, w)"
| do_select: "session_step (s, w) (snd (Session_Select name opts s w), w)"
| do_unselect: "session_step (s, w) (Session_Unselect s, w)"
| do_create: "session_step (s, w) (s, snd (Session_Create name s w))"
| do_delete: "session_step (s, w) (snd (Session_Delete name s w))"
| do_rename: "session_step (s, w) (s, snd (Session_Rename name new s w))"
| do_subscribe: "session_step (s, w) (s, snd (Session_Subscribe name s w))"
| do_unsubscribe: "session_step (s, w) (s, snd (Session_Unsubscribe name s w))"
| do_append: "(\<And>u a. ss_userData s = Some u \<Longrightarrow> GetMailbox u name w = Some a \<Longrightarrow> room 1 (w_mailbox w a)) \<Longrightarrow>
    session_step (s, w) (s, snd (Session_Append name r aopts now s w))"
| do_expunge: "session_step (s, w) (s, snd (Session_Expunge us s w))"
| do_fetch: "session_step (s, w) (s, snd (snd (Session_Fetch rh pt ns fopts s w)))"
| do_store: "session_step (s, w) (s, snd (Session_Store ns flags s w))"
| do_copy: "(\<And>u a b. ss_selected s = Some a \<Longrightarrow> ss_userData s = Some u \<Longrightarrow> GetMailbox u name w = Some b \<Longrightarrow>
      room (length (mb_Messages (w_mailbox w a))) (w_mailbox w b)) \<Longrightarrow>
    session_step (s, w) (s, snd (Session_Copy ns name now s w))"

record system =
  sys_world :: world
  sys_sessions :: "nat \<Rightarrow> session"

definition system_init :: system where
  "system_init = \<lparr>sys_world = mem_New, sys_sessions = (\<lambda>_. mem_NewSession)\<rparr>"

inductive system_step :: "system \<Rightarrow> system \<Rightarrow> bool" where
  by_session: "session_step (sys_sessions y i, sys_world y) (s', w') \<Longrightarrow>
    system_step y \<lparr>sys_world = w', sys_sessions = (sys_sessions y)(i := s')\<rparr>"
| connect: "system_step y (y\<lparr>sys_sessions := (sys_sessions y)(i := mem_NewSession)\<rparr>)"
| add_user: "system_step y (y\<lparr>sys_world := AddUser name pass (sys_world y)\<rparr>)"
| remove_user: "system_step y (y\<lparr>sys_world := RemoveUser name (sys_world y)\<rparr>)"

text \<open>\<open>own\<close> gives for each mailbox the user it belongs to.\<close>

definition owned :: "(addr \<Rightarrow> addr) \<Rightarrow> world \<Rightarrow> bool" where
  "owned own w \<longleftrightarrow> (\<forall>u n a. u < w_nextUserData w \<longrightarrow> w_userData w u n = Some a \<longrightarrow> own a = u)"

definition session_ok :: "(addr \<Rightarrow> addr) \<Rightarrow> session \<Rightarrow> world \<Rightarrow> bool" where
  "session_ok own s w \<longleftrightarrow>
     (case ss_userData s of
        None \<Rightarrow> ss_selected s = None
      | Some u \<Rightarrow> u < w_nextUserData w \<and>
          (\<forall>a. ss_selected s = Some a \<longrightarrow> a < w_nextMailbox w \<and> own a = u))"

text \<open>
  What a step of a session of user \<open>u\<close> may do to the store: change the directory of \<open>u\<close> and
  the mailboxes of \<open>u\<close>, and allocate mailboxes.
\<close>

definition confined :: "(addr \<Rightarrow> addr) \<Rightarrow> addr option \<Rightarrow> world \<Rightarrow> world \<Rightarrow> bool" where
  "confined own u w w' \<longleftrightarrow>
     w_nextMailbox w \<le> w_nextMailbox w' \<and> w_nextUserData w' = w_nextUserData w \<and>
     w_users w' = w_users w \<and> w_dataOf w' = w_dataOf w \<and>
     (\<forall>v. Some v \<noteq> u \<longrightarrow> w_userData w' v = w_userData w v) \<and>
     (\<forall>a < w_nextMailbox w. Some (own a) \<noteq> u \<longrightarrow> w_mailbox w' a = w_mailbox w a)"

lemma confined_refl [simp]: "confined own u w w"
  by (simp add: confined_def)

lemma confined_update: "own a = u \<Longrightarrow> confined own (Some u) w (update_mailbox a mbox w)"
  by (auto simp: confined_def update_mailbox_def)

lemma world_ok_update: "world_ok w \<Longrightarrow> mailbox_ok mbox \<Longrightarrow> world_ok (update_mailbox a mbox w)"
  by (simp add: update_mailbox_def world_ok_mailbox)

lemma owned_update [simp]: "owned own (update_mailbox a mbox w) = owned own w"
  by (simp add: update_mailbox_def owned_def)

lemma session_ok_update [simp]: "session_ok own s (update_mailbox a mbox w) = session_ok own s w"
  by (simp add: update_mailbox_def session_ok_def split: option.split)

lemma GetMailbox_owned:
  assumes "world_ok w" "owned own w" "u < w_nextUserData w" "GetMailbox u n w = Some a"
  shows "a < w_nextMailbox w" "own a = u"
proof -
  show "a < w_nextMailbox w"
    using assms(4) by (intro getMailboxLocked_allocated [OF _ assms(1,3)]) (simp add: GetMailbox_def)
  show "own a = u"
    using assms by (auto simp: GetMailbox_def getMailboxLocked_def owned_def split: option.splits if_splits)
qed

lemma world_ok_allocated: "world_ok w \<Longrightarrow> a < w_nextMailbox w \<Longrightarrow> mailbox_ok (w_mailbox w a)"
  by (simp add: world_ok_def)

definition all_ok :: "(addr \<Rightarrow> addr) \<Rightarrow> session \<Rightarrow> world \<Rightarrow> bool" where
  "all_ok own s w \<longleftrightarrow> world_ok w \<and> owned own w \<and> session_ok own s w"

definition good_step :: "(addr \<Rightarrow> addr) \<Rightarrow> session \<times> world \<Rightarrow> (addr \<Rightarrow> addr) \<Rightarrow> session \<times> world \<Rightarrow> bool" where
  "good_step own c own' c' \<longleftrightarrow>
     (\<forall>a < w_nextMailbox (snd c). own' a = own a) \<and> all_ok own' (fst c') (snd c') \<and>
     confined own (ss_userData (fst c)) (snd c) (snd c')"

lemma good_session:
  "world_ok w \<Longrightarrow> owned own w \<Longrightarrow> session_ok own s' w \<Longrightarrow> good_step own (s, w) own (s', w)"
  by (simp add: good_step_def all_ok_def)

lemma good_update:
  assumes "all_ok own s w" "ss_userData s = Some u" "own a = u" "mailbox_ok mbox"
  shows "good_step own (s, w) own (s, update_mailbox a mbox w)"
  using assms confined_update [of own a u w mbox]
  by (simp add: good_step_def all_ok_def world_ok_update)

lemma selected_ok:
  assumes "all_ok own s w" "ss_selected s = Some a"
  obtains u where "ss_userData s = Some u" "own a = u" "a < w_nextMailbox w" "mailbox_ok (w_mailbox w a)"
  using assms by (auto simp: all_ok_def session_ok_def world_ok_def split: option.splits)

lemma named_ok:
  assumes "all_ok own s w" "ss_userData s = Some u" "GetMailbox u n w = Some a"
  shows "own a = u" "a < w_nextMailbox w" "mailbox_ok (w_mailbox w a)"
proof -
  have w: "world_ok w" "owned own w" and u: "u < w_nextUserData w"
    using assms(1,2) by (auto simp: all_ok_def session_ok_def)
  show "own a = u" "a < w_nextMailbox w" using GetMailbox_owned [OF w u assms(3)] by simp_all
  then show "mailbox_ok (w_mailbox w a)" using w(1) by (simp add: world_ok_def)
qed

lemma session_ok_deselect:
  "session_ok own s w \<Longrightarrow> session_ok own (s\<lparr>ss_selected := None, ss_readOnly := b\<rparr>) w"
  by (simp add: session_ok_def split: option.splits)

lemma session_ok_mono:
  assumes "session_ok own s w" "w_nextMailbox w \<le> w_nextMailbox w'" "w_nextUserData w' = w_nextUserData w"
    and "\<forall>a < w_nextMailbox w. own' a = own a"
  shows "session_ok own' s w'"
  using assms by (auto simp: session_ok_def split: option.splits)

lemma owned_names:
  assumes "owned own w" "\<And>n a. m n = Some a \<Longrightarrow> own a = u"
  shows "owned own (w\<lparr>w_userData := (w_userData w)(u := m)\<rparr>)"
  using assms by (simp add: owned_def)

lemma good_create:
  assumes ok: "all_ok own s w" and u: "ss_userData s = Some u"
  shows "\<exists>own'. good_step own (s, w) own' (s, snd (CreateMailbox u n w))"
proof (cases "getMailboxLocked u n w")
  case None
  let ?own = "own(w_nextMailbox w := u)" and ?w = "snd (CreateMailbox u n w)"
  have lt: "u < w_nextUserData w" and w: "world_ok w" "owned own w" "session_ok own s w"
    using ok u by (auto simp: all_ok_def session_ok_def)
  have below: "a < w_nextMailbox w" if "v < w_nextUserData w" "w_userData w v k = Some a" for v k a
    using w(1) that by (rule userData_allocated)
  have w': "?w = w\<lparr>w_mailbox := (w_mailbox w)(w_nextMailbox w := NewMailbox n),
      w_nextMailbox := w_nextMailbox w + 1,
      w_userData := (w_userData w)(u := (w_userData w u)(n \<mapsto> w_nextMailbox w))\<rparr>"
    using None by (simp add: CreateMailbox_def alloc_mailbox_def)
  have "owned ?own ?w" unfolding w' using w(2) below by (fastforce simp: owned_def)
  moreover have "session_ok ?own s ?w" unfolding w' by (rule session_ok_mono [OF w(3)]) auto
  moreover have "world_ok ?w" by (rule world_ok_Create [OF w(1) lt])
  moreover have "confined own (Some u) w ?w" unfolding w' by (auto simp: confined_def)
  ultimately have "good_step own (s, w) ?own (s, ?w)" using u by (simp add: good_step_def all_ok_def)
  then show ?thesis by blast
next
  case (Some a)
  then have "snd (CreateMailbox u n w) = w" by (simp add: CreateMailbox_def)
  then have "good_step own (s, w) own (s, snd (CreateMailbox u n w))"
    using ok by (simp add: good_step_def all_ok_def)
  then show ?thesis by blast
qed

lemma good_names:
  assumes ok: "all_ok own s w" and u: "ss_userData s = Some u" and w': "world_ok w'" "owned own w'"
    and eq: "w_nextMailbox w' = w_nextMailbox w" "w_nextUserData w' = w_nextUserData w"
    and c: "confined own (Some u) w w'" and s': "session_ok own s' w"
  shows "good_step own (s, w) own (s', w')"
  using assms session_ok_mono [OF s', of w' own] by (simp add: good_step_def all_ok_def)

lemma good_delete:
  assumes ok: "all_ok own s w" and u: "ss_userData s = Some u" and s': "session_ok own s' w"
  shows "good_step own (s, w) own (s', snd (DeleteMailbox u n w))"
proof -
  have lt: "u < w_nextUserData w" and w: "world_ok w" "owned own w"
    using ok u by (auto simp: all_ok_def session_ok_def)
  have "owned own (snd (DeleteMailbox u n w))"
    using w(2) lt by (auto simp: DeleteMailbox_def owned_def split: if_splits)
  then show ?thesis
    using good_names [OF ok u world_ok_Delete [OF w(1) lt] _ _ _ _ s', of n]
    by (auto simp: DeleteMailbox_def confined_def)
qed

lemma good_rename:
  assumes ok: "all_ok own s w" and u: "ss_userData s = Some u"
  shows "good_step own (s, w) own (s, snd (RenameMailbox u n n' w))"
proof (cases "getMailboxLocked u n w")
  case None
  then show ?thesis using ok by (simp add: RenameMailbox_def good_step_def)
next
  case (Some a)
  have lt: "u < w_nextUserData w" and w: "world_ok w" "owned own w" "session_ok own s w"
    using ok u by (auto simp: all_ok_def session_ok_def)
  have a: "own a = u" using GetMailbox_owned(2) [OF w(1,2) lt] Some by (simp add: GetMailbox_def)
  have "owned own (snd (RenameMailbox u n n' w))"
    using w(2) lt a Some by (auto simp: RenameMailbox_def owned_def split: if_splits)
  then show ?thesis
    using good_names [OF ok u world_ok_Rename [OF w(1) lt] _ _ _ _ w(3), of n n'] a Some
    by (auto simp: RenameMailbox_def confined_def)
qed

lemma good_login:
  assumes ok: "all_ok own s w" and sel: "ss_selected s = None"
  shows "good_step own (s, w) own (snd (Session_Login user pass s w), w)"
proof -
  have "session_ok own (snd (Session_Login user pass s w)) w"
    using ok sel by (auto simp: Session_Login_def all_ok_def session_ok_def world_ok_def split: option.split)
  then show ?thesis using ok by (intro good_session) (simp_all add: all_ok_def)
qed

lemma good_select:
  assumes ok: "all_ok own s w"
  shows "good_step own (s, w) own (snd (Session_Select name opts s w), w)"
proof -
  have "session_ok own (snd (Session_Select name opts s w)) w"
    using ok named_ok [OF ok]
    by (auto simp: Session_Select_def all_ok_def session_ok_def Let_def split: option.split)
  then show ?thesis using ok by (intro good_session) (simp_all add: all_ok_def)
qed

lemma good_same: "all_ok own s w \<Longrightarrow> good_step own (s, w) own (s, w)"
  by (simp add: good_step_def)

lemma good_Session_Delete:
  assumes ok: "all_ok own s w"
  shows "good_step own (s, w) own (snd (Session_Delete n s w))"
proof (cases "ss_userData s")
  case None
  then show ?thesis using good_same [OF ok] by (simp add: Session_Delete_def)
next
  case (Some u)
  have "session_ok own s w" using ok by (simp add: all_ok_def)
  then show ?thesis
    using Some good_delete [OF ok Some, of _ n] session_ok_deselect [of own s w False]
    by (auto simp: Session_Delete_def Let_def case_prod_beta split: option.splits)
qed

lemma good_Session_Append:
  assumes ok: "all_ok own s w"
    and room: "\<And>u a. ss_userData s = Some u \<Longrightarrow> GetMailbox u n w = Some a \<Longrightarrow> room 1 (w_mailbox w a)"
  shows "good_step own (s, w) own (s, snd (Session_Append n r opts now s w))"
proof -
  have "good_step own (s, w) own (s, update_mailbox a (snd (Mailbox_Append (w_mailbox w a) body flags date now)) w)"
    if "ss_userData s = Some u" "GetMailbox u n w = Some a" for u a body flags date
  proof (rule good_update [OF ok that(1)])
    show "own a = u" using named_ok [OF ok that] by simp
    have "mb_UIDNext (w_mailbox w a) \<noteq> - 1"
      using room [OF that] by (intro unat_next(1)) (simp add: room_def)
    then show "mailbox_ok (snd (Mailbox_Append (w_mailbox w a) body flags date now))"
      using named_ok [OF ok that] by (simp add: mailbox_ok_Append)
  qed
  then show ?thesis
    using good_same [OF ok]
    by (simp add: Session_Append_def Let_def case_prod_beta split: option.splits sum.splits)
qed

lemma good_Session_Expunge:
  assumes ok: "all_ok own s w"
  shows "good_step own (s, w) own (s, snd (Session_Expunge us s w))"
proof (cases "ss_selected s")
  case None
  then show ?thesis using good_same [OF ok] by (simp add: Session_Expunge_def)
next
  case (Some a)
  obtain u where "ss_userData s = Some u" "own a = u" "mailbox_ok (w_mailbox w a)"
    using selected_ok [OF ok Some] by metis
  then show ?thesis
    using good_update [OF ok, of u a "snd (Mailbox_Expunge (w_mailbox w a) us)"] Some
    by (simp add: Session_Expunge_def Let_def case_prod_beta mailbox_ok_Expunge)
qed

lemma good_Session_Fetch:
  assumes ok: "all_ok own s w"
  shows "good_step own (s, w) own (s, snd (snd (Session_Fetch rh pt ns opts s w)))"
proof (cases "ss_selected s")
  case None
  then show ?thesis using good_same [OF ok] by (simp add: Session_Fetch_def)
next
  case (Some a)
  obtain u where "ss_userData s = Some u" "own a = u" "mailbox_ok (w_mailbox w a)"
    using selected_ok [OF ok Some] by metis
  then show ?thesis
    using good_update [OF ok, of u a] mailbox_ok_same_UIDs [OF _ fetch_loop_UID] Some
    by (simp add: Session_Fetch_def Let_def case_prod_beta)
qed

lemma good_Session_Store:
  assumes ok: "all_ok own s w"
  shows "good_step own (s, w) own (s, snd (Session_Store ns flags s w))"
proof (cases "ss_selected s")
  case None
  then show ?thesis using good_same [OF ok] by (simp add: Session_Store_def)
next
  case (Some a)
  obtain u where "ss_userData s = Some u" "own a = u" "mailbox_ok (w_mailbox w a)"
    using selected_ok [OF ok Some] by metis
  then show ?thesis
    using good_same [OF ok] good_update [OF ok, of u a] mailbox_ok_same_UIDs [OF _ store_loop_UID] Some
    by (simp add: Session_Store_def Let_def case_prod_beta)
qed

lemma MatchesMessages_length: "length (MatchesMessages mbox ns kind) \<le> length (mb_Messages mbox)"
  using length_filter_le [of _ "[0..<length (mb_Messages mbox)]"] by (simp add: MatchesMessages_filter)

lemma good_Session_Copy:
  assumes ok: "all_ok own s w"
    and room: "\<And>u a b. ss_selected s = Some a \<Longrightarrow> ss_userData s = Some u \<Longrightarrow> GetMailbox u n w = Some b \<Longrightarrow>
      room (length (mb_Messages (w_mailbox w a))) (w_mailbox w b)"
  shows "good_step own (s, w) own (s, snd (Session_Copy ns n now s w))"
proof -
  have "good_step own (s, w) own (s, update_mailbox b
      (snd (copy_loop now (MatchesMessages (w_mailbox w a) ns k) cd (w_mailbox w b))) w)"
    if "ss_selected s = Some a" "ss_userData s = Some u" "GetMailbox u n w = Some b" for u a b k cd
  proof (rule good_update [OF ok that(2)])
    show "own b = u" using named_ok [OF ok that(2,3)] by simp
    show "mailbox_ok (snd (copy_loop now (MatchesMessages (w_mailbox w a) ns k) cd (w_mailbox w b)))"
      using room [OF that] named_ok [OF ok that(2,3)] MatchesMessages_length [of "w_mailbox w a" ns k]
      by (intro mailbox_ok_copy_loop) (simp_all add: room_def)
  qed
  then show ?thesis
    using good_same [OF ok] by (simp add: Session_Copy_def Let_def case_prod_beta split: option.splits)
qed

lemma good_flag_update:
  assumes "all_ok own s w" "ss_userData s = Some u" "GetMailbox u n w = Some a"
  shows "good_step own (s, w) own (s, update_mailbox a ((w_mailbox w a)\<lparr>mb_Subscribed := b\<rparr>) w)"
  using good_update [OF assms(1,2)] named_ok [OF assms] by simp

lemma good_Session_Subscribe:
  assumes "all_ok own s w"
  shows "good_step own (s, w) own (s, snd (Session_Subscribe n s w))"
    "good_step own (s, w) own (s, snd (Session_Unsubscribe n s w))"
  using good_flag_update [OF assms] good_same [OF assms]
  by (simp_all add: Session_Subscribe_def Session_Unsubscribe_def split: option.split)

lemma session_step_good:
  assumes "session_step c c'" "all_ok own (fst c) (snd c)"
  shows "\<exists>own'. good_step own c own' c'"
  using assms
proof (induction rule: session_step.induct)
  case (do_close s w)
  then have "session_ok own (Session_Close s) w" by (simp add: Session_Close_def session_ok_def)
  with do_close good_session [of w own _ s] show ?case by (auto simp: all_ok_def)
next
  case (do_unselect s w)
  then have "session_ok own (Session_Unselect s) w"
    by (simp add: Session_Unselect_def all_ok_def session_ok_deselect)
  with do_unselect good_session [of w own _ s] show ?case by (auto simp: all_ok_def)
next
  case (do_create s w name)
  then show ?case
    using good_create [of own s w] good_same [of own s w] by (cases "ss_userData s") (auto simp: Session_Create_def)
next
  case (do_rename s w name new)
  then show ?case
    using good_rename [of own s w] good_same [of own s w] by (cases "ss_userData s") (auto simp: Session_Rename_def)
next
  case (do_login s w user pass)
  then show ?case by - (rule exI, rule good_login, simp_all)
next
  case (do_select s w name opts)
  then show ?case by - (rule exI, rule good_select, simp_all)
next
  case (do_delete s w name)
  then show ?case by - (rule exI, rule good_Session_Delete, simp_all)
next
  case (do_subscribe s w name)
  then show ?case by - (rule exI, rule good_Session_Subscribe(1), simp_all)
next
  case (do_unsubscribe s w name)
  then show ?case by - (rule exI, rule good_Session_Subscribe(2), simp_all)
next
  case (do_append s name w r aopts now)
  then show ?case by - (rule exI, rule good_Session_Append, simp_all)
next
  case (do_expunge s w us)
  then show ?case by - (rule exI, rule good_Session_Expunge, simp_all)
next
  case (do_fetch s w rh pt ns fopts)
  then show ?case by - (rule exI, rule good_Session_Fetch, simp_all)
next
  case (do_store s w ns flags)
  then show ?case by - (rule exI, rule good_Session_Store, simp_all)
next
  case (do_copy s name w ns now)
  then show ?case by - (rule exI, rule good_Session_Copy, simp_all)
qed

section \<open>The invariant of the system\<close>

definition system_ok :: "system \<Rightarrow> bool" where
  "system_ok y \<longleftrightarrow> (\<exists>own. \<forall>i. all_ok own (sys_sessions y i) (sys_world y))"

lemma session_ok_new: "session_ok own mem_NewSession w"
  by (simp add: session_ok_def mem_NewSession_def)

lemma AddUser_extends:
  "w_nextMailbox w \<le> w_nextMailbox (AddUser n p w)" "w_nextUserData w \<le> w_nextUserData (AddUser n p w)"
  "v < w_nextUserData w \<Longrightarrow> w_userData (AddUser n p w) v = w_userData w v"
  by (auto simp: AddUser_def NewUserData_def alloc_mailbox_def Let_def split: option.split)

lemma AddUser_owned:
  assumes "world_ok w" "owned own w"
  shows "\<exists>own'. owned own' (AddUser n p w) \<and> (\<forall>a < w_nextMailbox w. own' a = own a)"
proof (cases "w_dataOf w n")
  case None
  let ?own = "own(w_nextMailbox w := w_nextUserData w)"
  have "a < w_nextMailbox w" if "v < w_nextUserData w" "w_userData w v k = Some a" for v k a
    using assms(1) that by (rule userData_allocated)
  then have "owned ?own (AddUser n p w)"
    using None assms(2)
    by (fastforce simp: owned_def AddUser_def NewUserData_def alloc_mailbox_def Let_def less_Suc_eq split: if_splits)
  then show ?thesis by (intro exI [of _ ?own]) simp
next
  case (Some u)
  then have "owned own (AddUser n p w)" using assms(2) by (simp add: AddUser_def owned_def)
  then show ?thesis by blast
qed

lemma session_ok_extend:
  assumes "session_ok own s w" "w_nextMailbox w \<le> w_nextMailbox w'" "w_nextUserData w \<le> w_nextUserData w'"
    and "\<forall>a < w_nextMailbox w. own' a = own a"
  shows "session_ok own' s w'"
  using assms by (auto simp: session_ok_def split: option.splits)

lemma system_ok_init: "system_ok system_init"
proof -
  have "owned own mem_New" for own by (simp add: owned_def mem_New_def)
  then show ?thesis by (simp add: system_ok_def system_init_def all_ok_def world_ok_New session_ok_new)
qed

lemma system_okI: "\<forall>i. all_ok own (sys_sessions y i) (sys_world y) \<Longrightarrow> system_ok y"
  unfolding system_ok_def by blast

lemma good_step_others:
  assumes g: "good_step own (s, w) own' (s', w')" and t: "all_ok own t w"
  shows "all_ok own' t w'"
proof -
  have c: "confined own (ss_userData s) w w'" and o: "\<forall>a < w_nextMailbox w. own' a = own a"
    and w': "world_ok w'" "owned own' w'"
    using g by (simp_all add: good_step_def all_ok_def)
  have "session_ok own t w" using t by (simp add: all_ok_def)
  then have "session_ok own' t w'"
    by (rule session_ok_extend [OF _ _ _ o]) (use c in \<open>simp_all add: confined_def\<close>)
  with w' show ?thesis by (simp add: all_ok_def)
qed

lemma system_ok_step:
  assumes "system_step y y'" "system_ok y"
  shows "system_ok y'"
  using assms
proof (induction rule: system_step.induct)
  case (by_session y i s' w')
  obtain own where own: "\<forall>j. all_ok own (sys_sessions y j) (sys_world y)"
    using by_session(2) unfolding system_ok_def by blast
  obtain own' where g: "good_step own (sys_sessions y i, sys_world y) own' (s', w')"
    using session_step_good [OF by_session(1), of own] own by auto
  have "all_ok own' s' w'" using g by (simp add: good_step_def)
  then show ?case
    by (intro system_okI [of own']) (use own good_step_others [OF g] in simp)
next
  case (connect y i)
  obtain own where own: "\<forall>j. all_ok own (sys_sessions y j) (sys_world y)"
    using connect unfolding system_ok_def by blast
  have "all_ok own mem_NewSession (sys_world y)"
    using own session_ok_new by (simp add: all_ok_def)
  then show ?case by (intro system_okI [of own]) (simp add: own)
next
  case (add_user y name pass)
  obtain own where own: "\<forall>j. all_ok own (sys_sessions y j) (sys_world y)"
    using add_user unfolding system_ok_def by blast
  then have w: "world_ok (sys_world y)" "owned own (sys_world y)" by (simp_all add: all_ok_def)
  obtain own' where own': "owned own' (AddUser name pass (sys_world y))"
    "\<forall>a < w_nextMailbox (sys_world y). own' a = own a"
    using AddUser_owned [OF w] by blast
  have "session_ok own' (sys_sessions y j) (AddUser name pass (sys_world y))" for j
    by (rule session_ok_extend [OF _ AddUser_extends(1,2) own'(2)]) (use own in \<open>simp add: all_ok_def\<close>)
  then show ?case
    using own'(1) world_ok_AddUser [OF w(1)] by (intro system_okI [of own']) (simp add: all_ok_def)
next
  case (remove_user y name)
  obtain own where own: "\<forall>j. all_ok own (sys_sessions y j) (sys_world y)"
    using remove_user unfolding system_ok_def by blast
  have "owned own (RemoveUser name w) = owned own w" "session_ok own s (RemoveUser name w) = session_ok own s w"
    for s w
    by (simp_all add: RemoveUser_def owned_def session_ok_def split: option.split)
  then show ?case
    using own world_ok_RemoveUser by (intro system_okI [of own]) (simp add: all_ok_def)
qed

interpretation systems: transition_system "\<lambda>y. y = system_init" system_step system_ok
proof unfold_locales
  show "y = system_init \<Longrightarrow> system_ok y" for y by (simp only: system_ok_init)
  show "system_ok y \<Longrightarrow> system_step y y' \<Longrightarrow> system_ok y'" for y y' by (rule system_ok_step)
qed

text \<open>C3. The store stays well formed while any number of sessions call their methods, in any
  interleaving with each other and with the administrator: every mailbox keeps the UID invariant,
  and COPY, which dereferences the user data without a check, never dereferences a nil pointer.
  Two conditions are part of the steps: LOGIN is called with no mailbox selected, which the
  server's table of states ensures, and APPEND and COPY are called while the UID counter of their
  mailbox has room below \<open>2^32\<close>, since the counter of the code wraps there.\<close>

theorem reachable_system_ok:
  assumes "steps system_step system_init y"
  shows "(\<forall>a < w_nextMailbox (sys_world y). mailbox_ok (w_mailbox (sys_world y) a)) \<and>
         fst (Session_Copy ns dest now (sys_sessions y i) (sys_world y)) \<noteq> Panicked NilDereference"
proof -
  have "system_ok y" by (rule systems.inv_reachable [OF refl assms])
  then obtain own where own: "\<forall>j. all_ok own (sys_sessions y j) (sys_world y)"
    unfolding system_ok_def by blast
  then have w: "world_ok (sys_world y)" and s: "session_ok own (sys_sessions y i) (sys_world y)"
    by (simp_all add: all_ok_def)
  have "fst (Session_Copy ns dest now (sys_sessions y i) (sys_world y)) \<noteq> Panicked NilDereference"
    using s by (auto simp: Session_Copy_def session_ok_def Let_def case_prod_beta split: option.splits)
  then show ?thesis using w by (simp add: world_ok_def)
qed

text \<open>Ann logs in, appends a message to INBOX, selects INBOX and copies the message into it.\<close>

definition ann_world :: world where
  "ann_world = AddUser ''ann'' ''pw'' mem_New"

definition ann :: session where
  "ann = snd (Session_Login ''ann'' ''pw'' mem_NewSession ann_world)"

definition ann_mail :: world where
  "ann_mail = snd (Session_Append ''INBOX'' (Inr ''x'') None 7 ann ann_world)"

definition ann_selected :: session where
  "ann_selected = snd (Session_Select ''INBOX'' (Some (zero_select_options False)) ann ann_mail)"

definition ann_copied :: world where
  "ann_copied = snd (Session_Copy (SeqSet [NumRange 1 1]) ''INBOX'' 8 ann_selected ann_mail)"

lemmas ann_run_defs = AddUser_def NewUserData_def alloc_mailbox_def mem_New_def mem_NewSession_def Session_Login_def Session_Append_def
  Session_Select_def GetMailbox_def getMailboxLocked_def update_mailbox_def Mailbox_Append_def NewMailbox_def zero_select_options_def

lemma ann_state:
  "ann = \<lparr>ss_userData = Some 0, ss_selected = None, ss_readOnly = False\<rparr>"
  "ann_selected = \<lparr>ss_userData = Some 0, ss_selected = Some 0, ss_readOnly = False\<rparr>"
  "GetMailbox 0 ''INBOX'' ann_world = Some 0" "GetMailbox 0 ''INBOX'' ann_mail = Some 0"
  "mb_UIDNext (w_mailbox ann_world 0) = 1" "mb_UIDNext (w_mailbox ann_mail 0) = 2" "length (mb_Messages (w_mailbox ann_mail 0)) = 1"
  "w_nextMailbox ann_mail = 1"
  by (simp_all add: ann_def ann_selected_def ann_mail_def ann_world_def ann_run_defs Let_def)

lemma ann_reachable:
  "steps system_step system_init \<lparr>sys_world = ann_copied, sys_sessions = (\<lambda>_. mem_NewSession)(0 := ann_selected)\<rparr>"
proof -
  let ?y = "\<lambda>w s. \<lparr>sys_world = w, sys_sessions = (\<lambda>_. mem_NewSession)(0 := s)\<rparr>"
  have one: "system_step (?y w s) (?y w' s')" if "session_step (s, w) (s', w')" for s w s' w'
    using by_session [of "?y w s" 0 s' w'] that by simp
  have "system_init\<lparr>sys_world := AddUser ''ann'' ''pw'' (sys_world system_init)\<rparr> = ?y ann_world mem_NewSession"
    by (simp add: system_init_def ann_world_def fun_eq_iff)
  then have "steps system_step system_init (?y ann_world mem_NewSession)"
    using steps_one [where r = system_step, OF add_user [of system_init "''ann''" "''pw''"]] by simp
  moreover have "system_step (?y ann_world mem_NewSession) (?y ann_world ann)"
    unfolding ann_def by (rule one, rule do_login) (simp add: mem_NewSession_def)
  moreover have "system_step (?y ann_world ann) (?y ann_mail ann)"
    unfolding ann_mail_def by (rule one, rule do_append) (auto simp: ann_state room_def)
  moreover have "system_step (?y ann_mail ann) (?y ann_mail ann_selected)"
    unfolding ann_selected_def by (rule one, rule do_select)
  moreover have "system_step (?y ann_mail ann_selected) (?y ann_copied ann_selected)"
    unfolding ann_copied_def by (rule one, rule do_copy) (auto simp: ann_state room_def)
  ultimately show ?thesis by (meson steps_step)
qed

theorem reachable_system_ok_witness:
  "mailbox_ok (w_mailbox ann_copied 0) \<and> map msg_UID (mb_Messages (w_mailbox ann_copied 0)) = [1, 2]"
proof
  have "w_nextMailbox ann_copied = 1"
    by (simp add: ann_copied_def Session_Copy_def ann_state update_mailbox_def Let_def case_prod_beta)
  then show "mailbox_ok (w_mailbox ann_copied 0)"
    using reachable_system_ok [OF ann_reachable, of "SeqSet []" "[]" 0 0] by simp
  show "map msg_UID (mb_Messages (w_mailbox ann_copied 0)) = [1, 2]"
    unfolding ann_copied_def ann_mail_def ann_selected_def ann_def ann_world_def
    by (simp add: ann_run_defs Session_Copy_def MatchesMessages_def numSetContains_def NumRange_def set_kind_def
        CopyMessageTo_def CopyFlags_def Let_def)
qed

text \<open>What user \<open>v\<close> can see: the mailbox behind every name.\<close>

definition view :: "addr \<Rightarrow> world \<Rightarrow> string \<Rightarrow> mailbox option" where
  "view v w n = map_option (w_mailbox w) (GetMailbox v n w)"

lemma confined_view:
  assumes ok: "all_ok own s w" and c: "confined own u w w'" and v: "u \<noteq> Some v" "v < w_nextUserData w"
  shows "view v w' = view v w"
proof
  fix n
  have "w_userData w' v = w_userData w v" using c v by (auto simp: confined_def)
  then have same: "GetMailbox v n w' = GetMailbox v n w"
    by (simp add: GetMailbox_def getMailboxLocked_def split: option.split)
  show "view v w' n = view v w n"
  proof (cases "GetMailbox v n w")
    case (Some a)
    have "a < w_nextMailbox w" "own a = v"
      using GetMailbox_owned [of w own v n a] v(2) Some ok by (simp_all add: all_ok_def)
    then have "w_mailbox w' a = w_mailbox w a" using c v by (auto simp: confined_def)
    then show ?thesis using same Some by (simp add: view_def)
  qed (simp add: view_def same)
qed

text \<open>Users are isolated: in every reachable state of the system, no method of a session that
  is not a session of user \<open>v\<close>, logged in as someone else or not at all, changes anything \<open>v\<close> can
  see, neither which names exist nor the content of any mailbox.\<close>

theorem users_isolated:
  assumes "steps system_step system_init y"
    and "session_step (sys_sessions y i, sys_world y) (s', w')"
    and "ss_userData (sys_sessions y i) \<noteq> Some v" "v < w_nextUserData (sys_world y)"
  shows "view v w' = view v (sys_world y)"
proof -
  have "system_ok y" by (rule systems.inv_reachable [OF refl assms(1)])
  then obtain own where own: "all_ok own (sys_sessions y i) (sys_world y)"
    unfolding system_ok_def by blast
  then obtain own' where "good_step own (sys_sessions y i, sys_world y) own' (s', w')"
    using session_step_good [OF assms(2), of own] by auto
  then have "confined own (ss_userData (sys_sessions y i)) (sys_world y) w'" by (simp add: good_step_def)
  then show ?thesis by (rule confined_view [OF own _ assms(3,4)])
qed

definition two_users :: system where
  "two_users =
     \<lparr>sys_world = AddUser ''bob'' ''q'' (AddUser ''ann'' ''p'' mem_New),
      sys_sessions = (\<lambda>_. mem_NewSession)
        (7 := snd (Session_Login ''bob'' ''q'' mem_NewSession (AddUser ''bob'' ''q'' (AddUser ''ann'' ''p'' mem_New))))\<rparr>"

lemma two_users_reachable: "steps system_step system_init two_users"
proof -
  let ?y1 = "system_init\<lparr>sys_world := AddUser ''ann'' ''p'' (sys_world system_init)\<rparr>"
  let ?y2 = "?y1\<lparr>sys_world := AddUser ''bob'' ''q'' (sys_world ?y1)\<rparr>"
  have "steps system_step system_init ?y2"
    by (rule steps_step, rule steps_one, rule add_user, rule add_user)
  moreover have "system_step ?y2 two_users"
  proof -
    have "session_step (sys_sessions ?y2 7, sys_world ?y2)
        (snd (Session_Login ''bob'' ''q'' (sys_sessions ?y2 7) (sys_world ?y2)), sys_world ?y2)"
      by (rule do_login) (simp add: system_init_def mem_NewSession_def)
    from by_session [OF this] show ?thesis by (simp add: two_users_def system_init_def)
  qed
  ultimately show ?thesis by (rule steps_step)
qed

theorem users_isolated_witness:
  "view 0 (snd (Session_Create ''Work'' (sys_sessions two_users 7) (sys_world two_users))) = view 0 (sys_world two_users)"
proof (rule users_isolated [OF two_users_reachable])
  show "session_step (sys_sessions two_users 7, sys_world two_users)
      (sys_sessions two_users 7, snd (Session_Create ''Work'' (sys_sessions two_users 7) (sys_world two_users)))"
    by (rule do_create)
  show "ss_userData (sys_sessions two_users 7) \<noteq> Some 0" "0 < w_nextUserData (sys_world two_users)"
    by (simp_all add: two_users_def Session_Login_def AddUser_def NewUserData_def alloc_mailbox_def mem_New_def
        mem_NewSession_def Let_def)
qed

end
