(* ===== verification/MemLaws.thy ===== *)
theory MemLaws
  imports MemSystem
begin

text \<open>
  What the methods of a session promise: LOGIN accepts exactly the right password, EXAMINE
  protects a mailbox from FETCH and STORE, STORE changes the flags of the messages named and
  reports them, COPY copies them in order under fresh UIDs.
\<close>

section \<open>LOGIN\<close>

text \<open>LOGIN succeeds exactly for a user that exists with the password given; then the session
  holds the data of that user, and otherwise it is unchanged.\<close>

theorem login_exact:
  "(fst (Session_Login user pass s w) = None \<longleftrightarrow> w_users w user = Some pass) \<and>
   snd (Session_Login user pass s w) =
     (if w_users w user = Some pass then s\<lparr>ss_userData := w_dataOf w user\<rparr> else s)"
  by (auto simp: Session_Login_def split: option.split)

section \<open>Read-only mailboxes\<close>

lemma fetch_sections_read_only: "snd (fetch_sections True ss m) = m"
  by (induction "True" ss m rule: fetch_sections.induct) (auto simp: Let_def case_prod_beta split: sum.split)

lemma fetch_message_read_only: "snd (fetch_message rh pt opts True n m) = m"
  by (simp add: fetch_message_def Let_def case_prod_beta fetch_sections_read_only split: sum.split)

lemma fetch_loop_read_only: "snd (snd (fetch_loop rh pt opts True ms msgs)) = msgs"
  by (induction ms arbitrary: msgs)
    (simp_all add: Let_def case_prod_beta fetch_message_read_only list_update_id split: sum.split)

lemma update_mailbox_same [simp]: "update_mailbox a (w_mailbox w a) w = w"
  by (simp add: update_mailbox_def)

text \<open>C25. A mailbox opened with EXAMINE, a SELECT with the read-only option, is protected from FETCH
  and STORE: from then on FETCH changes nothing, not even the seen flag of a message whose body it
  reads, and STORE is refused, whatever other sessions have done to the store meanwhile.\<close>

theorem examine_protects:
  assumes "Session_Select name (Some opts) s w = (Done data, s')" "sel_ReadOnly opts"
  shows "snd (snd (Session_Fetch rh pt ns fopts s' w')) = w' \<and> (\<exists>e. Session_Store ns flags s' w' = (Inl e, w'))"
proof -
  have ro: "ss_readOnly s'"
    using assms by (auto simp: Session_Select_def Let_def split: option.splits)
  have "snd (snd (Session_Fetch rh pt ns fopts s' w')) = w'"
    using ro by (simp add: Session_Fetch_def Let_def case_prod_beta fetch_loop_read_only split: option.split)
  moreover have "\<exists>e. Session_Store ns flags s' w' = (Inl e, w')"
    using ro by (simp add: Session_Store_def split: option.split)
  ultimately show ?thesis by blast
qed

definition text_section :: fetch_options where
  "text_section = zero_fetch_options\<lparr>fo_BodySection :=
     [\<lparr>Specifier = ''TEXT'', Part = [], Fields = [], NotFields = False, Peek = False, Partial = None\<rparr>]\<rparr>"

theorem examine_protects_witness:
  "snd (snd (Session_Fetch (\<lambda>_. None) (\<lambda>_ _. None) (SeqSet [NumRange 1 1]) text_section
      (snd (Session_Select ''INBOX'' (Some (zero_select_options True)) ann ann_mail)) ann_mail)) = ann_mail \<and>
   fst (snd (Session_Fetch (\<lambda>_. None) (\<lambda>_ _. None) (SeqSet [NumRange 1 1]) text_section
      (snd (Session_Select ''INBOX'' (Some (zero_select_options True)) ann ann_mail)) ann_mail)) \<noteq> []"
proof
  have "\<exists>data. Session_Select ''INBOX'' (Some (zero_select_options True)) ann ann_mail =
      (Done data, snd (Session_Select ''INBOX'' (Some (zero_select_options True)) ann ann_mail))"
    by (simp add: Session_Select_def ann_state Let_def)
  then obtain data where "Session_Select ''INBOX'' (Some (zero_select_options True)) ann ann_mail =
      (Done data, snd (Session_Select ''INBOX'' (Some (zero_select_options True)) ann ann_mail))" by blast
  from examine_protects [OF this]
  show "snd (snd (Session_Fetch (\<lambda>_. None) (\<lambda>_ _. None) (SeqSet [NumRange 1 1]) text_section
      (snd (Session_Select ''INBOX'' (Some (zero_select_options True)) ann ann_mail)) ann_mail)) = ann_mail"
    by (simp add: zero_select_options_def)
  show "fst (snd (Session_Fetch (\<lambda>_. None) (\<lambda>_ _. None) (SeqSet [NumRange 1 1]) text_section
      (snd (Session_Select ''INBOX'' (Some (zero_select_options True)) ann ann_mail)) ann_mail)) \<noteq> []"
    unfolding ann_mail_def ann_def ann_world_def
    by (simp add: ann_run_defs Session_Fetch_def MatchesMessages_def numSetContains_def NumRange_def set_kind_def fetch_message_def
        text_section_def zero_fetch_options_def fetchSection_def Let_def split: sum.split option.split)
qed

text \<open>A flaw: EXPUNGE does not look at the read-only mark. In a mailbox opened with EXAMINE it
  removes the messages marked as deleted all the same.\<close>

theorem examine_does_not_stop_expunge:
  "ss_selected s = Some a \<Longrightarrow>
   mb_Messages (w_mailbox (snd (Session_Expunge None (s\<lparr>ss_readOnly := True\<rparr>) w)) a) =
     filter (\<lambda>m. \<not> HasFlag m FlagDeleted) (mb_Messages (w_mailbox w a))"
  using Expunge_messages [of "w_mailbox w a" None]
  by (simp add: Session_Expunge_def Let_def case_prod_beta update_mailbox_def)

theorem examine_does_not_stop_expunge_witness:
  "mb_Messages (w_mailbox (snd (Session_Expunge None
      \<lparr>ss_userData = Some 0, ss_selected = Some 0, ss_readOnly = True\<rparr>
      (mem_New\<lparr>w_mailbox := (\<lambda>_. (NewMailbox ''INBOX'')\<lparr>mb_Messages :=
         [\<lparr>msg_UID = 1, msg_Flags = [FlagDeleted], msg_InternalDate = 1, msg_Size = 0, msg_Body = []\<rparr>]\<rparr>)\<rparr>))) 0) = []"
  using examine_does_not_stop_expunge
    [of "\<lparr>ss_userData = Some 0, ss_selected = Some 0, ss_readOnly = False\<rparr>" 0
      "mem_New\<lparr>w_mailbox := (\<lambda>_. (NewMailbox ''INBOX'')\<lparr>mb_Messages :=
         [\<lparr>msg_UID = 1, msg_Flags = [FlagDeleted], msg_InternalDate = 1, msg_Size = 0, msg_Body = []\<rparr>]\<rparr>)\<rparr>"]
  by (simp add: HasFlag_def)

section \<open>STORE\<close>

lemma MatchesMessages_Pos:
  "map mm_Pos (MatchesMessages mbox ns kind) =
     filter (\<lambda>j. numSetContains (Ranges ns) (msg_num kind j (mb_Messages mbox ! j)) (NumMessages mbox))
       [0..<length (mb_Messages mbox)]"
  by (simp add: MatchesMessages_filter NumMessages_def o_def)

lemma MatchesMessages_distinct: "distinct (map mm_Pos (MatchesMessages mbox ns kind))"
  unfolding MatchesMessages_Pos by simp

lemma MatchesMessages_at:
  "mm \<in> set (MatchesMessages mbox ns kind) \<Longrightarrow>
   mm_Pos mm < length (mb_Messages mbox) \<and> mm_Message mm = mb_Messages mbox ! mm_Pos mm \<and>
   mm_SeqNum mm = of_nat (mm_Pos mm + 1)"
  by (auto simp: MatchesMessages_filter)

lemma nth_update_other:
  "mm_Pos m \<notin> mm_Pos ` set ms \<Longrightarrow> mm \<in> set ms \<Longrightarrow> msgs[mm_Pos m := x] ! mm_Pos mm = msgs ! mm_Pos mm"
  by (metis imageI nth_list_update_neq)

lemma store_loop_messages:
  assumes "distinct (map mm_Pos ms)" "\<forall>mm \<in> set ms. mm_Pos mm < length msgs"
  shows "length (snd (store_loop flags ms msgs)) = length msgs \<and>
    (\<forall>i < length msgs. snd (store_loop flags ms msgs) ! i =
      (if i \<in> mm_Pos ` set ms then store_message flags (msgs ! i) else msgs ! i))"
  using assms
proof (induction ms arbitrary: msgs)
  case (Cons m ms)
  let ?msgs = "msgs[mm_Pos m := store_message flags (msgs ! mm_Pos m)]"
  have IH: "length (snd (store_loop flags ms ?msgs)) = length ?msgs \<and>
    (\<forall>i < length ?msgs. snd (store_loop flags ms ?msgs) ! i =
      (if i \<in> mm_Pos ` set ms then store_message flags (?msgs ! i) else ?msgs ! i))"
    using Cons.prems by (intro Cons.IH) auto
  have "mm_Pos m \<notin> mm_Pos ` set ms" using Cons.prems(1) by simp
  then show ?case
    using IH nth_update_other [of m ms _ msgs] by (auto simp: Let_def case_prod_beta nth_list_update)
qed simp

lemma store_loop_written:
  assumes "distinct (map mm_Pos ms)" "\<forall>mm \<in> set ms. mm_Pos mm < length msgs"
  shows "fst (store_loop flags ms msgs) =
    (if sf_Silent flags then []
     else map (\<lambda>mm. (mm_SeqNum mm, msg_Flags (store_message flags (msgs ! mm_Pos mm)))) ms)"
  using assms
proof (induction ms arbitrary: msgs)
  case (Cons m ms)
  let ?msgs = "msgs[mm_Pos m := store_message flags (msgs ! mm_Pos m)]"
  have "fst (store_loop flags ms ?msgs) =
    (if sf_Silent flags then []
     else map (\<lambda>mm. (mm_SeqNum mm, msg_Flags (store_message flags (?msgs ! mm_Pos mm)))) ms)"
    using Cons.prems by (intro Cons.IH) auto
  moreover have "?msgs ! mm_Pos mm = msgs ! mm_Pos mm" if "mm \<in> set ms" for mm
    using Cons.prems(1) that by (intro nth_update_other) simp_all
  ultimately show ?case by (auto simp: Let_def case_prod_beta CopyFlags_def)
qed simp

text \<open>The flags of a message without regard to letter case.\<close>

definition flag_set :: "flag list \<Rightarrow> string set" where
  "flag_set fs = ToUpper ` set fs"

lemma flag_set_foldl:
  assumes "distinct_flags (msg_Flags m)"
  shows "flag_set (msg_Flags (foldl SetFlag m fs)) = flag_set (msg_Flags m) \<union> flag_set fs"
    "flag_set (msg_Flags (foldl RemoveFlag m fs)) = flag_set (msg_Flags m) - flag_set fs"
proof -
  have "flag_set (msg_Flags (SetFlag m f)) = insert (ToUpper f) (flag_set (msg_Flags m))" for m f
    by (auto simp: SetFlag_def HasFlag_iff flag_set_def)
  then show "flag_set (msg_Flags (foldl SetFlag m fs)) = flag_set (msg_Flags m) \<union> flag_set fs"
    by (induction fs arbitrary: m) (auto simp: flag_set_def)
  show "flag_set (msg_Flags (foldl RemoveFlag m fs)) = flag_set (msg_Flags m) - flag_set fs"
    using assms
  proof (induction fs arbitrary: m)
    case (Cons f fs)
    have "flag_set (msg_Flags (RemoveFlag m f)) = flag_set (msg_Flags m) - {ToUpper f}"
      using drop_first_flag_upper [OF Cons.prems] by (simp add: RemoveFlag_def flag_set_def)
    then show ?case using Cons.IH [OF distinct_RemoveFlag [OF Cons.prems, of f]] by (auto simp: flag_set_def)
  qed (simp add: flag_set_def)
qed

lemma foldl_flags_same:
  "(foldl SetFlag m fs)\<lparr>msg_Flags := x\<rparr> = m\<lparr>msg_Flags := x\<rparr>" "(foldl RemoveFlag m fs)\<lparr>msg_Flags := x\<rparr> = m\<lparr>msg_Flags := x\<rparr>"
  by (induction fs arbitrary: m) (simp_all add: SetFlag_def RemoveFlag_def)

text \<open>What the action asks of the flags: to replace them, to add to them, to take from them.\<close>

definition stored_flags :: "store_action \<Rightarrow> string set \<Rightarrow> string set \<Rightarrow> string set" where
  "stored_flags act had given =
     (case act of StoreFlagsSet \<Rightarrow> given | StoreFlagsAdd \<Rightarrow> had \<union> given | StoreFlagsDel \<Rightarrow> had - given)"

lemma store_message_exact:
  assumes "distinct_flags (msg_Flags m)"
  shows "flag_set (msg_Flags (store_message flags m)) = stored_flags (sf_Action flags) (flag_set (msg_Flags m)) (flag_set (sf_Flags flags)) \<and>
    (store_message flags m)\<lparr>msg_Flags := []\<rparr> = m\<lparr>msg_Flags := []\<rparr>"
  by (auto simp: store_message_def stored_flags_def flag_set_foldl [OF assms] foldl_flags_same split: store_action.split)

text \<open>The messages a set names, by their positions: those whose sequence number, or whose UID, lies in
  one of the ranges. The asterisk stands for the number of messages, in UID sets as well.\<close>

definition names_message :: "num_set \<Rightarrow> message list \<Rightarrow> nat \<Rightarrow> bool" where
  "names_message ns msgs i \<longleftrightarrow>
     (\<exists>r \<in> set (Ranges ns). (case ns of SeqSet _ \<Rightarrow> of_nat (i + 1) | UIDSet _ \<Rightarrow> msg_UID (msgs ! i)) \<in> range_names (of_nat (length msgs)) r)"

lemma named_positions:
  "map mm_Pos (MatchesMessages mbox ns (set_kind ns)) = filter (names_message ns (mb_Messages mbox)) [0..<length (mb_Messages mbox)]"
  unfolding MatchesMessages_Pos
  by (rule filter_cong) (simp_all add: names_message_def numSetContains_iff msg_num_def set_kind_def NumMessages_def split: num_set.split)

text \<open>C23. STORE on a mailbox opened for writing changes exactly the messages named by the set: it
  replaces their flags, adds to them or takes from them, as asked, without regard to letter case, and
  changes nothing else of them; it leaves all other messages and all other mailboxes alone, and
  unless silent it reports the flags each named message now has, in the order of the mailbox. No
  message may have a flag twice, which APPEND does not ensure.\<close>

theorem store_exact:
  assumes "ss_selected s = Some a" "\<not> ss_readOnly s" "mb_Messages (w_mailbox w a) = old"
    and "\<forall>m \<in> set old. distinct_flags (msg_Flags m)"
  shows "\<exists>written w' new. Session_Store ns flags s w = (Inr written, w') \<and> mb_Messages (w_mailbox w' a) = new \<and>
    (\<forall>b. b \<noteq> a \<longrightarrow> w_mailbox w' b = w_mailbox w b) \<and> length new = length old \<and>
    (\<forall>i < length old. if names_message ns old i
       then flag_set (msg_Flags (new ! i)) = stored_flags (sf_Action flags) (flag_set (msg_Flags (old ! i))) (flag_set (sf_Flags flags)) \<and>
         (new ! i)\<lparr>msg_Flags := []\<rparr> = (old ! i)\<lparr>msg_Flags := []\<rparr>
       else new ! i = old ! i) \<and>
    written = (if sf_Silent flags then []
               else map (\<lambda>i. (of_nat (i + 1), msg_Flags (new ! i))) (filter (names_message ns old) [0..<length old]))"
proof -
  define mbox where "mbox = w_mailbox w a"
  have old: "mb_Messages mbox = old" using assms(3) by (simp add: mbox_def)
  let ?ms = "MatchesMessages mbox ns (set_kind ns)"
  have d: "distinct (map mm_Pos ?ms)" by (rule MatchesMessages_distinct)
  have lt: "\<forall>mm \<in> set ?ms. mm_Pos mm < length old"
    using MatchesMessages_at old by blast
  have pos: "map mm_Pos ?ms = filter (names_message ns old) [0..<length old]" using named_positions [of mbox ns] old by simp
  have named: "i \<in> mm_Pos ` set ?ms \<longleftrightarrow> names_message ns old i" if "i < length old" for i
    using that by (simp only: pos set_filter flip: set_map) simp
  define r where "r = store_loop flags ?ms old"
  have len: "length (snd r) = length old"
    and msgs: "\<forall>i < length old. snd r ! i = (if i \<in> mm_Pos ` set ?ms then store_message flags (old ! i) else old ! i)"
    unfolding r_def using store_loop_messages [OF d lt] by blast+
  have "map (\<lambda>mm. (mm_SeqNum mm, msg_Flags (store_message flags (old ! mm_Pos mm)))) ?ms =
      map (\<lambda>i. (of_nat (i + 1), msg_Flags (snd r ! i))) (map mm_Pos ?ms)"
    unfolding map_map o_def
    using MatchesMessages_at lt msgs by (intro map_cong refl) fastforce
  then have wr: "fst r = (if sf_Silent flags then []
      else map (\<lambda>i. (of_nat (i + 1), msg_Flags (snd r ! i))) (filter (names_message ns old) [0..<length old]))"
    unfolding r_def store_loop_written [OF d lt] by (simp add: pos)
  have run: "Session_Store ns flags s w = (Inr (fst r), update_mailbox a (mbox\<lparr>mb_Messages := snd r\<rparr>) w)"
    using assms(1,2) old by (simp add: Session_Store_def mbox_def r_def Let_def case_prod_beta)
  have upd: "\<forall>i < length old. if names_message ns old i
       then flag_set (msg_Flags (snd r ! i)) = stored_flags (sf_Action flags) (flag_set (msg_Flags (old ! i))) (flag_set (sf_Flags flags)) \<and>
         (snd r ! i)\<lparr>msg_Flags := []\<rparr> = (old ! i)\<lparr>msg_Flags := []\<rparr>
       else snd r ! i = old ! i"
    using msgs named store_message_exact assms(4) by (simp add: nth_mem)
  show ?thesis
    by (rule exI [of _ "fst r"], rule exI [of _ "update_mailbox a (mbox\<lparr>mb_Messages := snd r\<rparr>) w"], rule exI [of _ "snd r"])
      (use run len upd wr in \<open>simp add: update_mailbox_def\<close>)
qed

theorem store_exact_witness:
  "\<exists>written w' new. Session_Store (SeqSet [NumRange 1 1]) \<lparr>sf_Action = StoreFlagsAdd, sf_Silent = False, sf_Flags = [''seen'']\<rparr> ann_selected ann_mail =
     (Inr written, w') \<and> mb_Messages (w_mailbox w' 0) = new \<and> flag_set (msg_Flags (new ! 0)) = {''SEEN''}"
proof -
  have old: "mb_Messages (w_mailbox ann_mail 0) = [\<lparr>msg_UID = 1, msg_Flags = [], msg_InternalDate = 7, msg_Size = 1, msg_Body = ''x''\<rparr>]"
    unfolding ann_mail_def ann_def ann_world_def by (simp add: ann_run_defs Let_def)
  have up: "ToUpper ''seen'' = ''SEEN''" by code_simp
  have n: "names_message (SeqSet [NumRange 1 1]) [\<lparr>msg_UID = 1, msg_Flags = [], msg_InternalDate = 7, msg_Size = 1, msg_Body = ''x''\<rparr>] 0"
    by (simp add: names_message_def range_names_def)
  have "ss_selected ann_selected = Some 0" "\<not> ss_readOnly ann_selected" by (simp_all add: ann_state)
  from store_exact [OF this old, of "SeqSet [NumRange 1 1]" "\<lparr>sf_Action = StoreFlagsAdd, sf_Silent = False, sf_Flags = [''seen'']\<rparr>"] n
  show ?thesis by (fastforce simp: distinct_flags_def stored_flags_def flag_set_def up)
qed

section \<open>COPY\<close>

definition single :: "u32 \<Rightarrow> num_range" where
  "single u = NumRange u u"

lemma AddNum_single: "UIDSet_AddNum us [u] = us @ [single u]"
  by (simp add: UIDSet_AddNum_def single_def)

lemma uids_from_Suc:
  "map (\<lambda>k. U + of_nat k) [0..<Suc n] = (U :: u32) # map (\<lambda>k. (U + 1) + of_nat k) [0..<n]"
proof -
  have "[0..<Suc n] = 0 # map Suc [0..<n]" by (simp add: map_Suc_upt upt_conv_Cons del: upt_Suc)
  then show ?thesis by (simp add: o_def add.assoc)
qed

lemma copy_loop_new:
  "\<exists>new. mb_Messages (snd (copy_loop now ms cd dest)) = mb_Messages dest @ new \<and>
     map msg_Body new = map (\<lambda>mm. msg_Body (mm_Message mm)) ms \<and>
     map msg_UID new = map (\<lambda>k. mb_UIDNext dest + of_nat k) [0..<length ms] \<and>
     cd_DestUIDs (fst (copy_loop now ms cd dest)) = cd_DestUIDs cd @ map (single \<circ> msg_UID) new \<and>
     cd_SourceUIDs (fst (copy_loop now ms cd dest)) =
       cd_SourceUIDs cd @ map (\<lambda>mm. single (msg_UID (mm_Message mm))) ms \<and>
     cd_UIDValidity (fst (copy_loop now ms cd dest)) = cd_UIDValidity cd"
proof (induction ms arbitrary: cd dest)
  case (Cons m ms)
  define msg where "msg = fst (Mailbox_Append dest (msg_Body (mm_Message m))
      (drop_first_flag FlagRecent (CopyFlags (mm_Message m))) (msg_InternalDate (mm_Message m)) now)"
  define dest' where "dest' = snd (CopyMessageTo (mm_Message m) dest now)"
  define cd' where "cd' = cd\<lparr>cd_SourceUIDs := UIDSet_AddNum (cd_SourceUIDs cd) [msg_UID (mm_Message m)],
      cd_DestUIDs := UIDSet_AddNum (cd_DestUIDs cd) [fst (CopyMessageTo (mm_Message m) dest now)]\<rparr>"
  have loop: "copy_loop now (m # ms) cd dest = copy_loop now ms cd' dest'"
    by (simp add: cd'_def dest'_def case_prod_beta Let_def)
  have d: "mb_Messages dest' = mb_Messages dest @ [msg]" "mb_UIDNext dest' = mb_UIDNext dest + 1"
    by (simp_all add: dest'_def CopyMessageTo_Append msg_def Mailbox_Append_def Let_def)
  have m: "msg_Body msg = msg_Body (mm_Message m)" "msg_UID msg = mb_UIDNext dest"
    by (simp_all add: msg_def Mailbox_Append_def Let_def)
  have c: "cd_DestUIDs cd' = cd_DestUIDs cd @ [single (msg_UID msg)]"
    "cd_SourceUIDs cd' = cd_SourceUIDs cd @ [single (msg_UID (mm_Message m))]"
    "cd_UIDValidity cd' = cd_UIDValidity cd"
    by (simp_all add: cd'_def AddNum_single CopyMessageTo_def msg_def case_prod_beta Let_def)
  obtain new where new: "mb_Messages (snd (copy_loop now ms cd' dest')) = mb_Messages dest' @ new"
    "map msg_Body new = map (\<lambda>mm. msg_Body (mm_Message mm)) ms"
    "map msg_UID new = map (\<lambda>k. mb_UIDNext dest' + of_nat k) [0..<length ms]"
    "cd_DestUIDs (fst (copy_loop now ms cd' dest')) = cd_DestUIDs cd' @ map (single \<circ> msg_UID) new"
    "cd_SourceUIDs (fst (copy_loop now ms cd' dest')) =
       cd_SourceUIDs cd' @ map (\<lambda>mm. single (msg_UID (mm_Message mm))) ms"
    "cd_UIDValidity (fst (copy_loop now ms cd' dest')) = cd_UIDValidity cd'"
    using Cons.IH [of cd' dest'] by blast
  show ?case
    unfolding loop using new d m c uids_from_Suc [of "mb_UIDNext dest" "length ms"]
    by (intro exI [of _ "msg # new"]) (simp del: upt_Suc)
qed simp

text \<open>C24. COPY appends to the destination, in the order of the source, one message per message
  named, with the same body and consecutive new UIDs from \<open>UIDNext\<close> on; the COPYUID data lists
  the UIDs of the originals and of the copies in the same order; no other mailbox changes.\<close>

theorem copy_exact:
  assumes "ss_selected s = Some a" "ss_userData s = Some u" "GetMailbox u name w = Some b"
  shows "let ms = MatchesMessages (w_mailbox w a) ns (set_kind ns); dest = w_mailbox w b in
    \<exists>cd w' new. Session_Copy ns name now s w = (Done cd, w') \<and>
      mb_Messages (w_mailbox w' b) = mb_Messages dest @ new \<and>
      map msg_Body new = map (\<lambda>mm. msg_Body (mm_Message mm)) ms \<and>
      map msg_UID new = map (\<lambda>k. mb_UIDNext dest + of_nat k) [0..<length ms] \<and>
      cd_SourceUIDs cd = map (\<lambda>mm. single (msg_UID (mm_Message mm))) ms \<and>
      cd_DestUIDs cd = map (\<lambda>m. single (msg_UID m)) new \<and>
      cd_UIDValidity cd = mb_UIDValidity dest \<and>
      (\<forall>c. c \<noteq> b \<longrightarrow> w_mailbox w' c = w_mailbox w c)"
proof -
  define ms where "ms = MatchesMessages (w_mailbox w a) ns (set_kind ns)"
  define dest where "dest = w_mailbox w b"
  define cd0 where "cd0 = \<lparr>cd_UIDValidity = mb_UIDValidity dest, cd_SourceUIDs = [], cd_DestUIDs = []\<rparr>"
  define r where "r = copy_loop now ms cd0 dest"
  have copy: "Session_Copy ns name now s w = (Done (fst r), update_mailbox b (snd r) w)"
    using assms by (simp add: Session_Copy_def r_def ms_def dest_def cd0_def case_prod_beta Let_def)
  obtain new where new: "mb_Messages (snd r) = mb_Messages dest @ new"
    "map msg_Body new = map (\<lambda>mm. msg_Body (mm_Message mm)) ms"
    "map msg_UID new = map (\<lambda>k. mb_UIDNext dest + of_nat k) [0..<length ms]"
    "cd_DestUIDs (fst r) = map (single \<circ> msg_UID) new"
    "cd_SourceUIDs (fst r) = map (\<lambda>mm. single (msg_UID (mm_Message mm))) ms"
    "cd_UIDValidity (fst r) = mb_UIDValidity dest"
    using copy_loop_new [of now ms cd0 dest] by (auto simp: r_def cd0_def)
  have "\<exists>cd w' new. Session_Copy ns name now s w = (Done cd, w') \<and>
      mb_Messages (w_mailbox w' b) = mb_Messages dest @ new \<and>
      map msg_Body new = map (\<lambda>mm. msg_Body (mm_Message mm)) ms \<and>
      map msg_UID new = map (\<lambda>k. mb_UIDNext dest + of_nat k) [0..<length ms] \<and>
      cd_SourceUIDs cd = map (\<lambda>mm. single (msg_UID (mm_Message mm))) ms \<and>
      cd_DestUIDs cd = map (\<lambda>m. single (msg_UID m)) new \<and>
      cd_UIDValidity cd = mb_UIDValidity dest \<and>
      (\<forall>c. c \<noteq> b \<longrightarrow> w_mailbox w' c = w_mailbox w c)"
    by (rule exI [of _ "fst r"], rule exI [of _ "update_mailbox b (snd r) w"], rule exI [of _ new])
      (simp add: copy new update_mailbox_def o_def)
  then show ?thesis by (simp only: Let_def ms_def dest_def)
qed

theorem copy_exact_witness:
  "\<exists>cd w' new. Session_Copy (SeqSet [NumRange 1 0]) ''Work'' 9
       \<lparr>ss_userData = Some 0, ss_selected = Some 0, ss_readOnly = False\<rparr> example_world = (Done cd, w') \<and>
     mb_Messages (w_mailbox w' 1) = mb_Messages (w_mailbox example_world 1) @ new"
proof -
  let ?s = "\<lparr>ss_userData = Some 0, ss_selected = Some 0, ss_readOnly = False\<rparr>"
  have "GetMailbox 0 ''Work'' example_world = Some 1"
    by (simp add: GetMailbox_def getMailboxLocked_def example_userData)
  from copy_exact [of ?s 0 0 "''Work''" example_world 1 "SeqSet [NumRange 1 0]" 9] this
  show ?thesis unfolding Let_def by (auto simp del: One_nat_def)
qed

section \<open>A failed DELETE\<close>

text \<open>A flaw of DELETE: the selected mailbox is given up before the deletion is tried. Deleting
  INBOX while it is selected fails, and yet the session no longer has a mailbox selected.\<close>

theorem failed_delete_unselects:
  assumes "ss_userData s = Some u" "ss_selected s = Some a" "mb_Name (w_mailbox w a) = ''INBOX''"
  shows "\<exists>e s'. Session_Delete ''INBOX'' s w = (Some e, s', w) \<and> ss_selected s' = None"
  using assms by (simp add: Session_Delete_def DeleteMailbox_def)

theorem failed_delete_unselects_witness:
  "\<exists>e s'. Session_Delete ''INBOX'' \<lparr>ss_userData = Some 0, ss_selected = Some 0, ss_readOnly = False\<rparr>
       (AddUser ''ann'' ''pw'' mem_New) = (Some e, s', AddUser ''ann'' ''pw'' mem_New) \<and> ss_selected s' = None"
  by (rule failed_delete_unselects [of _ 0 0])
    (simp_all add: AddUser_def mem_New_def NewUserData_def alloc_mailbox_def NewMailbox_def Let_def)

end
