(* ===== verification/Writers.thy ===== *)
theory Writers
  imports Types WireCodec
begin

text \<open>
  The response writers of the server (\<open>server/writers.go\<close>): the bytes each method sends.
  \<open>ResponseEncoder.Encode\<close> makes a response one atomic write. The parameter \<open>fmt\<close> stands for
  \<open>time.Time.Format\<close>, from a layout and a time to its text. The maps that a writer iterates
  over are lists of pairs in the order of the iteration.
\<close>

definition Itoa :: "int \<Rightarrow> string" where
  "Itoa i = (if i < 0 then ''-'' @ FormatUint (nat (- i)) else FormatUint (nat i))"

definition enc_DateTime :: "(string \<Rightarrow> time \<Rightarrow> string) \<Rightarrow> time \<Rightarrow> string" where
  "enc_DateTime fmt t = enc_QuotedString (fmt ''02-Jan-2006 15:04:05 -0700'' t)"

definition enc_Date :: "(string \<Rightarrow> time \<Rightarrow> string) \<Rightarrow> time \<Rightarrow> string" where
  "enc_Date fmt t = enc_QuotedString (fmt ''02-Jan-2006'' t)"

definition formatPart :: "int list \<Rightarrow> string" where
  "formatPart part = (if part = [] then [] else join ''.'' (map Itoa part))"

subsection \<open>FETCH\<close>

definition FetchWriter_WriteFlags :: "bool \<Rightarrow> u32 \<Rightarrow> flag list \<Rightarrow> string" where
  "FetchWriter_WriteFlags uidOnly seqNum flags =
     (let keyword = (if uidOnly then ''UIDFETCH'' else ''FETCH'')
      in enc_Star @ enc_Number seqNum @ enc_SP @ enc_Atom keyword @ enc_SP @
         enc_BeginList @ enc_Atom ''FLAGS'' @ enc_SP @ enc_Flags flags @ enc_EndList @ enc_CRLF)"

definition nil_or_string :: "string \<Rightarrow> string" where
  "nil_or_string s = (if s = [] then enc_Nil else enc_String s)"

definition writeAddress :: "address \<Rightarrow> string" where
  "writeAddress addr =
     enc_BeginList @ nil_or_string (addr_Name addr) @ enc_SP @ enc_Nil @ enc_SP @
     nil_or_string (addr_Mailbox addr) @ enc_SP @ nil_or_string (addr_Host addr) @ enc_EndList"

definition writeAddressList :: "address list \<Rightarrow> string" where
  "writeAddressList addrs =
     (if length addrs = 0 then enc_Nil
      else enc_BeginList @ enc_items writeAddress addrs @ enc_EndList)"

definition writeEnvelope :: "(string \<Rightarrow> time \<Rightarrow> string) \<Rightarrow> envelope \<Rightarrow> string" where
  "writeEnvelope fmt env =
     enc_BeginList @
     (if env_Date env = 0 then enc_Nil
      else enc_QuotedString (fmt ''02 Jan 06 15:04 -0700'' (env_Date env))) @ enc_SP @
     nil_or_string (env_Subject env) @ enc_SP @
     writeAddressList (env_From env) @ enc_SP @
     writeAddressList (env_Sender env) @ enc_SP @
     writeAddressList (env_ReplyTo env) @ enc_SP @
     writeAddressList (env_To env) @ enc_SP @
     writeAddressList (env_Cc env) @ enc_SP @
     writeAddressList (env_Bcc env) @ enc_SP @
     nil_or_string (env_InReplyTo env) @ enc_SP @
     nil_or_string (env_MessageID env) @
     enc_EndList"

text \<open>The items of a FETCH response in the order written; the closure \<open>sp\<close> of the source puts a
  space before every item but the first.\<close>

definition fetch_items :: "(string \<Rightarrow> time \<Rightarrow> string) \<Rightarrow> fetch_data \<Rightarrow> string list" where
  "fetch_items fmt data =
     (case fd_Flags data of None \<Rightarrow> [] | Some flags \<Rightarrow> [enc_Atom ''FLAGS'' @ enc_SP @ enc_Flags flags]) @
     (if fd_UID data \<noteq> 0 then [enc_Atom ''UID'' @ enc_SP @ enc_Number (fd_UID data)] else []) @
     (if fd_RFC822Size data \<noteq> 0
      then [enc_Atom ''RFC822.SIZE'' @ enc_SP @ enc_Number64 (word_of_int (fd_RFC822Size data))] else []) @
     (if fd_InternalDate data \<noteq> 0
      then [enc_Atom ''INTERNALDATE'' @ enc_SP @ enc_DateTime fmt (fd_InternalDate data)] else []) @
     (case fd_Envelope data of
        None \<Rightarrow> [] | Some env \<Rightarrow> [enc_Atom ''ENVELOPE'' @ enc_SP @ writeEnvelope fmt env]) @
     (if fd_ModSeq data \<noteq> 0
      then [enc_Atom ''MODSEQ'' @ enc_SP @ enc_BeginList @ enc_Number64 (fd_ModSeq data) @ enc_EndList] else []) @
     (if fd_EmailID data \<noteq> []
      then [enc_Atom ''EMAILID'' @ enc_SP @ enc_BeginList @ enc_AString (fd_EmailID data) @ enc_EndList] else []) @
     (if fd_ThreadID data \<noteq> []
      then [enc_Atom ''THREADID'' @ enc_SP @ enc_BeginList @ enc_AString (fd_ThreadID data) @ enc_EndList] else []) @
     (case fd_SaveDate data of
        Some t \<Rightarrow> [enc_Atom ''SAVEDATE'' @ enc_SP @ enc_DateTime fmt t]
      | None \<Rightarrow> (if fd_SaveDateNIL data then [enc_Atom ''SAVEDATE'' @ enc_SP @ enc_Nil] else [])) @
     (if fd_Preview data \<noteq> [] then [enc_Atom ''PREVIEW'' @ enc_SP @ enc_String (fd_Preview data)]
      else if fd_PreviewNIL data then [enc_Atom ''PREVIEW'' @ enc_SP @ enc_Nil] else []) @
     map (\<lambda>(part, binaryData).
            enc_Atom (''BINARY['' @ formatPart part @ '']'') @ enc_SP @ enc_BinaryLiteral binaryData)
         (fd_BinarySection data) @
     map (\<lambda>(part, sz). enc_Atom (''BINARY.SIZE['' @ formatPart part @ '']'') @ enc_SP @ enc_Number sz)
         (fd_BinarySizeSection data)"

definition WriteFetchData :: "(string \<Rightarrow> time \<Rightarrow> string) \<Rightarrow> bool \<Rightarrow> fetch_data \<Rightarrow> string" where
  "WriteFetchData fmt uidOnly data =
     (let num = (if uidOnly then fd_UID data else fd_SeqNum data);
          keyword = (if uidOnly then ''UIDFETCH'' else ''FETCH'')
      in enc_Star @ enc_Number num @ enc_SP @ enc_Atom keyword @ enc_SP @ enc_BeginList @
         enc_items (\<lambda>s. s) (fetch_items fmt data) @ enc_EndList @ enc_CRLF)"

subsection \<open>LIST\<close>

definition hasExtendedData :: "list_data \<Rightarrow> bool" where
  "hasExtendedData data \<longleftrightarrow>
     length (ld_ChildInfo data) > 0 \<or> ld_OldName data \<noteq> [] \<or> ld_MyRights data \<noteq> [] \<or>
     ld_Metadata data \<noteq> None"

definition list_extended :: "list_data \<Rightarrow> string list" where
  "list_extended data =
     (if length (ld_ChildInfo data) > 0
      then [enc_QuotedString ''CHILDINFO'' @ enc_SP @ enc_BeginList @
            enc_items enc_QuotedString (ld_ChildInfo data) @ enc_EndList] else []) @
     (if ld_OldName data \<noteq> []
      then [enc_QuotedString ''OLDNAME'' @ enc_SP @ enc_BeginList @ enc_MailboxName (ld_OldName data) @ enc_EndList]
      else []) @
     (if ld_MyRights data \<noteq> []
      then [enc_QuotedString ''MYRIGHTS'' @ enc_SP @ enc_QuotedString (ld_MyRights data)] else []) @
     (case ld_Metadata data of
        None \<Rightarrow> []
      | Some kvs \<Rightarrow>
          [enc_QuotedString ''METADATA'' @ enc_SP @ enc_BeginList @
           enc_items (\<lambda>(k, v). enc_QuotedString k @ enc_SP @ enc_QuotedString v) kvs @ enc_EndList])"

text \<open>The items of the STATUS response that \<open>WriteList\<close> adds.\<close>

definition list_status_items :: "status_data \<Rightarrow> string list" where
  "list_status_items st =
     (case st_NumMessages st of None \<Rightarrow> [] | Some n \<Rightarrow> [enc_Atom ''MESSAGES'' @ enc_SP @ enc_Number n]) @
     (case st_UIDNext st of None \<Rightarrow> [] | Some n \<Rightarrow> [enc_Atom ''UIDNEXT'' @ enc_SP @ enc_Number n]) @
     (case st_UIDValidity st of None \<Rightarrow> [] | Some n \<Rightarrow> [enc_Atom ''UIDVALIDITY'' @ enc_SP @ enc_Number n]) @
     (case st_NumUnseen st of None \<Rightarrow> [] | Some n \<Rightarrow> [enc_Atom ''UNSEEN'' @ enc_SP @ enc_Number n]) @
     (case st_NumRecent st of None \<Rightarrow> [] | Some n \<Rightarrow> [enc_Atom ''RECENT'' @ enc_SP @ enc_Number n]) @
     (case st_Size st of None \<Rightarrow> [] | Some n \<Rightarrow> [enc_Atom ''SIZE'' @ enc_SP @ enc_Number64 (word_of_int n)]) @
     (case st_HighestModSeq st of
        None \<Rightarrow> [] | Some n \<Rightarrow> [enc_Atom ''HIGHESTMODSEQ'' @ enc_SP @ enc_Number64 n])"

text \<open>\<open>WriteList\<close> calls the encoder twice when the data carries a status, so the model returns the
  responses one by one.\<close>

definition WriteList :: "list_data \<Rightarrow> string list" where
  "WriteList data =
     [enc_Star @ enc_Atom ''LIST'' @ enc_SP @
      enc_BeginList @ enc_items enc_Atom (ld_Attrs data) @ enc_EndList @ enc_SP @
      (case ld_Delim data of None \<Rightarrow> enc_Nil | Some d \<Rightarrow> enc_QuotedString [d]) @
      enc_SP @ enc_MailboxName (ld_Mailbox data) @
      (if hasExtendedData data
       then enc_SP @ enc_BeginList @ enc_items (\<lambda>s. s) (list_extended data) @ enc_EndList else []) @
      enc_CRLF] @
     (case ld_Status data of
        None \<Rightarrow> []
      | Some st \<Rightarrow>
          [enc_Star @ enc_Atom ''STATUS'' @ enc_SP @ enc_MailboxName (ld_Mailbox data) @ enc_SP @
           enc_BeginList @ enc_items (\<lambda>s. s) (list_status_items st) @ enc_EndList @ enc_CRLF])"

subsection \<open>Updates and expunges\<close>

definition WriteExists :: "u32 \<Rightarrow> string" where
  "WriteExists num = enc_NumResponse num ''EXISTS''"

definition UpdateWriter_WriteExpunge :: "u32 \<Rightarrow> string" where
  "UpdateWriter_WriteExpunge seqNum = enc_NumResponse seqNum ''EXPUNGE''"

definition WriteRecent :: "u32 \<Rightarrow> string" where
  "WriteRecent num = enc_NumResponse num ''RECENT''"

definition UpdateWriter_WriteFlags :: "flag list \<Rightarrow> string" where
  "UpdateWriter_WriteFlags flags = enc_Star @ enc_Atom ''FLAGS'' @ enc_SP @ enc_Flags flags @ enc_CRLF"

definition WriteMessageFlags :: "u32 \<Rightarrow> flag list \<Rightarrow> string" where
  "WriteMessageFlags seqNum flags =
     enc_Star @ enc_Number seqNum @ enc_SP @ enc_Atom ''FETCH'' @ enc_SP @
     enc_BeginList @ enc_Atom ''FLAGS'' @ enc_SP @ enc_Flags flags @ enc_EndList @ enc_CRLF"

definition ExpungeWriter_WriteExpunge :: "bool \<Rightarrow> u32 \<Rightarrow> string" where
  "ExpungeWriter_WriteExpunge uidOnly seqNum =
     (if uidOnly
      then enc_Star @ enc_Atom ''VANISHED'' @ enc_SP @ enc_Atom (FormatUint (unat seqNum)) @ enc_CRLF
      else enc_NumResponse seqNum ''EXPUNGE'')"

section \<open>What is and what is not written\<close>

text \<open>A flaw of the FETCH response: the writer never looks at the body sections. Whatever
  \<open>BODY[...]\<close> data a session hands to it, the response is the same, so the content of a message
  asked for with FETCH is never sent.\<close>

theorem fetch_sections_never_written:
  "WriteFetchData fmt uidOnly (data\<lparr>fd_BodySection := sections\<rparr>) = WriteFetchData fmt uidOnly data"
  by (cases data) (simp only: WriteFetchData_def fetch_items_def fetch_data.select_convs fetch_data.update_convs)

end
