(* ===== verification/Registry.thy ===== *)
theory Registry
  imports Prelude
begin

text \<open>
  The extension registry (\<open>extension/registry.go\<close>, \<open>extension/extension.go\<close>). An extension is
  its name, its capabilities and the names it depends on. \<open>Resolve\<close> ranges over maps several
  times and Go leaves the order of each iteration open: the argument \<open>it\<close> gives for the k-th
  iteration the order of the names.
\<close>

record extension =
  ext_Name :: string
  ext_Capabilities :: "string list"
  ext_Dependencies :: "string list"

record registry =
  reg_extensions :: "string \<rightharpoonup> extension"
  reg_order :: "string list"

datatype registry_error =
    AlreadyRegistered string
  | MissingDependency string string
  | CircularDependency

definition NewRegistry :: registry where
  "NewRegistry = \<lparr>reg_extensions = Map.empty, reg_order = []\<rparr>"

definition Register :: "extension \<Rightarrow> registry \<Rightarrow> registry_error option \<times> registry" where
  "Register ext r =
     (case reg_extensions r (ext_Name ext) of
        Some _ \<Rightarrow> (Some (AlreadyRegistered (ext_Name ext)), r)
      | None \<Rightarrow> (None, r\<lparr>reg_extensions := (reg_extensions r)(ext_Name ext \<mapsto> ext),
                         reg_order := reg_order r @ [ext_Name ext]\<rparr>))"

definition Registry_Get :: "registry \<Rightarrow> string \<Rightarrow> extension option" where
  "Registry_Get r name = reg_extensions r name"

definition Registry_All :: "registry \<Rightarrow> extension list" where
  "Registry_All r = map (\<lambda>name. the (reg_extensions r name)) (reg_order r)"

definition Registry_Names :: "registry \<Rightarrow> string list" where
  "Registry_Names r = reg_order r"

definition Registry_Len :: "registry \<Rightarrow> nat" where
  "Registry_Len r = card (dom (reg_extensions r))"

definition Registry_Remove :: "string \<Rightarrow> registry \<Rightarrow> registry" where
  "Registry_Remove name r =
     r\<lparr>reg_extensions := (reg_extensions r)(name := None), reg_order := remove1 name (reg_order r)\<rparr>"

subsection \<open>Dependency resolution\<close>

definition reg_deps :: "registry \<Rightarrow> string \<Rightarrow> string list" where
  "reg_deps r name = (case reg_extensions r name of None \<Rightarrow> [] | Some ext \<Rightarrow> ext_Dependencies ext)"

text \<open>The first dependency that is not registered.\<close>

fun missing_in :: "registry \<Rightarrow> string \<Rightarrow> string list \<Rightarrow> registry_error option" where
  "missing_in r name [] = None"
| "missing_in r name (dep # deps) =
     (if reg_extensions r dep = None then Some (MissingDependency name dep) else missing_in r name deps)"

fun missing_dep :: "registry \<Rightarrow> string list \<Rightarrow> registry_error option" where
  "missing_dep r [] = None"
| "missing_dep r (name # names) =
     (case missing_in r name (reg_deps r name) of Some e \<Rightarrow> Some e | None \<Rightarrow> missing_dep r names)"

text \<open>
  The innermost loop, over the dependencies of one other extension, and the loop over all
  extensions: they decrease the in-degrees and extend the queue.
\<close>

fun dec_deps :: "string \<Rightarrow> string \<Rightarrow> string list \<Rightarrow> (string \<Rightarrow> int) \<times> string list \<Rightarrow> (string \<Rightarrow> int) \<times> string list" where
  "dec_deps name other [] st = st"
| "dec_deps name other (dep # deps) (deg, queue) =
     (if dep = name
      then let deg = deg(other := deg other - 1)
           in dec_deps name other deps (deg, if deg other = 0 then queue @ [other] else queue)
      else dec_deps name other deps (deg, queue))"

fun dec_all :: "(string \<Rightarrow> string list) \<Rightarrow> string \<Rightarrow> string list \<Rightarrow> (string \<Rightarrow> int) \<times> string list \<Rightarrow>
    (string \<Rightarrow> int) \<times> string list" where
  "dec_all deps name [] st = st"
| "dec_all deps name (other # others) st = dec_all deps name others (dec_deps name other (deps other) st)"

partial_function (option) kahn ::
  "(nat \<Rightarrow> string list) \<Rightarrow> (string \<Rightarrow> string list) \<Rightarrow> nat \<Rightarrow> string list \<Rightarrow> (string \<Rightarrow> int) \<Rightarrow> string list \<Rightarrow>
   string list option" where
  "kahn it deps k queue deg result =
     (case queue of
        [] \<Rightarrow> Some result
      | name # rest \<Rightarrow>
          (case dec_all deps name (it k) (deg, rest) of
             (deg', queue') \<Rightarrow> kahn it deps (k + 1) queue' deg' (result @ [name])))"

text \<open>
  The in-degrees: zero, then counted up once per dependency, then overwritten by the number
  of dependencies.
\<close>

definition in_degrees :: "(nat \<Rightarrow> string list) \<Rightarrow> registry \<Rightarrow> string \<Rightarrow> int" where
  "in_degrees it r =
     (let deg = (\<lambda>_. 0);
          deg = fold (\<lambda>name deg. fold (\<lambda>dep deg. deg(name := deg name + 1)) (reg_deps r name) deg) (it 2) deg
      in fold (\<lambda>name deg. deg(name := int (length (reg_deps r name)))) (it 3) deg)"

definition Resolve :: "(nat \<Rightarrow> string list) \<Rightarrow> registry \<Rightarrow> (registry_error + extension list) option" where
  "Resolve it r =
     (case missing_dep r (it 0) of
        Some e \<Rightarrow> Some (Inl e)
      | None \<Rightarrow>
          (let deg = in_degrees it r;
               queue = filter (\<lambda>name. deg name = 0) (it 4)
           in Option.bind (kahn it (reg_deps r) 5 queue deg []) (\<lambda>result.
                if length result \<noteq> Registry_Len r then Some (Inl CircularDependency)
                else Some (Inr (map (\<lambda>name. the (reg_extensions r name)) result)))))"

section \<open>Correctness of the resolution\<close>

text \<open>The registry as the operations build it: keys are names, \<open>order\<close> lists them.\<close>

definition registry_ok :: "registry \<Rightarrow> bool" where
  "registry_ok r \<longleftrightarrow>
     (\<forall>n e. reg_extensions r n = Some e \<longrightarrow> ext_Name e = n) \<and>
     distinct (reg_order r) \<and> set (reg_order r) = dom (reg_extensions r)"

lemma registry_ok_New: "registry_ok NewRegistry"
  by (simp add: registry_ok_def NewRegistry_def)

lemma registry_ok_Register: "registry_ok r \<Longrightarrow> registry_ok (snd (Register ext r))"
  by (auto simp: registry_ok_def Register_def split: option.split)

lemma registry_ok_Remove: "registry_ok r \<Longrightarrow> registry_ok (Registry_Remove name r)"
  by (auto simp: registry_ok_def Registry_Remove_def split: if_splits)

definition iterations :: "(nat \<Rightarrow> string list) \<Rightarrow> string set \<Rightarrow> bool" where
  "iterations it names \<longleftrightarrow> (\<forall>k. distinct (it k) \<and> set (it k) = names)"

subsection \<open>The inner loops in closed form\<close>

lemma dec_deps_closed:
  assumes "deg other \<ge> int (count_list ds name)"
  shows "dec_deps name other ds (deg, q) =
    (deg(other := deg other - int (count_list ds name)),
     q @ (if count_list ds name > 0 \<and> deg other = int (count_list ds name) then [other] else []))"
  using assms
proof (induction ds arbitrary: deg q)
  case (Cons d ds)
  show ?case
  proof (cases "d = name")
    case True
    define deg1 where "deg1 = deg(other := deg other - 1)"
    have d1: "deg1 other = deg other - 1" "deg1(other := v) = deg(other := v)" for v
      by (simp_all add: deg1_def)
    have le: "deg1 other \<ge> int (count_list ds name)" using Cons.prems True d1 by simp
    have "dec_deps name other (d # ds) (deg, q) =
        dec_deps name other ds (deg1, if deg1 other = 0 then q @ [other] else q)"
      using True by (simp add: deg1_def Let_def)
    then show ?thesis
      using Cons.IH [of deg1, OF le] le True d1 by auto
  qed (use Cons in simp)
qed simp

lemma dec_all_closed:
  assumes "distinct others" "\<forall>y \<in> set others. deg y \<ge> int (count_list (deps y) name)"
  shows "dec_all deps name others (deg, q) =
    ((\<lambda>n. if n \<in> set others then deg n - int (count_list (deps n) name) else deg n),
     q @ filter (\<lambda>y. count_list (deps y) name > 0 \<and> deg y = int (count_list (deps y) name)) others)"
  using assms
proof (induction others arbitrary: deg q)
  case (Cons x others)
  let ?deg = "deg(x := deg x - int (count_list (deps x) name))"
  let ?q = "q @ (if count_list (deps x) name > 0 \<and> deg x = int (count_list (deps x) name) then [x] else [])"
  have "dec_all deps name (x # others) (deg, q) = dec_all deps name others (?deg, ?q)"
    using Cons.prems by (simp add: dec_deps_closed)
  also have "\<dots> = ((\<lambda>n. if n \<in> set others then ?deg n - int (count_list (deps n) name) else ?deg n),
     ?q @ filter (\<lambda>y. count_list (deps y) name > 0 \<and> ?deg y = int (count_list (deps y) name)) others)"
    using Cons.prems by (intro Cons.IH) auto
  also have "filter (\<lambda>y. count_list (deps y) name > 0 \<and> ?deg y = int (count_list (deps y) name)) others =
      filter (\<lambda>y. count_list (deps y) name > 0 \<and> deg y = int (count_list (deps y) name)) others"
    using Cons.prems by (intro filter_cong) auto
  finally show ?case using Cons.prems by (auto simp: fun_eq_iff)
qed simp

subsection \<open>The invariant of the main loop\<close>

definition open_deps :: "(string \<Rightarrow> string list) \<Rightarrow> string set \<Rightarrow> string \<Rightarrow> nat" where
  "open_deps deps done_set n = length (filter (\<lambda>d. d \<notin> done_set) (deps n))"

text \<open>Every element of the list comes after all its dependencies.\<close>

definition deps_first :: "(string \<Rightarrow> string list) \<Rightarrow> string list \<Rightarrow> bool" where
  "deps_first deps xs \<longleftrightarrow> (\<forall>i < length xs. set (deps (xs ! i)) \<subseteq> set (take i xs))"

definition kahn_inv ::
  "(string \<Rightarrow> string list) \<Rightarrow> string set \<Rightarrow> string list \<Rightarrow> (string \<Rightarrow> int) \<Rightarrow> string list \<Rightarrow> bool" where
  "kahn_inv deps names queue deg result \<longleftrightarrow>
     distinct (result @ queue) \<and> set result \<union> set queue \<subseteq> names \<and>
     (\<forall>n \<in> names. deg n = int (open_deps deps (set result) n)) \<and>
     set result \<union> set queue = {n \<in> names. deg n = 0} \<and>
     deps_first deps result"

lemma open_deps_zero: "open_deps deps S n = 0 \<longleftrightarrow> set (deps n) \<subseteq> S"
  by (auto simp: open_deps_def filter_empty_conv)

lemma open_deps_insert:
  "x \<notin> S \<Longrightarrow> open_deps deps S n = open_deps deps (insert x S) n + count_list (deps n) x"
proof -
  assume "x \<notin> S"
  then have "length (filter (\<lambda>d. d \<notin> S) ds) = length (filter (\<lambda>d. d \<notin> insert x S) ds) + count_list ds x" for ds
    by (induction ds) auto
  then show ?thesis by (simp add: open_deps_def)
qed

lemma deps_first_snoc: "deps_first deps xs \<Longrightarrow> set (deps x) \<subseteq> set xs \<Longrightarrow> deps_first deps (xs @ [x])"
  by (auto simp: deps_first_def nth_append less_Suc_eq)

lemma kahn_inv_step:
  assumes inv: "kahn_inv deps names (x # rest) deg result" and it: "distinct os" "set os = names"
    and step: "dec_all deps x os (deg, rest) = (deg', queue')"
  shows "kahn_inv deps names queue' deg' (result @ [x])"
proof -
  have x: "x \<notin> set result" "x \<in> names" and d: "distinct (result @ x # rest)"
    and deg: "\<And>n. n \<in> names \<Longrightarrow> deg n = int (open_deps deps (set result) n)"
    and zero: "set result \<union> set (x # rest) = {n \<in> names. deg n = 0}"
    and resp: "deps_first deps result" and sub: "set result \<union> set (x # rest) \<subseteq> names"
    using inv by (auto simp: kahn_inv_def)
  have x0: "deg x = 0" using zero by auto
  have split: "open_deps deps (set result) n = open_deps deps (insert x (set result)) n + count_list (deps n) x" for n
    by (rule open_deps_insert [OF x(1)])
  have "\<forall>y \<in> set os. deg y \<ge> int (count_list (deps y) x)"
    using deg split it(2) by simp
  note closed = dec_all_closed [OF it(1) this, of rest]
  have deg': "deg' n = int (open_deps deps (set (result @ [x])) n)" if "n \<in> names" for n
    using step closed deg [OF that] split [of n] it(2) that by auto
  have queue': "queue' = rest @ filter (\<lambda>y. count_list (deps y) x > 0 \<and> deg y = int (count_list (deps y) x)) os"
    using step closed by simp
  have new: "y \<notin> set (result @ x # rest)" if "y \<in> names" "count_list (deps y) x > 0" "deg y = int (count_list (deps y) x)" for y
    using zero that by auto
  have "distinct ((result @ [x]) @ queue')"
    using d new it by (auto simp: queue')
  moreover have "set (result @ [x]) \<union> set queue' = {n \<in> names. deg' n = 0}"
  proof (rule set_eqI)
    fix n
    show "n \<in> set (result @ [x]) \<union> set queue' \<longleftrightarrow> n \<in> {n \<in> names. deg' n = 0}"
    proof (cases "n \<in> names")
      case True
      have "n \<in> set result \<union> set (x # rest) \<longleftrightarrow> deg n = 0" unfolding zero using True by simp
      then have "n \<in> set (result @ [x]) \<union> set queue' \<longleftrightarrow>
          deg n = 0 \<or> count_list (deps n) x > 0 \<and> deg n = int (count_list (deps n) x)"
        using True it(2) by (auto simp: queue')
      moreover have "deg' n = deg n - int (count_list (deps n) x)"
        using step closed it(2) True by auto
      moreover have "deg n \<ge> int (count_list (deps n) x)" using deg [OF True] split [of n] by simp
      ultimately show ?thesis using True by auto
    next
      case False
      then show ?thesis using sub it(2) by (auto simp: queue')
    qed
  qed
  moreover have "deps_first deps (result @ [x])"
    using resp deg [OF x(2)] x0 by (intro deps_first_snoc) (simp_all add: open_deps_zero)
  ultimately show ?thesis using deg' sub it(2) by (auto simp: kahn_inv_def)
qed

lemma kahn_returns:
  assumes "kahn_inv deps names queue deg result" "finite names" "iterations it names"
  shows "\<exists>out deg'. kahn it deps k queue deg result = Some out \<and> kahn_inv deps names [] deg' out"
  using assms(1)
proof (induction "card names - length result" arbitrary: k queue deg result rule: less_induct)
  case less
  show ?case
  proof (cases queue)
    case Nil
    then show ?thesis using less.prems by (subst kahn.simps) auto
  next
    case (Cons x rest)
    obtain deg' queue' where step: "dec_all deps x (it k) (deg, rest) = (deg', queue')"
      by (cases "dec_all deps x (it k) (deg, rest)")
    have inv': "kahn_inv deps names queue' deg' (result @ [x])"
      using less.prems assms(3) step unfolding Cons
      by (intro kahn_inv_step [where os = "it k"]) (auto simp: iterations_def)
    have "distinct (result @ [x])" "set (result @ [x]) \<subseteq> names"
      using inv' by (simp_all add: kahn_inv_def)
    then have "length (result @ [x]) \<le> card names"
      using card_mono [OF assms(2)] distinct_card by metis
    then have "card names - length (result @ [x]) < card names - length result" by simp
    from less.hyps [OF this inv', of "k + 1"] show ?thesis
      using Cons step by (subst kahn.simps) auto
  qed
qed

subsection \<open>The theorem\<close>

lemma missing_in_None: "missing_in r name ds = None \<longleftrightarrow> set ds \<subseteq> dom (reg_extensions r)"
  by (induction ds) auto

lemma missing_dep_None:
  "missing_dep r names = None \<longleftrightarrow> (\<forall>n \<in> set names. set (reg_deps r n) \<subseteq> dom (reg_extensions r))"
proof (induction names)
  case (Cons n names)
  then show ?case
    using missing_in_None [of r n "reg_deps r n"] by (cases "missing_in r n (reg_deps r n)") simp_all
qed simp

lemma in_degrees_eq:
  assumes "iterations it names" "n \<in> names"
  shows "in_degrees it r n = int (length (reg_deps r n))"
proof -
  have "fold (\<lambda>name deg. deg(name := int (length (reg_deps r name)))) ns deg n =
      (if n \<in> set ns then int (length (reg_deps r n)) else deg n)" for ns deg
    by (induction ns arbitrary: deg) auto
  moreover have "n \<in> set (it 3)" using assms by (simp add: iterations_def)
  ultimately show ?thesis by (simp add: in_degrees_def Let_def)
qed

definition dep_rel :: "registry \<Rightarrow> (string \<times> string) set" where
  "dep_rel r = {(d, n). n \<in> dom (reg_extensions r) \<and> d \<in> set (reg_deps r n)}"

lemma resolve_list:
  assumes ok: "registry_ok r" and it: "iterations it (dom (reg_extensions r))"
    and closed: "\<forall>n \<in> dom (reg_extensions r). set (reg_deps r n) \<subseteq> dom (reg_extensions r)"
  obtains out where "Resolve it r = (if set out = dom (reg_extensions r)
      then Some (Inr (map (\<lambda>n. the (reg_extensions r n)) out)) else Some (Inl CircularDependency))"
    "distinct out" "set out \<subseteq> dom (reg_extensions r)" "deps_first (reg_deps r) out"
    "\<forall>n \<in> dom (reg_extensions r). set (reg_deps r n) \<subseteq> set out \<longrightarrow> n \<in> set out"
proof -
  let ?names = "dom (reg_extensions r)" and ?deg = "in_degrees it r"
  let ?queue = "filter (\<lambda>name. ?deg name = 0) (it 4)"
  have fin: "finite ?names" using ok by (metis List.finite_set registry_ok_def)
  have "kahn_inv (reg_deps r) ?names ?queue ?deg []"
    using it in_degrees_eq [OF it, of _ r]
    by (auto simp: kahn_inv_def iterations_def deps_first_def open_deps_def)
  from kahn_returns [OF this fin it, of 5] obtain out deg'
    where out: "kahn it (reg_deps r) 5 ?queue ?deg [] = Some out"
      and inv: "kahn_inv (reg_deps r) ?names [] deg' out" by blast
  have d: "distinct out" "set out \<subseteq> ?names" "deps_first (reg_deps r) out"
    and z: "set out = {n \<in> ?names. deg' n = 0}"
    and dg: "\<forall>n \<in> ?names. deg' n = int (open_deps (reg_deps r) (set out) n)"
    using inv by (auto simp: kahn_inv_def)
  have "length out = Registry_Len r \<longleftrightarrow> set out = ?names"
    using d(1,2) fin by (metis Registry_Len_def card_subset_eq distinct_card)
  moreover have "missing_dep r (it 0) = None"
    using closed it by (simp add: missing_dep_None iterations_def)
  ultimately have "Resolve it r = (if set out = ?names
      then Some (Inr (map (\<lambda>n. the (reg_extensions r n)) out)) else Some (Inl CircularDependency))"
    using out by (simp add: Resolve_def Let_def)
  moreover have "n \<in> set out" if "n \<in> ?names" "set (reg_deps r n) \<subseteq> set out" for n
    using that z dg open_deps_zero [of "reg_deps r" "set out" n] by simp
  ultimately show thesis using d that by blast
qed

lemma resolve_missing:
  assumes it: "iterations it (dom (reg_extensions r))"
    and open_dep: "\<not> (\<forall>n \<in> dom (reg_extensions r). set (reg_deps r n) \<subseteq> dom (reg_extensions r))"
  shows "\<exists>n d. Resolve it r = Some (Inl (MissingDependency n d)) \<and> d \<in> set (reg_deps r n) \<and> d \<notin> dom (reg_extensions r)"
proof -
  have ne: "missing_dep r (it 0) \<noteq> None"
    using it open_dep by (simp add: missing_dep_None iterations_def)
  have in_cases: "missing_in r n ds = Some e \<Longrightarrow> \<exists>d. e = MissingDependency n d \<and> d \<in> set ds \<and> reg_extensions r d = None"
    for n ds e by (induction ds) (auto split: if_splits)
  have "missing_dep r ns = Some e \<Longrightarrow>
      \<exists>n d. e = MissingDependency n d \<and> d \<in> set (reg_deps r n) \<and> reg_extensions r d = None" for ns e
    by (induction ns) (auto split: option.splits dest: in_cases)
  then obtain n d where "missing_dep r (it 0) = Some (MissingDependency n d)"
    "d \<in> set (reg_deps r n)" "reg_extensions r d = None" using ne by blast
  then show ?thesis by (auto simp: Resolve_def)
qed

lemma deps_first_acyclic:
  assumes "deps_first (reg_deps r) out" "set out = dom (reg_extensions r)" "distinct out"
  shows "acyclic (dep_rel r)"
proof -
  define pos where "pos n = (LEAST i. i < length out \<and> out ! i = n)" for n
  have pos: "pos (out ! i) = i" if "i < length out" for i
    unfolding pos_def using that assms(3) by (intro Least_equality) (auto simp: nth_eq_iff_index_eq)
  have "(d, n) \<in> measure pos" if "(d, n) \<in> dep_rel r" for d n
  proof -
    have n: "n \<in> set out" "d \<in> set (reg_deps r n)" using that assms(2) by (auto simp: dep_rel_def)
    then obtain i where i: "i < length out" "out ! i = n" by (metis in_set_conv_nth)
    then have "d \<in> set (take i out)" using n assms(1) by (auto simp: deps_first_def)
    then obtain j where "j < i" "out ! j = d" using i by (auto simp: in_set_conv_nth)
    then show ?thesis using i pos [of i] pos [of j] by auto
  qed
  then have "dep_rel r \<subseteq> measure pos" by auto
  then show ?thesis using wf_subset wf_measure wf_acyclic by blast
qed

lemma acyclic_complete:
  assumes ac: "acyclic (dep_rel r)" and fin: "finite (dom (reg_extensions r))"
    and closed: "\<forall>n \<in> dom (reg_extensions r). set (reg_deps r n) \<subseteq> dom (reg_extensions r)"
    and out: "\<forall>n \<in> dom (reg_extensions r). set (reg_deps r n) \<subseteq> set out \<longrightarrow> n \<in> set out"
  shows "dom (reg_extensions r) \<subseteq> set out"
proof -
  let ?names = "dom (reg_extensions r)"
  have "dep_rel r \<subseteq> ?names \<times> ?names" using closed by (auto simp: dep_rel_def)
  then have "finite (dep_rel r)" using fin finite_subset by blast
  then have wf: "wf (dep_rel r)" using ac by (rule finite_acyclic_wf)
  have "n \<in> ?names \<longrightarrow> n \<in> set out" for n
    using wf
  proof (induction n rule: wf_induct_rule)
    case (less n)
    have "set (reg_deps r n) \<subseteq> set out" if "n \<in> ?names"
    proof
      fix d
      assume "d \<in> set (reg_deps r n)"
      then have "(d, n) \<in> dep_rel r" "d \<in> ?names" using that closed by (auto simp: dep_rel_def)
      then show "d \<in> set out" using less by blast
    qed
    then show ?case using out by blast
  qed
  then show ?thesis by blast
qed

text \<open>C19. Dependency resolution is correct for every order in which the maps are iterated: it
  always returns; it reports a missing dependency exactly when there is one; otherwise it
  succeeds exactly when the dependencies are acyclic, and then lists every extension once,
  each after everything it depends on.\<close>

theorem Resolve_correct:
  assumes "registry_ok r" "iterations it (dom (reg_extensions r))"
  shows "if \<forall>n \<in> dom (reg_extensions r). set (reg_deps r n) \<subseteq> dom (reg_extensions r)
         then (if acyclic (dep_rel r)
               then \<exists>out. Resolve it r = Some (Inr (map (\<lambda>n. the (reg_extensions r n)) out)) \<and>
                      distinct out \<and> set out = dom (reg_extensions r) \<and> deps_first (reg_deps r) out
               else Resolve it r = Some (Inl CircularDependency))
         else \<exists>n d. Resolve it r = Some (Inl (MissingDependency n d)) \<and>
                d \<in> set (reg_deps r n) \<and> d \<notin> dom (reg_extensions r)"
proof (cases "\<forall>n \<in> dom (reg_extensions r). set (reg_deps r n) \<subseteq> dom (reg_extensions r)")
  case True
  have fin: "finite (dom (reg_extensions r))" using assms(1) by (metis List.finite_set registry_ok_def)
  obtain out where out: "Resolve it r = (if set out = dom (reg_extensions r)
      then Some (Inr (map (\<lambda>n. the (reg_extensions r n)) out)) else Some (Inl CircularDependency))"
    "distinct out" "set out \<subseteq> dom (reg_extensions r)" "deps_first (reg_deps r) out"
    "\<forall>n \<in> dom (reg_extensions r). set (reg_deps r n) \<subseteq> set out \<longrightarrow> n \<in> set out"
    using resolve_list [OF assms True] by blast
  have "set out = dom (reg_extensions r) \<longleftrightarrow> acyclic (dep_rel r)"
    using deps_first_acyclic [OF out(4) _ out(2)] acyclic_complete [OF _ fin True out(5)] out(3) by blast
  with True out show ?thesis by auto
next
  case False
  from resolve_missing [OF assms(2) this] False show ?thesis by auto
qed

definition example_registry :: registry where
  "example_registry =
     snd (Register \<lparr>ext_Name = ''QRESYNC'', ext_Capabilities = [''QRESYNC''], ext_Dependencies = [''CONDSTORE'']\<rparr>
       (snd (Register \<lparr>ext_Name = ''CONDSTORE'', ext_Capabilities = [''CONDSTORE''], ext_Dependencies = []\<rparr> NewRegistry)))"

lemma example_registry_simps:
  "dom (reg_extensions example_registry) = {''CONDSTORE'', ''QRESYNC''}"
  "reg_deps example_registry ''CONDSTORE'' = []" "reg_deps example_registry ''QRESYNC'' = [''CONDSTORE'']"
  by (simp_all add: example_registry_def Register_def NewRegistry_def reg_deps_def insert_commute)

theorem Resolve_correct_witness:
  "\<exists>out. Resolve (\<lambda>k. if even k then [''QRESYNC'', ''CONDSTORE''] else [''CONDSTORE'', ''QRESYNC'']) example_registry =
       Some (Inr (map (\<lambda>n. the (reg_extensions example_registry n)) out)) \<and>
     set out = {''CONDSTORE'', ''QRESYNC''} \<and> deps_first (reg_deps example_registry) out"
proof -
  let ?it = "\<lambda>k :: nat. if even k then [''QRESYNC'', ''CONDSTORE''] else [''CONDSTORE'', ''QRESYNC'']"
  have "registry_ok example_registry"
    unfolding example_registry_def by (intro registry_ok_Register registry_ok_New)
  moreover have "iterations ?it (dom (reg_extensions example_registry))"
    by (auto simp: iterations_def example_registry_simps)
  moreover have "dep_rel example_registry = {(''CONDSTORE'', ''QRESYNC'')}"
    by (auto simp: dep_rel_def example_registry_simps)
  then have "trans (dep_rel example_registry) \<and> irrefl (dep_rel example_registry)"
    by (simp add: trans_def irrefl_def)
  then have "acyclic (dep_rel example_registry)"
    by (simp add: acyclic_irrefl)
  ultimately show ?thesis
    using Resolve_correct [of example_registry ?it] by (auto simp: example_registry_simps)
qed

end
