(* ===== verification/Utf7.thy ===== *)
theory Utf7
  imports Prelude
begin

text \<open>
  Modified UTF-7 for mailbox names (\<open>wire/utf7/utf7.go\<close>). \<open>Encode\<close> ranges over the runes of
  its argument, given here as the list of their code points; \<open>Decode\<close> works on bytes and
  writes the runes it decodes in UTF-8. The base64 encoding without padding over the modified
  alphabet, the surrogates of UTF-16 and the UTF-8 form of a rune are those of the Go library.
\<close>

definition alphabet :: string where
  "alphabet = ''ABCDEFGHIJKLMNOPQRSTUVWXYZabcdefghijklmnopqrstuvwxyz0123456789+,''"

text \<open>\<open>EncodeToString\<close>: three bytes make four digits; one or two bytes left make two or three.\<close>

fun b64_encode :: "nat list \<Rightarrow> string" where
  "b64_encode (a # b # c # rest) =
     (let n = a * 65536 + b * 256 + c
      in [alphabet ! (n div 262144), alphabet ! (n div 4096 mod 64), alphabet ! (n div 64 mod 64),
          alphabet ! (n mod 64)] @ b64_encode rest)"
| "b64_encode [a, b] =
     (let n = a * 65536 + b * 256
      in [alphabet ! (n div 262144), alphabet ! (n div 4096 mod 64), alphabet ! (n div 64 mod 64)])"
| "b64_encode [a] =
     (let n = a * 65536
      in [alphabet ! (n div 262144), alphabet ! (n div 4096 mod 64)])"
| "b64_encode [] = []"

text \<open>\<open>DecodeString\<close> on the digits; line ends are ignored and spare bits dropped.\<close>

fun digits_decode :: "nat list \<Rightarrow> nat list option" where
  "digits_decode (a # b # c # d # rest) =
     (let v = ((a * 64 + b) * 64 + c) * 64 + d
      in map_option (\<lambda>bs. [v div 65536, v div 256 mod 256, v mod 256] @ bs) (digits_decode rest))"
| "digits_decode [a, b, c] = (let v = ((a * 64 + b) * 64 + c) * 64 in Some [v div 65536, v div 256 mod 256])"
| "digits_decode [a, b] = (let v = (a * 64 + b) * 4096 in Some [v div 65536])"
| "digits_decode [a] = None"
| "digits_decode [] = Some []"

definition b64_decode :: "string \<Rightarrow> nat list option" where
  "b64_decode s =
     (let ds = map (IndexByte alphabet) (filter (\<lambda>c. c \<noteq> CR \<and> c \<noteq> LF) s)
      in if None \<in> set ds then None else digits_decode (map the ds))"

definition EncodeRune :: "nat \<Rightarrow> nat \<times> nat" where
  "EncodeRune r = (0xd800 + (r - 0x10000) div 1024, 0xdc00 + (r - 0x10000) mod 1024)"

definition DecodeRune :: "nat \<Rightarrow> nat \<Rightarrow> nat option" where
  "DecodeRune r1 r2 =
     (if 0xd800 \<le> r1 \<and> r1 < 0xdc00 \<and> 0xdc00 \<le> r2 \<and> r2 < 0xe000
      then Some ((r1 - 0xd800) * 1024 + (r2 - 0xdc00) + 0x10000) else None)"

definition IsSurrogate :: "nat \<Rightarrow> bool" where
  "IsSurrogate r \<longleftrightarrow> 0xd800 \<le> r \<and> r < 0xe000"

text \<open>The UTF-8 form of a rune, as \<open>WriteRune\<close> writes it.\<close>

definition utf8 :: "nat \<Rightarrow> string" where
  "utf8 r =
     (if r < 0x80 then [char_of r]
      else if r < 0x800 then [char_of (0xc0 + r div 64), char_of (0x80 + r mod 64)]
      else if r < 0x10000
      then [char_of (0xe0 + r div 4096), char_of (0x80 + r div 64 mod 64), char_of (0x80 + r mod 64)]
      else [char_of (0xf0 + r div 262144), char_of (0x80 + r div 4096 mod 64),
            char_of (0x80 + r div 64 mod 64), char_of (0x80 + r mod 64)])"

text \<open>The bytes \<open>Encode\<close> collects for a rune: UTF-16, big endian.\<close>

definition utf16be :: "nat \<Rightarrow> nat list" where
  "utf16be r =
     (if r \<ge> 0x10000
      then (case EncodeRune r of (r1, r2) \<Rightarrow> [r1 div 256, r1 mod 256, r2 div 256, r2 mod 256])
      else [r div 256, r mod 256])"

definition flush :: "nat list \<Rightarrow> string" where
  "flush b64buf = (if length b64buf > 0 then ''&'' @ b64_encode b64buf @ ''-'' else [])"

fun enc_loop :: "nat list \<Rightarrow> nat list \<Rightarrow> string" where
  "enc_loop [] b64buf = flush b64buf"
| "enc_loop (r # rs) b64buf =
     (if 0x20 \<le> r \<and> r \<le> 0x7e
      then flush b64buf @ (if r = ord (CHR ''&'') then ''&-'' else [char_of r]) @ enc_loop rs []
      else enc_loop rs (b64buf @ utf16be r))"

definition Encode :: "nat list \<Rightarrow> string" where
  "Encode s = enc_loop s []"

datatype utf7_error =
    UnexpectedEnd
  | MissingDash
  | InvalidBase64
  | OddBytes
  | IncompleteSurrogate
  | InvalidSurrogate

fun utf16_loop :: "nat list \<Rightarrow> utf7_error + string" where
  "utf16_loop (a # b # rest) =
     (let code = a * 256 + b in
      if IsSurrogate code
      then (case rest of
              c # d # rest' \<Rightarrow>
                (case DecodeRune code (c * 256 + d) of
                   None \<Rightarrow> Inl InvalidSurrogate
                 | Some r \<Rightarrow> map_sum (\<lambda>e. e) (\<lambda>t. utf8 r @ t) (utf16_loop rest'))
            | _ \<Rightarrow> Inl IncompleteSurrogate)
      else map_sum (\<lambda>e. e) (\<lambda>t. utf8 code @ t) (utf16_loop rest))"
| "utf16_loop _ = Inr []"

function Decode :: "string \<Rightarrow> utf7_error + string" where
  "Decode [] = Inr []"
| "Decode (c # s) =
     (if c \<noteq> CHR ''&'' then map_sum (\<lambda>e. e) (\<lambda>t. c # t) (Decode s)
      else case s of
             [] \<Rightarrow> Inl UnexpectedEnd
           | d # s' \<Rightarrow>
               (if d = CHR ''-'' then map_sum (\<lambda>e. e) (\<lambda>t. CHR ''&'' # t) (Decode s')
                else case IndexByte s (CHR ''-'') of
                       None \<Rightarrow> Inl MissingDash
                     | Some e \<Rightarrow>
                         (case b64_decode (take e s) of
                            None \<Rightarrow> Inl InvalidBase64
                          | Some decoded \<Rightarrow>
                              (if length decoded mod 2 \<noteq> 0 then Inl OddBytes
                               else case utf16_loop decoded of
                                      Inl err \<Rightarrow> Inl err
                                    | Inr t \<Rightarrow> map_sum (\<lambda>e. e) (\<lambda>u. t @ u) (Decode (drop (e + 1) s))))))"
  by pat_completeness auto
termination by (relation "measure length") auto

section \<open>The round trip\<close>

subsection \<open>Base64\<close>

lemma recompose24:
  fixes n :: nat
  shows "((n div 262144 * 64 + n div 4096 mod 64) * 64 + n div 64 mod 64) * 64 + n mod 64 = n"
proof -
  have "n div 262144 * 64 + n div 4096 mod 64 = n div 4096"
    using div_mult_mod_eq [of "n div 4096" 64] by (simp add: div_mult2_eq [symmetric])
  moreover have "n div 4096 * 64 + n div 64 mod 64 = n div 64"
    using div_mult_mod_eq [of "n div 64" 64] by (simp add: div_mult2_eq [symmetric])
  ultimately show ?thesis by (simp only: div_mult_mod_eq)
qed

lemma alphabet_length: "length alphabet = 64"
  by (simp add: alphabet_def)

lemma alphabet_index: "d < 64 \<Longrightarrow> IndexByte alphabet (alphabet ! d) = Some d"
proof -
  have "\<forall>d \<in> set [0..<64]. IndexByte alphabet (alphabet ! d) = Some d" by code_simp
  then show "d < 64 \<Longrightarrow> ?thesis" by simp
qed

lemma alphabet_chars: "c \<in> set alphabet \<Longrightarrow> c \<noteq> CHR ''-'' \<and> c \<noteq> CR \<and> c \<noteq> LF \<and> 0x20 \<le> ord c \<and> ord c \<le> 0x7e"
proof -
  have "\<forall>c \<in> set alphabet. c \<noteq> CHR ''-'' \<and> c \<noteq> CR \<and> c \<noteq> LF \<and> 0x20 \<le> ord c \<and> ord c \<le> 0x7e" by code_simp
  then show "c \<in> set alphabet \<Longrightarrow> ?thesis" by blast
qed


lemma b64_digits:
  assumes "\<forall>d \<in> set ds. d < 64"
  shows "b64_decode (map ((!) alphabet) ds) = digits_decode ds"
proof -
  have "\<forall>d \<in> set ds. alphabet ! d \<in> set alphabet" using assms by (simp add: alphabet_length)
  then have *: "filter (\<lambda>c. c \<noteq> CR \<and> c \<noteq> LF) (map ((!) alphabet) ds) = map ((!) alphabet) ds"
    using alphabet_chars by (fastforce simp: filter_id_conv)
  have "map (IndexByte alphabet) (map ((!) alphabet) ds) = map Some ds"
    using assms by (simp add: alphabet_index)
  then show ?thesis unfolding b64_decode_def * by (simp only: Let_def) (auto simp: comp_def)
qed

text \<open>The digits \<open>EncodeToString\<close> writes.\<close>

fun to_digits :: "nat list \<Rightarrow> nat list" where
  "to_digits (a # b # c # rest) =
     (let n = a * 65536 + b * 256 + c
      in [n div 262144, n div 4096 mod 64, n div 64 mod 64, n mod 64] @ to_digits rest)"
| "to_digits [a, b] = (let n = a * 65536 + b * 256 in [n div 262144, n div 4096 mod 64, n div 64 mod 64])"
| "to_digits [a] = (let n = a * 65536 in [n div 262144, n div 4096 mod 64])"
| "to_digits [] = []"

lemma b64_encode_digits: "b64_encode bs = map ((!) alphabet) (to_digits bs)"
  by (induction bs rule: to_digits.induct) (simp_all add: Let_def)

lemma to_digits_small: "\<forall>b \<in> set bs. b < 256 \<Longrightarrow> \<forall>d \<in> set (to_digits bs). d < 64"
  by (induction bs rule: to_digits.induct) (auto simp: Let_def)

lemma digits_roundtrip: "\<forall>b \<in> set bs. b < 256 \<Longrightarrow> digits_decode (to_digits bs) = Some bs"
proof (induction bs rule: to_digits.induct)
  case (1 a b c rest)
  have "a * 65536 + b * 256 + c = c + (a * 256 + b) * 256" by simp
  moreover have "(c + (a * 256 + b) * 256) div 256 = a * 256 + b" "(c + (a * 256 + b) * 256) mod 256 = c"
    using 1 by (simp_all only: div_mult_self1 mod_mult_self1) simp_all
  ultimately have "(a * 65536 + b * 256 + c) div 256 = a * 256 + b" "(a * 65536 + b * 256 + c) mod 256 = c"
    by (simp_all only:)
  then show ?case
    using 1 by (simp only: to_digits.simps Let_def append.simps digits_decode.simps recompose24) auto
next
  case (2 a b)
  let ?n = "a * 65536 + b * 256"
  have "?n mod 64 = 0" by simp
  then have "((?n div 262144 * 64 + ?n div 4096 mod 64) * 64 + ?n div 64 mod 64) * 64 = ?n"
    using recompose24 [of ?n] by linarith
  with 2 show ?case by (simp only: to_digits.simps Let_def digits_decode.simps) auto
next
  case (3 a)
  let ?n = "a * 65536"
  have "?n mod 64 = 0" "?n div 64 mod 64 = 0" by simp_all
  then have "((?n div 262144 * 64 + ?n div 4096 mod 64) * 64) * 64 = ?n"
    using recompose24 [of ?n] by (simp only: add_0_right)
  then have "(?n div 262144 * 64 + ?n div 4096 mod 64) * 4096 = ?n" by simp
  with 3 show ?case by (simp only: to_digits.simps Let_def digits_decode.simps) auto
qed simp

lemma b64_roundtrip: "\<forall>b \<in> set bs. b < 256 \<Longrightarrow> b64_decode (b64_encode bs) = Some bs"
  by (simp add: b64_encode_digits b64_digits to_digits_small digits_roundtrip)

lemma b64_encode_chars: "\<forall>b \<in> set bs. b < 256 \<Longrightarrow> set (b64_encode bs) \<subseteq> set alphabet"
  using to_digits_small [of bs] by (auto simp: b64_encode_digits alphabet_length)

lemma b64_encode_Nil: "b64_encode bs = [] \<longleftrightarrow> bs = []"
  by (cases bs rule: to_digits.cases) (auto simp: Let_def)

subsection \<open>UTF-16\<close>

definition scalar :: "nat \<Rightarrow> bool" where
  "scalar r \<longleftrightarrow> r < 0x110000 \<and> \<not> IsSurrogate r"

lemma EncodeRune_surrogates:
  assumes "0x10000 \<le> r" "r < 0x110000" "EncodeRune r = (r1, r2)"
  shows "IsSurrogate r1 \<and> r1 < 65536 \<and> r2 < 65536 \<and> DecodeRune r1 r2 = Some r"
proof -
  have "(r - 0x10000) div 1024 < 1024" using assms by (simp add: less_mult_imp_div_less)
  moreover have "(r - 0x10000) mod 1024 < 1024" by simp
  moreover have "(r - 0x10000) div 1024 * 1024 + (r - 0x10000) mod 1024 = r - 0x10000"
    by (rule div_mult_mod_eq)
  moreover have "r1 = 0xd800 + (r - 0x10000) div 1024" "r2 = 0xdc00 + (r - 0x10000) mod 1024"
    using assms by (simp_all add: EncodeRune_def)
  ultimately show ?thesis using assms(1) by (simp add: IsSurrogate_def DecodeRune_def)
qed

lemma utf16be_bytes: "scalar r \<Longrightarrow> \<forall>b \<in> set (utf16be r). b < 256"
  using EncodeRune_surrogates [of r] by (cases "EncodeRune r") (auto simp: utf16be_def scalar_def)

lemma utf16be_even: "even (length (utf16be r))"
  by (simp add: utf16be_def split: prod.split)

lemma utf16be_Nil: "utf16be r \<noteq> []"
  by (simp add: utf16be_def split: prod.split)

lemma utf16_loop_rune:
  assumes "scalar r"
  shows "utf16_loop (utf16be r @ bs) = map_sum (\<lambda>e. e) (\<lambda>t. utf8 r @ t) (utf16_loop bs)"
proof (cases "0x10000 \<le> r")
  case True
  obtain r1 r2 where e: "EncodeRune r = (r1, r2)" by (cases "EncodeRune r")
  have *: "IsSurrogate r1" "DecodeRune r1 r2 = Some r"
    using EncodeRune_surrogates [OF True _ e] assms by (simp_all add: scalar_def)
  show ?thesis using True * by (simp add: utf16be_def e)
next
  case False
  then show ?thesis using assms by (simp add: utf16be_def scalar_def)
qed

lemma utf16_roundtrip:
  "\<forall>r \<in> set rs. scalar r \<Longrightarrow> utf16_loop (concat (map utf16be rs)) = Inr (concat (map utf8 rs))"
  by (induction rs) (simp_all add: utf16_loop_rune)


subsection \<open>Names\<close>

lemma Decode_plain: "c \<noteq> CHR ''&'' \<Longrightarrow> Decode (c # s) = map_sum (\<lambda>e. e) (\<lambda>t. c # t) (Decode s)"
  by simp

lemma Decode_flush:
  assumes "\<forall>r \<in> set rs. scalar r"
  shows "Decode (flush (concat (map utf16be rs)) @ s) =
    map_sum (\<lambda>e. e) (\<lambda>t. concat (map utf8 rs) @ t) (Decode s)"
proof (cases rs)
  case Nil
  then show ?thesis by (simp add: flush_def map_sum.id [unfolded id_def])
next
  case (Cons r rs')
  let ?b = "concat (map utf16be rs)"
  let ?e = "b64_encode ?b"
  have b: "\<forall>b \<in> set ?b. b < 256" using assms utf16be_bytes by auto
  have "?b \<noteq> []" by (simp add: Cons utf16be_Nil)
  then obtain d e where e: "?e = d # e" by (metis b64_encode_Nil list.exhaust)
  have nd: "CHR ''-'' \<notin> set ?e" using b64_encode_chars [OF b] alphabet_chars by blast
  have ix: "IndexByte (?e @ CHR ''-'' # s) (CHR ''-'') = Some (length ?e)"
    by (rule IndexByte_append [OF nd])
  have len: "even (length ?b)" using utf16be_even by (induction rs) auto
  have "flush ?b @ s = CHR ''&'' # (?e @ CHR ''-'' # s)"
    using \<open>?b \<noteq> []\<close> by (simp add: flush_def)
  moreover have "Decode (CHR ''&'' # (?e @ CHR ''-'' # s)) =
      map_sum (\<lambda>e. e) (\<lambda>t. concat (map utf8 rs) @ t) (Decode s)"
    using ix nd len b64_roundtrip [OF b] utf16_roundtrip [OF assms]
    by (auto simp add: e simp del: IndexByte.simps)
  ultimately show ?thesis by simp
qed

lemma char_of_ampersand_dash: "char_of (38 :: nat) = CHR ''&''" "char_of (45 :: nat) = CHR ''-''"
  by code_simp+

lemma utf8_ascii: "r < 0x80 \<Longrightarrow> utf8 r = [char_of r]"
  by (simp add: utf8_def)

lemma Decode_enc_loop:
  assumes "\<forall>r \<in> set rs. scalar r" "\<forall>r \<in> set ps. scalar r"
  shows "Decode (enc_loop rs (concat (map utf16be ps))) = Inr (concat (map utf8 ps) @ concat (map utf8 rs))"
  using assms
proof (induction rs arbitrary: ps)
  case Nil
  then show ?case using Decode_flush [of ps "[]"] by simp
next
  case (Cons r rs)
  show ?case
  proof (cases "0x20 \<le> r \<and> r \<le> 0x7e")
    case True
    have ih: "Decode (enc_loop rs []) = Inr (concat (map utf8 rs))"
      using Cons.IH [of "[]"] Cons.prems by simp
    have "Decode ((if r = ord (CHR ''&'') then ''&-'' else [char_of r]) @ enc_loop rs []) =
        Inr (utf8 r @ concat (map utf8 rs))"
    proof (cases "r = ord (CHR ''&'')")
      case False
      moreover have "ord (char_of r :: char) = r" using True by (simp add: of_char_of)
      ultimately have "char_of r \<noteq> CHR ''&''" by metis
      with False show ?thesis using True ih by (simp add: utf8_ascii)
    qed (simp add: ih utf8_ascii char_of_ampersand_dash)
    then show ?thesis using True Cons.prems Decode_flush [of ps] by simp
  next
    case False
    then show ?thesis using Cons.IH [of "ps @ [r]"] Cons.prems by auto
  qed
qed

text \<open>C21. A mailbox name survives modified UTF-7: for every list of Unicode scalar values,
  \<open>Decode\<close> of the encoded name succeeds and gives the UTF-8 form of the name, whatever
  mixture of printable characters, ampersands, control characters and characters beyond the
  basic plane it has.\<close>

theorem utf7_roundtrip:
  assumes "\<forall>r \<in> set name. scalar r"
  shows "Decode (Encode name) = Inr (concat (map utf8 name))"
  using Decode_enc_loop [of name "[]"] assms by (simp add: Encode_def)

theorem utf7_roundtrip_witness:
  "Decode (Encode [0x26, 0x41, 0x53f0, 0x1f600, 0x7, 0x2d]) = Inr (concat (map utf8 [0x26, 0x41, 0x53f0, 0x1f600, 0x7, 0x2d])) \<and>
   Encode [0x26, 0x53f0, 0x5317, 0x2d] = ''&-&U,BTFw--''"
proof (rule conjI)
  show "Decode (Encode [0x26, 0x41, 0x53f0, 0x1f600, 0x7, 0x2d]) = Inr (concat (map utf8 [0x26, 0x41, 0x53f0, 0x1f600, 0x7, 0x2d]))"
    by (rule utf7_roundtrip) (simp add: scalar_def IsSurrogate_def)
  show "Encode [0x26, 0x53f0, 0x5317, 0x2d] = ''&-&U,BTFw--''"
    by (simp add: Encode_def utf16be_def flush_def alphabet_def char_of_ampersand_dash)
qed

lemma flush_printable:
  assumes "\<forall>r \<in> set rs. scalar r" "c \<in> set (flush (concat (map utf16be rs)))"
  shows "0x20 \<le> ord c \<and> ord c \<le> 0x7e"
proof -
  have "set (b64_encode (concat (map utf16be rs))) \<subseteq> set alphabet"
    by (rule b64_encode_chars) (use assms(1) utf16be_bytes in auto)
  then show ?thesis using assms(2) alphabet_chars by (auto simp: flush_def split: if_splits)
qed

lemma enc_loop_printable:
  "\<forall>r \<in> set rs. scalar r \<Longrightarrow> \<forall>r \<in> set ps. scalar r \<Longrightarrow> c \<in> set (enc_loop rs (concat (map utf16be ps))) \<Longrightarrow>
   0x20 \<le> ord c \<and> ord c \<le> 0x7e"
proof (induction rs arbitrary: ps)
  case Nil
  then show ?case using flush_printable by simp
next
  case (Cons r rs)
  show ?case
  proof (cases "0x20 \<le> r \<and> r \<le> 0x7e")
    case True
    then have "c \<in> set (flush (concat (map utf16be ps))) \<or> c = CHR ''&'' \<or> c = CHR ''-'' \<or> c = char_of r \<or>
        c \<in> set (enc_loop rs [])" using Cons.prems(3) by (auto split: if_splits)
    moreover have "ord (char_of r :: char) = r" using True by (simp add: of_char_of)
    ultimately show ?thesis
      using True Cons.IH [of "[]"] Cons.prems flush_printable [of ps c] by auto
  next
    case False
    then show ?thesis using Cons.IH [of "ps @ [r]"] Cons.prems by auto
  qed
qed

text \<open>\<open>Encode\<close> writes printable US-ASCII only, so that the result can stand in a
  quoted string of the protocol.\<close>

theorem utf7_printable:
  assumes "\<forall>r \<in> set name. scalar r" "c \<in> set (Encode name)"
  shows "0x20 \<le> ord c \<and> ord c \<le> 0x7e"
  using enc_loop_printable [of name "[]"] assms by (simp add: Encode_def)

theorem utf7_printable_witness:
  "CHR '','' \<in> set (Encode [0x53f0]) \<and> 0x20 \<le> ord (CHR '','') \<and> ord (CHR '','') \<le> 0x7e"
proof -
  have "CHR '','' \<in> set (Encode [0x53f0])"
    by (simp add: Encode_def utf16be_def flush_def alphabet_def)
  then show ?thesis using utf7_printable [of "[0x53f0]" "CHR '',''"] by (simp add: scalar_def IsSurrogate_def)
qed

end
