(* ===== verification/Tracker.thy ===== *)
theory Tracker
  imports Writers
begin

text \<open>
  The mailbox and session trackers of \<open>server/tracker.go\<close>. Trackers are pointers: a
  \<open>trackers\<close> value is the part of the heap that holds them. Each method is a function on that
  heap, and, for the methods that take locks, a \<open>prog\<close> that lists its lock operations in the
  order of the source; a program run alone does what the function says, and programs run
  together interleave between their critical sections.
\<close>

section \<open>The trackers\<close>

datatype update =
    ExistsUpdate u32
  | ExpungeUpdate u32
  | FetchFlagsUpdate u32 "flag list"

record mailbox_tracker =
  mt_name :: string
  mt_numMessages :: u32
  mt_uidNext :: u32
  mt_uidValidity :: u32
  mt_sessions :: "nat set"

record session_tracker =
  st_mailbox :: "nat option"
  st_updates :: "update list"

record trackers =
  mailboxes_at :: "nat \<Rightarrow> mailbox_tracker"
  sessions_at :: "nat \<Rightarrow> session_tracker"

definition NewMailboxTracker :: "string \<Rightarrow> u32 \<Rightarrow> u32 \<Rightarrow> u32 \<Rightarrow> mailbox_tracker" where
  "NewMailboxTracker nm numMessages uidValidity uidNext =
     \<lparr>mt_name = nm, mt_numMessages = numMessages, mt_uidNext = uidNext, mt_uidValidity = uidValidity, mt_sessions = {}\<rparr>"

definition NewSessionTracker :: session_tracker where
  "NewSessionTracker = \<lparr>st_mailbox = None, st_updates = []\<rparr>"

definition upd_mailbox :: "nat \<Rightarrow> (mailbox_tracker \<Rightarrow> mailbox_tracker) \<Rightarrow> trackers \<Rightarrow> trackers" where
  "upd_mailbox t f w = w\<lparr>mailboxes_at := (mailboxes_at w)(t := f (mailboxes_at w t))\<rparr>"

definition upd_session :: "nat \<Rightarrow> (session_tracker \<Rightarrow> session_tracker) \<Rightarrow> trackers \<Rightarrow> trackers" where
  "upd_session st f w = w\<lparr>sessions_at := (sessions_at w)(st := f (sessions_at w st))\<rparr>"

definition queueUpdate :: "nat \<Rightarrow> update \<Rightarrow> trackers \<Rightarrow> trackers" where
  "queueUpdate st u = upd_session st (\<lambda>s. s\<lparr>st_updates := st_updates s @ [u]\<rparr>)"

text \<open>\<open>QueueUpdate\<close> ranges over the sessions; \<open>it\<close> is the order of that iteration.\<close>

definition QueueUpdate :: "(nat set \<Rightarrow> nat list) \<Rightarrow> nat \<Rightarrow> update \<Rightarrow> trackers \<Rightarrow> trackers" where
  "QueueUpdate it t u w = fold (\<lambda>st. queueUpdate st u) (it (mt_sessions (mailboxes_at w t))) w"

definition dec_messages :: "mailbox_tracker \<Rightarrow> mailbox_tracker" where
  "dec_messages t = (if mt_numMessages t > 0 then t\<lparr>mt_numMessages := mt_numMessages t - 1\<rparr> else t)"

definition inc_messages :: "mailbox_tracker \<Rightarrow> mailbox_tracker" where
  "inc_messages t = t\<lparr>mt_numMessages := mt_numMessages t + 1\<rparr>"

definition QueueExpunge :: "(nat set \<Rightarrow> nat list) \<Rightarrow> nat \<Rightarrow> u32 \<Rightarrow> trackers \<Rightarrow> trackers" where
  "QueueExpunge it t seqNum w = QueueUpdate it t (ExpungeUpdate seqNum) (upd_mailbox t dec_messages w)"

definition QueueNewMessage :: "(nat set \<Rightarrow> nat list) \<Rightarrow> nat \<Rightarrow> trackers \<Rightarrow> trackers" where
  "QueueNewMessage it t w =
     (let w' = upd_mailbox t inc_messages w;
          num = mt_numMessages (mailboxes_at w' t)
      in QueueUpdate it t (ExistsUpdate num) w')"

definition QueueFlagsUpdate :: "(nat set \<Rightarrow> nat list) \<Rightarrow> nat \<Rightarrow> u32 \<Rightarrow> flag list \<Rightarrow> trackers \<Rightarrow> trackers" where
  "QueueFlagsUpdate it t seqNum flags = QueueUpdate it t (FetchFlagsUpdate seqNum flags)"

definition addSession :: "nat \<Rightarrow> nat \<Rightarrow> trackers \<Rightarrow> trackers" where
  "addSession t st = upd_mailbox t (\<lambda>m. m\<lparr>mt_sessions := insert st (mt_sessions m)\<rparr>)"

definition removeSession :: "nat \<Rightarrow> nat \<Rightarrow> trackers \<Rightarrow> trackers" where
  "removeSession t st = upd_mailbox t (\<lambda>m. m\<lparr>mt_sessions := mt_sessions m - {st}\<rparr>)"

definition leave_mailbox :: "nat \<Rightarrow> trackers \<Rightarrow> trackers" where
  "leave_mailbox st w = (case st_mailbox (sessions_at w st) of None \<Rightarrow> w | Some t \<Rightarrow> removeSession t st w)"

definition Tracker_Select :: "nat \<Rightarrow> nat option \<Rightarrow> trackers \<Rightarrow> trackers" where
  "Tracker_Select st mbox w =
     (let w' = upd_session st (\<lambda>s. s\<lparr>st_mailbox := mbox, st_updates := []\<rparr>) (leave_mailbox st w)
      in case mbox of None \<Rightarrow> w' | Some t \<Rightarrow> addSession t st w')"

definition Tracker_Unselect :: "nat \<Rightarrow> trackers \<Rightarrow> trackers" where
  "Tracker_Unselect st w = upd_session st (\<lambda>s. s\<lparr>st_mailbox := None, st_updates := []\<rparr>) (leave_mailbox st w)"

text \<open>What \<open>Flush\<close> writes for one update.\<close>

definition flush_update :: "bool \<Rightarrow> update \<Rightarrow> string" where
  "flush_update allowExpunge u =
     (case u of
        ExistsUpdate n \<Rightarrow> WriteExists n
      | ExpungeUpdate n \<Rightarrow> if allowExpunge then UpdateWriter_WriteExpunge n else []
      | FetchFlagsUpdate n flags \<Rightarrow> WriteMessageFlags n flags)"

definition Flush :: "nat \<Rightarrow> bool \<Rightarrow> trackers \<Rightarrow> string \<times> trackers" where
  "Flush st allowExpunge w =
     (concat (map (flush_update allowExpunge) (st_updates (sessions_at w st))),
      upd_session st (\<lambda>s. s\<lparr>st_updates := []\<rparr>) w)"

section \<open>What the client knows\<close>

text \<open>The updates that reach the client of a session, and how a client counts messages by them.\<close>

definition is_expunge :: "update \<Rightarrow> bool" where
  "is_expunge u \<longleftrightarrow> (case u of ExpungeUpdate _ \<Rightarrow> True | _ \<Rightarrow> False)"

definition sent :: "bool \<Rightarrow> update list \<Rightarrow> update list" where
  "sent allowExpunge us = (if allowExpunge then us else filter (\<lambda>u. \<not> is_expunge u) us)"

definition client_count :: "update \<Rightarrow> u32 \<Rightarrow> u32" where
  "client_count u n =
     (case u of ExistsUpdate k \<Rightarrow> k | ExpungeUpdate _ \<Rightarrow> (if n > 0 then n - 1 else n) | FetchFlagsUpdate _ _ \<Rightarrow> n)"

definition replay :: "update list \<Rightarrow> u32 \<Rightarrow> u32" where
  "replay us n = fold client_count us n"

lemma Flush_output:
  "fst (Flush st allowExpunge w) = concat (map (flush_update True) (sent allowExpunge (st_updates (sessions_at w st))))"
proof -
  have "concat (map (flush_update False) us) = concat (map (flush_update True) (filter (\<lambda>u. \<not> is_expunge u) us))" for us
    by (induction us) (auto simp: flush_update_def is_expunge_def split: update.split)
  then show ?thesis by (cases allowExpunge) (simp_all add: Flush_def sent_def)
qed

text \<open>The trackers together with the count each client has arrived at. Selecting a mailbox
  tells the client its count.\<close>

inductive tracker_step ::
  "(nat set \<Rightarrow> nat list) \<Rightarrow> trackers \<times> (nat \<Rightarrow> u32) \<Rightarrow> trackers \<times> (nat \<Rightarrow> u32) \<Rightarrow> bool" for it where
  expunge: "tracker_step it (w, v) (QueueExpunge it t seqNum w, v)"
| new_message: "tracker_step it (w, v) (QueueNewMessage it t w, v)"
| flags: "tracker_step it (w, v) (QueueFlagsUpdate it t seqNum fs w, v)"
| select_box: "tracker_step it (w, v) (Tracker_Select st (Some t) w, v(st := mt_numMessages (mailboxes_at w t)))"
| unselect: "tracker_step it (w, v) (Tracker_Unselect st w, v)"
| flush_all: "tracker_step it (w, v) (snd (Flush st True w), v(st := replay (st_updates (sessions_at w st)) (v st)))"

text \<open>\<open>it\<close> enumerates every finite set, each element once.\<close>

definition orders :: "(nat set \<Rightarrow> nat list) \<Rightarrow> bool" where
  "orders it \<longleftrightarrow> (\<forall>S. finite S \<longrightarrow> set (it S) = S \<and> distinct (it S))"

definition tracker_inv :: "trackers \<times> (nat \<Rightarrow> u32) \<Rightarrow> bool" where
  "tracker_inv s \<longleftrightarrow> (case s of (w, v) \<Rightarrow>
     (\<forall>t. finite (mt_sessions (mailboxes_at w t))) \<and>
     (\<forall>st t. st \<in> mt_sessions (mailboxes_at w t) \<longleftrightarrow> st_mailbox (sessions_at w st) = Some t) \<and>
     (\<forall>st t. st_mailbox (sessions_at w st) = Some t \<longrightarrow>
        replay (st_updates (sessions_at w st)) (v st) = mt_numMessages (mailboxes_at w t)))"

definition tracker_init :: "trackers \<times> (nat \<Rightarrow> u32) \<Rightarrow> bool" where
  "tracker_init s \<longleftrightarrow>
     (\<forall>t. mt_sessions (mailboxes_at (fst s) t) = {}) \<and> (\<forall>st. st_mailbox (sessions_at (fst s) st) = None)"

lemma fold_queueUpdate:
  "distinct xs \<Longrightarrow>
   mailboxes_at (fold (\<lambda>st. queueUpdate st u) xs w) = mailboxes_at w \<and>
   sessions_at (fold (\<lambda>st. queueUpdate st u) xs w) st =
     (if st \<in> set xs then (sessions_at w st)\<lparr>st_updates := st_updates (sessions_at w st) @ [u]\<rparr> else sessions_at w st)"
  by (induction xs arbitrary: w) (auto simp: queueUpdate_def upd_session_def)

lemma QueueUpdate_at:
  assumes "orders it" "finite (mt_sessions (mailboxes_at w t))"
  shows "mailboxes_at (QueueUpdate it t u w) = mailboxes_at w"
    and "sessions_at (QueueUpdate it t u w) st =
      (if st \<in> mt_sessions (mailboxes_at w t)
       then (sessions_at w st)\<lparr>st_updates := st_updates (sessions_at w st) @ [u]\<rparr> else sessions_at w st)"
  using assms fold_queueUpdate [of "it (mt_sessions (mailboxes_at w t))" u w]
  by (simp_all add: QueueUpdate_def orders_def)

lemma replay_snoc: "replay (us @ [u]) n = client_count u (replay us n)"
  by (simp add: replay_def)

lemma inv_QueueUpdate:
  assumes "orders it" "tracker_inv (w, v)"
    and f: "mt_sessions (f (mailboxes_at w t)) = mt_sessions (mailboxes_at w t)"
      "mt_numMessages (f (mailboxes_at w t)) = client_count u (mt_numMessages (mailboxes_at w t))"
  shows "tracker_inv (QueueUpdate it t u (upd_mailbox t f w), v)"
proof -
  let ?w = "upd_mailbox t f w"
  have m: "mailboxes_at ?w x = (if x = t then f (mailboxes_at w t) else mailboxes_at w x)"
    and s: "sessions_at ?w = sessions_at w" for x by (simp_all add: upd_mailbox_def)
  have fin: "finite (mt_sessions (mailboxes_at ?w t))"
    using assms(2) by (simp add: m f tracker_inv_def)
  show ?thesis using assms(2)
    by (auto simp: tracker_inv_def QueueUpdate_at [OF assms(1) fin] m s f replay_snoc)
qed

lemma inv_leave:
  assumes "tracker_inv (w, v)"
  shows "tracker_inv (Tracker_Unselect st w, v)"
  using assms
  by (auto simp: Tracker_Unselect_def tracker_inv_def upd_session_def leave_mailbox_def removeSession_def
      upd_mailbox_def split: option.split)

lemma Tracker_Select_leave:
  "Tracker_Select st (Some t) w =
     addSession t st (upd_session st (\<lambda>s. s\<lparr>st_mailbox := Some t, st_updates := []\<rparr>) (Tracker_Unselect st w))"
  by (simp add: Tracker_Select_def Tracker_Unselect_def upd_session_def Let_def)

lemma Tracker_Unselect_at:
  "st_mailbox (sessions_at (Tracker_Unselect st w) st) = None"
  "mt_numMessages (mailboxes_at (Tracker_Unselect st w) t) = mt_numMessages (mailboxes_at w t)"
  by (simp_all add: Tracker_Unselect_def upd_session_def leave_mailbox_def removeSession_def upd_mailbox_def
      split: option.split)

lemma inv_select:
  assumes "tracker_inv (w, v)"
  shows "tracker_inv (Tracker_Select st (Some t) w, v(st := mt_numMessages (mailboxes_at w t)))"
  using inv_leave [OF assms, of st] Tracker_Unselect_at [of st w]
  unfolding Tracker_Select_leave
  by (auto simp: tracker_inv_def addSession_def upd_mailbox_def upd_session_def replay_def)

lemma upd_mailbox_same: "upd_mailbox t (\<lambda>m. m) w = w"
  by (simp add: upd_mailbox_def)

lemma QueueNewMessage_num:
  "QueueNewMessage it t w =
     QueueUpdate it t (ExistsUpdate (mt_numMessages (mailboxes_at w t) + 1)) (upd_mailbox t inc_messages w)"
  by (simp add: QueueNewMessage_def Let_def upd_mailbox_def inc_messages_def)

lemma tracker_inv_step:
  assumes "orders it" "tracker_inv s" "tracker_step it s s'"
  shows "tracker_inv s'"
  using assms(3,2)
proof cases
  case (expunge w v t seqNum)
  then show ?thesis
    using assms(1,2) inv_QueueUpdate [where f = dec_messages and u = "ExpungeUpdate seqNum"]
    by (simp add: QueueExpunge_def dec_messages_def client_count_def)
next
  case (new_message w v t)
  then show ?thesis
    using assms(1,2) inv_QueueUpdate [where f = inc_messages and u = "ExistsUpdate (mt_numMessages (mailboxes_at w t) + 1)"]
    by (simp add: QueueNewMessage_num inc_messages_def client_count_def)
next
  case (flags w v t seqNum fs)
  then show ?thesis
    using assms(1,2) inv_QueueUpdate [where f = "\<lambda>m. m" and u = "FetchFlagsUpdate seqNum fs"]
    by (simp add: QueueFlagsUpdate_def upd_mailbox_same client_count_def)
next
  case (select_box w v st t)
  then show ?thesis using assms(2) inv_select by simp
next
  case (unselect w v st)
  then show ?thesis using assms(2) inv_leave by simp
next
  case (flush_all w v st)
  then show ?thesis using assms(2)
    by (auto simp: Flush_def tracker_inv_def upd_session_def replay_def)
qed

text \<open>The trackers as a transition system; the order of iteration is left open.\<close>

definition ordered_step :: "trackers \<times> (nat \<Rightarrow> u32) \<Rightarrow> trackers \<times> (nat \<Rightarrow> u32) \<Rightarrow> bool" where
  "ordered_step s s' \<longleftrightarrow> (\<exists>it. orders it \<and> tracker_step it s s')"

interpretation sync: transition_system tracker_init ordered_step tracker_inv
proof unfold_locales
  show "tracker_init s \<Longrightarrow> tracker_inv s" for s
    by (auto simp: tracker_init_def tracker_inv_def)
  show "tracker_inv s \<Longrightarrow> ordered_step s t \<Longrightarrow> tracker_inv t" for s t
    unfolding ordered_step_def using tracker_inv_step by blast
qed

text \<open>C22. The trackers keep every client's message count right as long as expunges are let
  through: after any sequence of new messages, expunges, flag changes, selections and flushes
  with \<open>allowExpunge\<close>, one more such flush sends a session exactly the updates that bring its
  client's count to the number of messages of the mailbox it has selected.\<close>

theorem flush_keeps_in_sync:
  assumes "tracker_init (w0, v0)" "steps ordered_step (w0, v0) (w, v)"
    and "st_mailbox (sessions_at w st) = Some t"
  shows "fst (Flush st True w) = concat (map (flush_update True) (st_updates (sessions_at w st))) \<and>
    replay (st_updates (sessions_at w st)) (v st) = mt_numMessages (mailboxes_at w t)"
  using sync.inv_reachable [OF assms(1,2)] assms(3) Flush_output [of st True w]
  by (simp add: tracker_inv_def sent_def)

lemma orders_sorted: "orders sorted_list_of_set"
  by (simp add: orders_def)

lemmas tracker_ops =
  upd_mailbox_def upd_session_def queueUpdate_def QueueUpdate_def QueueExpunge_def QueueNewMessage_def
  dec_messages_def inc_messages_def Tracker_Select_def leave_mailbox_def addSession_def removeSession_def Let_def

definition example_trackers :: trackers where
  "example_trackers = \<lparr>mailboxes_at = (\<lambda>t. NewMailboxTracker ''INBOX'' 3 1 4), sessions_at = (\<lambda>st. NewSessionTracker)\<rparr>"

theorem flush_keeps_in_sync_witness:
  "\<exists>w v. steps ordered_step (example_trackers, \<lambda>st. 0) (w, v) \<and> st_mailbox (sessions_at w 1) = Some 0 \<and>
     st_updates (sessions_at w 1) = [ExistsUpdate 4, ExpungeUpdate 2] \<and> mt_numMessages (mailboxes_at w 0) = 3 \<and>
     replay (st_updates (sessions_at w 1)) (v 1) = mt_numMessages (mailboxes_at w 0)"
proof -
  let ?it = "sorted_list_of_set :: nat set \<Rightarrow> nat list"
  let ?w1 = "Tracker_Select 1 (Some 0) example_trackers"
  let ?v1 = "(\<lambda>st. 0)(1 := mt_numMessages (mailboxes_at example_trackers 0))"
  let ?w2 = "QueueNewMessage ?it 0 ?w1"
  let ?w3 = "QueueExpunge ?it 0 2 ?w2"
  have step: "tracker_step ?it s s' \<Longrightarrow> ordered_step s s'" for s s'
    using orders_sorted unfolding ordered_step_def by blast
  have *: "steps ordered_step (example_trackers, \<lambda>st. 0) (?w3, ?v1)"
    by (rule steps_step, rule steps_step, rule steps_step, rule steps_refl)
      (rule step, rule select_box, rule step, rule new_message, rule step, rule expunge)
  have **: "st_mailbox (sessions_at ?w3 1) = Some 0"
    "st_updates (sessions_at ?w3 1) = [ExistsUpdate 4, ExpungeUpdate 2]" "mt_numMessages (mailboxes_at ?w3 0) = 3"
    by (simp_all add: tracker_ops example_trackers_def NewMailboxTracker_def NewSessionTracker_def)
  have "tracker_init (example_trackers, \<lambda>st. 0)"
    by (simp add: tracker_init_def example_trackers_def NewMailboxTracker_def NewSessionTracker_def)
  from flush_keeps_in_sync [OF this * **(1)] * ** show ?thesis by blast
qed

text \<open>C34. A flaw: a flush that may not send expunges drops them instead of keeping them. When
  an expunge is pending for a session whose client is up to date, \<open>Flush\<close> without
  \<open>allowExpunge\<close> leaves nothing pending and the client one message too many, so that no later
  flush can tell it.\<close>

theorem flush_loses_expunge:
  assumes "orders it" "tracker_inv (w, v)" "st_mailbox (sessions_at w st) = Some t"
    and "st_updates (sessions_at w st) = []" "mt_numMessages (mailboxes_at w t) > 0"
  shows "let w' = QueueExpunge it t seqNum w in
    fst (Flush st False w') = [] \<and> st_updates (sessions_at (snd (Flush st False w')) st) = [] \<and>
    v st = mt_numMessages (mailboxes_at (snd (Flush st False w')) t) + 1"
proof -
  let ?w = "upd_mailbox t dec_messages w"
  have m: "mt_sessions (mailboxes_at ?w t) = mt_sessions (mailboxes_at w t)"
    "mt_numMessages (mailboxes_at ?w t) = mt_numMessages (mailboxes_at w t) - 1" "sessions_at ?w = sessions_at w"
    using assms(5) by (simp_all add: upd_mailbox_def dec_messages_def)
  have fin: "finite (mt_sessions (mailboxes_at ?w t))" and mem: "st \<in> mt_sessions (mailboxes_at w t)"
    and "replay (st_updates (sessions_at w st)) (v st) = mt_numMessages (mailboxes_at w t)"
    using assms(2,3) by (auto simp: m tracker_inv_def)
  then have v: "v st = mt_numMessages (mailboxes_at w t)" using assms(4) by (simp add: replay_def)
  show ?thesis
    using assms(4) mem v m QueueUpdate_at [OF assms(1) fin]
    by (simp add: QueueExpunge_def Flush_def flush_update_def upd_session_def Let_def)
qed

theorem flush_loses_expunge_witness:
  "let w = Tracker_Select 1 (Some 0) example_trackers; w' = QueueExpunge sorted_list_of_set 0 2 w in
    fst (Flush 1 False w') = [] \<and> st_updates (sessions_at (snd (Flush 1 False w')) 1) = [] \<and>
    (3 :: u32) = mt_numMessages (mailboxes_at (snd (Flush 1 False w')) 0) + 1"
proof -
  let ?w = "Tracker_Select 1 (Some 0) example_trackers"
  have "tracker_inv (example_trackers, \<lambda>st. 3)"
    by (simp add: tracker_inv_def example_trackers_def NewMailboxTracker_def NewSessionTracker_def)
  from inv_select [OF this, of 1 0] have "tracker_inv (?w, \<lambda>st. 3)"
    by (simp add: example_trackers_def NewMailboxTracker_def fun_upd_def)
  moreover have "st_mailbox (sessions_at ?w 1) = Some 0" "st_updates (sessions_at ?w 1) = []"
    "mt_numMessages (mailboxes_at ?w 0) > 0"
    by (simp_all add: tracker_ops example_trackers_def NewMailboxTracker_def NewSessionTracker_def)
  ultimately show ?thesis
    using flush_loses_expunge [OF orders_sorted, of ?w "\<lambda>st. 3" 1 0 2] by (simp only: Let_def)
qed

section \<open>Locks and interleavings\<close>

datatype lock = MailboxMu nat | SessionMu nat

text \<open>A method as the sequence of its lock operations and of what it does between them.
  \<open>Get\<close> continues with what it reads.\<close>

datatype prog =
    Return
  | Lock lock prog
  | Unlock lock prog
  | RLock lock prog
  | RUnlock lock prog
  | Exec "trackers \<Rightarrow> trackers" prog
  | Get "trackers \<Rightarrow> prog"

definition QueueUpdate_prog :: "(nat set \<Rightarrow> nat list) \<Rightarrow> nat \<Rightarrow> update \<Rightarrow> prog" where
  "QueueUpdate_prog it t u =
     RLock (MailboxMu t)
       (Get (\<lambda>w. foldr (\<lambda>st k. Lock (SessionMu st) (Exec (queueUpdate st u) (Unlock (SessionMu st) k)))
                   (it (mt_sessions (mailboxes_at w t))) (RUnlock (MailboxMu t) Return)))"

definition QueueExpunge_prog :: "(nat set \<Rightarrow> nat list) \<Rightarrow> nat \<Rightarrow> u32 \<Rightarrow> prog" where
  "QueueExpunge_prog it t seqNum =
     Lock (MailboxMu t) (Exec (upd_mailbox t dec_messages)
       (Unlock (MailboxMu t) (QueueUpdate_prog it t (ExpungeUpdate seqNum))))"

definition QueueNewMessage_prog :: "(nat set \<Rightarrow> nat list) \<Rightarrow> nat \<Rightarrow> prog" where
  "QueueNewMessage_prog it t =
     Lock (MailboxMu t) (Exec (upd_mailbox t inc_messages)
       (Get (\<lambda>w. let num = mt_numMessages (mailboxes_at w t)
                  in Unlock (MailboxMu t) (QueueUpdate_prog it t (ExistsUpdate num)))))"

definition leave_prog :: "nat \<Rightarrow> prog \<Rightarrow> prog" where
  "leave_prog st k =
     Get (\<lambda>w. case st_mailbox (sessions_at w st) of
                 None \<Rightarrow> k
               | Some t \<Rightarrow> Lock (MailboxMu t) (Exec (removeSession t st) (Unlock (MailboxMu t) k)))"

definition Select_prog :: "nat \<Rightarrow> nat option \<Rightarrow> prog" where
  "Select_prog st mbox =
     Lock (SessionMu st) (leave_prog st
       (Exec (upd_session st (\<lambda>s. s\<lparr>st_mailbox := mbox, st_updates := []\<rparr>))
         (Unlock (SessionMu st)
           (case mbox of
              None \<Rightarrow> Return
            | Some t \<Rightarrow> Lock (MailboxMu t) (Exec (addSession t st) (Unlock (MailboxMu t) Return))))))"

definition Unselect_prog :: "nat \<Rightarrow> prog" where
  "Unselect_prog st =
     Lock (SessionMu st) (leave_prog st
       (Exec (upd_session st (\<lambda>s. s\<lparr>st_mailbox := None, st_updates := []\<rparr>)) (Unlock (SessionMu st) Return)))"

text \<open>The locks: who writes and how many read.\<close>

record locks =
  held :: "lock set"
  readers :: "lock \<Rightarrow> nat"

definition free_locks :: locks where
  "free_locks = \<lparr>held = {}, readers = (\<lambda>l. 0)\<rparr>"

inductive thread_step :: "locks \<times> trackers \<times> prog \<Rightarrow> locks \<times> trackers \<times> prog \<Rightarrow> bool" where
  lock: "l \<notin> held ls \<Longrightarrow> readers ls l = 0 \<Longrightarrow> thread_step (ls, w, Lock l p) (ls\<lparr>held := insert l (held ls)\<rparr>, w, p)"
| unlock: "thread_step (ls, w, Unlock l p) (ls\<lparr>held := held ls - {l}\<rparr>, w, p)"
| rlock: "l \<notin> held ls \<Longrightarrow> thread_step (ls, w, RLock l p) (ls\<lparr>readers := (readers ls)(l := readers ls l + 1)\<rparr>, w, p)"
| runlock: "thread_step (ls, w, RUnlock l p) (ls\<lparr>readers := (readers ls)(l := readers ls l - 1)\<rparr>, w, p)"
| exec: "thread_step (ls, w, Exec f p) (ls, f w, p)"
| get: "thread_step (ls, w, Get g) (ls, w, g w)"

inductive_simps thread_step_simps:
  "thread_step (ls, w, Return) s" "thread_step (ls, w, Lock l p) s" "thread_step (ls, w, RLock l p) s"

inductive threads_step :: "locks \<times> trackers \<times> prog list \<Rightarrow> locks \<times> trackers \<times> prog list \<Rightarrow> bool" where
  thread: "i < length ps \<Longrightarrow> thread_step (ls, w, ps ! i) (ls', w', p') \<Longrightarrow> threads_step (ls, w, ps) (ls', w', ps[i := p'])"

lemma steps_chain [trans]: "steps r s t \<Longrightarrow> steps r t u \<Longrightarrow> steps r s u"
  by (rule steps_trans)

lemmas thread_one = steps_one [where r = thread_step]
lemmas thread_snoc = steps_step [where r = thread_step]

lemma critical_section:
  assumes "l \<notin> held ls" "readers ls l = 0"
  shows "steps thread_step (ls, w, Lock l (Exec f (Unlock l k))) (ls, f w, k)"
proof -
  have "ls\<lparr>held := insert l (held ls) - {l}\<rparr> = ls" using assms(1) by (cases ls) simp
  then show ?thesis
    using thread_step.lock [OF assms, of w "Exec f (Unlock l k)"]
      thread_step.exec [of "ls\<lparr>held := insert l (held ls)\<rparr>" w f "Unlock l k"]
      thread_step.unlock [of "ls\<lparr>held := insert l (held ls)\<rparr>" "f w" l k]
    by (auto intro: thread_snoc [OF thread_snoc [OF thread_one]])
qed

lemma queue_sessions:
  assumes "\<forall>st \<in> set xs. SessionMu st \<notin> held ls \<and> readers ls (SessionMu st) = 0"
  shows "steps thread_step
    (ls, w, foldr (\<lambda>st k. Lock (SessionMu st) (Exec (queueUpdate st u) (Unlock (SessionMu st) k))) xs k)
    (ls, fold (\<lambda>st. queueUpdate st u) xs w, k)"
  using assms
proof (induction xs arbitrary: w)
  case (Cons x xs)
  then show ?case using steps_chain [OF critical_section Cons.IH] by simp
qed simp

lemma QueueUpdate_start:
  assumes "MailboxMu t \<notin> held ls"
  shows "steps thread_step (ls, w, QueueUpdate_prog it t u)
    (ls\<lparr>readers := (readers ls)(MailboxMu t := readers ls (MailboxMu t) + 1)\<rparr>, w,
     foldr (\<lambda>st k. Lock (SessionMu st) (Exec (queueUpdate st u) (Unlock (SessionMu st) k)))
       (it (mt_sessions (mailboxes_at w t))) (RUnlock (MailboxMu t) Return))"
  unfolding QueueUpdate_prog_def
  by (rule thread_snoc, rule thread_one, rule thread_step.rlock [OF assms], rule thread_step.get)

lemma QueueUpdate_alone: "steps thread_step (free_locks, w, QueueUpdate_prog it t u) (free_locks, QueueUpdate it t u w, Return)"
proof -
  let ?ls = "free_locks\<lparr>readers := (readers free_locks)(MailboxMu t := readers free_locks (MailboxMu t) + 1)\<rparr>"
  let ?xs = "it (mt_sessions (mailboxes_at w t))"
  have "steps thread_step (free_locks, w, QueueUpdate_prog it t u) (?ls, w,
     foldr (\<lambda>st k. Lock (SessionMu st) (Exec (queueUpdate st u) (Unlock (SessionMu st) k))) ?xs (RUnlock (MailboxMu t) Return))"
    by (rule QueueUpdate_start) (simp add: free_locks_def)
  also have "steps thread_step \<dots> (?ls, QueueUpdate it t u w, RUnlock (MailboxMu t) Return)"
    unfolding QueueUpdate_def by (rule queue_sessions) (simp add: free_locks_def)
  also have "steps thread_step \<dots> (free_locks, QueueUpdate it t u w, Return)"
    using thread_one [OF thread_step.runlock [of ?ls "QueueUpdate it t u w" "MailboxMu t" Return]]
    by (simp add: free_locks_def fun_upd_idem)
  finally show ?thesis .
qed

lemma QueueExpunge_alone:
  "steps thread_step (free_locks, w, QueueExpunge_prog it t n) (free_locks, QueueExpunge it t n w, Return)"
  unfolding QueueExpunge_prog_def QueueExpunge_def
  by (rule steps_chain [OF critical_section QueueUpdate_alone]) (simp_all add: free_locks_def)

lemma QueueNewMessage_start:
  assumes "MailboxMu t \<notin> held ls" "readers ls (MailboxMu t) = 0"
  shows "steps thread_step (ls, w, QueueNewMessage_prog it t)
    (ls, upd_mailbox t inc_messages w, QueueUpdate_prog it t (ExistsUpdate (mt_numMessages (mailboxes_at w t) + 1)))"
proof -
  let ?ls = "ls\<lparr>held := insert (MailboxMu t) (held ls)\<rparr>" and ?w = "upd_mailbox t inc_messages w"
  let ?q = "QueueUpdate_prog it t (ExistsUpdate (mt_numMessages (mailboxes_at w t) + 1))"
  have "?ls\<lparr>held := held ?ls - {MailboxMu t}\<rparr> = ls" using assms(1) by (cases ls) simp
  then have "thread_step (?ls, ?w, Unlock (MailboxMu t) ?q) (ls, ?w, ?q)"
    using thread_step.unlock [of ?ls ?w "MailboxMu t" ?q] by simp
  moreover have "mt_numMessages (mailboxes_at ?w t) = mt_numMessages (mailboxes_at w t) + 1"
    by (simp add: upd_mailbox_def inc_messages_def)
  ultimately show ?thesis
    unfolding QueueNewMessage_prog_def Let_def
    using assms by - (rule thread_snoc, rule thread_snoc, rule thread_snoc, rule thread_one,
      rule thread_step.lock, assumption, assumption, rule thread_step.exec, rule thread_step.get, simp)
qed

lemma QueueNewMessage_alone:
  "steps thread_step (free_locks, w, QueueNewMessage_prog it t) (free_locks, QueueNewMessage it t w, Return)"
  unfolding QueueNewMessage_num
  by (rule steps_chain [OF QueueNewMessage_start QueueUpdate_alone]) (simp_all add: free_locks_def)

lemma leave_alone:
  assumes "\<forall>t. MailboxMu t \<notin> held ls \<and> readers ls (MailboxMu t) = 0"
  shows "steps thread_step (ls, w, leave_prog st k) (ls, leave_mailbox st w, k)"
proof (cases "st_mailbox (sessions_at w st)")
  case None
  then have "thread_step (ls, w, leave_prog st k) (ls, w, k)"
    unfolding leave_prog_def by (metis (no_types, lifting) thread_step.get option.simps(4))
  then show ?thesis using None by (simp add: leave_mailbox_def thread_one)
next
  case (Some t)
  have "steps thread_step (ls, w, leave_prog st k)
      (ls, w, Lock (MailboxMu t) (Exec (removeSession t st) (Unlock (MailboxMu t) k)))"
    unfolding leave_prog_def using Some by (metis (no_types, lifting) thread_one thread_step.get option.simps(5))
  also have "steps thread_step \<dots> (ls, removeSession t st w, k)"
    by (rule critical_section) (use assms in auto)
  finally show ?thesis by (simp add: leave_mailbox_def Some)
qed

lemma session_section:
  "steps thread_step
     (free_locks, w, Lock (SessionMu st) (leave_prog st (Exec f (Unlock (SessionMu st) k))))
     (free_locks, f (leave_mailbox st w), k)"
proof -
  let ?ls = "free_locks\<lparr>held := insert (SessionMu st) (held free_locks)\<rparr>"
  have "steps thread_step (free_locks, w, Lock (SessionMu st) (leave_prog st (Exec f (Unlock (SessionMu st) k))))
      (?ls, w, leave_prog st (Exec f (Unlock (SessionMu st) k)))"
    by (rule thread_one, rule thread_step.lock) (simp_all add: free_locks_def)
  also have "steps thread_step \<dots> (?ls, leave_mailbox st w, Exec f (Unlock (SessionMu st) k))"
    by (rule leave_alone) (simp add: free_locks_def)
  also have "steps thread_step \<dots> (free_locks, f (leave_mailbox st w), k)"
    using thread_snoc [OF thread_one [OF thread_step.exec [of ?ls "leave_mailbox st w" f]] thread_step.unlock [of ?ls _ "SessionMu st" k]]
    by (simp add: free_locks_def)
  finally show ?thesis .
qed

lemma Unselect_alone: "steps thread_step (free_locks, w, Unselect_prog st) (free_locks, Tracker_Unselect st w, Return)"
  unfolding Unselect_prog_def Tracker_Unselect_def by (rule session_section)

lemma Select_alone: "steps thread_step (free_locks, w, Select_prog st mbox) (free_locks, Tracker_Select st mbox w, Return)"
proof (cases mbox)
  case None
  then show ?thesis by (simp add: Select_prog_def Tracker_Select_def Let_def session_section)
next
  case (Some t)
  then show ?thesis
    unfolding Select_prog_def Tracker_Select_def Let_def
    by simp (rule steps_chain [OF session_section critical_section]; simp add: free_locks_def)
qed

lemma threads_lift:
  assumes "steps thread_step (ls, w, p) (ls', w', p')" "i < length ps"
  shows "steps threads_step (ls, w, ps[i := p]) (ls', w', ps[i := p'])"
  using assms
proof (induction "(ls, w, p)" "(ls', w', p')" arbitrary: ls' w' p' rule: steps.induct)
  case (steps_step s)
  obtain l1 w1 p1 where s: "s = (l1, w1, p1)" by (cases s)
  have "steps threads_step (ls, w, ps[i := p]) (l1, w1, ps[i := p1])"
    using steps_step s by blast
  moreover have "threads_step (l1, w1, ps[i := p1]) (ls', w', (ps[i := p1])[i := p'])"
    by (rule threads_step.thread) (use steps_step.hyps(3) steps_step.prems s in simp_all)
  ultimately show ?case using steps.steps_step [of threads_step] by (metis list_update_overwrite)
qed simp

lemma threads_stuck:
  assumes "\<forall>s. \<not> thread_step (ls, w, p) s" "\<forall>s. \<not> thread_step (ls, w, q) s"
  shows "\<not> threads_step (ls, w, [p, q]) s"
proof
  assume "threads_step (ls, w, [p, q]) s"
  then obtain i s' where "i < length [p, q]" "thread_step (ls, w, [p, q] ! i) s'"
    by (auto elim: threads_step.cases)
  then show False using assms by (cases i) auto
qed

lemma fold_queueUpdate_mailbox:
  "st_mailbox (sessions_at (fold (\<lambda>st. queueUpdate st u) xs w) st) = st_mailbox (sessions_at w st)"
  by (induction xs arbitrary: w) (auto simp: queueUpdate_def upd_session_def)

text \<open>C35. A flaw: \<open>Unselect\<close> takes the session's lock and then the mailbox's, \<open>QueueUpdate\<close>
  takes the mailbox's and then the session's. Whenever a session watches a mailbox, its
  \<open>Unselect\<close> running beside a \<open>QueueUpdate\<close> of that mailbox can reach a state in which both have
  work left and neither can take a step: the two deadlock.\<close>

theorem unselect_queue_deadlock:
  assumes "orders it" "finite (mt_sessions (mailboxes_at w t))" "st \<in> mt_sessions (mailboxes_at w t)"
    and "st_mailbox (sessions_at w st) = Some t"
  shows "\<exists>ls w' p q. steps threads_step (free_locks, w, [Unselect_prog st, QueueUpdate_prog it t u]) (ls, w', [p, q]) \<and>
    p \<noteq> Return \<and> q \<noteq> Return \<and> (\<forall>s. \<not> threads_step (ls, w', [p, q]) s)"
proof -
  obtain xs ys where xs: "it (mt_sessions (mailboxes_at w t)) = xs @ st # ys"
    using assms(1-3) by (metis orders_def split_list)
  let ?k = "RUnlock (MailboxMu t) Return"
  let ?f = "\<lambda>st k. Lock (SessionMu st) (Exec (queueUpdate st u) (Unlock (SessionMu st) k))"
  let ?q = "foldr ?f (st # ys) ?k"
  let ?r = "free_locks\<lparr>readers := (readers free_locks)(MailboxMu t := readers free_locks (MailboxMu t) + 1)\<rparr>"
  let ?w = "fold (\<lambda>st. queueUpdate st u) xs w"
  let ?kp = "Exec (upd_session st (\<lambda>s. s\<lparr>st_mailbox := None, st_updates := []\<rparr>)) (Unlock (SessionMu st) Return)"
  let ?p = "Lock (MailboxMu t) (Exec (removeSession t st) (Unlock (MailboxMu t) ?kp))"
  let ?h = "?r\<lparr>held := insert (SessionMu st) (held ?r)\<rparr>"
  have "steps thread_step (free_locks, w, QueueUpdate_prog it t u) (?r, w, foldr ?f xs ?q)"
    using QueueUpdate_start [of t free_locks w it u] by (simp add: xs free_locks_def)
  also have "steps thread_step \<dots> (?r, ?w, ?q)"
    by (rule queue_sessions) (simp add: free_locks_def)
  finally have "steps threads_step (free_locks, w, [Unselect_prog st, QueueUpdate_prog it t u]) (?r, ?w, [Unselect_prog st, ?q])"
    using threads_lift [of _ _ _ _ _ _ 1 "[Unselect_prog st, Return]"] by fastforce
  moreover have "steps thread_step (?r, ?w, Unselect_prog st) (?h, ?w, leave_prog st ?kp)"
    unfolding Unselect_prog_def by (rule thread_one, rule thread_step.lock) (simp_all add: free_locks_def)
  then have "steps thread_step (?r, ?w, Unselect_prog st) (?h, ?w, ?p)"
    using thread_snoc thread_step.get assms(4) fold_queueUpdate_mailbox unfolding leave_prog_def
    by (metis (no_types, lifting) option.simps(5))
  then have "steps threads_step (?r, ?w, [Unselect_prog st, ?q]) (?h, ?w, [?p, ?q])"
    using threads_lift [of _ _ _ _ _ _ 0 "[Return, ?q]"] by fastforce
  ultimately have "steps threads_step (free_locks, w, [Unselect_prog st, QueueUpdate_prog it t u]) (?h, ?w, [?p, ?q])"
    by (rule steps_chain)
  moreover have "\<forall>s. \<not> threads_step (?h, ?w, [?p, ?q]) s"
    by (rule allI, rule threads_stuck) (simp_all add: thread_step_simps free_locks_def)
  moreover have "?q \<noteq> Return" by simp
  ultimately show ?thesis by blast
qed

theorem unselect_queue_deadlock_witness:
  "\<exists>ls w' p q. steps threads_step
      (free_locks, Tracker_Select 1 (Some 0) example_trackers, [Unselect_prog 1, QueueUpdate_prog sorted_list_of_set 0 (ExistsUpdate 4)])
      (ls, w', [p, q]) \<and> p \<noteq> Return \<and> q \<noteq> Return \<and> (\<forall>s. \<not> threads_step (ls, w', [p, q]) s)"
  by (rule unselect_queue_deadlock [OF orders_sorted])
    (simp_all add: tracker_ops example_trackers_def NewMailboxTracker_def NewSessionTracker_def)

text \<open>A flaw: \<open>QueueNewMessage\<close> counts and queues under two separate locks. Two of them
  running together can both return with the count grown by two and every session that watches the
  mailbox told the larger count first and the smaller one last, so that its client ends one
  message short.\<close>

theorem new_messages_out_of_order:
  assumes "orders it" "finite (mt_sessions (mailboxes_at w t))" "st \<in> mt_sessions (mailboxes_at w t)"
  shows "\<exists>w'. steps threads_step (free_locks, w, [QueueNewMessage_prog it t, QueueNewMessage_prog it t])
      (free_locks, w', [Return, Return]) \<and>
    mt_numMessages (mailboxes_at w' t) = mt_numMessages (mailboxes_at w t) + 2 \<and>
    st_updates (sessions_at w' st) = st_updates (sessions_at w st) @
      [ExistsUpdate (mt_numMessages (mailboxes_at w t) + 2), ExistsUpdate (mt_numMessages (mailboxes_at w t) + 1)]"
proof -
  let ?n = "mt_numMessages (mailboxes_at w t)"
  let ?w1 = "upd_mailbox t inc_messages w"
  let ?w2 = "upd_mailbox t inc_messages ?w1"
  let ?w3 = "QueueUpdate it t (ExistsUpdate (?n + 2)) ?w2"
  let ?w4 = "QueueUpdate it t (ExistsUpdate (?n + 1)) ?w3"
  let ?p = "QueueNewMessage_prog it t" and ?q1 = "QueueUpdate_prog it t (ExistsUpdate (?n + 1))"
    and ?q2 = "QueueUpdate_prog it t (ExistsUpdate (?n + 2))"
  have s: "mt_sessions (mailboxes_at ?w2 t) = mt_sessions (mailboxes_at w t)" "sessions_at ?w2 = sessions_at w"
    "mt_numMessages (mailboxes_at ?w1 t) + 1 = ?n + 2" "mt_numMessages (mailboxes_at ?w2 t) = ?n + 2"
    by (simp_all add: upd_mailbox_def inc_messages_def)
  have 1: "steps thread_step (free_locks, w, ?p) (free_locks, ?w1, ?q1)"
    by (rule QueueNewMessage_start) (simp_all add: free_locks_def)
  have 2: "steps thread_step (free_locks, ?w1, ?p) (free_locks, ?w2, ?q2)"
    using QueueNewMessage_start [of t free_locks ?w1 it] by (simp only: s) (simp add: free_locks_def)
  have 3: "steps thread_step (free_locks, ?w2, ?q2) (free_locks, ?w3, Return)" by (rule QueueUpdate_alone)
  have 4: "steps thread_step (free_locks, ?w3, ?q1) (free_locks, ?w4, Return)" by (rule QueueUpdate_alone)
  have "steps threads_step (free_locks, w, [?p, ?p]) (free_locks, ?w1, [?q1, ?p])"
    using threads_lift [OF 1, of 0 "[Return, ?p]"] by simp
  also have "steps threads_step \<dots> (free_locks, ?w2, [?q1, ?q2])"
    using threads_lift [OF 2, of 1 "[?q1, Return]"] by simp
  also have "steps threads_step \<dots> (free_locks, ?w3, [?q1, Return])"
    using threads_lift [OF 3, of 1 "[?q1, Return]"] by simp
  also have "steps threads_step \<dots> (free_locks, ?w4, [Return, Return])"
    using threads_lift [OF 4, of 0 "[Return, Return]"] by simp
  finally have "steps threads_step (free_locks, w, [?p, ?p]) (free_locks, ?w4, [Return, Return])" .
  moreover have fin2: "finite (mt_sessions (mailboxes_at ?w2 t))" using assms(2) by (simp add: s)
  have w3: "mailboxes_at ?w3 = mailboxes_at ?w2" by (rule QueueUpdate_at(1) [OF assms(1) fin2])
  have fin3: "finite (mt_sessions (mailboxes_at ?w3 t))" using assms(2) by (simp add: w3 s)
  have "mt_numMessages (mailboxes_at ?w4 t) = ?n + 2"
    by (simp add: QueueUpdate_at(1) [OF assms(1) fin3] w3 s)
  moreover have "st_updates (sessions_at ?w4 st) = st_updates (sessions_at w st) @ [ExistsUpdate (?n + 2), ExistsUpdate (?n + 1)]"
    using assms(3) by (simp add: QueueUpdate_at(2) [OF assms(1) fin3] QueueUpdate_at(2) [OF assms(1) fin2] w3 s)
  ultimately show ?thesis by blast
qed

theorem new_messages_out_of_order_witness:
  "\<exists>w'. steps threads_step
      (free_locks, Tracker_Select 1 (Some 0) example_trackers,
       [QueueNewMessage_prog sorted_list_of_set 0, QueueNewMessage_prog sorted_list_of_set 0])
      (free_locks, w', [Return, Return]) \<and>
    mt_numMessages (mailboxes_at w' 0) = 5 \<and> st_updates (sessions_at w' 1) = [ExistsUpdate 5, ExistsUpdate 4]"
proof -
  let ?w = "Tracker_Select 1 (Some 0) example_trackers"
  have *: "mt_sessions (mailboxes_at ?w 0) = {1}" "mt_numMessages (mailboxes_at ?w 0) = 3" "st_updates (sessions_at ?w 1) = []"
    by (simp_all add: tracker_ops example_trackers_def NewMailboxTracker_def NewSessionTracker_def)
  then show ?thesis
    using new_messages_out_of_order [OF orders_sorted, of ?w 0 1] by simp
qed

end
