(* ===== verification/CapSet.thy ===== *)
theory CapSet
  imports Prelude
begin

text \<open>
  Capability sets (\<open>CapSet\<close> of \<open>capability.go\<close>) and status responses as errors
  (\<open>response.go\<close>). The map from capabilities to \<open>true\<close> is the set of its keys; where the code
  ranges over it, the order of the iteration is an argument.
\<close>

section \<open>Capabilities\<close>

type_synonym cap = string
type_synonym cap_set = "cap set"

definition NewCapSet :: "cap list \<Rightarrow> cap_set" where
  "NewCapSet caps = foldl (\<lambda>cs c. insert c cs) {} caps"

definition Has :: "cap_set \<Rightarrow> cap \<Rightarrow> bool" where
  "Has cs c \<longleftrightarrow> c \<in> cs"

definition Add :: "cap_set \<Rightarrow> cap list \<Rightarrow> cap_set" where
  "Add cs caps = foldl (\<lambda>cs c. insert c cs) cs caps"

definition Remove :: "cap_set \<Rightarrow> cap list \<Rightarrow> cap_set" where
  "Remove cs caps = foldl (\<lambda>cs c. cs - {c}) cs caps"

definition All :: "(cap set \<Rightarrow> cap list) \<Rightarrow> cap_set \<Rightarrow> cap list" where
  "All order cs = order cs"

definition CapSet_Len :: "cap_set \<Rightarrow> nat" where
  "CapSet_Len cs = card cs"

definition CapSet_String :: "(cap set \<Rightarrow> cap list) \<Rightarrow> cap_set \<Rightarrow> string" where
  "CapSet_String order cs = join '' '' (All order cs)"

definition Clone :: "cap_set \<Rightarrow> cap_set" where
  "Clone cs = {c. c \<in> cs}"

definition HasAuth :: "cap_set \<Rightarrow> string \<Rightarrow> bool" where
  "HasAuth cs mechanism = Has cs (''AUTH='' @ ToUpper mechanism)"

lemma NewCapSet_set [simp]: "NewCapSet caps = set caps"
proof -
  have "foldl (\<lambda>cs c. insert c cs) A caps = A \<union> set caps" for A
    by (induction caps arbitrary: A) auto
  then show ?thesis by (simp add: NewCapSet_def)
qed

lemma Add_set [simp]: "Add cs caps = cs \<union> set caps"
  by (induction caps arbitrary: cs) (auto simp: Add_def)

lemma Remove_set [simp]: "Remove cs caps = cs - set caps"
  by (induction caps arbitrary: cs) (auto simp: Remove_def)

lemma Clone_same [simp]: "Clone cs = cs"
  by (simp add: Clone_def)

section \<open>Status responses\<close>

datatype status_type = OK | NO | BAD | BYE | PREAUTH

primrec status_name :: "status_type \<Rightarrow> string" where
  "status_name OK = ''OK''"
| "status_name NO = ''NO''"
| "status_name BAD = ''BAD''"
| "status_name BYE = ''BYE''"
| "status_name PREAUTH = ''PREAUTH''"

text \<open>\<open>CodeArg\<close> is what \<open>fmt.Fprint\<close> prints of it, \<open>None\<close> when it is nil.\<close>

record status_response =
  sr_Type :: status_type
  sr_Code :: string
  sr_CodeArg :: "string option"
  sr_Text :: string

definition StatusResponse_Error :: "status_response \<Rightarrow> string" where
  "StatusResponse_Error r =
     status_name (sr_Type r) @
     (if sr_Code r \<noteq> []
      then '' ['' @ sr_Code r @ (case sr_CodeArg r of None \<Rightarrow> [] | Some a \<Rightarrow> '' '' @ a) @ '']'' else []) @
     (if sr_Text r \<noteq> [] then '' '' @ sr_Text r else [])"

text \<open>An error as the dispatcher sees it: a \<open>*imap.IMAPError\<close>, or one of any other type.\<close>

datatype go_error = IMAPErr status_response | OtherErr string

definition ErrNo :: "string \<Rightarrow> go_error" where
  "ErrNo text = IMAPErr \<lparr>sr_Type = NO, sr_Code = [], sr_CodeArg = None, sr_Text = text\<rparr>"

definition ErrNoWithCode :: "string \<Rightarrow> string \<Rightarrow> go_error" where
  "ErrNoWithCode code text = IMAPErr \<lparr>sr_Type = NO, sr_Code = code, sr_CodeArg = None, sr_Text = text\<rparr>"

definition ErrBadWithCode :: "string \<Rightarrow> string \<Rightarrow> go_error" where
  "ErrBadWithCode code text = IMAPErr \<lparr>sr_Type = BAD, sr_Code = code, sr_CodeArg = None, sr_Text = text\<rparr>"

definition ErrBad :: "string \<Rightarrow> go_error" where
  "ErrBad text = IMAPErr \<lparr>sr_Type = BAD, sr_Code = [], sr_CodeArg = None, sr_Text = text\<rparr>"

definition ErrBye :: "string \<Rightarrow> go_error" where
  "ErrBye text = IMAPErr \<lparr>sr_Type = BYE, sr_Code = [], sr_CodeArg = None, sr_Text = text\<rparr>"

definition go_error_text :: "go_error \<Rightarrow> string" where
  "go_error_text e = (case e of IMAPErr r \<Rightarrow> StatusResponse_Error r | OtherErr t \<Rightarrow> t)"

text \<open>An error that ends the connection.\<close>

definition is_bye :: "go_error \<Rightarrow> bool" where
  "is_bye e \<longleftrightarrow> (case e of IMAPErr r \<Rightarrow> sr_Type r = BYE | OtherErr _ \<Rightarrow> False)"

lemma not_bye [simp]:
  "\<not> is_bye (ErrNo t)" "\<not> is_bye (ErrBad t)" "\<not> is_bye (OtherErr t)" "\<not> is_bye (ErrNoWithCode k t)"
  "\<not> is_bye (ErrBadWithCode k t)" "is_bye (ErrBye t)"
  by (simp_all add: is_bye_def ErrNo_def ErrBad_def ErrNoWithCode_def ErrBadWithCode_def ErrBye_def)

end
