(* ===== verification/Server.thy ===== *)
theory Server
  imports CapSet ConnState Types WireCodec
begin

text \<open>
  The server core: connections (\<open>server/conn.go\<close>), the dispatcher (\<open>server/dispatch.go\<close>), the
  handler interface (\<open>server/handler.go\<close>), the options a handler reads (\<open>server/options.go\<close>) and
  the life of a connection (\<open>server/server.go\<close>).

  A connection is a record of what is left to read from the client, the responses written so
  far, one for each call of the encoder, and the fields of \<open>Conn\<close>. The backend's session is a
  value of type \<open>'b\<close> that only the backend looks into. A handler returns with an error or
  without, panics, or never returns.
\<close>

section \<open>Connections\<close>

record 'b conn =
  c_input :: string
  c_output :: "string list"
  c_session :: "'b option"
  c_machine :: "(unit, unit) machine"
  c_enabled :: cap_set
  c_isTLS :: bool
  c_mailbox :: string
  c_readOnly :: bool
  c_closed :: bool

datatype 'b result = Finished "go_error option" "'b conn" | Crashed panic | Hangs

text \<open>The options of the server that reach the handlers. What the environment decides is here
  too: the order in which a map is iterated, the text that \<open>fmt\<close> gives an error, \<open>time.Parse\<close>,
  the clock, and the TLS handshake, which fails or yields the stream to read from then on.\<close>

datatype parse_error =
    WireError wire_error
  | NumSetError numset_error
  | DateError string string
  | LiteralExpected string
  | LiteralSize string

record options =
  o_Caps :: cap_set
  o_TLSConfig :: bool
  o_GreetingText :: string
  o_AllowInsecureAuth :: bool
  o_EnableStartTLS :: bool
  o_order :: "cap set \<Rightarrow> cap list"
  o_error_text :: "parse_error \<Rightarrow> string"
  o_parse_time :: "string \<Rightarrow> string \<Rightarrow> time option"
  o_handshake :: "string \<Rightarrow> string option"

definition newConn :: "string \<Rightarrow> bool \<Rightarrow> 'b conn" where
  "newConn inp isTLS =
     \<lparr>c_input = inp, c_output = [], c_session = None, c_machine = New NotAuthenticated, c_enabled = NewCapSet [],
      c_isTLS = isTLS, c_mailbox = [], c_readOnly = False, c_closed = False\<rparr>"

definition Conn_State :: "'b conn \<Rightarrow> conn_state" where
  "Conn_State c = State (c_machine c)"

definition Conn_SetState :: "conn_state \<Rightarrow> 'b conn \<Rightarrow> unit transition_error option \<times> 'b conn" where
  "Conn_SetState s c = (case Transition (c_machine c) s () of (e, m, _) \<Rightarrow> (e, c\<lparr>c_machine := m\<rparr>))"

definition SetMailbox :: "string \<Rightarrow> bool \<Rightarrow> 'b conn \<Rightarrow> 'b conn" where
  "SetMailbox name readOnly c = c\<lparr>c_mailbox := name, c_readOnly := readOnly\<rparr>"

text \<open>One call of the response encoder.\<close>

definition emit :: "string \<Rightarrow> 'b conn \<Rightarrow> 'b conn" where
  "emit s c = c\<lparr>c_output := c_output c @ [s]\<rparr>"

definition WriteOK :: "string \<Rightarrow> string \<Rightarrow> 'b conn \<Rightarrow> 'b conn" where
  "WriteOK tag text = emit (enc_StatusResponse tag ''OK'' [] text)"

definition WriteOKCode :: "string \<Rightarrow> string \<Rightarrow> string \<Rightarrow> 'b conn \<Rightarrow> 'b conn" where
  "WriteOKCode tag code text = emit (enc_StatusResponse tag ''OK'' code text)"

definition WriteNO :: "string \<Rightarrow> string \<Rightarrow> 'b conn \<Rightarrow> 'b conn" where
  "WriteNO tag text = emit (enc_StatusResponse tag ''NO'' [] text)"

definition WriteBAD :: "string \<Rightarrow> string \<Rightarrow> 'b conn \<Rightarrow> 'b conn" where
  "WriteBAD tag text = emit (enc_StatusResponse tag ''BAD'' [] text)"

definition WriteBYE :: "string \<Rightarrow> 'b conn \<Rightarrow> 'b conn" where
  "WriteBYE text = emit (enc_StatusResponse ''*'' ''BYE'' [] text)"

definition WriteContinuation :: "string \<Rightarrow> 'b conn \<Rightarrow> 'b conn" where
  "WriteContinuation text = emit (enc_ContinuationRequest text)"

definition Capabilities :: "options \<Rightarrow> 'b conn \<Rightarrow> cap list" where
  "Capabilities opts c =
     (let caps = Clone (o_Caps opts);
          caps = (if o_EnableStartTLS opts \<and> \<not> c_isTLS c then Add caps [''STARTTLS''] else caps);
          caps = (if \<not> c_isTLS c \<and> \<not> o_AllowInsecureAuth opts then Add caps [''LOGINDISABLED''] else caps)
      in All (o_order opts) caps)"

definition WriteCapabilities :: "options \<Rightarrow> 'b conn \<Rightarrow> 'b conn" where
  "WriteCapabilities opts c =
     emit (enc_Star @ enc_Atom ''CAPABILITY'' @ concat (map (\<lambda>cap. enc_SP @ enc_Atom cap) (Capabilities opts c)) @ enc_CRLF) c"

definition writeGreeting :: "options \<Rightarrow> 'b conn \<Rightarrow> 'b conn" where
  "writeGreeting opts = emit (enc_StatusResponse ''*'' ''OK'' [] (o_GreetingText opts))"

text \<open>After the handshake decoder and encoder are made anew: nothing read before is kept.\<close>

definition UpgradeTLS :: "options \<Rightarrow> 'b conn \<Rightarrow> bool \<times> 'b conn" where
  "UpgradeTLS opts c =
     (case o_handshake opts (c_input c) of
        None \<Rightarrow> (False, c)
      | Some inp \<Rightarrow> (True, c\<lparr>c_input := inp, c_isTLS := True\<rparr>))"

definition Conn_Close :: "('b \<Rightarrow> 'b) \<Rightarrow> 'b conn \<Rightarrow> 'b conn" where
  "Conn_Close closeSession c =
     (if c_closed c then c else c\<lparr>c_closed := True, c_session := map_option closeSession (c_session c)\<rparr>)"

section \<open>Dispatch\<close>

record command_context =
  cx_Tag :: string
  cx_Name :: string
  cx_NumKind :: num_kind
  cx_Decoder :: "string option"

type_synonym 'b handler = "command_context \<Rightarrow> 'b conn \<Rightarrow> 'b result"
type_synonym 'b dispatcher = "string \<rightharpoonup> 'b handler"

definition NewDispatcher :: "'b dispatcher" where
  "NewDispatcher = Map.empty"

definition Dispatcher_Register :: "string \<Rightarrow> 'b handler \<Rightarrow> 'b dispatcher \<Rightarrow> 'b dispatcher" where
  "Dispatcher_Register name handler d = d(ToUpper name \<mapsto> handler)"

definition Dispatcher_Get :: "'b dispatcher \<Rightarrow> string \<Rightarrow> 'b handler option" where
  "Dispatcher_Get d name = d (ToUpper name)"

definition Wrap :: "string \<Rightarrow> ('h \<Rightarrow> 'h) \<Rightarrow> (string \<rightharpoonup> 'h) \<Rightarrow> (string \<rightharpoonup> 'h)" where
  "Wrap name wrapper d =
     (case d (ToUpper name) of None \<Rightarrow> d | Some h \<Rightarrow> d(ToUpper name \<mapsto> wrapper h))"

definition Dispatcher_Names :: "(string set \<Rightarrow> string list) \<Rightarrow> 'b dispatcher \<Rightarrow> string list" where
  "Dispatcher_Names order d = order (dom d)"

datatype line_error = EmptyCommand | MissingCommandName | EmptyTag | EmptyCommandName

primrec line_error_text :: "line_error \<Rightarrow> string" where
  "line_error_text EmptyCommand = ''empty command''"
| "line_error_text MissingCommandName = ''missing command name''"
| "line_error_text EmptyTag = ''empty tag''"
| "line_error_text EmptyCommandName = ''empty command name''"

definition parseLine :: "string \<Rightarrow> line_error + string \<times> string \<times> string" where
  "parseLine line =
     (if line = [] then Inl EmptyCommand
      else case IndexByte line SP of
             None \<Rightarrow> Inl MissingCommandName
           | Some i \<Rightarrow>
               (let tag = take i line;
                    remaining = drop (i + 1) line;
                    (name, rest) = (case IndexByte remaining SP of
                                      None \<Rightarrow> (remaining, [])
                                    | Some j \<Rightarrow> (take j remaining, drop (j + 1) remaining))
                in if tag = [] then Inl EmptyTag
                   else if name = [] then Inl EmptyCommandName
                   else Inr (tag, name, rest)))"

text \<open>\<open>strings.SplitN(rest, " ", 2)\<close>: the part before the first space and the part after it.\<close>

definition splitN2 :: "string \<Rightarrow> string \<times> string option" where
  "splitN2 s = (case IndexByte s SP of None \<Rightarrow> (s, None) | Some i \<Rightarrow> (take i s, Some (drop (i + 1) s)))"

text \<open>The command after the \<open>UID\<close> prefix is taken off; \<open>None\<close> when nothing follows it.\<close>

definition uid_prefix :: "string \<Rightarrow> string \<Rightarrow> (num_kind \<times> string \<times> string) option" where
  "uid_prefix upper rest =
     (if upper = ''UID''
      then (case splitN2 rest of
              (cmd, args) \<Rightarrow>
                if cmd = [] then None
                else Some (NumKindUID, ToUpper cmd, case args of None \<Rightarrow> [] | Some a \<Rightarrow> a))
      else Some (NumKindSeq, upper, rest))"

text \<open>What the dispatcher does with the result of a handler.\<close>

definition respond :: "string \<Rightarrow> 'b result \<Rightarrow> 'b result" where
  "respond tag r =
     (case r of
        Finished (Some (IMAPErr s)) c \<Rightarrow>
          (case sr_Type s of
             NO \<Rightarrow> Finished None (emit (enc_StatusResponse tag ''NO'' (sr_Code s) (sr_Text s)) c)
           | BAD \<Rightarrow> Finished None (emit (enc_StatusResponse tag ''BAD'' (sr_Code s) (sr_Text s)) c)
           | BYE \<Rightarrow> Finished (Some (OtherErr (''BYE: '' @ sr_Text s))) (WriteBYE (sr_Text s) c)
           | _ \<Rightarrow> Finished None (WriteNO tag (go_error_text (IMAPErr s)) c))
      | Finished (Some (OtherErr _)) c \<Rightarrow> Finished None (WriteNO tag ''internal server error'' c)
      | _ \<Rightarrow> r)"

definition require_error :: "conn_state \<Rightarrow> string" where
  "require_error s = ''imap: command not allowed in '' @ ConnState_String s @ '' state''"

definition dispatch :: "'b dispatcher \<Rightarrow> string \<Rightarrow> string \<Rightarrow> string \<Rightarrow> 'b conn \<Rightarrow> 'b result" where
  "dispatch d tag name rest c =
     (case uid_prefix (ToUpper name) rest of
        None \<Rightarrow> Finished None (WriteBAD tag ''missing command after UID'' c)
      | Some (numKind, upper, rest) \<Rightarrow>
          (let refused =
             (case CommandAllowedStates upper of
                None \<Rightarrow> (case Dispatcher_Get d upper of
                            None \<Rightarrow> Some (''unknown command '' @ upper)
                          | Some _ \<Rightarrow> None)
              | Some allowed \<Rightarrow> map_option require_error (RequireState (c_machine c) allowed))
           in case refused of
                Some text \<Rightarrow> Finished None (WriteBAD tag text c)
              | None \<Rightarrow>
                  (case Dispatcher_Get d upper of
                     None \<Rightarrow> Finished None (WriteBAD tag (''command '' @ upper @ '' not implemented'') c)
                   | Some handler \<Rightarrow>
                       (let dec = (if rest \<noteq> [] then Some rest else None);
                            ctx = \<lparr>cx_Tag = tag, cx_Name = upper, cx_NumKind = numKind, cx_Decoder = dec\<rparr>
                        in respond tag (handler ctx c)))))"

section \<open>The loop of a connection\<close>

definition readAndHandle :: "'b dispatcher \<Rightarrow> 'b conn \<Rightarrow> 'b result" where
  "readAndHandle d c =
     (case ReadLine (c_input c) of
        (Inl e, inp) \<Rightarrow> Finished (Some (OtherErr ''EOF'')) (c\<lparr>c_input := inp\<rparr>)
      | (Inr line, inp) \<Rightarrow>
          (let c = c\<lparr>c_input := inp\<rparr> in
           case parseLine line of
             Inl e \<Rightarrow> Finished None (WriteBAD ''*'' (line_error_text e) c)
           | Inr (tag, name, rest) \<Rightarrow> dispatch d tag name rest c))"

partial_function (option) serve_loop :: "'b dispatcher \<Rightarrow> 'b conn \<Rightarrow> 'b result option" where
  "serve_loop d c =
     (case readAndHandle d c of
        Finished None c' \<Rightarrow> (if Conn_State c' = Logout then Some (Finished None c') else serve_loop d c')
      | Finished (Some e) c' \<Rightarrow> Some (Finished None c')
      | r \<Rightarrow> Some r)"

definition close_result :: "('b \<Rightarrow> 'b) \<Rightarrow> 'b result \<Rightarrow> 'b result" where
  "close_result closeSession r =
     (case r of Finished e c \<Rightarrow> Finished e (Conn_Close closeSession c) | _ \<Rightarrow> r)"

definition serve :: "options \<Rightarrow> ('b \<Rightarrow> 'b) \<Rightarrow> 'b dispatcher \<Rightarrow> 'b conn \<Rightarrow> 'b result option" where
  "serve opts closeSession d c =
     map_option (close_result closeSession) (serve_loop d (writeGreeting opts c))"

text \<open>\<open>newSession\<close> is \<open>Options.NewSession\<close>: not set, failing, or giving a session.\<close>

definition handleConn ::
  "options \<Rightarrow> ('b \<Rightarrow> 'b) \<Rightarrow> 'b dispatcher \<Rightarrow> (go_error + 'b) option \<Rightarrow> string \<Rightarrow> bool \<Rightarrow> 'b result option" where
  "handleConn opts closeSession d newSession inp isTLS =
     (let c = newConn inp isTLS in
      case newSession of
        None \<Rightarrow> serve opts closeSession d c
      | Some (Inl e) \<Rightarrow> Some (Finished None (Conn_Close closeSession (WriteBYE ''internal server error'' c)))
      | Some (Inr session) \<Rightarrow> serve opts closeSession d (c\<lparr>c_session := Some session\<rparr>))"

end
