(* ===== verification/Parsers.thy ===== *)
theory Parsers
  imports Server MailboxLaws
begin

text \<open>
  The argument parsers of the command handlers: the items of FETCH
  (\<open>server/commands/fetch.go\<close>), the criteria of SEARCH (\<open>server/commands/search.go\<close>) and the
  literal size of APPEND (\<open>server/commands/append.go\<close>). A parser works on what is left of the
  command line; \<open>None\<close> means that it never returns.
\<close>

definition obind :: "'a reply option \<Rightarrow> ('a \<Rightarrow> string \<Rightarrow> 'b reply option) \<Rightarrow> 'b reply option" where
  "obind r f = Option.bind r (\<lambda>(x, rest). case x of Inl e \<Rightarrow> Some (Inl e, rest) | Inr x \<Rightarrow> f x rest)"

section \<open>FETCH\<close>

definition readFieldList :: "string \<Rightarrow> string list reply option" where
  "readFieldList inp = ReadList (collect ReadAString) [] inp"

definition zero_section :: "bool \<Rightarrow> body_section" where
  "zero_section peek =
     \<lparr>Specifier = [], Part = [], Fields = [], NotFields = False, Peek = peek, Partial = None\<rparr>"

text \<open>The loop that skips a partial specifier up to its closing bracket.\<close>

partial_function (option) skip_partial :: "string \<Rightarrow> string option" where
  "skip_partial inp =
     (case PeekByte inp of
        (Inl e, rest) \<Rightarrow> Some rest
      | (Inr ch, rest) \<Rightarrow>
          (if ch = CHR ''>'' then Some (snd (ExpectByte (CHR ''>'') rest)) else skip_partial (snd (ReadAtom rest))))"

text \<open>The switch over the section specifier, the same in both functions that parse sections.\<close>

definition section_spec :: "string \<Rightarrow> body_section \<Rightarrow> string \<Rightarrow> body_section reply option" where
  "section_spec upper section inp =
     (if upper = ''HEADER'' then Some (Inr (section\<lparr>Specifier := ''HEADER''\<rparr>), inp)
      else if upper = ''TEXT'' then Some (Inr (section\<lparr>Specifier := ''TEXT''\<rparr>), inp)
      else if upper = ''MIME'' then Some (Inr (section\<lparr>Specifier := ''MIME''\<rparr>), inp)
      else if HasPrefix upper ''HEADER.FIELDS.NOT''
      then obind (Some (ReadSP inp)) (\<lambda>_ inp.
           obind (readFieldList inp) (\<lambda>fields inp.
             Some (Inr (section\<lparr>Specifier := ''HEADER.FIELDS.NOT'', NotFields := True, Fields := fields\<rparr>), inp)))
      else if HasPrefix upper ''HEADER.FIELDS''
      then obind (Some (ReadSP inp)) (\<lambda>_ inp.
           obind (readFieldList inp) (\<lambda>fields inp.
             Some (Inr (section\<lparr>Specifier := ''HEADER.FIELDS'', Fields := fields\<rparr>), inp)))
      else Some (Inr section, inp))"

definition end_section :: "body_section \<Rightarrow> string \<Rightarrow> body_section reply option" where
  "end_section section inp =
     obind (Some (ExpectByte (CHR '']'') inp)) (\<lambda>_ inp.
       if inp \<noteq> [] \<and> hd inp = CHR ''<'' then map_option (\<lambda>rest. (Inr section, rest)) (skip_partial inp)
       else Some (Inr section, inp))"

definition parseFetchBodySectionFromAtom :: "string \<Rightarrow> bool \<Rightarrow> string \<Rightarrow> body_section reply option" where
  "parseFetchBodySectionFromAtom item peek inp =
     (let sectionStr = ToUpper (case IndexByte item (CHR ''['') of None \<Rightarrow> item | Some i \<Rightarrow> drop (i + 1) item)
      in obind (section_spec sectionStr (zero_section peek) inp) end_section)"

definition parseFetchBodySection :: "bool \<Rightarrow> string \<Rightarrow> body_section reply option" where
  "parseFetchBodySection peek inp =
     obind (Some (ExpectByte (CHR ''['') inp)) (\<lambda>_ inp.
     obind (Some (PeekByte inp)) (\<lambda>b inp.
     obind (if b \<noteq> CHR '']''
            then obind (Some (ReadAtom inp)) (\<lambda>spec inp. section_spec (ToUpper spec) (zero_section peek) inp)
            else Some (Inr (zero_section peek), inp)) end_section))"

definition parseBinaryPart :: "string \<Rightarrow> int list" where
  "parseBinaryPart s = (if s = [] then [] else List.map_filter ParseInt64 (split_byte (CHR ''.'') s))"

text \<open>\<open>strings.SplitN(atom, ".", 2)\<close> must give two parts, each a number.\<close>

definition partial_of :: "string \<Rightarrow> (int \<times> int) option" where
  "partial_of atom =
     (case IndexByte atom (CHR ''.'') of
        None \<Rightarrow> None
      | Some i \<Rightarrow>
          (case ParseInt64 (take i atom) of
             None \<Rightarrow> None
           | Some offset \<Rightarrow>
               (case ParseInt64 (drop (i + 1) atom) of None \<Rightarrow> None | Some cnt \<Rightarrow> Some (offset, cnt))))"

definition consumePartial :: "string \<Rightarrow> (int \<times> int) option \<times> string" where
  "consumePartial inp =
     (case PeekByte inp of
        (Inl e, rest) \<Rightarrow> (None, rest)
      | (Inr b, rest) \<Rightarrow>
          (if b \<noteq> CHR ''<'' then (None, rest)
           else case ReadAtom (snd (ExpectByte (CHR ''<'') rest)) of
                  (Inl e, rest) \<Rightarrow> (None, rest)
                | (Inr atom, rest) \<Rightarrow> (partial_of atom, snd (ExpectByte (CHR ''>'') rest))))"

definition body_item :: "(string \<Rightarrow> body_section reply option) \<Rightarrow> fetch_options \<Rightarrow> string \<Rightarrow> fetch_options reply option" where
  "body_item parse options inp =
     obind (parse inp) (\<lambda>section inp. Some (Inr (options\<lparr>fo_BodySection := fo_BodySection options @ [section]\<rparr>), inp))"

definition binary_item :: "string \<Rightarrow> bool \<Rightarrow> fetch_options \<Rightarrow> string \<Rightarrow> fetch_options reply option" where
  "binary_item part peek options inp =
     obind (Some (ExpectByte (CHR '']'') inp)) (\<lambda>_ inp.
       case consumePartial inp of
         (partial, rest) \<Rightarrow>
           Some (Inr (options\<lparr>fo_BinarySection := fo_BinarySection options @ [(parseBinaryPart part, peek, partial)]\<rparr>), rest))"

text \<open>The items that set a flag of the options only.\<close>

definition simple_item :: "string \<Rightarrow> (fetch_options \<Rightarrow> fetch_options) option" where
  "simple_item upper =
     map_of
       [(''ALL'', \<lambda>p. p\<lparr>fo_Flags := True, fo_InternalDate := True, fo_RFC822Size := True, fo_Envelope := True\<rparr>),
        (''FAST'', \<lambda>p. p\<lparr>fo_Flags := True, fo_InternalDate := True, fo_RFC822Size := True\<rparr>),
        (''FULL'', \<lambda>p. p\<lparr>fo_Flags := True, fo_InternalDate := True, fo_RFC822Size := True, fo_Envelope := True,
                         fo_BodyStructure := True\<rparr>),
        (''ENVELOPE'', \<lambda>p. p\<lparr>fo_Envelope := True\<rparr>),
        (''FLAGS'', \<lambda>p. p\<lparr>fo_Flags := True\<rparr>),
        (''INTERNALDATE'', \<lambda>p. p\<lparr>fo_InternalDate := True\<rparr>),
        (''RFC822.SIZE'', \<lambda>p. p\<lparr>fo_RFC822Size := True\<rparr>),
        (''UID'', \<lambda>p. p\<lparr>fo_UID := True\<rparr>),
        (''BODYSTRUCTURE'', \<lambda>p. p\<lparr>fo_BodyStructure := True\<rparr>),
        (''MODSEQ'', \<lambda>p. p\<lparr>fo_ModSeq := True\<rparr>),
        (''PREVIEW'', \<lambda>p. p\<lparr>fo_Preview := True\<rparr>),
        (''EMAILID'', \<lambda>p. p\<lparr>fo_EmailID := True\<rparr>),
        (''THREADID'', \<lambda>p. p\<lparr>fo_ThreadID := True\<rparr>),
        (''SAVEDATE'', \<lambda>p. p\<lparr>fo_SaveDate := True\<rparr>)] upper"

definition parseSingleFetchItem :: "fetch_options \<Rightarrow> string \<Rightarrow> fetch_options reply option" where
  "parseSingleFetchItem options inp =
     obind (Some (ReadAtom inp)) (\<lambda>item inp.
       let upper = ToUpper item in
       case simple_item upper of
         Some f \<Rightarrow> Some (Inr (f options), inp)
       | None \<Rightarrow>
           if HasPrefix upper ''BODY.PEEK['' then body_item (parseFetchBodySectionFromAtom item True) options inp
           else if HasPrefix upper ''BODY['' then body_item (parseFetchBodySectionFromAtom item False) options inp
           else if upper = ''BODY.PEEK''
           then (if inp \<noteq> [] \<and> hd inp = CHR ''['' then body_item (parseFetchBodySection True) options inp
                 else Some (Inr options, inp))
           else if upper = ''BODY''
           then (if inp \<noteq> [] \<and> hd inp = CHR ''['' then body_item (parseFetchBodySection False) options inp
                 else Some (Inr (options\<lparr>fo_BodyStructure := True\<rparr>), inp))
           else if HasPrefix upper ''BINARY.SIZE[''
           then obind (Some (ExpectByte (CHR '']'') inp)) (\<lambda>_ inp.
                  Some (Inr (options\<lparr>fo_BinarySizeSection :=
                    fo_BinarySizeSection options @ [parseBinaryPart (drop (length ''BINARY.SIZE['') item)]\<rparr>), inp))
           else if HasPrefix upper ''BINARY.PEEK['' then binary_item (drop (length ''BINARY.PEEK['') item) True options inp
           else if HasPrefix upper ''BINARY['' then binary_item (drop (length ''BINARY['') item) False options inp
           else if upper = ''RFC822''
           then Some (Inr (options\<lparr>fo_BodySection := fo_BodySection options @ [zero_section False]\<rparr>), inp)
           else if upper = ''RFC822.HEADER''
           then Some (Inr (options\<lparr>fo_BodySection :=
                  fo_BodySection options @ [(zero_section True)\<lparr>Specifier := ''HEADER''\<rparr>]\<rparr>), inp)
           else if upper = ''RFC822.TEXT''
           then Some (Inr (options\<lparr>fo_BodySection :=
                  fo_BodySection options @ [(zero_section False)\<lparr>Specifier := ''TEXT''\<rparr>]\<rparr>), inp)
           else Some (Inr options, inp))"

definition parseFetchItems :: "string \<Rightarrow> fetch_options reply option" where
  "parseFetchItems inp =
     obind (Some (PeekByte inp)) (\<lambda>b inp.
       if b = CHR ''('' then ReadList parseSingleFetchItem zero_fetch_options inp
       else parseSingleFetchItem zero_fetch_options inp)"

section \<open>SEARCH\<close>

type_synonym 'a parsed = "(parse_error + 'a) \<times> string"

definition pbind :: "'a parsed \<Rightarrow> ('a \<Rightarrow> string \<Rightarrow> 'b parsed) \<Rightarrow> 'b parsed" where
  "pbind r f = (case r of (Inl e, rest) \<Rightarrow> (Inl e, rest) | (Inr x, rest) \<Rightarrow> f x rest)"

definition wire :: "'a reply \<Rightarrow> 'a parsed" where
  "wire r = (map_sum WireError (\<lambda>x. x) (fst r), snd r)"

text \<open>A key with one argument after a space.\<close>

definition key_arg :: "'a decoder \<Rightarrow> ('a \<Rightarrow> search_base \<Rightarrow> search_base) \<Rightarrow> search_base \<Rightarrow> string \<Rightarrow> search_base parsed" where
  "key_arg d f c inp =
     pbind (wire (ReadSP inp)) (\<lambda>_ inp. pbind (wire (d inp)) (\<lambda>x inp. (Inr (f x c), inp)))"

definition key_date ::
  "(string \<Rightarrow> string \<Rightarrow> time option) \<Rightarrow> string \<Rightarrow> (time \<Rightarrow> search_base \<Rightarrow> search_base) \<Rightarrow> search_base \<Rightarrow> string \<Rightarrow> search_base parsed" where
  "key_date pt key f c inp =
     pbind (wire (ReadSP inp)) (\<lambda>_ inp. pbind (wire (ReadAString inp)) (\<lambda>s inp.
       case pt ''2-Jan-2006'' s of None \<Rightarrow> (Inl (DateError key s), inp) | Some t \<Rightarrow> (Inr (f t c), inp)))"

definition key_header :: "search_base \<Rightarrow> string \<Rightarrow> search_base parsed" where
  "key_header c inp =
     pbind (wire (ReadSP inp)) (\<lambda>_ inp. pbind (wire (ReadAString inp)) (\<lambda>hdrName inp.
     pbind (wire (ReadSP inp)) (\<lambda>_ inp. pbind (wire (ReadAString inp)) (\<lambda>hdrValue inp.
       (Inr (c\<lparr>sc_Header := sc_Header c @ [(hdrName, hdrValue)]\<rparr>), inp)))))"

definition key_uid :: "search_base \<Rightarrow> string \<Rightarrow> search_base parsed" where
  "key_uid c inp =
     pbind (wire (ReadSP inp)) (\<lambda>_ inp. pbind (wire (ReadAtom inp)) (\<lambda>s inp.
       case ParseUIDSet s of
         Inl e \<Rightarrow> (Inl (NumSetError e), inp)
       | Inr uidSet \<Rightarrow> (Inr (c\<lparr>sc_UID := Some uidSet\<rparr>), inp)))"

definition modseq_entry :: "string \<Rightarrow> (string \<times> string) parsed" where
  "modseq_entry inp =
     pbind (wire (ReadQuotedString inp)) (\<lambda>entryName inp. pbind (wire (ReadSP inp)) (\<lambda>_ inp.
     pbind (wire (ReadAtom inp)) (\<lambda>entryType inp. pbind (wire (ReadSP inp)) (\<lambda>_ inp.
       (Inr (entryName, ToLower entryType), inp)))))"

definition key_modseq :: "search_base \<Rightarrow> string \<Rightarrow> search_base parsed" where
  "key_modseq c inp =
     pbind (wire (ReadSP inp)) (\<lambda>_ inp. pbind (wire (PeekByte inp)) (\<lambda>b inp.
     pbind (if b = DQ then modseq_entry inp else (Inr ([], []), inp)) (\<lambda>(name, typ) inp.
     pbind (wire (ReadNumber64 inp)) (\<lambda>n inp.
       (Inr (c\<lparr>sc_ModSeq := Some \<lparr>sm_ModSeq = n, sm_MetadataName = name, sm_MetadataType = typ\<rparr>\<rparr>), inp)))))"

text \<open>The keys without argument.\<close>

definition flag_key :: "string \<Rightarrow> (search_base \<Rightarrow> search_base) option" where
  "flag_key key =
     map_of
       [(''ALL'', \<lambda>c. c),
        (''ANSWERED'', \<lambda>c. c\<lparr>sc_Flag := sc_Flag c @ [FlagAnswered]\<rparr>),
        (''DELETED'', \<lambda>c. c\<lparr>sc_Flag := sc_Flag c @ [FlagDeleted]\<rparr>),
        (''DRAFT'', \<lambda>c. c\<lparr>sc_Flag := sc_Flag c @ [FlagDraft]\<rparr>),
        (''FLAGGED'', \<lambda>c. c\<lparr>sc_Flag := sc_Flag c @ [FlagFlagged]\<rparr>),
        (''SEEN'', \<lambda>c. c\<lparr>sc_Flag := sc_Flag c @ [FlagSeen]\<rparr>),
        (''RECENT'', \<lambda>c. c\<lparr>sc_Flag := sc_Flag c @ [FlagRecent]\<rparr>),
        (''UNANSWERED'', \<lambda>c. c\<lparr>sc_NotFlag := sc_NotFlag c @ [FlagAnswered]\<rparr>),
        (''UNDELETED'', \<lambda>c. c\<lparr>sc_NotFlag := sc_NotFlag c @ [FlagDeleted]\<rparr>),
        (''UNDRAFT'', \<lambda>c. c\<lparr>sc_NotFlag := sc_NotFlag c @ [FlagDraft]\<rparr>),
        (''UNFLAGGED'', \<lambda>c. c\<lparr>sc_NotFlag := sc_NotFlag c @ [FlagFlagged]\<rparr>),
        (''UNSEEN'', \<lambda>c. c\<lparr>sc_NotFlag := sc_NotFlag c @ [FlagSeen]\<rparr>),
        (''NEW'', \<lambda>c. c\<lparr>sc_Flag := sc_Flag c @ [FlagRecent], sc_NotFlag := sc_NotFlag c @ [FlagSeen]\<rparr>),
        (''OLD'', \<lambda>c. c\<lparr>sc_NotFlag := sc_NotFlag c @ [FlagRecent]\<rparr>)] key"

definition header_key :: "string \<Rightarrow> string option" where
  "header_key key =
     map_of [(''SUBJECT'', ''Subject''), (''FROM'', ''From''), (''TO'', ''To''), (''CC'', ''Cc''), (''BCC'', ''Bcc'')] key"

text \<open>One key other than NOT. A key that is none of these and not a sequence set is ignored.\<close>

definition search_key ::
  "(string \<Rightarrow> string \<Rightarrow> time option) \<Rightarrow> string \<Rightarrow> search_base \<Rightarrow> string \<Rightarrow> search_base parsed" where
  "search_key pt key c inp =
     (let upper = ToUpper key in
      case flag_key upper of
        Some f \<Rightarrow> (Inr (f c), inp)
      | None \<Rightarrow>
      (case header_key upper of
         Some h \<Rightarrow> key_arg ReadAString (\<lambda>s c. c\<lparr>sc_Header := sc_Header c @ [(h, s)]\<rparr>) c inp
       | None \<Rightarrow>
         if upper = ''KEYWORD'' then key_arg ReadAtom (\<lambda>kw c. c\<lparr>sc_Flag := sc_Flag c @ [kw]\<rparr>) c inp
         else if upper = ''UNKEYWORD'' then key_arg ReadAtom (\<lambda>kw c. c\<lparr>sc_NotFlag := sc_NotFlag c @ [kw]\<rparr>) c inp
         else if upper = ''LARGER'' then key_arg ReadNumber64 (\<lambda>n c. c\<lparr>sc_Larger := sint n\<rparr>) c inp
         else if upper = ''SMALLER'' then key_arg ReadNumber64 (\<lambda>n c. c\<lparr>sc_Smaller := sint n\<rparr>) c inp
         else if upper = ''BODY'' then key_arg ReadAString (\<lambda>s c. c\<lparr>sc_Body := sc_Body c @ [s]\<rparr>) c inp
         else if upper = ''TEXT'' then key_arg ReadAString (\<lambda>s c. c\<lparr>sc_Text := sc_Text c @ [s]\<rparr>) c inp
         else if upper = ''HEADER'' then key_header c inp
         else if upper = ''UID'' then key_uid c inp
         else if upper = ''MODSEQ'' then key_modseq c inp
         else if upper = ''SAVEDBEFORE'' then key_date pt ''SAVEDBEFORE'' (\<lambda>t c. c\<lparr>sc_SavedBefore := t\<rparr>) c inp
         else if upper = ''SAVEDSINCE'' then key_date pt ''SAVEDSINCE'' (\<lambda>t c. c\<lparr>sc_SavedSince := t\<rparr>) c inp
         else if upper = ''SAVEDON'' then key_date pt ''SAVEDON'' (\<lambda>t c. c\<lparr>sc_SavedOn := t\<rparr>) c inp
         else (case ParseSeqSet key of
                 Inl e \<Rightarrow> (Inr c, inp)
               | Inr seqSet \<Rightarrow> (Inr (c\<lparr>sc_SeqNum := Some seqSet\<rparr>), inp))))"

definition on_base :: "(search_base \<Rightarrow> string \<Rightarrow> search_base parsed) \<Rightarrow> search_criteria \<Rightarrow> string \<Rightarrow> search_criteria parsed" where
  "on_base f crit inp =
     (case crit of Criteria c ors nots \<Rightarrow> pbind (f c inp) (\<lambda>c inp. (Inr (Criteria c ors nots), inp)))"

definition add_not :: "search_criteria \<Rightarrow> search_criteria \<Rightarrow> search_criteria" where
  "add_not crit sub = (case crit of Criteria c ors nots \<Rightarrow> Criteria c ors (nots @ [sub]))"

definition zero_criteria :: search_criteria where
  "zero_criteria = Criteria zero_base [] []"

text \<open>The loop; it calls itself for the argument of NOT.\<close>

partial_function (option) parseSearchCriteria ::
  "(string \<Rightarrow> string \<Rightarrow> time option) \<Rightarrow> search_criteria \<Rightarrow> string \<Rightarrow> search_criteria parsed option" where
  "parseSearchCriteria pt crit inp =
     (if inp = [] \<or> hd inp = CHR '')'' then Some (Inr crit, inp)
      else case ReadAtom inp of
             (Inl e, rest) \<Rightarrow> Some (Inr crit, rest)
           | (Inr key, rest) \<Rightarrow>
               Option.bind
                 (if ToUpper key = ''NOT''
                  then (case ReadSP rest of
                          (Inl e, rest) \<Rightarrow> Some (Inl (WireError e), rest)
                        | (Inr _, rest) \<Rightarrow>
                            Option.bind (parseSearchCriteria pt zero_criteria rest) (\<lambda>r.
                              Some (map_sum (\<lambda>e. e) (add_not crit) (fst r), snd r)))
                  else Some (on_base (search_key pt key) crit rest))
                 (\<lambda>r. case fst r of
                         Inl e \<Rightarrow> Some (Inl e, snd r)
                       | Inr crit \<Rightarrow>
                           (case ReadSP (snd r) of
                              (Inl e, rest) \<Rightarrow> Some (Inr crit, rest)
                            | (Inr _, rest) \<Rightarrow> parseSearchCriteria pt crit rest)))"

section \<open>APPEND\<close>

definition TrimSuffix :: "string \<Rightarrow> string \<Rightarrow> string" where
  "TrimSuffix s p = (if HasSuffix s p then take (length s - length p) s else s)"

definition readLiteralSize :: "string \<Rightarrow> parse_error + int \<times> bool" where
  "readLiteralSize inp =
     (let s = TrimSpace inp;
          binary = HasPrefix s ''~'';
          s = (if binary then drop 1 s else s)
      in if \<not> HasPrefix s ''{'' \<or> \<not> HasSuffix s ''}'' then Inl (LiteralExpected s)
         else let inner = TrimSuffix (butlast (drop 1 s)) ''+''
              in case ParseInt64 inner of
                   None \<Rightarrow> Inl (LiteralSize inner)
                 | Some n \<Rightarrow> Inr (n, binary))"

end
