(* ===== verification/Commands.thy ===== *)
theory Commands
  imports Parsers
begin

text \<open>
  The handlers of the built-in commands (\<open>server/commands/*.go\<close>), one definition per command,
  and \<open>RegisterAll\<close>. They call the backend through its interface (\<open>Session\<close> of
  \<open>server/session.go\<close>), a record of methods. A method works on the state of its session; it
  returns a value or an error or panics, and it writes responses through the writer it is
  given.

  The handlers are written with a few combinators that stand for the recurring shapes of the
  source: read an argument or return the error, call the session or return its error, change
  the state of the connection or return the error.
\<close>

section \<open>The session interface\<close>

datatype 'a ret = Ret 'a | Err go_error | Die panic

type_synonym ('b, 'a) meth = "'b \<Rightarrow> 'a ret \<times> string list \<times> 'b"

text \<open>\<open>Append\<close> gets the bytes its literal reader can deliver. \<open>Idle\<close> is told whether its stop
  channel will be closed; \<open>None\<close> means that it does not return.\<close>

record 'b backend =
  be_Close :: "'b \<Rightarrow> 'b"
  be_Login :: "string \<Rightarrow> string \<Rightarrow> ('b, unit) meth"
  be_Select :: "string \<Rightarrow> select_options \<Rightarrow> ('b, select_data) meth"
  be_Create :: "string \<Rightarrow> create_options \<Rightarrow> ('b, unit) meth"
  be_Delete :: "string \<Rightarrow> ('b, unit) meth"
  be_Rename :: "string \<Rightarrow> string \<Rightarrow> ('b, unit) meth"
  be_Subscribe :: "string \<Rightarrow> ('b, unit) meth"
  be_Unsubscribe :: "string \<Rightarrow> ('b, unit) meth"
  be_List :: "string \<Rightarrow> string list \<Rightarrow> list_options \<Rightarrow> ('b, unit) meth"
  be_Status :: "string \<Rightarrow> status_options \<Rightarrow> ('b, status_data) meth"
  be_Append :: "string \<Rightarrow> string \<Rightarrow> append_options \<Rightarrow> ('b, append_data option) meth"
  be_Idle :: "bool \<Rightarrow> 'b \<Rightarrow> (unit ret \<times> string list \<times> 'b) option"
  be_Unselect :: "('b, unit) meth"
  be_Expunge :: "num_range list option \<Rightarrow> ('b, unit) meth"
  be_Search :: "num_kind \<Rightarrow> search_criteria \<Rightarrow> search_options \<Rightarrow> ('b, search_data) meth"
  be_Fetch :: "num_set \<Rightarrow> fetch_options \<Rightarrow> ('b, unit) meth"
  be_Store :: "num_set \<Rightarrow> store_flags \<Rightarrow> store_options \<Rightarrow> ('b, unit) meth"
  be_Copy :: "num_set \<Rightarrow> string \<Rightarrow> ('b, copy_data option) meth"

section \<open>Combinators\<close>

type_synonym 'b cont = "'b conn \<Rightarrow> 'b result"
type_synonym 'b step = "string \<Rightarrow> 'b cont"

definition fail :: "go_error \<Rightarrow> 'b cont" where
  "fail e c = Finished (Some e) c"

definition return_ok :: "command_context \<Rightarrow> string \<Rightarrow> 'b cont" where
  "return_ok ctx text c = Finished None (WriteOK (cx_Tag ctx) text c)"

text \<open>\<open>if ctx.Decoder == nil\<close>.\<close>

definition with_args :: "command_context \<Rightarrow> string \<Rightarrow> 'b step \<Rightarrow> 'b cont" where
  "with_args ctx text k = (case cx_Decoder ctx of None \<Rightarrow> fail (ErrBad text) | Some inp \<Rightarrow> k inp)"

definition read_arg :: "'a decoder \<Rightarrow> string \<Rightarrow> ('a \<Rightarrow> 'b step) \<Rightarrow> 'b step" where
  "read_arg d text k inp = (case d inp of (Inl _, _) \<Rightarrow> fail (ErrBad text) | (Inr x, rest) \<Rightarrow> k x rest)"

definition read_loop :: "(string \<Rightarrow> 'a reply option) \<Rightarrow> (wire_error \<Rightarrow> string) \<Rightarrow> ('a \<Rightarrow> 'b step) \<Rightarrow> 'b step" where
  "read_loop d text k inp =
     (case d inp of
        None \<Rightarrow> (\<lambda>_. Hangs)
      | Some (Inl e, _) \<Rightarrow> fail (ErrBad (text e))
      | Some (Inr x, rest) \<Rightarrow> k x rest)"

text \<open>A call of a session method whose error is returned. Without a session it panics.\<close>

definition ask :: "('b, 'a) meth \<Rightarrow> ('a \<Rightarrow> 'b cont) \<Rightarrow> 'b cont" where
  "ask m k c =
     (case c_session c of
        None \<Rightarrow> Crashed NilDereference
      | Some b \<Rightarrow>
          (case m b of
             (r, out, b') \<Rightarrow>
               (let c' = c\<lparr>c_session := Some b', c_output := c_output c @ out\<rparr>
                in case r of Ret x \<Rightarrow> k x c' | Err e \<Rightarrow> fail e c' | Die p \<Rightarrow> Crashed p)))"

text \<open>A call whose error is dropped.\<close>

definition ignoring :: "('b, 'a) meth \<Rightarrow> ('b, unit) meth" where
  "ignoring m b = (case m b of (r, out, b') \<Rightarrow> ((case r of Die p \<Rightarrow> Die p | _ \<Rightarrow> Ret ()), out, b'))"

definition transition_text :: "unit transition_error \<Rightarrow> string" where
  "transition_text e =
     (case e of
        InvalidTransition src dst \<Rightarrow>
          ''imap: invalid state transition from '' @ ConnState_String src @ '' to '' @ ConnState_String dst
      | BeforeHookFailed _ \<Rightarrow> ''imap: before hook failed: ''
      | AfterHookFailed _ \<Rightarrow> ''imap: after hook failed: '')"

definition set_state :: "conn_state \<Rightarrow> 'b cont \<Rightarrow> 'b cont" where
  "set_state s k c =
     (case Conn_SetState s c of
        (Some e, c') \<Rightarrow> fail (OtherErr (transition_text e)) c'
      | (None, c') \<Rightarrow> k c')"

text \<open>The set of messages of FETCH, STORE and COPY.\<close>

definition read_numset :: "command_context \<Rightarrow> (num_set \<Rightarrow> 'b step) \<Rightarrow> 'b step" where
  "read_numset ctx k =
     read_arg ReadAtom ''invalid sequence set'' (\<lambda>seqSetStr inp.
       if cx_NumKind ctx = NumKindUID
       then (case ParseUIDSet seqSetStr of Inl _ \<Rightarrow> fail (ErrBad ''invalid UID set'') | Inr us \<Rightarrow> k (UIDSet us) inp)
       else (case ParseSeqSet seqSetStr of Inl _ \<Rightarrow> fail (ErrBad ''invalid sequence set'') | Inr ss \<Rightarrow> k (SeqSet ss) inp))"

section \<open>Any state\<close>

definition Capability :: "options \<Rightarrow> 'b handler" where
  "Capability opts ctx c = return_ok ctx ''CAPABILITY completed'' (WriteCapabilities opts c)"

definition Noop :: "'b handler" where
  "Noop ctx = return_ok ctx ''NOOP completed''"

definition Logout_cmd :: "'b handler" where
  "Logout_cmd ctx c = set_state Logout (return_ok ctx ''LOGOUT completed'') (WriteBYE ''LOGOUT requested'' c)"

section \<open>Not authenticated\<close>

definition StartTLS :: "options \<Rightarrow> 'b handler" where
  "StartTLS opts ctx c =
     (if c_isTLS c then fail (ErrBad ''already using TLS'') c
      else if \<not> o_TLSConfig opts then fail (ErrNo ''STARTTLS not available'') c
      else let c = WriteOK (cx_Tag ctx) ''Begin TLS negotiation now'' c
           in case UpgradeTLS opts c of
                (True, c) \<Rightarrow> Finished None c
              | (False, c) \<Rightarrow> fail (ErrNo ''TLS negotiation failed'') c)"

definition Login :: "options \<Rightarrow> 'b backend \<Rightarrow> 'b handler" where
  "Login opts be ctx c =
     (if \<not> c_isTLS c \<and> \<not> o_AllowInsecureAuth opts then fail (ErrNo ''LOGIN disabled without TLS'') c
      else with_args ctx ''missing arguments''
        (read_arg ReadAString ''invalid username'' (\<lambda>username.
         read_arg ReadSP ''missing password'' (\<lambda>_.
         read_arg ReadAString ''invalid password'' (\<lambda>password _.
         ask (be_Login be username password) (\<lambda>_.
         set_state Authenticated (return_ok ctx ''LOGIN completed'')))))) c)"

section \<open>Authenticated\<close>

text \<open>The capabilities ENABLE asks for, in upper case.\<close>

function enable_loop :: "string \<Rightarrow> cap list" where
  "enable_loop inp =
     (case ReadAtom inp of
        (Inl e, rest) \<Rightarrow> []
      | (Inr cap, rest) \<Rightarrow>
          ToUpper cap # (case ReadSP rest of (Inl e, _) \<Rightarrow> [] | (Inr _, rest') \<Rightarrow> enable_loop rest'))"
  by pat_completeness auto
termination
proof (relation "measure length")
  fix inp r rest cap r' rest' u
  assume a: "(r, rest) = ReadAtom inp" "r = Inr cap" "(r', rest') = ReadSP rest" "r' = Inr u"
  then have "length rest \<le> length inp" by (metis keeps_suffix_length keeps_suffix_ReadAtom)
  moreover have "rest = SP # rest'" using a(3,4) by (metis ReadSP_Inr)
  ultimately show "(rest', inp) \<in> measure length" by simp
qed simp

declare enable_loop.simps [simp del]

definition Enable :: "options \<Rightarrow> 'b handler" where
  "Enable opts ctx =
     with_args ctx ''missing capabilities'' (\<lambda>inp c.
       let requested = enable_loop inp in
       if requested = [] then fail (ErrBad ''missing capabilities to enable'') c
       else
         (let serverCapSet = NewCapSet (Capabilities opts c);
              enabled = filter (Has serverCapSet) requested;
              c = c\<lparr>c_enabled := Add (c_enabled c) enabled\<rparr>
          in return_ok ctx ''ENABLE completed''
               (emit (enc_Star @ enc_Atom ''ENABLED'' @ concat (map (\<lambda>cap. enc_SP @ enc_Atom cap) enabled) @ enc_CRLF) c)))"

text \<open>What SELECT writes before its tagged response.\<close>

definition ok_code :: "string \<Rightarrow> string" where
  "ok_code code = enc_Star @ enc_Atom ''OK'' @ enc_SP @ code @ enc_CRLF"

definition select_responses :: "select_data \<Rightarrow> string list" where
  "select_responses data =
     [enc_Star @ enc_Atom ''FLAGS'' @ enc_SP @ enc_Flags (sd_Flags data) @ enc_CRLF,
      enc_NumResponse (sd_NumMessages data) ''EXISTS'',
      enc_NumResponse (sd_NumRecent data) ''RECENT'',
      ok_code (enc_ResponseCode ''UIDVALIDITY'' [FormatUint (unat (sd_UIDValidity data))]),
      ok_code (enc_ResponseCode ''UIDNEXT'' [FormatUint (unat (sd_UIDNext data))])] @
     (if length (sd_PermanentFlags data) > 0
      then [ok_code (enc_RawString ''[PERMANENTFLAGS '' @ enc_Flags (sd_PermanentFlags data) @ enc_RawString ''] '')] else []) @
     (if sd_FirstUnseen data > 0
      then [ok_code (enc_ResponseCode ''UNSEEN'' [FormatUint (unat (sd_FirstUnseen data))])] else []) @
     (if sd_HighestModSeq data > 0
      then [ok_code (enc_ResponseCode ''HIGHESTMODSEQ'' [FormatUint (unat (sd_HighestModSeq data))])] else []) @
     (if sd_MailboxID data \<noteq> []
      then [ok_code (enc_ResponseCode ''MAILBOXID'' [''('' @ sd_MailboxID data @ '')''])] else [])"

definition handleSelect :: "bool \<Rightarrow> 'b backend \<Rightarrow> 'b handler" where
  "handleSelect readOnly be ctx =
     with_args ctx ''missing mailbox name''
       (read_arg ReadAString ''invalid mailbox name'' (\<lambda>mailbox _.
        ask (be_Select be mailbox (zero_select_options readOnly)) (\<lambda>data c.
          (let c = SetMailbox mailbox (sd_ReadOnly data) (foldl (\<lambda>c s. emit s c) c (select_responses data));
               code = (if sd_ReadOnly data then ''READ-ONLY'' else ''READ-WRITE'')
           in set_state Selected (\<lambda>c. Finished None (WriteOKCode (cx_Tag ctx) code ''SELECT completed'' c)) c))))"

definition Select :: "'b backend \<Rightarrow> 'b handler" where
  "Select be = handleSelect False be"

definition Examine :: "'b backend \<Rightarrow> 'b handler" where
  "Examine be = handleSelect True be"

text \<open>CREATE, DELETE, SUBSCRIBE and UNSUBSCRIBE have the same shape.\<close>

definition mailbox_command :: "(string \<Rightarrow> ('b, unit) meth) \<Rightarrow> string \<Rightarrow> 'b handler" where
  "mailbox_command m text ctx =
     with_args ctx ''missing mailbox name''
       (read_arg ReadAString ''invalid mailbox name'' (\<lambda>mailbox _.
        ask (m mailbox) (\<lambda>_. return_ok ctx text)))"

definition Create :: "'b backend \<Rightarrow> 'b handler" where
  "Create be = mailbox_command (\<lambda>mailbox. be_Create be mailbox \<lparr>SpecialUse = []\<rparr>) ''CREATE completed''"

definition Delete :: "'b backend \<Rightarrow> 'b handler" where
  "Delete be = mailbox_command (be_Delete be) ''DELETE completed''"

definition Rename :: "'b backend \<Rightarrow> 'b handler" where
  "Rename be ctx =
     with_args ctx ''missing arguments''
       (read_arg ReadAString ''invalid mailbox name'' (\<lambda>oldName.
        read_arg ReadSP ''missing new mailbox name'' (\<lambda>_.
        read_arg ReadAString ''invalid new mailbox name'' (\<lambda>newName _.
        ask (be_Rename be oldName newName) (\<lambda>_. return_ok ctx ''RENAME completed'')))))"

definition Subscribe :: "'b backend \<Rightarrow> 'b handler" where
  "Subscribe be = mailbox_command (be_Subscribe be) ''SUBSCRIBE completed''"

definition Unsubscribe :: "'b backend \<Rightarrow> 'b handler" where
  "Unsubscribe be = mailbox_command (be_Unsubscribe be) ''UNSUBSCRIBE completed''"

definition list_command :: "'b backend \<Rightarrow> list_options \<Rightarrow> string \<Rightarrow> 'b handler" where
  "list_command be lopts text ctx =
     with_args ctx ''missing arguments''
       (read_arg ReadAString ''invalid reference name'' (\<lambda>ref.
        read_arg ReadSP ''missing mailbox pattern'' (\<lambda>_.
        read_arg ReadAString ''invalid mailbox pattern'' (\<lambda>pattern _.
        ask (be_List be ref [pattern] lopts) (\<lambda>_. return_ok ctx text)))))"

definition List_cmd :: "'b backend \<Rightarrow> 'b handler" where
  "List_cmd be = list_command be zero_list_options ''LIST completed''"

definition Lsub :: "'b backend \<Rightarrow> 'b handler" where
  "Lsub be = list_command be (zero_list_options\<lparr>lo_SelectSubscribed := True\<rparr>) ''LSUB completed''"

definition status_item :: "string \<Rightarrow> status_options \<Rightarrow> status_options" where
  "status_item item p =
     (let upper = ToUpper item in
      if upper = ''MESSAGES'' then p\<lparr>so_NumMessages := True\<rparr>
      else if upper = ''UIDNEXT'' then p\<lparr>so_UIDNext := True\<rparr>
      else if upper = ''UIDVALIDITY'' then p\<lparr>so_UIDValidity := True\<rparr>
      else if upper = ''UNSEEN'' then p\<lparr>so_NumUnseen := True\<rparr>
      else if upper = ''RECENT'' then p\<lparr>so_NumRecent := True\<rparr>
      else if upper = ''SIZE'' then p\<lparr>so_Size := True\<rparr>
      else if upper = ''APPENDLIMIT'' then p\<lparr>so_AppendLimit := True\<rparr>
      else if upper = ''DELETED'' then p\<lparr>so_NumDeleted := True\<rparr>
      else if upper = ''HIGHESTMODSEQ'' then p\<lparr>so_HighestModSeq := True\<rparr>
      else if upper = ''MAILBOXID'' then p\<lparr>so_MailboxID := True\<rparr>
      else p)"

definition zero_status_options :: status_options where
  "zero_status_options =
     \<lparr>so_NumMessages = False, so_UIDNext = False, so_UIDValidity = False, so_NumUnseen = False, so_NumRecent = False,
      so_Size = False, so_AppendLimit = False, so_NumDeleted = False, so_HighestModSeq = False, so_MailboxID = False\<rparr>"

definition status_list :: "string \<Rightarrow> status_options reply option" where
  "status_list inp =
     ReadList (\<lambda>p inp. Some (dbind (ReadAtom inp) (\<lambda>item rest. (Inr (status_item item p), rest)))) zero_status_options inp"

definition status_line :: "status_data \<Rightarrow> string" where
  "status_line st =
     enc_Star @ enc_Atom ''STATUS'' @ enc_SP @ enc_MailboxName (st_Mailbox st) @ enc_SP @ enc_BeginList @
     enc_items (\<lambda>s. s)
      ((case st_NumMessages st of None \<Rightarrow> [] | Some n \<Rightarrow> [enc_Atom ''MESSAGES'' @ enc_SP @ enc_Number n]) @
       (case st_UIDNext st of None \<Rightarrow> [] | Some n \<Rightarrow> [enc_Atom ''UIDNEXT'' @ enc_SP @ enc_Number n]) @
       (case st_UIDValidity st of None \<Rightarrow> [] | Some n \<Rightarrow> [enc_Atom ''UIDVALIDITY'' @ enc_SP @ enc_Number n]) @
       (case st_NumUnseen st of None \<Rightarrow> [] | Some n \<Rightarrow> [enc_Atom ''UNSEEN'' @ enc_SP @ enc_Number n]) @
       (case st_NumRecent st of None \<Rightarrow> [] | Some n \<Rightarrow> [enc_Atom ''RECENT'' @ enc_SP @ enc_Number n]) @
       (case st_Size st of None \<Rightarrow> [] | Some n \<Rightarrow> [enc_Atom ''SIZE'' @ enc_SP @ enc_Number64 (word_of_int n)]) @
       (case st_AppendLimit st of None \<Rightarrow> [] | Some n \<Rightarrow> [enc_Atom ''APPENDLIMIT'' @ enc_SP @ enc_Number n]) @
       (case st_NumDeleted st of None \<Rightarrow> [] | Some n \<Rightarrow> [enc_Atom ''DELETED'' @ enc_SP @ enc_Number n]) @
       (case st_HighestModSeq st of None \<Rightarrow> [] | Some n \<Rightarrow> [enc_Atom ''HIGHESTMODSEQ'' @ enc_SP @ enc_Number64 n]) @
       (if st_MailboxID st \<noteq> []
        then [enc_Atom ''MAILBOXID'' @ enc_SP @ enc_BeginList @ enc_AString (st_MailboxID st) @ enc_EndList] else [])) @
     enc_EndList @ enc_CRLF"

definition Status :: "'b backend \<Rightarrow> 'b handler" where
  "Status be ctx =
     with_args ctx ''missing arguments''
       (read_arg ReadAString ''invalid mailbox name'' (\<lambda>mailbox.
        read_arg ReadSP ''missing status items'' (\<lambda>_.
        read_loop status_list (\<lambda>_. ''invalid status items list'') (\<lambda>options _.
        ask (be_Status be mailbox options) (\<lambda>data c. return_ok ctx ''STATUS completed'' (emit (status_line data) c))))))"

subsection \<open>APPEND\<close>

definition append_flags :: "(flag list \<Rightarrow> char \<Rightarrow> 'b step) \<Rightarrow> 'b step" where
  "append_flags k =
     read_arg PeekByte ''unexpected end of command'' (\<lambda>b.
       if b = CHR ''(''
       then read_loop ReadFlags (\<lambda>_. ''invalid flags'') (\<lambda>flags.
            read_arg ReadSP ''missing message data'' (\<lambda>_.
            read_arg PeekByte ''unexpected end of command'' (\<lambda>b. k flags b)))
       else k [] b)"

definition append_layouts :: "string list" where
  "append_layouts = [''02-Jan-2006 15:04:05 -0700'', ''2-Jan-2006 15:04:05 -0700'', ''02 Jan 06 15:04 -0700'']"

text \<open>The first layout that the date parses with.\<close>

definition append_time :: "options \<Rightarrow> string \<Rightarrow> time option" where
  "append_time opts dateStr =
     (case List.map_filter (\<lambda>layout. o_parse_time opts layout dateStr) append_layouts of [] \<Rightarrow> None | t # _ \<Rightarrow> Some t)"

definition append_date :: "options \<Rightarrow> char \<Rightarrow> (time \<Rightarrow> 'b step) \<Rightarrow> 'b step" where
  "append_date opts b k =
     (if b = DQ
      then read_arg ReadQuotedString ''invalid date-time'' (\<lambda>dateStr inp.
             case append_time opts dateStr of
               None \<Rightarrow> fail (ErrBad ''invalid date-time format'')
             | Some t \<Rightarrow> read_arg ReadSP ''missing message data'' (\<lambda>_. k t) inp)
      else k 0)"

definition append_ok :: "command_context \<Rightarrow> append_data option \<Rightarrow> 'b cont" where
  "append_ok ctx data =
     (case data of
        None \<Rightarrow> return_ok ctx ''APPEND completed''
      | Some d \<Rightarrow>
          if ad_UIDValidity d > 0 \<and> ad_UID d > 0
          then (\<lambda>c. Finished None (WriteOKCode (cx_Tag ctx)
                  (''APPENDUID '' @ FormatUint (unat (ad_UIDValidity d)) @ '' '' @ FormatUint (unat (ad_UID d)))
                  ''APPEND completed'' c))
          else return_ok ctx ''APPEND completed'')"

text \<open>The literal comes from the connection, not from the command line; what the session has
  not read of it is drained.\<close>

definition append_literal ::
  "options \<Rightarrow> 'b backend \<Rightarrow> command_context \<Rightarrow> string \<Rightarrow> flag list \<Rightarrow> time \<Rightarrow> 'b step" where
  "append_literal opts be ctx mailbox flags t inp =
     (case readLiteralSize inp of
        Inl e \<Rightarrow> fail (ErrBad (''invalid literal: '' @ o_error_text opts e))
      | Inr (litSize, isBinary) \<Rightarrow>
          (\<lambda>c. let literal = take (nat litSize) (c_input c);
                    c = c\<lparr>c_input := drop (nat litSize) (c_input c)\<rparr>;
                    options = \<lparr>ao_Flags = flags, ao_InternalDate = t, ao_Binary = isBinary, ao_UTF8 = False\<rparr>
                in ask (be_Append be mailbox literal options) (append_ok ctx) c))"

definition Append :: "options \<Rightarrow> 'b backend \<Rightarrow> 'b handler" where
  "Append opts be ctx =
     with_args ctx ''missing arguments''
       (read_arg ReadAString ''invalid mailbox name'' (\<lambda>mailbox.
        read_arg ReadSP ''missing message data'' (\<lambda>_.
        append_flags (\<lambda>flags b.
        append_date opts b (\<lambda>t.
        append_literal opts be ctx mailbox flags t)))))"

subsection \<open>IDLE\<close>

lemma ReadLine_shorter: "ReadLine inp = (Inr line, rest) \<Longrightarrow> length rest < length inp"
proof -
  assume a: "ReadLine inp = (Inr line, rest)"
  have "length (dropWhile (\<lambda>c. c \<noteq> LF) inp) \<le> length inp" by (rule length_dropWhile_le)
  then show ?thesis using a
    by (cases "dropWhile (\<lambda>c. c \<noteq> LF) inp") (auto simp: ReadLine_def Let_def split: if_splits)
qed

text \<open>The goroutine that reads lines up to DONE: the error it ends with, if any.\<close>

function idle_read :: "string \<Rightarrow> wire_error option \<times> string" where
  "idle_read inp =
     (case ReadLine inp of
        (Inl e, rest) \<Rightarrow> (Some e, rest)
      | (Inr line, rest) \<Rightarrow> (if EqualFold (TrimSpace line) ''DONE'' then (None, rest) else idle_read rest))"
  by pat_completeness auto
termination by (relation "measure length") (auto dest: ReadLine_shorter [OF sym])

declare idle_read.simps [simp del]

text \<open>The stop channel is closed only when DONE is read.\<close>

definition Idle :: "options \<Rightarrow> 'b backend \<Rightarrow> 'b handler" where
  "Idle opts be ctx c =
     (let c = WriteContinuation ''idling'' c;
          (readErr, rest) = idle_read (c_input c)
      in case c_session c of
           None \<Rightarrow> Crashed NilDereference
         | Some b \<Rightarrow>
             (case be_Idle be (readErr = None) b of
                None \<Rightarrow> Hangs
              | Some (r, out, b') \<Rightarrow>
                  (let c = c\<lparr>c_input := rest, c_session := Some b', c_output := c_output c @ out\<rparr>
                   in case r of
                        Die p \<Rightarrow> Crashed p
                      | Err e \<Rightarrow> fail e c
                      | Ret _ \<Rightarrow>
                          (case readErr of
                             Some e \<Rightarrow> fail (ErrBad (''IDLE terminated: '' @ o_error_text opts (WireError e))) c
                           | None \<Rightarrow> return_ok ctx ''IDLE completed'' c))))"

section \<open>Selected\<close>

definition leave :: "'b backend \<Rightarrow> string \<Rightarrow> 'b handler" where
  "leave be text ctx =
     ask (be_Unselect be) (\<lambda>_ c. set_state Authenticated (return_ok ctx text) (SetMailbox [] False c))"

definition Close :: "'b backend \<Rightarrow> 'b handler" where
  "Close be ctx = ask (ignoring (be_Expunge be None)) (\<lambda>_. leave be ''CLOSE completed'' ctx)"

definition Unselect :: "'b backend \<Rightarrow> 'b handler" where
  "Unselect be ctx = leave be ''UNSELECT completed'' ctx"

definition Expunge :: "'b backend \<Rightarrow> 'b handler" where
  "Expunge be ctx =
     (let run = (\<lambda>uidSet. ask (be_Expunge be uidSet) (\<lambda>_. return_ok ctx ''EXPUNGE completed''))
      in if cx_NumKind ctx = NumKindUID \<and> cx_Decoder ctx \<noteq> None
         then read_arg ReadAtom ''invalid UID set'' (\<lambda>uidStr _.
                case ParseUIDSet uidStr of Inl _ \<Rightarrow> fail (ErrBad ''invalid UID set'') | Inr uidSet \<Rightarrow> run (Some uidSet))
              (the (cx_Decoder ctx))
         else run None)"

definition search_response :: "num_kind \<Rightarrow> search_data \<Rightarrow> string" where
  "search_response kind data =
     enc_Star @ enc_Atom ''SEARCH'' @
     concat (map (\<lambda>n. enc_SP @ enc_Number n) (if kind = NumKindUID then sd_AllUIDs data else sd_AllSeqNums data)) @
     (if sd_ModSeq data > 0
      then enc_SP @ enc_BeginList @ enc_Atom ''MODSEQ'' @ enc_SP @ enc_Number64 (sd_ModSeq data) @ enc_EndList else []) @
     enc_CRLF"

definition zero_search_options :: search_options where
  "zero_search_options =
     \<lparr>sr_ReturnMin = False, sr_ReturnMax = False, sr_ReturnAll = False, sr_ReturnCount = False, sr_ReturnSave = False,
      sr_ReturnContext = False, sr_ReturnUpdate = False, sr_ReturnPartial = None\<rparr>"

definition Search :: "options \<Rightarrow> 'b backend \<Rightarrow> 'b handler" where
  "Search opts be ctx =
     with_args ctx ''missing search criteria'' (\<lambda>inp.
       case parseSearchCriteria (o_parse_time opts) zero_criteria inp of
         None \<Rightarrow> (\<lambda>_. Hangs)
       | Some (Inl e, _) \<Rightarrow> fail (ErrBad (''invalid search criteria: '' @ o_error_text opts e))
       | Some (Inr criteria, _) \<Rightarrow>
           ask (be_Search be (cx_NumKind ctx) criteria zero_search_options) (\<lambda>data c.
             return_ok ctx ''SEARCH completed'' (emit (search_response (cx_NumKind ctx) data) c)))"

definition Fetch :: "options \<Rightarrow> 'b backend \<Rightarrow> 'b handler" where
  "Fetch opts be ctx =
     with_args ctx ''missing arguments''
       (read_numset ctx (\<lambda>numSet.
        read_arg ReadSP ''missing fetch items'' (\<lambda>_.
        read_loop parseFetchItems (\<lambda>e. ''invalid fetch items: '' @ o_error_text opts (WireError e)) (\<lambda>options _.
        (let options = (if cx_NumKind ctx = NumKindUID then options\<lparr>fo_UID := True\<rparr> else options)
         in ask (be_Fetch be numSet options) (\<lambda>_. return_ok ctx ''FETCH completed''))))))"

definition store_action_of :: "string \<Rightarrow> store_action option" where
  "store_action_of upper =
     (if HasPrefix upper ''+FLAGS'' then Some StoreFlagsAdd
      else if HasPrefix upper ''-FLAGS'' then Some StoreFlagsDel
      else if HasPrefix upper ''FLAGS'' then Some StoreFlagsSet
      else None)"

definition Store :: "'b backend \<Rightarrow> 'b handler" where
  "Store be ctx =
     with_args ctx ''missing arguments''
       (read_numset ctx (\<lambda>numSet.
        read_arg ReadSP ''missing store action'' (\<lambda>_.
        read_arg ReadAtom ''invalid store action'' (\<lambda>actionStr inp.
        (let upper = ToUpper actionStr in
         case store_action_of upper of
           None \<Rightarrow> fail (ErrBad (''invalid store action: '' @ actionStr))
         | Some action \<Rightarrow>
             read_arg ReadSP ''missing flags'' (\<lambda>_.
             read_loop ReadFlags (\<lambda>_. ''invalid flags'') (\<lambda>flags _.
             ask (be_Store be numSet
                   \<lparr>sf_Action = action, sf_Silent = HasSuffix upper ''.SILENT'', sf_Flags = flags\<rparr> \<lparr>UnchangedSince = 0\<rparr>) (\<lambda>_.
             return_ok ctx ''STORE completed''))) inp)))))"

definition copy_ok :: "command_context \<Rightarrow> copy_data option \<Rightarrow> 'b cont" where
  "copy_ok ctx data =
     (case data of
        None \<Rightarrow> return_ok ctx ''COPY completed''
      | Some d \<Rightarrow>
          if cd_UIDValidity d > 0
          then (\<lambda>c. Finished None (WriteOKCode (cx_Tag ctx)
                  (''COPYUID '' @ FormatUint (unat (cd_UIDValidity d)) @ '' '' @ UIDSet_String (cd_SourceUIDs d) @ '' '' @
                   UIDSet_String (cd_DestUIDs d)) ''COPY completed'' c))
          else return_ok ctx ''COPY completed'')"

definition Copy :: "'b backend \<Rightarrow> 'b handler" where
  "Copy be ctx =
     with_args ctx ''missing arguments''
       (read_numset ctx (\<lambda>numSet.
        read_arg ReadSP ''missing destination mailbox'' (\<lambda>_.
        read_arg ReadAString ''invalid destination mailbox'' (\<lambda>dest _.
        ask (be_Copy be numSet dest) (copy_ok ctx)))))"

section \<open>Registration\<close>

definition builtin_handlers :: "options \<Rightarrow> 'b backend \<Rightarrow> (string \<times> 'b handler) list" where
  "builtin_handlers opts be =
     [(''CAPABILITY'', Capability opts), (''NOOP'', Noop), (''LOGOUT'', Logout_cmd),
      (''STARTTLS'', StartTLS opts), (''LOGIN'', Login opts be),
      (''ENABLE'', Enable opts), (''SELECT'', Select be), (''EXAMINE'', Examine be), (''CREATE'', Create be),
      (''DELETE'', Delete be), (''RENAME'', Rename be), (''SUBSCRIBE'', Subscribe be),
      (''UNSUBSCRIBE'', Unsubscribe be), (''LIST'', List_cmd be), (''LSUB'', Lsub be), (''STATUS'', Status be),
      (''APPEND'', Append opts be), (''IDLE'', Idle opts be),
      (''CLOSE'', Close be), (''UNSELECT'', Unselect be), (''EXPUNGE'', Expunge be), (''SEARCH'', Search opts be),
      (''FETCH'', Fetch opts be), (''STORE'', Store be), (''COPY'', Copy be)]"

definition RegisterAll :: "options \<Rightarrow> 'b backend \<Rightarrow> 'b dispatcher \<Rightarrow> 'b dispatcher" where
  "RegisterAll opts be d = foldl (\<lambda>d (name, h). Dispatcher_Register name h d) d (builtin_handlers opts be)"

text \<open>The dispatcher of a server as \<open>New\<close> makes it.\<close>

definition builtin :: "options \<Rightarrow> 'b backend \<Rightarrow> 'b dispatcher" where
  "builtin opts be = RegisterAll opts be NewDispatcher"

end
