(* ===== verification/ServerLaws.thy ===== *)
theory ServerLaws
  imports Commands
begin

text \<open>
  Laws of the server core with the built-in handlers and an arbitrary backend: what a command
  line is split into, which commands reach a handler, that each command is answered by exactly
  one tagged response, that nobody logs in over a connection without TLS, and that the loop
  of a connection ends.
\<close>

section \<open>Command lines\<close>

text \<open>C27. The command line parser is exact: it accepts a line as \<open>tag\<close>, \<open>name\<close> and \<open>rest\<close> if
  and only if tag and name are non-empty words without a space and the line is the tag, a
  space, the name, and then either nothing (and the rest is empty) or a space and the rest.\<close>

theorem parseLine_correct:
  "parseLine line = Inr (tag, name, rest) \<longleftrightarrow>
     tag \<noteq> [] \<and> name \<noteq> [] \<and> SP \<notin> set tag \<and> SP \<notin> set name \<and>
     (line = tag @ SP # name \<and> rest = [] \<or> line = tag @ SP # name @ SP # rest)"
proof
  assume "parseLine line = Inr (tag, name, rest)"
  then obtain i where i: "IndexByte line SP = Some i" and tag: "tag = take i line" "tag \<noteq> []"
    and nm: "(name, rest) = (case IndexByte (drop (i + 1) line) SP of
        None \<Rightarrow> (drop (i + 1) line, []) | Some j \<Rightarrow> (take j (drop (i + 1) line), drop (j + 1) (drop (i + 1) line)))"
      "name \<noteq> []"
    by (auto simp: parseLine_def Let_def split: if_splits option.splits prod.splits)
  from IndexByte_Some [OF i] have l: "line = tag @ SP # drop (i + 1) line" "SP \<notin> set tag"
    using tag(1) id_take_nth_drop [of i line] by auto
  show "tag \<noteq> [] \<and> name \<noteq> [] \<and> SP \<notin> set tag \<and> SP \<notin> set name \<and>
     (line = tag @ SP # name \<and> rest = [] \<or> line = tag @ SP # name @ SP # rest)"
  proof (cases "IndexByte (drop (i + 1) line) SP")
    case None
    then show ?thesis using nm l tag(2) IndexByte_None [of "drop (i + 1) line" SP] by auto
  next
    case (Some j)
    from IndexByte_Some [OF Some] have "drop (i + 1) line = name @ SP # rest" "SP \<notin> set name"
      using nm Some id_take_nth_drop [of j "drop (i + 1) line"] by auto
    then show ?thesis using nm(2) l tag(2) by auto
  qed
next
  assume a: "tag \<noteq> [] \<and> name \<noteq> [] \<and> SP \<notin> set tag \<and> SP \<notin> set name \<and>
     (line = tag @ SP # name \<and> rest = [] \<or> line = tag @ SP # name @ SP # rest)"
  then consider "line = tag @ SP # name" "rest = []" | "line = tag @ SP # name @ SP # rest" by auto
  then show "parseLine line = Inr (tag, name, rest)"
  proof cases
    case 1
    have "IndexByte line SP = Some (length tag)" using a 1 IndexByte_append by blast
    moreover have "IndexByte name SP = None" using a by (simp add: IndexByte_None)
    ultimately show ?thesis using a 1 by (simp add: parseLine_def)
  next
    case 2
    have "IndexByte line SP = Some (length tag)" using a 2 IndexByte_append by blast
    moreover have "IndexByte (name @ SP # rest) SP = Some (length name)" using a IndexByte_append by blast
    ultimately show ?thesis using a 2 by (simp add: parseLine_def)
  qed
qed

section \<open>Commands and states\<close>

text \<open>The handler that a command line reaches, with its context, and the state it needs.\<close>

definition gate :: "'b dispatcher \<Rightarrow> string \<Rightarrow> 'b conn \<Rightarrow> bool" where
  "gate d upper c \<longleftrightarrow>
     (case CommandAllowedStates upper of None \<Rightarrow> True | Some allowed \<Rightarrow> cur (c_machine c) \<in> set allowed)"

lemma RequireState_None: "RequireState m allowed = None \<longleftrightarrow> cur m \<in> set allowed"
  by (auto simp: RequireState_def list_ex_iff)

lemma dispatch_cases:
  obtains (bad) msg where "dispatch d tag name rest c = Finished None (WriteBAD tag msg c)"
  | (handled) kind upper args h where "uid_prefix (ToUpper name) rest = Some (kind, upper, args)"
      "Dispatcher_Get d upper = Some h" "gate d upper c"
      "dispatch d tag name rest c =
        respond tag (h \<lparr>cx_Tag = tag, cx_Name = upper, cx_NumKind = kind,
          cx_Decoder = (if args \<noteq> [] then Some args else None)\<rparr> c)"
proof (cases "uid_prefix (ToUpper name) rest")
  case None
  then show ?thesis by (intro bad) (simp add: dispatch_def)
next
  case (Some p)
  obtain kind upper args where p: "p = (kind, upper, args)" by (cases p)
  show ?thesis
  proof (cases "Dispatcher_Get d upper")
    case None
    show ?thesis
    proof (cases "CommandAllowedStates upper")
      case None
      then show ?thesis using Some p \<open>Dispatcher_Get d upper = None\<close> by (intro bad) (simp add: dispatch_def)
    next
      case (Some allowed)
      then show ?thesis
        using \<open>uid_prefix (ToUpper name) rest = Some p\<close> p \<open>Dispatcher_Get d upper = None\<close> bad
        by (cases "RequireState (c_machine c) allowed") (auto simp: dispatch_def)
    qed
  next
    case (Some h)
    note h = this
    show ?thesis
    proof (cases "gate d upper c")
      case True
      have "(case CommandAllowedStates upper of None \<Rightarrow> None
          | Some allowed \<Rightarrow> map_option require_error (RequireState (c_machine c) allowed)) = None"
        using True RequireState_None [of "c_machine c"] by (auto simp: gate_def split: option.splits)
      then show ?thesis
        using \<open>uid_prefix (ToUpper name) rest = Some p\<close> p h True
        by (intro handled [of kind upper args h]) (auto simp: dispatch_def Let_def split: option.splits)
    next
      case False
      then obtain allowed where "CommandAllowedStates upper = Some allowed" "cur (c_machine c) \<notin> set allowed"
        by (auto simp: gate_def split: option.splits)
      moreover from this obtain s where "RequireState (c_machine c) allowed = Some s"
        using RequireState_None by fastforce
      ultimately show ?thesis
        using \<open>uid_prefix (ToUpper name) rest = Some p\<close> p h by (intro bad) (simp add: dispatch_def)
    qed
  qed
qed

text \<open>C13. Commands are gated by the state of the connection: a command that the table does not
  allow in the current state, with or without the UID prefix, never reaches a handler; the
  connection and the session stay as they are and the client gets one BAD response.\<close>

theorem state_gating:
  assumes "uid_prefix (ToUpper name) rest = Some (kind, upper, args)"
    and "CommandAllowedStates upper = Some allowed" "Conn_State c \<notin> set allowed"
  shows "dispatch d tag name rest c = Finished None (WriteBAD tag (require_error (Conn_State c)) c)"
proof -
  have "RequireState (c_machine c) allowed = Some (cur (c_machine c))"
    using assms(3) by (auto simp: RequireState_def Conn_State_def State_def list_ex_iff)
  then show ?thesis using assms by (simp add: dispatch_def Conn_State_def State_def)
qed

theorem state_gating_witness:
  "\<forall>opts be. dispatch (builtin opts be) ''a1'' ''uid'' ''fetch 1 (FLAGS)'' (newConn [] True :: unit conn) =
     Finished None (WriteBAD ''a1'' ''imap: command not allowed in not authenticated state'' (newConn [] True))"
proof (intro allI)
  fix opts and be :: "unit backend"
  have "uid_prefix (ToUpper ''uid'') ''fetch 1 (FLAGS)'' = Some (NumKindUID, ''FETCH'', ''1 (FLAGS)'')" by code_simp
  moreover have "CommandAllowedStates ''FETCH'' = Some [Selected]" by code_simp
  moreover have "Conn_State (newConn [] True :: unit conn) \<notin> set [Selected]"
    by (simp add: Conn_State_def newConn_def New_def State_def)
  ultimately have "dispatch (builtin opts be) ''a1'' ''uid'' ''fetch 1 (FLAGS)'' (newConn [] True :: unit conn) =
      Finished None (WriteBAD ''a1'' (require_error (Conn_State (newConn [] True :: unit conn))) (newConn [] True))"
    by (rule state_gating)
  then show "dispatch (builtin opts be) ''a1'' ''uid'' ''fetch 1 (FLAGS)'' (newConn [] True :: unit conn) =
     Finished None (WriteBAD ''a1'' ''imap: command not allowed in not authenticated state'' (newConn [] True))"
    by (simp add: Conn_State_def newConn_def New_def State_def require_error_def)
qed

lemma uid_prefix_upper: "uid_prefix (ToUpper name) rest = Some (kind, upper, args) \<Longrightarrow> ToUpper upper = upper"
  by (auto simp: uid_prefix_def split: if_splits prod.splits)

lemma RegisterAll_Some:
  "foldl (\<lambda>d (name, h). Dispatcher_Register name h d) d xs k = Some h \<Longrightarrow>
     (\<exists>n. (n, h) \<in> set xs \<and> ToUpper n = k) \<or> d k = Some h"
proof (induction xs arbitrary: d)
  case (Cons x xs)
  obtain n h' where x: "x = (n, h')" by (cases x)
  from Cons.prems have "foldl (\<lambda>d (name, h). Dispatcher_Register name h d) (Dispatcher_Register n h' d) xs k = Some h"
    by (simp add: x)
  from Cons.IH [OF this] show ?case by (auto simp: x Dispatcher_Register_def split: if_splits)
qed simp

lemma builtin_names_upper: "\<forall>n \<in> set (map fst (builtin_handlers opts be)). ToUpper n = n"
  by (simp add: builtin_handlers_def ToUpper_def upper_char_def is_lower_def)

lemma builtin_Some:
  assumes "Dispatcher_Get (builtin opts be) upper = Some h"
  shows "(ToUpper upper, h) \<in> set (builtin_handlers opts be)"
proof -
  from assms obtain n where "(n, h) \<in> set (builtin_handlers opts be)" "ToUpper n = ToUpper upper"
    unfolding Dispatcher_Get_def builtin_def RegisterAll_def NewDispatcher_def
    by (auto dest: RegisterAll_Some)
  then show ?thesis using builtin_names_upper [of opts be] by force
qed

text \<open>The handlers that leave the state of the connection and its input alone, and the others.\<close>

definition quiet_handlers :: "options \<Rightarrow> 'b backend \<Rightarrow> 'b handler list" where
  "quiet_handlers opts be =
     [Capability opts, Noop, Enable opts, Create be, Delete be, Rename be, Subscribe be, Unsubscribe be,
      List_cmd be, Lsub be, Status be, Expunge be, Search opts be, Fetch opts be, Store be, Copy be]"

lemma builtin_cases:
  assumes "(name, h) \<in> set (builtin_handlers opts be)"
  shows "h \<in> set (quiet_handlers opts be) \<or> name = ''LOGOUT'' \<and> h = Logout_cmd \<or> name = ''STARTTLS'' \<and> h = StartTLS opts \<or>
    name = ''LOGIN'' \<and> h = Login opts be \<or> name = ''SELECT'' \<and> h = Select be \<or> name = ''EXAMINE'' \<and> h = Examine be \<or>
    name = ''APPEND'' \<and> h = Append opts be \<or> name = ''IDLE'' \<and> h = Idle opts be \<or>
    name = ''CLOSE'' \<and> h = Close be \<or> name = ''UNSELECT'' \<and> h = Unselect be"
  using assms unfolding builtin_handlers_def
  by (simp only: set_simps insert_iff empty_iff, elim disjE) (simp_all add: quiet_handlers_def)

section \<open>Invariants of connections\<close>

definition keeps :: "('b conn \<Rightarrow> bool) \<Rightarrow> 'b cont \<Rightarrow> bool" where
  "keeps I k \<longleftrightarrow> (\<forall>c e c'. I c \<longrightarrow> k c = Finished e c' \<longrightarrow> I c')"

lemma keepsI: "(\<And>c e c'. I c \<Longrightarrow> k c = Finished e c' \<Longrightarrow> I c') \<Longrightarrow> keeps I k"
  unfolding keeps_def by blast

lemma keepsD: "keeps I k \<Longrightarrow> I c \<Longrightarrow> k c = Finished e c' \<Longrightarrow> I c'"
  unfolding keeps_def by blast

text \<open>An invariant that no response, no call of the session, no selection and no ENABLE breaks
  is kept by every handler that neither changes the state nor reads from the connection.\<close>

locale conn_invariant =
  fixes I :: "'b conn \<Rightarrow> bool"
  assumes I_emit: "I c \<Longrightarrow> I (emit s c)"
    and I_session: "I c \<Longrightarrow> I (c\<lparr>c_session := Some b, c_output := out\<rparr>)"
    and I_mailbox: "I c \<Longrightarrow> I (SetMailbox n r c)"
    and I_enabled: "I c \<Longrightarrow> I (c\<lparr>c_enabled := caps\<rparr>)"
begin

lemma keeps_fail: "keeps I (fail e)"
  by (simp add: keeps_def fail_def)

lemma keeps_hangs: "keeps I (\<lambda>_. Hangs)"
  by (simp add: keeps_def)

lemma keeps_finished: "(\<And>c. I c \<Longrightarrow> I (f c)) \<Longrightarrow> keeps I (\<lambda>c. Finished e (f c))"
  by (simp add: keeps_def)

lemma keeps_return_ok: "keeps I (return_ok ctx msg)"
  by (simp add: keeps_def return_ok_def WriteOK_def I_emit)

lemma keeps_emit: "keeps I k \<Longrightarrow> keeps I (\<lambda>c. k (emit s c))"
  unfolding keeps_def using I_emit by blast

lemma keeps_ask:
  assumes "\<And>x. keeps I (k x)"
  shows "keeps I (ask m k)"
proof (rule keepsI)
  fix c e c'
  assume a: "I c" "ask m k c = Finished e c'"
  obtain b where b: "c_session c = Some b" using a(2) by (cases "c_session c") (auto simp: ask_def)
  obtain r out b' where m: "m b = (r, out, b')" by (cases "m b")
  let ?c = "c\<lparr>c_session := Some b', c_output := c_output c @ out\<rparr>"
  have "I ?c" by (rule I_session [OF a(1)])
  then show "I c'"
    using a(2) keepsD [OF assms] by (cases r) (auto simp: ask_def b m fail_def)
qed

lemma keeps_with_args: "(\<And>inp. keeps I (k inp)) \<Longrightarrow> keeps I (with_args ctx msg k)"
  by (auto simp: with_args_def keeps_fail split: option.split)

lemma keeps_read_arg: "(\<And>x inp. keeps I (k x inp)) \<Longrightarrow> keeps I (read_arg d msg k inp)"
  by (auto simp: read_arg_def keeps_fail split: prod.split sum.split)

lemma keeps_read_loop: "(\<And>x inp. keeps I (k x inp)) \<Longrightarrow> keeps I (read_loop d msg k inp)"
  by (auto simp: read_loop_def keeps_fail keeps_hangs split: prod.split sum.split option.split)

lemma keeps_read_numset: "(\<And>x inp. keeps I (k x inp)) \<Longrightarrow> keeps I (read_numset ctx k inp)"
  unfolding read_numset_def by (rule keeps_read_arg) (auto simp: keeps_fail split: sum.split)

lemmas keeps_rules =
  keeps_fail keeps_return_ok keeps_emit keeps_ask keeps_with_args keeps_read_arg keeps_read_loop keeps_read_numset

lemma keeps_mailbox_command: "keeps I (mailbox_command m msg ctx)"
  unfolding mailbox_command_def by (intro keeps_rules)

lemma keeps_list_command: "keeps I (list_command be lopts msg ctx)"
  unfolding list_command_def by (intro keeps_rules)

lemma keeps_Store: "keeps I (Store be ctx)"
  unfolding Store_def
  by (intro keeps_with_args keeps_read_numset keeps_read_arg)
    (auto simp: Let_def split: option.split intro!: keeps_rules)

lemma keeps_Search: "keeps I (Search opts be ctx)"
  unfolding Search_def
  by (intro keeps_with_args)
    (auto simp: keeps_hangs split: option.split prod.split sum.split intro!: keeps_rules)

lemma keeps_copy_ok: "keeps I (copy_ok ctx data)"
  by (auto simp: copy_ok_def WriteOKCode_def split: option.split intro!: keeps_return_ok keeps_finished I_emit)

lemma keeps_Expunge: "keeps I (Expunge be ctx)"
  unfolding Expunge_def Let_def
  by (auto intro!: keeps_rules split: sum.split)

lemma keeps_Enable: "keeps I (Enable opts ctx)"
  unfolding Enable_def Let_def
  by (intro keeps_with_args keepsI)
    (auto simp: fail_def return_ok_def WriteOK_def split: if_splits intro!: I_emit I_enabled)

lemma keeps_Capability: "keeps I (Capability opts ctx)"
  by (auto simp: Capability_def keeps_def return_ok_def WriteOK_def WriteCapabilities_def intro!: I_emit)

lemma keeps_quiet:
  assumes "h \<in> set (quiet_handlers opts be)"
  shows "keeps I (h ctx)"
proof -
  have "keeps I (Noop ctx)" "keeps I (Create be ctx)" "keeps I (Delete be ctx)" "keeps I (Rename be ctx)"
    "keeps I (Subscribe be ctx)" "keeps I (Unsubscribe be ctx)" "keeps I (List_cmd be ctx)" "keeps I (Lsub be ctx)"
    "keeps I (Status be ctx)" "keeps I (Fetch opts be ctx)" "keeps I (Copy be ctx)"
    unfolding Noop_def Create_def Delete_def Rename_def Subscribe_def Unsubscribe_def List_cmd_def Lsub_def Status_def
      Fetch_def Copy_def Let_def
    by (intro keeps_rules keeps_mailbox_command keeps_list_command keeps_copy_ok)+
  then show ?thesis
    using assms keeps_Store keeps_Search keeps_Expunge keeps_Enable keeps_Capability
    by (auto simp: quiet_handlers_def)
qed

end

text \<open>If reading from the connection does not break it either, APPEND and IDLE keep it.\<close>

lemma suffix_ReadLine: "suffix (snd (ReadLine inp)) inp"
proof -
  have "suffix (dropWhile (\<lambda>c. c \<noteq> LF) inp) inp" by (rule suffix_dropWhile)
  then show ?thesis
    by (cases "dropWhile (\<lambda>c. c \<noteq> LF) inp") (auto simp: ReadLine_def Let_def dest: suffix_ConsD)
qed

lemma suffix_idle_read: "suffix (snd (idle_read inp)) inp"
proof (induction inp rule: idle_read.induct)
  case (1 inp)
  obtain r rest where r: "ReadLine inp = (r, rest)" by (cases "ReadLine inp")
  then have s: "suffix rest inp" using suffix_ReadLine [of inp] by simp
  show ?case
  proof (cases r)
    case (Inl e)
    then have "idle_read inp = (Some e, rest)" by (simp add: idle_read.simps [of inp] r)
    then show ?thesis using s by simp
  next
    case (Inr line)
    then have eq: "idle_read inp = (if EqualFold (TrimSpace line) ''DONE'' then (None, rest) else idle_read rest)"
      by (simp add: idle_read.simps [of inp] r)
    show ?thesis
    proof (cases "EqualFold (TrimSpace line) ''DONE''")
      case False
      have "suffix (snd (idle_read rest)) rest" by (rule 1 [OF r [symmetric] Inr False])
      then show ?thesis using eq False suffix_order.order_trans [OF _ s] by simp
    qed (use eq s in simp)
  qed
qed

locale conn_input_invariant = conn_invariant +
  assumes I_input: "I c \<Longrightarrow> suffix inp (c_input c) \<Longrightarrow> I (c\<lparr>c_input := inp\<rparr>)"
begin

lemma keeps_append_literal: "keeps I (append_literal opts be ctx mailbox flags t inp)"
proof (rule keepsI)
  fix c e c'
  assume a: "I c" "append_literal opts be ctx mailbox flags t inp c = Finished e c'"
  have ask: "keeps I (ask m (append_ok ctx))" for m
    by (intro keeps_ask)
      (auto simp: append_ok_def WriteOKCode_def split: option.split intro!: keeps_return_ok keeps_finished I_emit)
  show "I c'"
  proof (cases "readLiteralSize inp")
    case (Inl err)
    then show ?thesis using a by (simp add: append_literal_def fail_def)
  next
    case (Inr p)
    obtain n bin where p: "p = (n, bin)" by (cases p)
    have "I (c\<lparr>c_input := drop (nat n) (c_input c)\<rparr>)" by (rule I_input [OF a(1)]) (simp add: suffix_drop)
    moreover have "ask (be_Append be mailbox (take (nat n) (c_input c))
        \<lparr>ao_Flags = flags, ao_InternalDate = t, ao_Binary = bin, ao_UTF8 = False\<rparr>) (append_ok ctx)
        (c\<lparr>c_input := drop (nat n) (c_input c)\<rparr>) = Finished e c'"
      using a(2) Inr p by (simp add: append_literal_def Let_def)
    ultimately show ?thesis by (rule keepsD [OF ask])
  qed
qed

lemma keeps_Append: "keeps I (Append opts be ctx)"
proof -
  have date: "keeps I (append_date opts b (\<lambda>t. append_literal opts be ctx mailbox flags t) inp)" for b mailbox flags inp
    unfolding append_date_def
    by (auto intro!: keeps_read_arg keeps_fail keeps_append_literal split: option.split)
  have "keeps I (append_flags (\<lambda>flags b. append_date opts b (\<lambda>t. append_literal opts be ctx mailbox flags t)) inp)" for mailbox inp
    unfolding append_flags_def by (intro keeps_read_arg) (auto intro!: keeps_read_loop keeps_read_arg date)
  then show ?thesis unfolding Append_def by (intro keeps_rules)
qed

lemma keeps_Idle: "keeps I (Idle opts be ctx)"
proof (rule keepsI)
  fix c e c'
  assume a: "I c" "Idle opts be ctx c = Finished e c'"
  let ?c = "WriteContinuation ''idling'' c"
  obtain readErr rest where r: "idle_read (c_input ?c) = (readErr, rest)" by (cases "idle_read (c_input ?c)")
  have inp: "suffix rest (c_input ?c)" using suffix_idle_read [of "c_input ?c"] r by simp
  have "I ?c" using a(1) by (simp add: WriteContinuation_def I_emit)
  then have I1: "I (?c\<lparr>c_input := rest\<rparr>)" using inp by (rule I_input)
  have I2: "I (?c\<lparr>c_input := rest, c_session := Some b, c_output := out\<rparr>)" for b out
    using I_session [OF I1] by simp
  obtain b out s where "c' = ?c\<lparr>c_input := rest, c_session := Some b, c_output := out\<rparr> \<or>
      c' = emit s (?c\<lparr>c_input := rest, c_session := Some b, c_output := out\<rparr>)"
    using a(2) by (auto simp: Idle_def r Let_def fail_def return_ok_def WriteOK_def
        split: option.splits prod.splits ret.splits)
  then show "I c'" using I2 [of out b] I_emit [OF I2 [of out b], of s] by (elim disjE) simp_all
qed

end

text \<open>If nothing breaks it but the loss of TLS, every built-in handler keeps it.\<close>

locale conn_machine_invariant = conn_input_invariant +
  assumes I_machine: "I c \<Longrightarrow> s \<noteq> NotAuthenticated \<Longrightarrow> Transition (c_machine c) s () = (r, m, w) \<Longrightarrow> I (c\<lparr>c_machine := m\<rparr>)"
    and I_tls: "I c \<Longrightarrow> \<not> c_isTLS c \<Longrightarrow> I (c\<lparr>c_input := inp, c_isTLS := True\<rparr>)"
begin

lemma keeps_set_state:
  assumes "s \<noteq> NotAuthenticated" "keeps I k"
  shows "keeps I (set_state s k)"
proof (rule keepsI)
  fix c e c'
  assume a: "I c" "set_state s k c = Finished e c'"
  obtain r m w where t: "Transition (c_machine c) s () = (r, m, w)" by (cases "Transition (c_machine c) s ()")
  have "I (c\<lparr>c_machine := m\<rparr>)" by (rule I_machine [OF a(1) assms(1) t])
  then show "I c'" using a(2) keepsD [OF assms(2)]
    by (cases r) (auto simp: set_state_def Conn_SetState_def t fail_def)
qed

lemma keeps_foldl_emit: "I c \<Longrightarrow> I (foldl (\<lambda>c s. emit s c) c ss)"
  by (induction ss arbitrary: c) (auto intro: I_emit)

lemma keeps_handleSelect: "keeps I (handleSelect ro be ctx)"
proof -
  have fin: "keeps I (\<lambda>c. Finished None (WriteOKCode t code msg c))" for t code msg
    by (rule keeps_finished) (simp add: WriteOKCode_def I_emit)
  have "keeps I (\<lambda>c. set_state Selected (\<lambda>c. Finished None (WriteOKCode t code msg c))
      (SetMailbox mailbox r (foldl (\<lambda>c s. emit s c) c ss)))" for t code msg mailbox r ss
    by (rule keepsI, erule keepsD [OF keeps_set_state [OF _ fin], rotated 2]) (simp, intro I_mailbox keeps_foldl_emit)
  then show ?thesis
    unfolding handleSelect_def Let_def by (intro keeps_with_args keeps_read_arg keeps_ask)
qed

lemma keeps_leave: "keeps I (leave be msg ctx)"
proof -
  have "keeps I (\<lambda>c. set_state Authenticated (return_ok ctx msg) (SetMailbox [] False c))"
    by (rule keepsI, erule keepsD [OF keeps_set_state [OF _ keeps_return_ok], rotated 2]) (simp, rule I_mailbox)
  then show ?thesis unfolding leave_def by (intro keeps_ask)
qed

lemma keeps_StartTLS: "keeps I (StartTLS opts ctx)"
proof (rule keepsI)
  fix c e c'
  assume a: "I c" "StartTLS opts ctx c = Finished e c'"
  let ?c = "WriteOK (cx_Tag ctx) ''Begin TLS negotiation now'' c"
  have I1: "I ?c" using a(1) by (simp add: WriteOK_def I_emit)
  have I2: "\<not> c_isTLS c \<Longrightarrow> I (?c\<lparr>c_input := inp, c_isTLS := True\<rparr>)" for inp
    by (rule I_tls [OF I1]) (simp add: WriteOK_def emit_def)
  consider "c' = c" | "c' = ?c" | inp where "\<not> c_isTLS c" "c' = ?c\<lparr>c_input := inp, c_isTLS := True\<rparr>"
    using a(2) by (cases "c_isTLS c"; cases "o_TLSConfig opts"; cases "o_handshake opts (c_input ?c)")
      (auto simp: StartTLS_def fail_def Let_def UpgradeTLS_def)
  then show "I c'"
  proof cases
    case (3 inp)
    then show ?thesis using I2 [of inp] by simp
  qed (use a(1) I1 in simp_all)
qed

lemma keeps_builtin:
  assumes "(name, h) \<in> set (builtin_handlers opts be)"
  shows "keeps I (h ctx)"
proof -
  have "keeps I (Logout_cmd ctx)"
    unfolding Logout_cmd_def WriteBYE_def by (intro keeps_emit keeps_set_state keeps_return_ok) simp
  moreover have "keeps I (Login opts be ctx)"
  proof (rule keepsI)
    fix c e c'
    assume "I c" "Login opts be ctx c = Finished e c'"
    moreover have "keeps I (with_args ctx ''missing arguments''
        (read_arg ReadAString ''invalid username'' (\<lambda>username.
         read_arg ReadSP ''missing password'' (\<lambda>_.
         read_arg ReadAString ''invalid password'' (\<lambda>password _.
         ask (be_Login be username password) (\<lambda>_.
         set_state Authenticated (return_ok ctx ''LOGIN completed'')))))))"
      by (intro keeps_rules keeps_set_state) simp
    ultimately show "I c'" unfolding Login_def by (auto simp: fail_def dest: keepsD split: if_splits)
  qed
  moreover have "keeps I (Close be ctx)" "keeps I (Unselect be ctx)"
    unfolding Close_def Unselect_def by (intro keeps_ask keeps_leave)+
  moreover have "keeps I (Select be ctx)" "keeps I (Examine be ctx)"
    unfolding Select_def Examine_def by (intro keeps_handleSelect)+
  moreover note keeps_quiet [of h opts be ctx] keeps_Append [of opts be ctx] keeps_Idle [of opts be ctx]
    keeps_StartTLS [of opts ctx]
  ultimately show ?thesis
    using builtin_cases [OF assms] by (elim disjE conjE) simp_all
qed

end

section \<open>The loop ends\<close>

lemma respond_conn:
  assumes "respond tag r = Finished e c'"
  obtains e0 c0 where "r = Finished e0 c0" "c' = c0 \<or> (\<exists>s. c' = emit s c0)"
proof -
  obtain e0 c0 where r: "r = Finished e0 c0" using assms by (cases r) (auto simp: respond_def)
  have "c' = c0 \<or> (\<exists>s. c' = emit s c0)"
    using assms unfolding r
    by (cases e0) (auto simp: respond_def WriteNO_def WriteBYE_def split: go_error.splits status_type.splits)
  with r show ?thesis by (rule that)
qed

text \<open>What a command leaves to do: less to read, or the same with TLS.\<close>

definition shrinks :: "'b conn \<Rightarrow> 'b conn \<Rightarrow> bool" where
  "shrinks c0 c \<longleftrightarrow>
     c_isTLS c = c_isTLS c0 \<and> length (c_input c) \<le> length (c_input c0) \<or> c_isTLS c \<and> \<not> c_isTLS c0"

interpretation shrink: conn_machine_invariant "shrinks c0" for c0 :: "'b conn"
  by unfold_locales (auto simp: shrinks_def emit_def SetMailbox_def dest: suffix_length_le)

lemma dispatch_keeps:
  assumes "\<And>name h ctx. (name, h) \<in> set (builtin_handlers opts be) \<Longrightarrow> keeps I (h ctx)" "\<And>c s. I c \<Longrightarrow> I (emit s c)"
    and "I c" "dispatch (builtin opts be) tag name rest c = Finished e c'"
  shows "I c'"
proof (cases rule: dispatch_cases [where d = "builtin opts be" and tag = tag and name = name and rest = rest and c = c])
  case (bad msg)
  then show ?thesis using assms(2-4) by (simp add: WriteBAD_def)
next
  case (handled kind upper args h)
  let ?ctx = "\<lparr>cx_Tag = tag, cx_Name = upper, cx_NumKind = kind, cx_Decoder = (if args \<noteq> [] then Some args else None)\<rparr>"
  obtain e0 c0 where h: "h ?ctx c = Finished e0 c0" "c' = c0 \<or> (\<exists>s. c' = emit s c0)"
    using assms(4) handled(4) by (metis respond_conn)
  have "I c0" using keepsD [OF assms(1) [OF builtin_Some [OF handled(2)]] assms(3) h(1)] .
  then show ?thesis using h(2) assms(2) by blast
qed

definition work :: "'b conn \<Rightarrow> nat \<times> nat" where
  "work c = ((if c_isTLS c then 0 else 1), length (c_input c))"

lemma readAndHandle_work:
  assumes "readAndHandle (builtin opts be) c = Finished None c'"
  shows "(work c', work c) \<in> less_than <*lex*> less_than"
proof -
  obtain line inp where l: "ReadLine (c_input c) = (Inr line, inp)"
    using assms by (cases "ReadLine (c_input c)"; cases "fst (ReadLine (c_input c))") (auto simp: readAndHandle_def)
  let ?c = "c\<lparr>c_input := inp\<rparr>"
  have "shrinks ?c c'"
  proof (cases "parseLine line")
    case (Inl err)
    then show ?thesis using assms l by (auto simp: readAndHandle_def Let_def WriteBAD_def emit_def shrinks_def)
  next
    case (Inr p)
    obtain tag name rest where "p = (tag, name, rest)" by (cases p)
    then have "dispatch (builtin opts be) tag name rest ?c = Finished None c'"
      using assms l Inr by (simp add: readAndHandle_def Let_def)
    moreover have "shrinks ?c ?c" by (simp add: shrinks_def)
    ultimately show ?thesis
      using dispatch_keeps [of opts be "shrinks ?c"] shrink.keeps_builtin shrink.I_emit by blast
  qed
  then show ?thesis using ReadLine_shorter [OF l] by (auto simp: work_def shrinks_def)
qed

lemma serve_loop_returns: "\<exists>r. serve_loop (builtin opts be) c = Some r"
proof (induction c rule: wf_induct_rule [OF wf_inv_image [OF wf_lex_prod [OF wf_less_than wf_less_than]], of work])
  case (1 c)
  show ?case
  proof (cases "readAndHandle (builtin opts be) c")
    case (Finished e c')
    show ?thesis
    proof (cases e)
      case None
      then have "(c', c) \<in> inv_image (less_than <*lex*> less_than) work"
        using readAndHandle_work Finished by (simp only: in_inv_image) blast
      then obtain r where "serve_loop (builtin opts be) c' = Some r" using 1 by blast
      then show ?thesis using None Finished by (subst serve_loop.simps) simp
    next
      case (Some err)
      then show ?thesis using Finished by (subst serve_loop.simps) simp
    qed
  qed (subst serve_loop.simps, simp)+
qed

text \<open>C6. A connection does not spin: on every input of the client the loop that serves it comes
  to an end, by the end of the input, by LOGOUT, by an error that ends the connection, or in a
  handler that panics or hangs; unless it is such a handler the connection is closed.\<close>

theorem handleConn_returns:
  "\<exists>r. handleConn opts closeSession (builtin opts be) newSession inp isTLS = Some r \<and>
     (case r of Finished e c \<Rightarrow> c_closed c | Crashed p \<Rightarrow> True | Hangs \<Rightarrow> True)"
proof -
  have closed: "c_closed (Conn_Close f c)" for f and c :: "'a conn" by (simp add: Conn_Close_def)
  have serve: "\<exists>r. serve opts closeSession (builtin opts be) c = Some r \<and>
      (case r of Finished e c \<Rightarrow> c_closed c | Crashed p \<Rightarrow> True | Hangs \<Rightarrow> True)" for c :: "'a conn"
  proof -
    obtain r where "serve_loop (builtin opts be) (writeGreeting opts c) = Some r" using serve_loop_returns by blast
    then show ?thesis by (cases r) (simp_all add: serve_def close_result_def closed)
  qed
  show ?thesis
  proof (cases newSession)
    case None
    then show ?thesis using serve by (simp add: handleConn_def Let_def)
  next
    case (Some s)
    then show ?thesis using serve by (cases s) (simp_all add: handleConn_def Let_def closed)
  qed
qed

section \<open>Login needs TLS\<close>

definition secured :: "options \<Rightarrow> 'b conn \<Rightarrow> bool" where
  "secured opts c \<longleftrightarrow> c_isTLS c \<or> o_AllowInsecureAuth opts"

interpretation secure: conn_machine_invariant "secured opts" for opts
  by unfold_locales (auto simp: secured_def emit_def SetMailbox_def)

definition tls_guarded :: "options \<Rightarrow> 'b conn \<Rightarrow> bool" where
  "tls_guarded opts c \<longleftrightarrow> Conn_State c \<in> {Authenticated, Selected} \<longrightarrow> secured opts c"

text \<open>The handlers that a client can reach before it has logged in.\<close>

lemma pre_auth_handlers:
  assumes "(name, h) \<in> set (builtin_handlers opts be)" "gate d name c" "Conn_State c \<notin> {Authenticated, Selected}"
  shows "h \<in> {Capability opts, Noop, Logout_cmd, StartTLS opts, Login opts be}"
proof -
  have "\<exists>allowed. CommandAllowedStates name = Some allowed \<and> cur (c_machine c) \<in> set allowed"
    using assms(1,2) unfolding builtin_handlers_def
    by (simp only: set_simps insert_iff empty_iff, elim disjE) (simp_all add: gate_def CommandAllowedStates_def)
  then show ?thesis
    using assms(1,3) unfolding builtin_handlers_def
    by (simp only: set_simps insert_iff empty_iff, elim disjE)
      (auto simp: CommandAllowedStates_def Conn_State_def State_def)
qed

lemma Transition_cur:
  assumes "Transition m s w = (r, m', w')"
  shows "cur m' = cur m \<or> cur m' = s"
  using assms by (cases rule: Transition_cases) auto

lemma pre_auth_guarded:
  assumes "h \<in> {Capability opts, Noop, Logout_cmd, StartTLS opts, Login opts be}"
    and "Conn_State c \<notin> {Authenticated, Selected}" "\<not> secured opts c" "h ctx c = Finished e c'"
  shows "Conn_State c' \<notin> {Authenticated, Selected}"
proof -
  have "cur (c_machine c') = cur (c_machine c) \<or> cur (c_machine c') = Logout"
    using assms(1)
  proof (elim insertE emptyE)
    assume h: "h = Logout_cmd"
    obtain r m w where t: "Transition (c_machine c) Logout () = (r, m, w)" by (cases "Transition (c_machine c) Logout ()")
    have "c_machine c' = m"
      using assms(4) t by (cases r) (auto simp: h Logout_cmd_def set_state_def Conn_SetState_def WriteBYE_def emit_def
          fail_def return_ok_def WriteOK_def)
    then show ?thesis using Transition_cur [OF t] by simp
  next
    assume "h = StartTLS opts"
    then show ?thesis using assms(4)
      by (auto simp: StartTLS_def fail_def Let_def UpgradeTLS_def WriteOK_def emit_def split: if_splits option.splits)
  next
    assume "h = Login opts be"
    then show ?thesis using assms(3,4) by (auto simp: Login_def fail_def secured_def)
  qed (use assms(4) in \<open>auto simp: Capability_def Noop_def return_ok_def WriteOK_def WriteCapabilities_def emit_def\<close>)
  then show ?thesis using assms(2) by (auto simp: Conn_State_def State_def)
qed

lemma tls_guarded_emit: "tls_guarded opts (emit s c) \<longleftrightarrow> tls_guarded opts c"
  by (simp add: tls_guarded_def Conn_State_def secured_def emit_def)

lemma dispatch_guarded:
  assumes "tls_guarded opts c" "dispatch (builtin opts be) tag name rest c = Finished e c'"
  shows "tls_guarded opts c'"
proof (cases "secured opts c")
  case True
  have "secured opts c'"
    by (rule dispatch_keeps [where I = "secured opts", OF _ _ True assms(2)])
      (erule secure.keeps_builtin, erule secure.I_emit)
  then show ?thesis by (simp add: tls_guarded_def)
next
  case False
  then have ns: "Conn_State c \<notin> {Authenticated, Selected}" using assms(1) by (auto simp: tls_guarded_def)
  show ?thesis
  proof (cases rule: dispatch_cases [where d = "builtin opts be" and tag = tag and name = name and rest = rest and c = c])
    case (bad msg)
    then show ?thesis using assms by (simp add: WriteBAD_def tls_guarded_emit)
  next
    case (handled kind upper args h)
    let ?ctx = "\<lparr>cx_Tag = tag, cx_Name = upper, cx_NumKind = kind, cx_Decoder = (if args \<noteq> [] then Some args else None)\<rparr>"
    have "(upper, h) \<in> set (builtin_handlers opts be)"
      using builtin_Some [OF handled(2)] uid_prefix_upper [OF handled(1)] by simp
    from pre_auth_handlers [OF this handled(3) ns]
    have h: "h \<in> {Capability opts, Noop, Logout_cmd, StartTLS opts, Login opts be}" .
    obtain e0 c0 where r: "h ?ctx c = Finished e0 c0" "c' = c0 \<or> (\<exists>s. c' = emit s c0)"
      using assms(2) handled(4) by (metis respond_conn)
    have "tls_guarded opts c0" using pre_auth_guarded [OF h ns False r(1)] by (simp add: tls_guarded_def)
    then show ?thesis using r(2) tls_guarded_emit by blast
  qed
qed

text \<open>One command read and handled.\<close>

definition conn_step :: "options \<Rightarrow> 'b backend \<Rightarrow> 'b conn \<Rightarrow> 'b conn \<Rightarrow> bool" where
  "conn_step opts be c c' \<longleftrightarrow> (\<exists>e. readAndHandle (builtin opts be) c = Finished e c')"

lemma conn_step_cases:
  assumes "conn_step opts be c c'"
  obtains (quit) inp where "c' = c\<lparr>c_input := inp\<rparr>"
  | (bad) inp msg where "c' = WriteBAD ''*'' msg (c\<lparr>c_input := inp\<rparr>)"
  | (command) line inp tag name rest e where "ReadLine (c_input c) = (Inr line, inp)" "parseLine line = Inr (tag, name, rest)"
      "dispatch (builtin opts be) tag name rest (c\<lparr>c_input := inp\<rparr>) = Finished e c'"
proof -
  obtain e where e: "readAndHandle (builtin opts be) c = Finished e c'" using assms unfolding conn_step_def by blast
  obtain r inp where r: "ReadLine (c_input c) = (r, inp)" by (cases "ReadLine (c_input c)")
  show ?thesis
  proof (cases r)
    case (Inl err)
    then show ?thesis using e r by (intro quit) (auto simp: readAndHandle_def)
  next
    case (Inr line)
    show ?thesis
    proof (cases "parseLine line")
      case (Inl err)
      then show ?thesis using e r Inr by (intro bad) (auto simp: readAndHandle_def Let_def)
    next
      case (Inr p)
      obtain tag name rest where "p = (tag, name, rest)" by (cases p)
      then show ?thesis
        using e r \<open>r = Inr line\<close> Inr by (intro command [of line inp tag name rest e]) (auto simp: readAndHandle_def Let_def)
    qed
  qed
qed

interpretation login_guard: transition_system "\<lambda>c. Conn_State c = NotAuthenticated" "conn_step opts be" "tls_guarded opts"
  for opts and be :: "'b backend"
proof unfold_locales
  show "Conn_State s = NotAuthenticated \<Longrightarrow> tls_guarded opts s" for s :: "'b conn" by (simp add: tls_guarded_def)
  fix s t :: "'b conn"
  assume a: "tls_guarded opts s" "conn_step opts be s t"
  have inp: "tls_guarded opts (s\<lparr>c_input := inp\<rparr>)" for inp
    using a(1) by (simp add: tls_guarded_def Conn_State_def secured_def)
  from a(2) show "tls_guarded opts t"
    by (cases rule: conn_step_cases) (use inp dispatch_guarded [OF inp] in \<open>auto simp: WriteBAD_def tls_guarded_emit\<close>)
qed

text \<open>C14. Nobody logs in without TLS: whatever lines a client sends over a connection, and
  whatever the backend does, the connection is authenticated or has a mailbox selected only if
  it uses TLS or the server allows insecure authentication.\<close>

theorem login_needs_tls:
  assumes "Conn_State c = NotAuthenticated" "steps (conn_step opts be) c c'"
    and "Conn_State c' = Authenticated \<or> Conn_State c' = Selected"
  shows "c_isTLS c' \<or> o_AllowInsecureAuth opts"
  using login_guard.inv_reachable [OF assms(1,2)] assms(3) by (auto simp: tls_guarded_def secured_def)

text \<open>A server with one user, for examples: every call but Login fails.\<close>

definition example_options :: options where
  "example_options =
     \<lparr>o_Caps = {''IMAP4rev1''}, o_TLSConfig = True, o_GreetingText = ''ready'', o_AllowInsecureAuth = False,
      o_EnableStartTLS = True, o_order = (\<lambda>_. []), o_error_text = (\<lambda>_. ''error''), o_parse_time = (\<lambda>_ _. None),
      o_handshake = Some\<rparr>"

definition refuse :: "(unit, 'a) meth" where
  "refuse b = (Err (ErrNo ''no''), [], b)"

definition example_backend :: "unit backend" where
  "example_backend =
     \<lparr>be_Close = id, be_Login = (\<lambda>u p b. (Ret (), [], b)), be_Select = (\<lambda>_ _. refuse), be_Create = (\<lambda>_ _. refuse),
      be_Delete = (\<lambda>_. refuse), be_Rename = (\<lambda>_ _. refuse), be_Subscribe = (\<lambda>_. refuse), be_Unsubscribe = (\<lambda>_. refuse),
      be_List = (\<lambda>_ _ _. refuse), be_Status = (\<lambda>_ _. refuse), be_Append = (\<lambda>_ _ _. refuse),
      be_Idle = (\<lambda>_ b. Some (Ret (), [], b)), be_Unselect = refuse, be_Expunge = (\<lambda>_. refuse),
      be_Search = (\<lambda>_ _ _. refuse), be_Fetch = (\<lambda>_ _. refuse), be_Store = (\<lambda>_ _ _. refuse), be_Copy = (\<lambda>_ _. refuse)\<rparr>"

definition example_conn :: "bool \<Rightarrow> string \<Rightarrow> unit conn" where
  "example_conn isTLS inp = (newConn inp isTLS)\<lparr>c_session := Some ()\<rparr>"

theorem login_needs_tls_witness:
  "\<exists>c'. steps (conn_step example_options example_backend) (example_conn True ''a LOGIN me pw'') c' \<and>
     Conn_State c' = Authenticated \<and> (c_isTLS c' \<or> o_AllowInsecureAuth example_options)"
proof -
  let ?c = "example_conn True ''a LOGIN me pw''"
  have line: "ReadLine ''a LOGIN me pw'' = (Inr ''a LOGIN me pw'', [])"
    "parseLine ''a LOGIN me pw'' = Inr (''a'', ''LOGIN'', ''me pw'')"
    "uid_prefix (ToUpper ''LOGIN'') ''me pw'' = Some (NumKindSeq, ''LOGIN'', ''me pw'')"
    "CommandAllowedStates ''LOGIN'' = Some [NotAuthenticated]"
    "ReadAString ''me pw'' = (Inr ''me'', '' pw'')" "ReadSP '' pw'' = (Inr (), ''pw'')"
    "ReadAString ''pw'' = (Inr ''pw'', '''')" by code_simp+
  have get: "Dispatcher_Get (builtin example_options example_backend) ''LOGIN'' = Some (Login example_options example_backend)"
    by (simp add: Dispatcher_Get_def builtin_def RegisterAll_def builtin_handlers_def Dispatcher_Register_def ToUpper_def
        upper_char_def is_lower_def)
  have login: "be_Login example_backend u p b = (Ret (), [], b)" for u p b by (simp add: example_backend_def)
  have "\<exists>c'. conn_step example_options example_backend ?c c' \<and> Conn_State c' = Authenticated"
    unfolding conn_step_def readAndHandle_def
    by (simp add: example_conn_def newConn_def line get dispatch_def RequireState_def New_def Login_def with_args_def
        read_arg_def ask_def login set_state_def Conn_SetState_def Transition_def canTransition_def
        DefaultTransitions_def return_ok_def WriteOK_def emit_def respond_def Conn_State_def State_def Let_def)
  then obtain c' where s: "conn_step example_options example_backend ?c c'" "Conn_State c' = Authenticated" by blast
  have "Conn_State ?c = NotAuthenticated" by (simp add: example_conn_def newConn_def New_def Conn_State_def State_def)
  from login_needs_tls [OF this steps_one [where r = "conn_step example_options example_backend", OF s(1)]] s
  show ?thesis using steps_one [where r = "conn_step example_options example_backend", OF s(1)] by blast
qed

end
