(* ===== verification/CallLaws.thy ===== *)
theory CallLaws
  imports ServerLaws
begin

text \<open>
  Which methods of the session each command calls. The state of the session after a command is
  the one before, or the one its own method leaves; CLOSE calls two methods.
\<close>

definition st :: "'a ret \<times> string list \<times> 'b \<Rightarrow> 'b" where
  "st r = snd (snd r)"

inductive calls :: "'b backend \<Rightarrow> string \<Rightarrow> 'b \<Rightarrow> 'b \<Rightarrow> bool" for be where
  no_call: "calls be name b b"
| call_login: "calls be ''LOGIN'' b (st (be_Login be u p b))"
| call_select: "calls be ''SELECT'' b (st (be_Select be mb (zero_select_options False) b))"
| call_examine: "calls be ''EXAMINE'' b (st (be_Select be mb (zero_select_options True) b))"
| call_create: "calls be ''CREATE'' b (st (be_Create be mb co b))"
| call_delete: "calls be ''DELETE'' b (st (be_Delete be mb b))"
| call_rename: "calls be ''RENAME'' b (st (be_Rename be mb mb' b))"
| call_subscribe: "calls be ''SUBSCRIBE'' b (st (be_Subscribe be mb b))"
| call_unsubscribe: "calls be ''UNSUBSCRIBE'' b (st (be_Unsubscribe be mb b))"
| call_list: "calls be ''LIST'' b (st (be_List be ref ps lopts b))"
| call_lsub: "calls be ''LSUB'' b (st (be_List be ref ps lopts b))"
| call_status: "calls be ''STATUS'' b (st (be_Status be mb sopts b))"
| call_append: "calls be ''APPEND'' b (st (be_Append be mb lit aopts b))"
| call_idle: "be_Idle be stop b = Some r \<Longrightarrow> calls be ''IDLE'' b (st r)"
| call_close: "calls be ''CLOSE'' b (st (be_Unselect be (st (be_Expunge be None b))))"
| call_unselect: "calls be ''UNSELECT'' b (st (be_Unselect be b))"
| call_expunge: "calls be ''EXPUNGE'' b (st (be_Expunge be us b))"
| call_search: "calls be ''SEARCH'' b (st (be_Search be kind crit sropts b))"
| call_fetch: "calls be ''FETCH'' b (st (be_Fetch be ns fopts b))"
| call_store: "calls be ''STORE'' b (st (be_Store be ns sf stopts b))"
| call_copy: "calls be ''COPY'' b (st (be_Copy be ns mb b))"

section \<open>Rules\<close>

definition reach :: "('b \<Rightarrow> 'b \<Rightarrow> bool) \<Rightarrow> 'b cont \<Rightarrow> bool" where
  "reach R k \<longleftrightarrow>
     (\<forall>c b e c'. c_session c = Some b \<longrightarrow> k c = Finished e c' \<longrightarrow> (\<exists>b'. c_session c' = Some b' \<and> R b b'))"

lemma reachI:
  "(\<And>c b e c'. c_session c = Some b \<Longrightarrow> k c = Finished e c' \<Longrightarrow> \<exists>b'. c_session c' = Some b' \<and> R b b') \<Longrightarrow> reach R k"
  unfolding reach_def by blast

lemma reachD: "reach R k \<Longrightarrow> c_session c = Some b \<Longrightarrow> k c = Finished e c' \<Longrightarrow> \<exists>b'. c_session c' = Some b' \<and> R b b'"
  unfolding reach_def by blast

lemma reach_fail: "(\<And>b. R b b) \<Longrightarrow> reach R (fail e)"
  by (simp add: reach_def fail_def)

lemma reach_hangs: "reach R (\<lambda>_. Hangs)"
  by (simp add: reach_def)

lemma reach_return_ok: "(\<And>b. R b b) \<Longrightarrow> reach R (return_ok ctx msg)"
  by (simp add: reach_def return_ok_def WriteOK_def emit_def)

lemma reach_ok_code: "(\<And>b. R b b) \<Longrightarrow> reach R (\<lambda>c. Finished None (WriteOKCode t code msg c))"
  by (simp add: reach_def WriteOKCode_def emit_def)

lemma reach_pre:
  assumes "reach R k" "\<forall>c. c_session (f c) = c_session c"
  shows "reach R (\<lambda>c. k (f c))"
  using assms unfolding reach_def by metis

lemma reach_ask_then:
  assumes "\<And>x. reach S (k x)" "\<And>b b'. S (st (m b)) b' \<Longrightarrow> R b b'"
    "\<And>b e. fst (m b) = Err e \<Longrightarrow> R b (st (m b))"
  shows "reach R (ask m k)"
proof (rule reachI)
  fix c b e c'
  assume a: "c_session c = Some b" "ask m k c = Finished e c'"
  obtain r out b' where m: "m b = (r, out, b')" by (cases "m b")
  let ?c = "c\<lparr>c_session := Some b', c_output := c_output c @ out\<rparr>"
  show "\<exists>b'. c_session c' = Some b' \<and> R b b'"
  proof (cases r)
    case (Ret x)
    then have "k x ?c = Finished e c'" using a by (simp add: ask_def m)
    from reachD [OF assms(1) _ this, of b'] obtain b2 where "c_session c' = Some b2" "S b' b2" by auto
    then show ?thesis using assms(2) [of b b2] by (simp add: m st_def)
  next
    case (Err err)
    then have "c' = ?c" using a by (simp add: ask_def m fail_def)
    then show ?thesis using assms(3) [of b err] Err by (simp add: m st_def)
  qed (use a in \<open>simp add: ask_def m\<close>)
qed

lemma reach_ask:
  assumes "\<And>x. reach (=) (k x)" "\<And>b. R b (st (m b))"
  shows "reach R (ask m k)"
  by (rule reach_ask_then [OF assms(1)]) (use assms(2) in auto)

lemma reach_with_args: "(\<And>b. R b b) \<Longrightarrow> (\<And>inp. reach R (k inp)) \<Longrightarrow> reach R (with_args ctx msg k)"
  by (simp add: with_args_def reach_fail split: option.split)

lemma reach_read_arg: "(\<And>b. R b b) \<Longrightarrow> (\<And>x inp. reach R (k x inp)) \<Longrightarrow> reach R (read_arg d msg k inp)"
  by (simp add: read_arg_def reach_fail split: prod.split sum.split)

lemma reach_read_loop: "(\<And>b. R b b) \<Longrightarrow> (\<And>x inp. reach R (k x inp)) \<Longrightarrow> reach R (read_loop d msg k inp)"
  by (simp add: read_loop_def reach_fail reach_hangs split: prod.split sum.split option.split)

lemma reach_read_numset: "(\<And>b. R b b) \<Longrightarrow> (\<And>x inp. reach R (k x inp)) \<Longrightarrow> reach R (read_numset ctx k inp)"
  unfolding read_numset_def by (rule reach_read_arg) (simp_all add: reach_fail split: sum.split)

lemma reach_set_state:
  assumes "\<And>b. R b b" "reach R k"
  shows "reach R (set_state s k)"
proof (rule reachI)
  fix c b e c'
  assume a: "c_session c = Some b" "set_state s k c = Finished e c'"
  obtain r m w where t: "Transition (c_machine c) s () = (r, m, w)" by (cases "Transition (c_machine c) s ()")
  show "\<exists>b'. c_session c' = Some b' \<and> R b b'"
  proof (cases r)
    case None
    then have "k (c\<lparr>c_machine := m\<rparr>) = Finished e c'" using a by (simp add: set_state_def Conn_SetState_def t)
    then show ?thesis using reachD [OF assms(2), of "c\<lparr>c_machine := m\<rparr>" b] a(1) by simp
  next
    case (Some err)
    then have "c' = c\<lparr>c_machine := m\<rparr>" using a by (simp add: set_state_def Conn_SetState_def t fail_def)
    then show ?thesis using assms(1) a(1) by simp
  qed
qed

lemmas reach_rules =
  reach_return_ok reach_set_state reach_ask reach_with_args reach_read_arg reach_read_loop reach_read_numset

section \<open>The commands\<close>

lemma session_emit [simp]: "c_session (emit s c) = c_session c"
  by (simp add: emit_def)

lemma session_foldl_emit [simp]: "c_session (foldl (\<lambda>c s. emit s c) c ss) = c_session c"
  by (induction ss arbitrary: c) simp_all

lemma reach_mailbox_command:
  assumes "\<And>b. R b b" "\<And>mb b. R b (st (m mb b))"
  shows "reach R (mailbox_command m msg ctx)"
  unfolding mailbox_command_def by (intro reach_rules assms refl)

lemma reach_list_command:
  assumes "\<And>b. R b b" "\<And>ref ps b. R b (st (be_List be ref ps lopts b))"
  shows "reach R (list_command be lopts msg ctx)"
  unfolding list_command_def by (intro reach_rules assms refl)

lemma reach_handleSelect:
  assumes "\<And>b. R b b" "\<And>mb b. R b (st (be_Select be mb (zero_select_options ro) b))"
  shows "reach R (handleSelect ro be ctx)"
proof -
  have "reach (=) (\<lambda>c. set_state Selected (\<lambda>c. Finished None (WriteOKCode t code msg c))
      (SetMailbox mailbox r (foldl (\<lambda>c s. emit s c) c ss)))" for t code msg mailbox r ss
    by (rule reach_pre [OF reach_set_state [OF refl reach_ok_code [OF refl]]]) (simp add: SetMailbox_def)
  then show ?thesis
    unfolding handleSelect_def Let_def by (intro reach_with_args reach_read_arg reach_ask assms)
qed

lemma reach_leave:
  assumes "\<And>b. R b (st (be_Unselect be b))"
  shows "reach R (leave be msg ctx)"
proof -
  have "reach (=) (\<lambda>c. set_state Authenticated (return_ok ctx msg) (SetMailbox [] False c))"
    by (rule reach_pre [OF reach_set_state [OF refl reach_return_ok [OF refl]]]) (simp add: SetMailbox_def)
  then show ?thesis unfolding leave_def by (intro reach_ask assms)
qed

lemma reach_Append:
  assumes "\<And>b. R b b" "\<And>mb lit aopts b. R b (st (be_Append be mb lit aopts b))"
  shows "reach R (Append opts be ctx)"
proof -
  have "reach (=) (append_ok ctx data)" for data
    by (auto simp: append_ok_def split: option.split intro!: reach_return_ok reach_ok_code)
  then have ask: "reach R (ask (be_Append be mailbox lit aopts) (append_ok ctx))" for mailbox lit aopts
    by (intro reach_ask assms)
  have lit: "reach R (append_literal opts be ctx mailbox flags t inp)" for mailbox flags t inp
  proof (cases "readLiteralSize inp")
    case (Inr p)
    obtain n bin where p: "p = (n, bin)" by (cases p)
    show ?thesis
    proof (rule reachI)
      fix c b e c'
      assume a: "c_session c = Some b" "append_literal opts be ctx mailbox flags t inp c = Finished e c'"
      then have "ask (be_Append be mailbox (take (nat n) (c_input c))
          \<lparr>ao_Flags = flags, ao_InternalDate = t, ao_Binary = bin, ao_UTF8 = False\<rparr>) (append_ok ctx)
          (c\<lparr>c_input := drop (nat n) (c_input c)\<rparr>) = Finished e c'"
        by (simp add: append_literal_def Inr p Let_def)
      from reachD [OF ask _ this, of b] a(1) show "\<exists>b'. c_session c' = Some b' \<and> R b b'" by simp
    qed
  qed (simp add: append_literal_def reach_fail assms(1))
  have date: "reach R (append_date opts b (\<lambda>t. append_literal opts be ctx mailbox flags t) inp)" for b mailbox flags inp
    unfolding append_date_def
    by (auto intro!: reach_read_arg reach_fail lit assms(1) split: option.split)
  have "reach R (append_flags (\<lambda>flags b. append_date opts b (\<lambda>t. append_literal opts be ctx mailbox flags t)) inp)"
    for mailbox inp
    unfolding append_flags_def
    by (intro reach_read_arg assms(1)) (auto intro!: reach_read_loop reach_read_arg date assms(1))
  then show ?thesis unfolding Append_def by (intro reach_with_args reach_read_arg assms(1))
qed

lemma reach_Idle:
  assumes "\<And>stop b r. be_Idle be stop b = Some r \<Longrightarrow> R b (st r)"
  shows "reach R (Idle opts be ctx)"
proof (rule reachI)
  fix c b e c'
  assume a: "c_session c = Some b" "Idle opts be ctx c = Finished e c'"
  let ?c = "WriteContinuation ''idling'' c"
  obtain readErr rest where r: "idle_read (c_input ?c) = (readErr, rest)" by (cases "idle_read (c_input ?c)")
  have b: "c_session ?c = Some b" using a(1) by (simp add: WriteContinuation_def)
  obtain x out b' where x: "be_Idle be (readErr = None) b = Some (x, out, b')"
    using a(2) by (cases "be_Idle be (readErr = None) b") (auto simp: Idle_def r b Let_def)
  let ?d = "?c\<lparr>c_input := rest, c_session := Some b', c_output := c_output ?c @ out\<rparr>"
  have "Idle opts be ctx c =
      (case x of Die p \<Rightarrow> Crashed p | Err e \<Rightarrow> fail e ?d
       | Ret _ \<Rightarrow> (case readErr of
                   Some e \<Rightarrow> fail (ErrBad (''IDLE terminated: '' @ o_error_text opts (WireError e))) ?d
                 | None \<Rightarrow> return_ok ctx ''IDLE completed'' ?d))"
    by (simp add: Idle_def r b x Let_def)
  with a(2) have "c_session c' = Some b'"
    by (cases x; cases readErr) (auto simp: fail_def return_ok_def WriteOK_def)
  then show "\<exists>b'. c_session c' = Some b' \<and> R b b'" using assms [OF x] by (simp add: st_def)
qed


lemma calls_builtin:
  assumes "(name, h) \<in> set (builtin_handlers opts be)"
  shows "reach (calls be name) (h ctx)"
proof -
  note nc = no_call [of be]
  have "reach (=) (Capability opts ctx)"
    unfolding Capability_def by (rule reach_pre [OF reach_return_ok [OF refl]]) (simp add: WriteCapabilities_def)
  then have cap: "reach (calls be n) (Capability opts ctx)" for n unfolding reach_def using nc by metis
  have noop: "reach (calls be n) (Noop ctx)" for n unfolding Noop_def by (rule reach_return_ok [OF nc])
  have logout: "reach (calls be n) (Logout_cmd ctx)" for n
    unfolding Logout_cmd_def
    by (rule reach_pre [OF reach_set_state [OF nc reach_return_ok [OF nc]]]) (simp add: WriteBYE_def)
  have tls: "reach (calls be n) (StartTLS opts ctx)" for n
    by (auto simp: reach_def StartTLS_def fail_def Let_def UpgradeTLS_def WriteOK_def nc split: if_splits option.splits)
  have "reach (calls be ''LOGIN'') (with_args ctx ''missing arguments''
        (read_arg ReadAString ''invalid username'' (\<lambda>username.
         read_arg ReadSP ''missing password'' (\<lambda>_.
         read_arg ReadAString ''invalid password'' (\<lambda>password _.
         ask (be_Login be username password) (\<lambda>_.
         set_state Authenticated (return_ok ctx ''LOGIN completed'')))))))"
    by (intro reach_rules nc refl call_login)
  then have login: "reach (calls be ''LOGIN'') (Login opts be ctx)"
    unfolding reach_def Login_def by (simp add: fail_def nc)
  have enable: "reach (calls be n) (Enable opts ctx)" for n
    unfolding Enable_def Let_def
    by (rule reach_with_args [OF nc]) (auto simp: reach_def fail_def return_ok_def WriteOK_def nc)
  have ign: "st (ignoring (be_Expunge be None) b) = st (be_Expunge be None b)"
    "fst (ignoring (be_Expunge be None) b) \<noteq> Err err" for b err
    by (simp_all add: ignoring_def st_def split: prod.split ret.split)
  have close: "reach (calls be ''CLOSE'') (Close be ctx)"
    unfolding Close_def
    by (rule reach_ask_then [where S = "\<lambda>b b'. b' = st (be_Unselect be b)"])
      (auto simp: ign intro: reach_leave call_close)
  have unselect: "reach (calls be ''UNSELECT'') (Unselect be ctx)"
    unfolding Unselect_def by (intro reach_leave call_unselect)
  have select: "reach (calls be ''SELECT'') (Select be ctx)" "reach (calls be ''EXAMINE'') (Examine be ctx)"
    unfolding Select_def Examine_def by (intro reach_handleSelect nc call_select call_examine)+
  have simple: "reach (calls be ''CREATE'') (Create be ctx)" "reach (calls be ''DELETE'') (Delete be ctx)"
    "reach (calls be ''SUBSCRIBE'') (Subscribe be ctx)" "reach (calls be ''UNSUBSCRIBE'') (Unsubscribe be ctx)"
    unfolding Create_def Delete_def Subscribe_def Unsubscribe_def
    by (intro reach_mailbox_command nc call_create call_delete call_subscribe call_unsubscribe)+
  have rename: "reach (calls be ''RENAME'') (Rename be ctx)"
    unfolding Rename_def by (intro reach_rules nc refl call_rename)
  have list: "reach (calls be ''LIST'') (List_cmd be ctx)" "reach (calls be ''LSUB'') (Lsub be ctx)"
    unfolding List_cmd_def Lsub_def by (intro reach_list_command nc call_list call_lsub)+
  have emit: "reach (=) (\<lambda>c. return_ok ctx msg (emit s c))" for msg s
    by (rule reach_pre [OF reach_return_ok [OF refl]]) simp
  have status: "reach (calls be ''STATUS'') (Status be ctx)"
    unfolding Status_def by (intro reach_with_args reach_read_arg reach_read_loop reach_ask emit nc call_status)
  have search: "reach (calls be ''SEARCH'') (Search opts be ctx)"
    unfolding Search_def
    by (rule reach_with_args [OF nc])
      (auto simp: reach_hangs split: option.split prod.split sum.split intro!: reach_fail nc reach_ask emit call_search)
  have fetch: "reach (calls be ''FETCH'') (Fetch opts be ctx)"
    unfolding Fetch_def Let_def by (intro reach_rules nc refl call_fetch)
  have store: "reach (calls be ''STORE'') (Store be ctx)"
    unfolding Store_def
    by (intro reach_with_args reach_read_numset reach_read_arg nc)
      (auto simp: Let_def split: option.split intro!: reach_fail reach_rules nc call_store)
  have "reach (=) (copy_ok ctx data)" for data
    by (auto simp: copy_ok_def split: option.split intro!: reach_return_ok reach_ok_code)
  then have copy: "reach (calls be ''COPY'') (Copy be ctx)"
    unfolding Copy_def by (intro reach_with_args reach_read_numset reach_read_arg reach_ask nc call_copy)
  have expunge: "reach (calls be ''EXPUNGE'') (Expunge be ctx)"
    unfolding Expunge_def Let_def
    by (auto intro!: reach_fail reach_rules nc call_expunge split: sum.split)
  have "reach (calls be ''APPEND'') (Append opts be ctx)" by (intro reach_Append nc call_append)
  moreover have "reach (calls be ''IDLE'') (Idle opts be ctx)" by (intro reach_Idle call_idle)
  moreover note cap noop logout tls login enable close unselect select simple rename list status search fetch store copy expunge
  ultimately show ?thesis
    using assms unfolding builtin_handlers_def by (simp only: set_simps insert_iff empty_iff) (elim disjE; simp)
qed

text \<open>Each command calls its own method of the session and no other: when a command has been
  dispatched, the state of the session is what it was, or what the method that belongs to the
  command leaves of it; CLOSE expunges and then unselects.\<close>

lemma command_calls:
  assumes "c_session c = Some b" "dispatch (builtin opts be) tag name rest c = Finished e c'"
  shows "\<exists>b'. c_session c' = Some b' \<and>
    (b' = b \<or> (\<exists>kind upper args. uid_prefix (ToUpper name) rest = Some (kind, upper, args) \<and> gate (builtin opts be) upper c \<and>
       calls be upper b b'))"
proof (cases rule: dispatch_cases [where d = "builtin opts be" and tag = tag and name = name and rest = rest and c = c])
  case (bad msg)
  then show ?thesis using assms by (auto simp: WriteBAD_def)
next
  case (handled kind upper args h)
  let ?ctx = "\<lparr>cx_Tag = tag, cx_Name = upper, cx_NumKind = kind, cx_Decoder = (if args \<noteq> [] then Some args else None)\<rparr>"
  obtain e0 c0 where h: "h ?ctx c = Finished e0 c0" "c' = c0 \<or> (\<exists>s. c' = emit s c0)"
    using assms(2) handled(4) by (metis respond_conn)
  have "(upper, h) \<in> set (builtin_handlers opts be)"
    using builtin_Some [OF handled(2)] uid_prefix_upper [OF handled(1)] by simp
  from reachD [OF calls_builtin [OF this] assms(1) h(1)]
  obtain b' where "c_session c0 = Some b'" "calls be upper b b'" by blast
  moreover have "c_session c' = c_session c0" using h(2) by auto
  ultimately show ?thesis using handled(1,3) by auto
qed

end
