(* ===== verification/ReplyLaws.thy ===== *)
theory ReplyLaws
  imports ServerLaws
begin

text \<open>
  Every command is answered by exactly one tagged response, for every backend that keeps to
  the contract of the interface: its methods write untagged responses only and do not end the
  connection.
\<close>

section \<open>One tagged response\<close>

definition tagged :: "string \<Rightarrow> string list \<Rightarrow> nat" where
  "tagged tag outs = length (filter (\<lambda>s. HasPrefix s (tag @ [SP])) outs)"

definition valid_tag :: "string \<Rightarrow> bool" where
  "valid_tag tag \<longleftrightarrow> tag \<noteq> [] \<and> SP \<notin> set tag \<and> tag \<noteq> ''*'' \<and> tag \<noteq> ''+''"

lemma tagged_append [simp]: "tagged tag (xs @ ys) = tagged tag xs + tagged tag ys"
  by (simp add: tagged_def)

lemma tagged_Nil [simp]: "tagged tag [] = 0"
  by (simp add: tagged_def)

lemma tagged_untagged:
  assumes "valid_tag tag" "c = CHR ''*'' \<or> c = CHR ''+''"
  shows "tagged tag [c # SP # s] = 0"
proof -
  obtain t ts where "tag = t # ts" using assms(1) by (cases tag) (auto simp: valid_tag_def)
  then show ?thesis using assms by (cases ts) (auto simp: tagged_def HasPrefix_def valid_tag_def)
qed

lemma tagged_status: "valid_tag tag \<Longrightarrow> tagged tag [enc_StatusResponse tag st code msg] = 1"
  by (simp add: tagged_def HasPrefix_def enc_StatusResponse_def valid_tag_def enc_Tag_def enc_SP_def)

lemma tagged_star: "valid_tag tag \<Longrightarrow> tagged tag [enc_Star @ s] = 0"
  using tagged_untagged [of tag "CHR ''*''" s] by (simp add: enc_Star_def)

definition good :: "string \<Rightarrow> 'b cont \<Rightarrow> bool" where
  "good tag k \<longleftrightarrow>
     (\<forall>c e c'. k c = Finished e c' \<longrightarrow>
        (\<exists>outs. c_output c' = c_output c @ outs \<and>
           (case e of None \<Rightarrow> tagged tag outs = 1 | Some e \<Rightarrow> tagged tag outs = 0 \<and> \<not> is_bye e)))"

text \<open>A method of a well-behaved backend writes untagged responses only and does not end the
  connection.\<close>

definition polite :: "'a ret \<times> string list \<times> 'b \<Rightarrow> bool" where
  "polite r \<longleftrightarrow> (case r of (x, outs, b) \<Rightarrow> (\<forall>s \<in> set outs. HasPrefix s ''* '') \<and> (\<forall>e. x = Err e \<longrightarrow> \<not> is_bye e))"

lemma tagged_polite: "valid_tag tag \<Longrightarrow> \<forall>s \<in> set outs. HasPrefix s ''* '' \<Longrightarrow> tagged tag outs = 0"
proof (induction outs)
  case (Cons s outs)
  then have "s = CHR ''*'' # SP # drop 2 s"
    by (cases s; cases "tl s") (auto simp: HasPrefix_def)
  then have "tagged tag [s] = 0" using tagged_untagged [OF Cons.prems(1), of "CHR ''*''" "drop 2 s"] by simp
  then show ?case using Cons tagged_append [of tag "[s]" outs] by simp
qed simp

lemma good_fail: "\<not> is_bye e \<Longrightarrow> good tag (fail e)"
  by (simp add: good_def fail_def)

lemma good_hangs: "good tag (\<lambda>_. Hangs)"
  by (simp add: good_def)

lemma good_ok: "valid_tag tag \<Longrightarrow> good tag (\<lambda>c. Finished None (WriteOKCode tag code msg c))"
  by (simp add: good_def WriteOKCode_def emit_def tagged_status)

lemma good_return_ok: "valid_tag (cx_Tag ctx) \<Longrightarrow> good (cx_Tag ctx) (return_ok ctx msg)"
  by (simp add: good_def return_ok_def WriteOK_def emit_def tagged_status)

lemma good_pre:
  assumes "good tag k" "\<forall>c. \<exists>outs. c_output (f c) = c_output c @ outs \<and> tagged tag outs = 0"
  shows "good tag (\<lambda>c. k (f c))"
  unfolding good_def
proof (intro allI impI)
  fix c e c'
  assume "k (f c) = Finished e c'"
  then obtain outs where o1: "c_output c' = c_output (f c) @ outs"
      "case e of None \<Rightarrow> tagged tag outs = 1 | Some e \<Rightarrow> tagged tag outs = 0 \<and> \<not> is_bye e"
    using assms(1) unfolding good_def by blast
  obtain outs' where o2: "c_output (f c) = c_output c @ outs'" "tagged tag outs' = 0" using assms(2) by blast
  show "\<exists>outs. c_output c' = c_output c @ outs \<and>
      (case e of None \<Rightarrow> tagged tag outs = 1 | Some e \<Rightarrow> tagged tag outs = 0 \<and> \<not> is_bye e)"
    by (rule exI [of _ "outs' @ outs"]) (use o1 o2 in \<open>auto split: option.splits\<close>)
qed

lemma good_ask:
  assumes "valid_tag tag" "\<forall>b. polite (m b)" "\<forall>x. good tag (k x)"
  shows "good tag (ask m k)"
  unfolding good_def
proof (intro allI impI)
  fix c e c'
  assume a: "ask m k c = Finished e c'"
  obtain b where b: "c_session c = Some b" using a by (cases "c_session c") (auto simp: ask_def)
  obtain r out b' where m: "m b = (r, out, b')" by (cases "m b")
  let ?c = "c\<lparr>c_session := Some b', c_output := c_output c @ out\<rparr>"
  have out: "tagged tag out = 0" "\<forall>err. r = Err err \<longrightarrow> \<not> is_bye err"
    using assms(2) [rule_format, of b] tagged_polite [OF assms(1), of out] by (simp_all add: m polite_def)
  show "\<exists>outs. c_output c' = c_output c @ outs \<and>
      (case e of None \<Rightarrow> tagged tag outs = 1 | Some e \<Rightarrow> tagged tag outs = 0 \<and> \<not> is_bye e)"
  proof (cases r)
    case (Ret x)
    then have "k x ?c = Finished e c'" using a by (simp add: ask_def b m)
    then obtain outs where o: "c_output c' = c_output ?c @ outs"
        "case e of None \<Rightarrow> tagged tag outs = 1 | Some e \<Rightarrow> tagged tag outs = 0 \<and> \<not> is_bye e"
      using assms(3) unfolding good_def by blast
    show ?thesis by (rule exI [of _ "out @ outs"]) (use o out(1) in \<open>cases e; simp\<close>)
  next
    case (Err err)
    then have "e = Some err" "c' = ?c" using a by (simp_all add: ask_def b m fail_def)
    then show ?thesis using out Err by simp
  qed (use a in \<open>simp add: ask_def b m\<close>)
qed

lemma good_with_args: "(\<And>inp. good tag (k inp)) \<Longrightarrow> good tag (with_args ctx msg k)"
  by (auto simp: with_args_def good_fail split: option.split)

lemma good_read_arg: "(\<And>x inp. good tag (k x inp)) \<Longrightarrow> good tag (read_arg d msg k inp)"
  by (auto simp: read_arg_def good_fail split: prod.split sum.split)

lemma good_read_loop: "(\<And>x inp. good tag (k x inp)) \<Longrightarrow> good tag (read_loop d msg k inp)"
  by (auto simp: read_loop_def good_fail good_hangs split: prod.split sum.split option.split)

lemma good_read_numset: "(\<And>x inp. good tag (k x inp)) \<Longrightarrow> good tag (read_numset ctx k inp)"
  unfolding read_numset_def by (rule good_read_arg) (auto simp: good_fail split: sum.split)

lemma good_set_state:
  assumes "good tag k"
  shows "good tag (set_state s k)"
  unfolding good_def
proof (intro allI impI)
  fix c e c'
  assume a: "set_state s k c = Finished e c'"
  obtain r m w where t: "Transition (c_machine c) s () = (r, m, w)" by (cases "Transition (c_machine c) s ()")
  show "\<exists>outs. c_output c' = c_output c @ outs \<and>
      (case e of None \<Rightarrow> tagged tag outs = 1 | Some e \<Rightarrow> tagged tag outs = 0 \<and> \<not> is_bye e)"
  proof (cases r)
    case None
    then have "k (c\<lparr>c_machine := m\<rparr>) = Finished e c'" using a by (simp add: set_state_def Conn_SetState_def t)
    then obtain outs where "c_output c' = c_output (c\<lparr>c_machine := m\<rparr>) @ outs"
        "case e of None \<Rightarrow> tagged tag outs = 1 | Some e \<Rightarrow> tagged tag outs = 0 \<and> \<not> is_bye e"
      using assms unfolding good_def by blast
    then show ?thesis by auto
  next
    case (Some err)
    then have "e = Some (OtherErr (transition_text err))" "c' = c\<lparr>c_machine := m\<rparr>"
      using a by (simp_all add: set_state_def Conn_SetState_def t fail_def)
    then show ?thesis by simp
  qed
qed

lemma good_emit_star: "valid_tag tag \<Longrightarrow> good tag k \<Longrightarrow> good tag (\<lambda>c. k (emit (enc_Star @ s) c))"
  by (rule good_pre) (auto simp: emit_def tagged_star)

lemma HasPrefix_star: "HasPrefix (enc_Star @ s) ''* ''"
  by (simp add: HasPrefix_def enc_Star_def)

lemma tagged_bye: "valid_tag tag \<Longrightarrow> tagged tag [enc_StatusResponse ''*'' st code msg] = 0"
  using tagged_star [of tag] by (simp add: enc_StatusResponse_def)

lemma tagged_continuation: "valid_tag tag \<Longrightarrow> tagged tag [enc_ContinuationRequest msg] = 0"
  using tagged_untagged [of tag "CHR ''+''"] by (simp add: enc_ContinuationRequest_def enc_Plus_def)

lemma select_responses_star: "\<forall>s \<in> set (select_responses data). HasPrefix s ''* ''"
  by (auto simp: select_responses_def ok_code_def enc_NumResponse_def HasPrefix_star)

lemma output_foldl_emit: "c_output (foldl (\<lambda>c s. emit s c) c ss) = c_output c @ ss"
  by (induction ss arbitrary: c) (simp_all add: emit_def)

lemma polite_ignoring: "(\<And>b. polite (m b)) \<Longrightarrow> polite (ignoring m b)"
  by (fastforce simp: polite_def ignoring_def split: prod.splits ret.splits)

text \<open>A dispatcher all of whose handlers answer once, or leave the answer to the error they
  return, answers every command exactly once.\<close>

definition answering :: "'b dispatcher \<Rightarrow> bool" where
  "answering d \<longleftrightarrow>
     (\<forall>name h ctx. Dispatcher_Get d name = Some h \<longrightarrow> valid_tag (cx_Tag ctx) \<longrightarrow> good (cx_Tag ctx) (h ctx))"

lemma answering_one_reply:
  assumes "answering d" and vt: "valid_tag tag" and run: "dispatch d tag name rest c = Finished e c'"
  shows "e = None \<and> (\<exists>outs. c_output c' = c_output c @ outs \<and> tagged tag outs = 1)"
proof (cases rule: dispatch_cases [where d = d and tag = tag and name = name and rest = rest and c = c])
  case (bad msg)
  then show ?thesis using run tagged_status [OF vt] by (auto simp: WriteBAD_def emit_def)
next
  case (handled kind upper args h)
  let ?ctx = "\<lparr>cx_Tag = tag, cx_Name = upper, cx_NumKind = kind, cx_Decoder = (if args \<noteq> [] then Some args else None)\<rparr>"
  obtain e0 c0 where h: "h ?ctx c = Finished e0 c0" using run handled(4) by (metis respond_conn)
  have "valid_tag (cx_Tag ?ctx)" by (simp add: vt)
  then have "good (cx_Tag ?ctx) (h ?ctx)" using assms(1) handled(2) unfolding answering_def by blast
  then have "\<exists>outs. c_output c0 = c_output c @ outs \<and>
      (case e0 of None \<Rightarrow> tagged (cx_Tag ?ctx) outs = 1 | Some e \<Rightarrow> tagged (cx_Tag ?ctx) outs = 0 \<and> \<not> is_bye e)"
    using h unfolding good_def by blast
  then obtain outs where o: "c_output c0 = c_output c @ outs"
      "case e0 of None \<Rightarrow> tagged tag outs = 1 | Some e \<Rightarrow> tagged tag outs = 0 \<and> \<not> is_bye e"
    by (simp only: command_context.select_convs) blast
  have r: "respond tag (Finished e0 c0) = Finished e c'" using run handled(4) h by (simp only:)
  show ?thesis
  proof (cases e0)
    case None
    then show ?thesis using r o by (simp add: respond_def)
  next
    case (Some err)
    then obtain st code msg where s: "e = None" "c' = emit (enc_StatusResponse tag st code msg) c0"
      using r o(2) by (cases err) (auto simp: respond_def WriteNO_def is_bye_def split: status_type.splits)
    have "tagged tag (outs @ [enc_StatusResponse tag st code msg]) = 1"
      using o(2) Some tagged_status [OF vt, of st code msg] by simp
    then show ?thesis using o(1) s by (intro conjI exI [of _ "outs @ [enc_StatusResponse tag st code msg]"])
        (simp_all add: emit_def)
  qed
qed

text \<open>What the server asks of a backend.\<close>

locale backend_contract =
  fixes be :: "'b backend"
  assumes polite_Login: "polite (be_Login be u p b)"
    and polite_Select: "polite (be_Select be mb so b)"
    and polite_Create: "polite (be_Create be mb co b)"
    and polite_Delete: "polite (be_Delete be mb b)"
    and polite_Rename: "polite (be_Rename be mb mb' b)"
    and polite_Subscribe: "polite (be_Subscribe be mb b)"
    and polite_Unsubscribe: "polite (be_Unsubscribe be mb b)"
    and polite_List: "polite (be_List be ref ps lopts b)"
    and polite_Status: "polite (be_Status be mb sto b)"
    and polite_Append: "polite (be_Append be mb lit ao b)"
    and polite_Idle: "be_Idle be stop b = Some r \<Longrightarrow> polite r"
    and polite_Unselect: "polite (be_Unselect be b)"
    and polite_Expunge: "polite (be_Expunge be us b)"
    and polite_Search: "polite (be_Search be kind crit sopts b)"
    and polite_Fetch: "polite (be_Fetch be ns fopts b)"
    and polite_Store: "polite (be_Store be ns sf stopts b)"
    and polite_Copy: "polite (be_Copy be ns dest b)"
begin

lemma good_mailbox_command:
  assumes "valid_tag (cx_Tag ctx)" "\<And>mb b. polite (m mb b)"
  shows "good (cx_Tag ctx) (mailbox_command m msg ctx)"
  unfolding mailbox_command_def
  by (intro good_with_args good_read_arg good_ask allI good_return_ok assms)

lemma good_list_command: "valid_tag (cx_Tag ctx) \<Longrightarrow> good (cx_Tag ctx) (list_command be lopts msg ctx)"
  unfolding list_command_def
  by (intro good_with_args good_read_arg good_ask allI good_return_ok polite_List)

lemma good_Capability: "valid_tag (cx_Tag ctx) \<Longrightarrow> good (cx_Tag ctx) (Capability opts ctx)"
  unfolding Capability_def
  by (rule good_pre [OF good_return_ok]) (auto simp: WriteCapabilities_def emit_def tagged_star)

lemma good_Logout: "valid_tag (cx_Tag ctx) \<Longrightarrow> good (cx_Tag ctx) (Logout_cmd ctx)"
  unfolding Logout_cmd_def
  by (rule good_pre [OF good_set_state [OF good_return_ok]]) (auto simp: WriteBYE_def emit_def tagged_bye)

lemma good_StartTLS:
  assumes "valid_tag (cx_Tag ctx)" "\<forall>inp. o_handshake opts inp \<noteq> None"
  shows "good (cx_Tag ctx) (StartTLS opts ctx)"
proof -
  have "\<exists>inp'. o_handshake opts inp = Some inp'" for inp using assms(2) by blast
  then obtain f where "\<And>inp. o_handshake opts inp = Some (f inp)" by metis
  then show ?thesis
    using tagged_status [OF assms(1)]
    by (auto simp: good_def StartTLS_def fail_def Let_def UpgradeTLS_def WriteOK_def emit_def split: if_splits)
qed

lemma good_Login:
  assumes vt: "valid_tag (cx_Tag ctx)"
  shows "good (cx_Tag ctx) (Login opts be ctx)"
proof -
  have args: "good (cx_Tag ctx) (with_args ctx ''missing arguments''
        (read_arg ReadAString ''invalid username'' (\<lambda>username.
         read_arg ReadSP ''missing password'' (\<lambda>_.
         read_arg ReadAString ''invalid password'' (\<lambda>password _.
         ask (be_Login be username password) (\<lambda>_.
         set_state Authenticated (return_ok ctx ''LOGIN completed'')))))))"
    by (intro good_with_args good_read_arg good_ask allI good_set_state good_return_ok polite_Login vt)
  have "Login opts be ctx c = fail (ErrNo ''LOGIN disabled without TLS'') c \<or>
      Login opts be ctx c = with_args ctx ''missing arguments''
        (read_arg ReadAString ''invalid username'' (\<lambda>username.
         read_arg ReadSP ''missing password'' (\<lambda>_.
         read_arg ReadAString ''invalid password'' (\<lambda>password _.
         ask (be_Login be username password) (\<lambda>_.
         set_state Authenticated (return_ok ctx ''LOGIN completed'')))))) c" for c
    by (simp add: Login_def)
  with args good_fail [of "ErrNo ''LOGIN disabled without TLS''" "cx_Tag ctx"] show ?thesis
    unfolding good_def by (metis not_bye(1))
qed

lemma good_Enable: "valid_tag (cx_Tag ctx) \<Longrightarrow> good (cx_Tag ctx) (Enable opts ctx)"
  unfolding Enable_def Let_def
proof (rule good_with_args)
  fix inp
  assume vt: "valid_tag (cx_Tag ctx)"
  show "good (cx_Tag ctx) (\<lambda>c. if enable_loop inp = [] then fail (ErrBad ''missing capabilities to enable'') c
      else return_ok ctx ''ENABLE completed''
        (emit (enc_Star @ enc_Atom ''ENABLED'' @
            concat (map (\<lambda>cap. enc_SP @ enc_Atom cap) (filter (Has (NewCapSet (Capabilities opts c))) (enable_loop inp))) @ enc_CRLF)
          (c\<lparr>c_enabled := Add (c_enabled c) (filter (Has (NewCapSet (Capabilities opts c))) (enable_loop inp))\<rparr>)))"
  proof (cases "enable_loop inp = []")
    case False
    then show ?thesis
      by simp (rule good_pre [OF good_return_ok [OF vt]], auto simp: emit_def tagged_star vt)
  qed (simp add: good_fail)
qed

lemma good_handleSelect:
  assumes vt: "valid_tag (cx_Tag ctx)"
  shows "good (cx_Tag ctx) (handleSelect ro be ctx)"
proof -
  have "tagged (cx_Tag ctx) (select_responses data) = 0" for data
    by (rule tagged_polite [OF vt select_responses_star])
  then have "good (cx_Tag ctx) (\<lambda>c. set_state Selected (\<lambda>c. Finished None (WriteOKCode (cx_Tag ctx) code msg c))
      (SetMailbox mailbox r (foldl (\<lambda>c s. emit s c) c (select_responses data))))" for code msg mailbox r data
    by (intro good_pre [OF good_set_state [OF good_ok [OF vt]]]) (simp add: SetMailbox_def output_foldl_emit)
  then show ?thesis
    unfolding handleSelect_def Let_def
    by (intro good_with_args good_read_arg good_ask allI polite_Select vt)
qed

lemma good_Status: "valid_tag (cx_Tag ctx) \<Longrightarrow> good (cx_Tag ctx) (Status be ctx)"
  unfolding Status_def status_line_def
  by (intro good_with_args good_read_arg good_read_loop good_ask allI good_emit_star good_return_ok polite_Status)

lemma good_Append:
  assumes vt: "valid_tag (cx_Tag ctx)"
  shows "good (cx_Tag ctx) (Append opts be ctx)"
proof -
  have ok: "good (cx_Tag ctx) (append_ok ctx data)" for data
    by (auto simp: append_ok_def split: option.split intro!: good_return_ok good_ok vt)
  have ask: "good (cx_Tag ctx) (ask (be_Append be mailbox lit aopts) (append_ok ctx))" for mailbox lit aopts
    by (intro good_ask allI ok polite_Append vt)
  have lit: "good (cx_Tag ctx) (append_literal opts be ctx mailbox flags t inp)" for mailbox flags t inp
  proof (cases "readLiteralSize inp")
    case (Inr p)
    obtain n bin where p: "p = (n, bin)" by (cases p)
    show ?thesis
      unfolding good_def
    proof (intro allI impI)
      fix c e c'
      assume "append_literal opts be ctx mailbox flags t inp c = Finished e c'"
      then have "ask (be_Append be mailbox (take (nat n) (c_input c))
          \<lparr>ao_Flags = flags, ao_InternalDate = t, ao_Binary = bin, ao_UTF8 = False\<rparr>) (append_ok ctx)
          (c\<lparr>c_input := drop (nat n) (c_input c)\<rparr>) = Finished e c'"
        by (simp add: append_literal_def Inr p Let_def)
      from ask [unfolded good_def, rule_format, OF this]
      show "\<exists>outs. c_output c' = c_output c @ outs \<and>
          (case e of None \<Rightarrow> tagged (cx_Tag ctx) outs = 1 | Some e \<Rightarrow> tagged (cx_Tag ctx) outs = 0 \<and> \<not> is_bye e)"
        by simp
    qed
  qed (simp add: append_literal_def good_fail)
  have date: "good (cx_Tag ctx) (append_date opts b (\<lambda>t. append_literal opts be ctx mailbox flags t) inp)" for b mailbox flags inp
    unfolding append_date_def by (auto intro!: good_read_arg good_fail lit split: option.split)
  have "good (cx_Tag ctx) (append_flags (\<lambda>flags b. append_date opts b (\<lambda>t. append_literal opts be ctx mailbox flags t)) inp)"
    for mailbox inp
    unfolding append_flags_def by (intro good_read_arg) (auto intro!: good_read_loop good_read_arg date)
  then show ?thesis unfolding Append_def by (intro good_with_args good_read_arg)
qed

lemma good_Idle:
  assumes vt: "valid_tag (cx_Tag ctx)"
  shows "good (cx_Tag ctx) (Idle opts be ctx)"
  unfolding good_def
proof (intro allI impI)
  fix c e c'
  assume a: "Idle opts be ctx c = Finished e c'"
  let ?c = "WriteContinuation ''idling'' c"
  obtain readErr rest where r: "idle_read (c_input ?c) = (readErr, rest)" by (cases "idle_read (c_input ?c)")
  obtain b where b: "c_session ?c = Some b" using a by (cases "c_session ?c") (auto simp: Idle_def r Let_def)
  obtain x out b' where x: "be_Idle be (readErr = None) b = Some (x, out, b')"
    using a by (cases "be_Idle be (readErr = None) b") (auto simp: Idle_def r b Let_def)
  have p: "tagged (cx_Tag ctx) out = 0" "\<forall>err. x = Err err \<longrightarrow> \<not> is_bye err"
    using polite_Idle [OF x] tagged_polite [OF vt, of out] by (simp_all add: polite_def)
  have o: "c_output ?c = c_output c @ [enc_ContinuationRequest ''idling'']"
    by (simp add: WriteContinuation_def emit_def)
  have t: "tagged (cx_Tag ctx) ([enc_ContinuationRequest ''idling''] @ out) = 0"
    by (simp only: tagged_append tagged_continuation [OF vt] p(1))
  let ?o = "[enc_ContinuationRequest ''idling''] @ out"
  let ?ok = "enc_StatusResponse (cx_Tag ctx) ''OK'' [] ''IDLE completed''"
  let ?d = "?c\<lparr>c_input := rest, c_session := Some b', c_output := c_output ?c @ out\<rparr>"
  have "Idle opts be ctx c =
      (case x of Die p \<Rightarrow> Crashed p | Err e \<Rightarrow> fail e ?d
       | Ret _ \<Rightarrow> (case readErr of
                   Some e \<Rightarrow> fail (ErrBad (''IDLE terminated: '' @ o_error_text opts (WireError e))) ?d
                 | None \<Rightarrow> return_ok ctx ''IDLE completed'' ?d))"
    by (simp add: Idle_def r b x Let_def)
  with a p(2) consider "e = None" "c_output c' = c_output c @ ?o @ [?ok]"
    | err where "e = Some err" "c_output c' = c_output c @ ?o" "\<not> is_bye err"
    by (cases x; cases readErr) (auto simp: o fail_def return_ok_def WriteOK_def emit_def)
  then show "\<exists>outs. c_output c' = c_output c @ outs \<and>
      (case e of None \<Rightarrow> tagged (cx_Tag ctx) outs = 1 | Some e \<Rightarrow> tagged (cx_Tag ctx) outs = 0 \<and> \<not> is_bye e)"
  proof cases
    case 1
    have "tagged (cx_Tag ctx) (?o @ [?ok]) = 1"
      by (simp only: tagged_append [of _ ?o] t tagged_status [OF vt])
    with 1 show ?thesis by (intro exI [of _ "?o @ [?ok]"] conjI) (simp_all only: option.case)
  next
    case (2 err)
    with t show ?thesis by (intro exI [of _ ?o] conjI) (simp_all only: option.case simp_thms)
  qed
qed

lemma good_leave:
  assumes vt: "valid_tag (cx_Tag ctx)"
  shows "good (cx_Tag ctx) (leave be msg ctx)"
proof -
  have "good (cx_Tag ctx) (\<lambda>c. set_state Authenticated (return_ok ctx msg) (SetMailbox [] False c))"
    by (rule good_pre [OF good_set_state [OF good_return_ok [OF vt]]]) (simp add: SetMailbox_def)
  then show ?thesis unfolding leave_def by (intro good_ask allI polite_Unselect vt)
qed

lemma good_Expunge:
  assumes vt: "valid_tag (cx_Tag ctx)"
  shows "good (cx_Tag ctx) (Expunge be ctx)"
  unfolding Expunge_def Let_def
  by (auto intro!: good_read_arg good_ask good_return_ok good_fail polite_Expunge vt split: sum.split)

lemma good_Search: "valid_tag (cx_Tag ctx) \<Longrightarrow> good (cx_Tag ctx) (Search opts be ctx)"
  unfolding Search_def search_response_def
  by (rule good_with_args)
    (auto simp: good_hangs split: option.split prod.split sum.split
      intro!: good_fail good_ask good_emit_star good_return_ok polite_Search)

lemma good_Fetch: "valid_tag (cx_Tag ctx) \<Longrightarrow> good (cx_Tag ctx) (Fetch opts be ctx)"
  unfolding Fetch_def Let_def
  by (intro good_with_args good_read_numset good_read_arg good_read_loop good_ask allI good_return_ok polite_Fetch)

lemma good_Store: "valid_tag (cx_Tag ctx) \<Longrightarrow> good (cx_Tag ctx) (Store be ctx)"
  unfolding Store_def
  by (intro good_with_args good_read_numset good_read_arg)
    (auto simp: Let_def split: option.split
      intro!: good_fail good_read_arg good_read_loop good_ask good_return_ok polite_Store)

lemma good_Copy:
  assumes vt: "valid_tag (cx_Tag ctx)"
  shows "good (cx_Tag ctx) (Copy be ctx)"
proof -
  have "good (cx_Tag ctx) (copy_ok ctx data)" for data
    by (auto simp: copy_ok_def split: option.split intro!: good_return_ok good_ok vt)
  then show ?thesis
    unfolding Copy_def
    by (intro good_with_args good_read_numset good_read_arg good_ask allI polite_Copy vt)
qed

lemma good_Rename: "valid_tag (cx_Tag ctx) \<Longrightarrow> good (cx_Tag ctx) (Rename be ctx)"
  unfolding Rename_def
  by (intro good_with_args good_read_arg good_ask allI good_return_ok polite_Rename)

lemma good_quiet:
  assumes "h \<in> set (quiet_handlers opts be)" and vt: "valid_tag (cx_Tag ctx)"
  shows "good (cx_Tag ctx) (h ctx)"
proof -
  have "good (cx_Tag ctx) (Noop ctx)" unfolding Noop_def by (rule good_return_ok [OF vt])
  moreover have "good (cx_Tag ctx) (Create be ctx)" "good (cx_Tag ctx) (Delete be ctx)"
    "good (cx_Tag ctx) (Subscribe be ctx)" "good (cx_Tag ctx) (Unsubscribe be ctx)"
    unfolding Create_def Delete_def Subscribe_def Unsubscribe_def
    by (intro good_mailbox_command vt polite_Create polite_Delete polite_Subscribe polite_Unsubscribe)+
  moreover have "good (cx_Tag ctx) (List_cmd be ctx)" "good (cx_Tag ctx) (Lsub be ctx)"
    unfolding List_cmd_def Lsub_def by (rule good_list_command [OF vt])+
  moreover note good_Capability [OF vt, of opts] good_Enable [OF vt, of opts] good_Status [OF vt] good_Expunge [OF vt]
    good_Search [OF vt, of opts] good_Fetch [OF vt, of opts] good_Store [OF vt] good_Copy [OF vt] good_Rename [OF vt]
  ultimately show ?thesis
    using assms(1) unfolding quiet_handlers_def by (simp only: set_simps insert_iff empty_iff) (elim disjE; simp)
qed

lemma good_builtin:
  assumes "(name, h) \<in> set (builtin_handlers opts be)" and vt: "valid_tag (cx_Tag ctx)"
    and "\<forall>inp. o_handshake opts inp \<noteq> None"
  shows "good (cx_Tag ctx) (h ctx)"
proof -
  have "good (cx_Tag ctx) (Close be ctx)"
    unfolding Close_def by (intro good_ask allI good_leave vt polite_ignoring polite_Expunge)
  moreover have "good (cx_Tag ctx) (Unselect be ctx)" unfolding Unselect_def by (rule good_leave [OF vt])
  moreover have "good (cx_Tag ctx) (Select be ctx)" "good (cx_Tag ctx) (Examine be ctx)"
    unfolding Select_def Examine_def by (rule good_handleSelect [OF vt])+
  moreover note good_quiet [OF _ vt, of h opts] good_Logout [OF vt] good_StartTLS [OF vt assms(3)] good_Login [OF vt, of opts]
    good_Append [OF vt, of opts] good_Idle [OF vt, of opts]
  ultimately show ?thesis
    using builtin_cases [OF assms(1)] by (elim disjE conjE) simp_all
qed

lemma answering_builtin:
  assumes "\<forall>inp. o_handshake opts inp \<noteq> None"
  shows "answering (builtin opts be)"
  unfolding answering_def by (blast intro: good_builtin [OF builtin_Some _ assms])

lemma one_reply:
  assumes "valid_tag tag" "\<forall>inp. o_handshake opts inp \<noteq> None"
    and "dispatch (builtin opts be) tag name rest c = Finished e c'"
  shows "e = None \<and> (\<exists>outs. c_output c' = c_output c @ outs \<and> tagged tag outs = 1)"
  by (rule answering_one_reply [OF answering_builtin [OF assms(2)] assms(1,3)])

end

end
