(* ===== verification/MemBackend.thy ===== *)
theory MemBackend
  imports CallLaws ReplyLaws MemLaws Writers
begin

text \<open>
  The in-memory backend behind the server: the sessions of \<open>server/memserver\<close> as an instance of
  the session interface, several connections on one store, and what then holds of everything
  a client can do over the wire.
\<close>

section \<open>The backend\<close>

text \<open>What the environment decides for a call: the reading of MIME headers, the parsing and
  formatting of times, the order of the two iterations over a map of mailboxes, the clock.\<close>

record mem_env =
  me_header :: "string \<Rightarrow> (string \<Rightarrow> string) option"
  me_parse :: "string \<Rightarrow> string \<Rightarrow> time option"
  me_format :: "string \<Rightarrow> time \<Rightarrow> string"
  me_order1 :: "string set \<Rightarrow> string list"
  me_order2 :: "string set \<Rightarrow> string list"
  me_now :: time

text \<open>None of the errors of \<open>memserver\<close> is a \<open>*imap.IMAPError\<close>; its own \<open>IMAPError\<close> is another type.\<close>

primrec mem_go_error :: "mem_error \<Rightarrow> go_error" where
  "mem_go_error (IMAPError msg) = OtherErr msg"
| "mem_go_error ErrNoSuchMailbox = OtherErr ''no such mailbox''"
| "mem_go_error ErrMailboxAlreadyExists = OtherErr ''mailbox already exists''"
| "mem_go_error (ReadError msg) = OtherErr msg"

definition unit_ret :: "mem_error option \<Rightarrow> unit ret" where
  "unit_ret e = (case e of None \<Rightarrow> Ret () | Some e \<Rightarrow> Err (mem_go_error e))"

definition sum_ret :: "('a \<Rightarrow> 'c) \<Rightarrow> mem_error + 'a \<Rightarrow> 'c ret" where
  "sum_ret f r = (case r of Inl e \<Rightarrow> Err (mem_go_error e) | Inr x \<Rightarrow> Ret (f x))"

definition outcome_ret :: "('a \<Rightarrow> 'c) \<Rightarrow> 'a outcome \<Rightarrow> 'c ret" where
  "outcome_ret f r = (case r of Done x \<Rightarrow> Ret (f x) | Failed e \<Rightarrow> Err (mem_go_error e) | Panicked p \<Rightarrow> Die p)"

definition user_names :: "session \<Rightarrow> world \<Rightarrow> string set" where
  "user_names s w = (case ss_userData s of None \<Rightarrow> {} | Some u \<Rightarrow> dom (w_userData w u))"

definition written :: "('a \<Rightarrow> 'b) \<Rightarrow> mem_error + 'a list \<Rightarrow> 'b list" where
  "written f r = (case r of Inl _ \<Rightarrow> [] | Inr xs \<Rightarrow> map f xs)"

definition mem_backend :: "mem_env \<Rightarrow> (session \<times> world) backend" where
  "mem_backend env =
     \<lparr>be_Close = (\<lambda>(s, w). (Session_Close s, w)),
      be_Login = (\<lambda>user pass (s, w). case Session_Login user pass s w of (e, s') \<Rightarrow> (unit_ret e, [], s', w)),
      be_Select = (\<lambda>name so (s, w). case Session_Select name (Some so) s w of (r, s') \<Rightarrow> (outcome_ret id r, [], s', w)),
      be_Create = (\<lambda>name co (s, w). case Session_Create name s w of (e, w') \<Rightarrow> (unit_ret e, [], s, w')),
      be_Delete = (\<lambda>name (s, w). case Session_Delete name s w of (e, s', w') \<Rightarrow> (unit_ret e, [], s', w')),
      be_Rename = (\<lambda>name new (s, w). case Session_Rename name new s w of (e, w') \<Rightarrow> (unit_ret e, [], s, w')),
      be_Subscribe = (\<lambda>name (s, w). case Session_Subscribe name s w of (e, w') \<Rightarrow> (unit_ret e, [], s, w')),
      be_Unsubscribe = (\<lambda>name (s, w). case Session_Unsubscribe name s w of (e, w') \<Rightarrow> (unit_ret e, [], s, w')),
      be_List = (\<lambda>ref patterns lopts (s, w).
        let r = Session_List ref patterns (Some lopts) (me_order1 env (user_names s w)) (me_order2 env (user_names s w)) s w
        in (sum_ret (\<lambda>_. ()) r, concat (written WriteList r), s, w)),
      be_Status = (\<lambda>name sopts (s, w). (sum_ret id (Session_Status name sopts s w), [], s, w)),
      be_Append = (\<lambda>name lit aopts (s, w).
        case Session_Append name (Inr lit) (Some aopts) (me_now env) s w of (r, w') \<Rightarrow> (sum_ret Some r, [], s, w')),
      be_Idle = (\<lambda>stop (s, w). if stop then Some (Ret (), [], s, w) else None),
      be_Unselect = (\<lambda>(s, w). (Ret (), [], Session_Unselect s, w)),
      be_Expunge = (\<lambda>us (s, w). case Session_Expunge us s w of
        (r, w') \<Rightarrow> (sum_ret (\<lambda>_. ()) r, written (ExpungeWriter_WriteExpunge False) r, s, w')),
      be_Search = (\<lambda>kind crit sropts (s, w).
        (outcome_ret id (Session_Search (me_header env) (me_parse env) kind (Some crit) (Some sropts) s w), [], s, w)),
      be_Fetch = (\<lambda>ns fopts (s, w). case Session_Fetch (me_header env) (me_parse env) ns fopts s w of
        (r, ds, w') \<Rightarrow> (outcome_ret id r, map (WriteFetchData (me_format env) False) ds, s, w')),
      be_Store = (\<lambda>ns sf so (s, w). case Session_Store ns sf s w of
        (r, w') \<Rightarrow> (sum_ret (\<lambda>_. ()) r, written (\<lambda>(n, fs). FetchWriter_WriteFlags False n fs) r, s, w')),
      be_Copy = (\<lambda>ns dest (s, w). case Session_Copy ns dest (me_now env) s w of (r, w') \<Rightarrow> (outcome_ret Some r, [], s, w'))\<rparr>"

lemma mem_error_not_bye [simp]: "\<not> is_bye (mem_go_error e)"
  by (cases e) simp_all

lemma polite_rets:
  "polite (unit_ret e, [], b)" "polite (sum_ret f r, [], b)" "polite (outcome_ret g x, [], b)" "polite (Ret y, [], b)"
  by (auto simp: polite_def unit_ret_def sum_ret_def outcome_ret_def split: option.splits sum.splits outcome.splits)

lemma polite_written:
  assumes "\<And>x. HasPrefix (f x) ''* ''"
  shows "polite (sum_ret g r, written f r, b)" "polite (outcome_ret h y, map f xs, b)"
  using assms by (auto simp: polite_def sum_ret_def outcome_ret_def written_def split: sum.splits outcome.splits)

lemma WriteList_star:
  assumes "x \<in> set (WriteList d)"
  shows "HasPrefix x ''* ''"
proof -
  have "list_all (\<lambda>x. HasPrefix x ''* '') (WriteList d)"
    by (cases "ld_Status d") (simp_all only: WriteList_def list_all_append list.pred_inject HasPrefix_star option.case simp_thms)
  then show ?thesis using assms by (simp add: list_all_iff)
qed

lemma polite_lists: "polite (sum_ret g r, concat (written WriteList r), b)"
  by (auto simp: polite_def sum_ret_def written_def WriteList_star split: sum.splits)

lemma writers_star:
  "HasPrefix (ExpungeWriter_WriteExpunge False n) ''* ''"
  "HasPrefix (WriteFetchData fmt False fd) ''* ''" "HasPrefix (FetchWriter_WriteFlags False n fs) ''* ''"
  by (simp_all only: ExpungeWriter_WriteExpunge_def WriteFetchData_def FetchWriter_WriteFlags_def Let_def
      enc_NumResponse_def HasPrefix_star if_False)

interpretation mem: backend_contract "mem_backend env" for env
proof unfold_locales
  fix us b
  show "polite (be_Expunge (mem_backend env) us b)"
    by (cases b) (simp add: mem_backend_def polite_written(1) writers_star split: prod.split)
next
  fix ref ps lopts b
  show "polite (be_List (mem_backend env) ref ps lopts b)"
    by (cases b) (simp add: mem_backend_def Let_def polite_lists)
next
  fix ns sf so b
  show "polite (be_Store (mem_backend env) ns sf so b)"
    by (cases b) (simp add: mem_backend_def polite_written(1) writers_star split: prod.split)
next
  fix ns fopts b
  show "polite (be_Fetch (mem_backend env) ns fopts b)"
    by (cases b) (simp add: mem_backend_def polite_written(2) writers_star split: prod.split)
next
  fix stop b r
  show "be_Idle (mem_backend env) stop b = Some r \<Longrightarrow> polite r"
    by (cases b) (auto simp: mem_backend_def polite_rets split: if_splits)
qed (auto simp: mem_backend_def polite_rets split: prod.split)

text \<open>C4. Every command is answered once: whatever a client of the in-memory server sends, if
  its tag is not one of the two that the protocol reserves and TLS handshakes do not fail, the
  command is followed by exactly one tagged response, unless it panics or never returns; and
  the connection stays open.\<close>

theorem one_tagged_response:
  assumes "valid_tag tag" "\<forall>inp. o_handshake opts inp \<noteq> None"
    and "dispatch (builtin opts (mem_backend env)) tag name rest c = Finished e c'"
  shows "e = None \<and> (\<exists>outs. c_output c' = c_output c @ outs \<and> tagged tag outs = 1)"
  by (rule mem.one_reply [OF assms])

definition example_env :: mem_env where
  "example_env =
     \<lparr>me_header = (\<lambda>_. None), me_parse = (\<lambda>_ _. None), me_format = (\<lambda>_ _. []), me_order1 = (\<lambda>_. []), me_order2 = (\<lambda>_. []),
      me_now = 0\<rparr>"

theorem one_tagged_response_witness:
  "\<exists>c'. dispatch (builtin example_options (mem_backend example_env)) ''a1'' ''noop'' [] (newConn [] True) = Finished None c' \<and>
     tagged ''a1'' (c_output c') = 1"
proof -
  let ?d = "builtin example_options (mem_backend example_env)"
  have up: "ToUpper ''noop'' = ''NOOP''" "uid_prefix ''NOOP'' [] = Some (NumKindSeq, ''NOOP'', [])"
    "CommandAllowedStates ''NOOP'' = Some [NotAuthenticated, Authenticated, Selected]" by code_simp+
  have "Dispatcher_Get ?d ''NOOP'' = Some Noop"
    by (simp add: Dispatcher_Get_def builtin_def RegisterAll_def builtin_handlers_def Dispatcher_Register_def ToUpper_def
        upper_char_def is_lower_def)
  then have run: "dispatch ?d ''a1'' ''noop'' [] (newConn [] True) = Finished None (WriteOK ''a1'' ''NOOP completed'' (newConn [] True))"
    by (simp add: dispatch_def up RequireState_def newConn_def New_def Noop_def return_ok_def respond_def Let_def)
  have "valid_tag ''a1''" "\<forall>inp. o_handshake example_options inp \<noteq> None" by (simp_all add: valid_tag_def example_options_def)
  from one_tagged_response [OF this run] run show ?thesis by (auto simp: newConn_def)
qed

section \<open>Connections on one store\<close>

text \<open>Room in every mailbox for one more message and for a copy of any mailbox.\<close>

definition spacious :: "world \<Rightarrow> bool" where
  "spacious w \<longleftrightarrow> (\<forall>a b. unat (mb_UIDNext (w_mailbox w a)) + length (mb_Messages (w_mailbox w b)) + 1 < 2 ^ 32)"

lemma st_prod: "st (case p of (x, y) \<Rightarrow> f x y) = st (f (fst p) (snd p))"
  by (cases p) simp

lemma mem_states:
  "st (be_Login (mem_backend env) user pass (s, w)) = (snd (Session_Login user pass s w), w)"
  "st (be_Select (mem_backend env) n so (s, w)) = (snd (Session_Select n (Some so) s w), w)"
  "st (be_Create (mem_backend env) n co (s, w)) = (s, snd (Session_Create n s w))"
  "st (be_Delete (mem_backend env) n (s, w)) = snd (Session_Delete n s w)"
  "st (be_Rename (mem_backend env) n n' (s, w)) = (s, snd (Session_Rename n n' s w))"
  "st (be_Subscribe (mem_backend env) n (s, w)) = (s, snd (Session_Subscribe n s w))"
  "st (be_Unsubscribe (mem_backend env) n (s, w)) = (s, snd (Session_Unsubscribe n s w))"
  "st (be_List (mem_backend env) ref ps lopts (s, w)) = (s, w)"
  "st (be_Status (mem_backend env) n sopts (s, w)) = (s, w)"
  "st (be_Append (mem_backend env) n lit aopts (s, w)) = (s, snd (Session_Append n (Inr lit) (Some aopts) (me_now env) s w))"
  "st (be_Unselect (mem_backend env) (s, w)) = (Session_Unselect s, w)"
  "st (be_Expunge (mem_backend env) us (s, w)) = (s, snd (Session_Expunge us s w))"
  "st (be_Search (mem_backend env) kind crit sropts (s, w)) = (s, w)"
  "st (be_Fetch (mem_backend env) ns fopts (s, w)) = (s, snd (snd (Session_Fetch (me_header env) (me_parse env) ns fopts s w)))"
  "st (be_Store (mem_backend env) ns sf stopts (s, w)) = (s, snd (Session_Store ns sf s w))"
  "st (be_Copy (mem_backend env) ns dest (s, w)) = (s, snd (Session_Copy ns dest (me_now env) s w))"
  "be_Idle (mem_backend env) stop (s, w) = Some r \<Longrightarrow> st r = (s, w)"
  by (auto simp: mem_backend_def st_def Let_def split: prod.splits if_splits)

text \<open>A command is at most one step of the session that changes the store, and then at most one
  that does not.\<close>

lemma calls_steps:
  assumes "calls (mem_backend env) name (s, w) (s', w')" "spacious w" "name = ''LOGIN'' \<longrightarrow> ss_selected s = None"
  shows "w' = w \<and> steps session_step (s, w) (s', w') \<or>
    (\<exists>s1. session_step (s, w) (s1, w') \<and> steps session_step (s1, w') (s', w'))"
proof -
  have one: "session_step (s, w) (s', w') \<Longrightarrow> ?thesis"
    using steps_refl by (intro disjI2 exI [of _ s']) auto
  have room1: "room 1 (w_mailbox w a)" for a
    using assms(2) unfolding spacious_def room_def by (metis add_lessD1 add.assoc add.commute)
  have roomn: "room (length (mb_Messages (w_mailbox w a))) (w_mailbox w b)" for a b
    using assms(2) unfolding spacious_def room_def by (meson add_lessD1)
  show ?thesis
    using assms(1)
  proof cases
    case (call_login u p)
    then show ?thesis using assms(3) do_login [of s w u p] one by (simp add: mem_states)
  next
    case (call_select mb)
    then show ?thesis using do_select [of s w mb] one by (simp add: mem_states)
  next
    case (call_examine mb)
    then show ?thesis using do_select [of s w mb] one by (simp add: mem_states)
  next
    case (call_create mb)
    then show ?thesis using do_create [of s w mb] one by (simp add: mem_states)
  next
    case (call_delete mb)
    then show ?thesis using do_delete [of s w mb] one by (simp add: mem_states)
  next
    case (call_rename mb mb')
    then show ?thesis using do_rename [of s w mb mb'] one by (simp add: mem_states)
  next
    case (call_subscribe mb)
    then show ?thesis using do_subscribe [of s w mb] one by (simp add: mem_states)
  next
    case (call_unsubscribe mb)
    then show ?thesis using do_unsubscribe [of s w mb] one by (simp add: mem_states)
  next
    case (call_append mb lit aopts)
    then show ?thesis
      using do_append [of s mb w "Inr lit" "Some aopts" "me_now env"] room1 one by (simp add: mem_states)
  next
    case (call_idle stop r)
    then show ?thesis using mem_states(17) by auto
  next
    case call_close
    then have "s' = Session_Unselect s" "w' = snd (Session_Expunge None s w)" by (simp_all add: mem_states)
    then have "session_step (s, w) (s, w')" "session_step (s, w') (s', w')"
      using do_expunge [of s w None] do_unselect [of s w'] by simp_all
    then show ?thesis using steps_one [where r = session_step] by blast
  next
    case call_unselect
    then show ?thesis using do_unselect [of s w] one by (simp add: mem_states)
  next
    case (call_expunge us)
    then show ?thesis using do_expunge [of s w us] one by (simp add: mem_states)
  next
    case (call_fetch ns fopts)
    then show ?thesis using do_fetch [of s w] one by (simp add: mem_states)
  next
    case (call_store ns sf)
    then show ?thesis using do_store [of s w ns sf] one by (simp add: mem_states)
  next
    case (call_copy ns mb)
    then show ?thesis using do_copy [of s mb w ns "me_now env"] roomn one by (simp add: mem_states)
  qed (simp_all add: mem_states)
qed

record wire_state =
  wi_world :: world
  wi_conns :: "nat \<Rightarrow> session conn"

definition with_world :: "world \<Rightarrow> session conn \<Rightarrow> (session \<times> world) conn" where
  "with_world w c =
     \<lparr>c_input = c_input c, c_output = c_output c, c_session = map_option (\<lambda>s. (s, w)) (c_session c),
      c_machine = c_machine c, c_enabled = c_enabled c, c_isTLS = c_isTLS c, c_mailbox = c_mailbox c,
      c_readOnly = c_readOnly c, c_closed = c_closed c\<rparr>"

definition sessions_only :: "(session \<times> world) conn \<Rightarrow> session conn" where
  "sessions_only c =
     \<lparr>c_input = c_input c, c_output = c_output c, c_session = map_option fst (c_session c),
      c_machine = c_machine c, c_enabled = c_enabled c, c_isTLS = c_isTLS c, c_mailbox = c_mailbox c,
      c_readOnly = c_readOnly c, c_closed = c_closed c\<rparr>"

text \<open>The server with all its connections: a client connects and sends its whole input, the server
  handles the next command of some connection, a connection is closed, the administrator adds or
  removes a user.\<close>

inductive wire_step :: "options \<Rightarrow> wire_state \<Rightarrow> wire_state \<Rightarrow> bool" for opts where
  accept: "wire_step opts y
     (y\<lparr>wi_conns := (wi_conns y)(i := (newConn inp isTLS)\<lparr>c_session := Some mem_NewSession\<rparr>)\<rparr>)"
| command: "readAndHandle (builtin opts (mem_backend env)) (with_world (wi_world y) (wi_conns y i)) = Finished e c' \<Longrightarrow>
     c_session c' = Some (s', w') \<Longrightarrow> spacious (wi_world y) \<Longrightarrow>
     wire_step opts y \<lparr>wi_world = w', wi_conns = (wi_conns y)(i := sessions_only c')\<rparr>"
| hang_up: "wire_step opts y (y\<lparr>wi_conns := (wi_conns y)(i := Conn_Close Session_Close (wi_conns y i))\<rparr>)"
| admin_add: "wire_step opts y (y\<lparr>wi_world := AddUser name pass (wi_world y)\<rparr>)"
| admin_remove: "wire_step opts y (y\<lparr>wi_world := RemoveUser name (wi_world y)\<rparr>)"

definition wire_init :: wire_state where
  "wire_init = \<lparr>wi_world = mem_New, wi_conns = (\<lambda>i. (newConn [] False)\<lparr>c_session := Some mem_NewSession\<rparr>)\<rparr>"

definition wire_abs :: "wire_state \<Rightarrow> system" where
  "wire_abs y = \<lparr>sys_world = wi_world y, sys_sessions = (\<lambda>i. the (c_session (wi_conns y i)))\<rparr>"

definition wire_inv :: "wire_state \<Rightarrow> bool" where
  "wire_inv y \<longleftrightarrow>
     (\<forall>i. \<exists>s. c_session (wi_conns y i) = Some s \<and> (Conn_State (wi_conns y i) = NotAuthenticated \<longrightarrow> ss_selected s = None))"

interpretation logged_in: conn_machine_invariant "\<lambda>c. Conn_State c \<noteq> NotAuthenticated"
proof unfold_locales
  fix c :: "'b conn" and s r m w
  assume "Conn_State c \<noteq> NotAuthenticated" "s \<noteq> NotAuthenticated" "Transition (c_machine c) s () = (r, m, w)"
  then show "Conn_State (c\<lparr>c_machine := m\<rparr>) \<noteq> NotAuthenticated"
    using Transition_cur [of "c_machine c" s "()" r m w] by (auto simp: Conn_State_def State_def)
qed (simp_all add: Conn_State_def emit_def SetMailbox_def)

lemma gate_state:
  "gate d upper c \<Longrightarrow> Conn_State c = NotAuthenticated \<Longrightarrow> calls be upper b b' \<Longrightarrow> b' \<noteq> b \<Longrightarrow> upper = ''LOGIN''"
  by (erule calls.cases) (simp_all add: gate_def CommandAllowedStates_def Conn_State_def State_def)

lemma gate_login: "gate d ''LOGIN'' c \<Longrightarrow> Conn_State c = NotAuthenticated"
  by (simp add: gate_def CommandAllowedStates_def Conn_State_def State_def)

lemma calls_login_selected:
  "calls (mem_backend env) ''LOGIN'' (s, w) (s', w') \<Longrightarrow> ss_selected s' = ss_selected s"
  by (erule calls.cases) (auto simp: mem_states Session_Login_def split: option.splits if_splits)

lemma command_effect:
  assumes "c_session c = Some s" "Conn_State c = NotAuthenticated \<longrightarrow> ss_selected s = None" "spacious w"
    and "readAndHandle (builtin opts (mem_backend env)) (with_world w c) = Finished e c'"
  shows "\<exists>s' w'. c_session c' = Some (s', w') \<and> (Conn_State c' = NotAuthenticated \<longrightarrow> ss_selected s' = None) \<and>
    (w' = w \<and> steps session_step (s, w) (s', w') \<or>
     (\<exists>s1. session_step (s, w) (s1, w') \<and> steps session_step (s1, w') (s', w')))"
proof -
  let ?be = "mem_backend env"
  let ?c = "with_world w c"
  have b: "c_session ?c = Some (s, w)" and st: "Conn_State ?c = Conn_State c"
    using assms(1) by (simp_all add: with_world_def Conn_State_def)
  have "conn_step opts ?be ?c c'" using assms(4) by (auto simp: conn_step_def)
  then show ?thesis
  proof (cases rule: conn_step_cases)
    case (quit inp)
    then show ?thesis using b st assms(2) by (auto simp: Conn_State_def)
  next
    case (bad inp msg)
    then show ?thesis using b st assms(2) by (auto simp: Conn_State_def WriteBAD_def emit_def)
  next
    case (command line inp tag name rest e')
    let ?d = "?c\<lparr>c_input := inp\<rparr>"
    have d: "c_session ?d = Some (s, w)" "Conn_State ?d = Conn_State c" using b st by (simp_all add: Conn_State_def)
    from command_calls [OF d(1) command(3)] obtain s' w' where b': "c_session c' = Some (s', w')"
      and cl: "(s', w') = (s, w) \<or> (\<exists>upper. gate (builtin opts ?be) upper ?d \<and> calls ?be upper (s, w) (s', w'))"
      by (metis surj_pair)
    have na: "Conn_State c = NotAuthenticated" if "Conn_State c' = NotAuthenticated"
    proof (rule ccontr)
      assume "Conn_State c \<noteq> NotAuthenticated"
      then have "Conn_State ?d \<noteq> NotAuthenticated" using d by simp
      from dispatch_keeps [where I = "\<lambda>c. Conn_State c \<noteq> NotAuthenticated", OF _ _ this command(3)] that
      show False using logged_in.keeps_builtin logged_in.I_emit by blast
    qed
    show ?thesis
    proof (cases "(s', w') = (s, w)")
      case True
      then show ?thesis using b' na assms(2) by auto
    next
      case False
      then obtain upper where g: "gate (builtin opts ?be) upper ?d" and cs: "calls ?be upper (s, w) (s', w')"
        using cl by blast
      have login: "upper = ''LOGIN'' \<longrightarrow> ss_selected s = None"
        using gate_login [of "builtin opts ?be" ?d] g d(2) assms(2) by auto
      have "ss_selected s' = None" if "Conn_State c' = NotAuthenticated"
      proof -
        have n: "Conn_State c = NotAuthenticated" by (rule na [OF that])
        then have "upper = ''LOGIN''" using gate_state [OF g _ cs False] d(2) by simp
        then show ?thesis using calls_login_selected [of env s w s' w'] cs n assms(2) by simp
      qed
      then show ?thesis using b' calls_steps [OF cs assms(3) login] by blast
    qed
  qed
qed

lemma wire_inv_init: "wire_inv wire_init"
  by (simp add: wire_inv_def wire_init_def mem_NewSession_def)

lemma session_steps_system:
  assumes "steps session_step (s, w) (s', w')" "sys_sessions y i = s" "sys_world y = w"
  shows "steps system_step y \<lparr>sys_world = w', sys_sessions = (sys_sessions y)(i := s')\<rparr>"
  using assms
proof (induction "(s, w)" "(s', w')" arbitrary: s' w' rule: steps.induct)
  case steps_refl
  then have "y = \<lparr>sys_world = w, sys_sessions = (sys_sessions y)(i := s)\<rparr>" by (cases y) auto
  then show ?case by (metis steps.steps_refl)
next
  case (steps_step t)
  obtain s1 w1 where t: "t = (s1, w1)" by (cases t)
  let ?y1 = "\<lparr>sys_world = w1, sys_sessions = (sys_sessions y)(i := s1)\<rparr>"
  have "steps system_step y ?y1" using steps_step t by blast
  moreover have "system_step ?y1 \<lparr>sys_world = w', sys_sessions = (sys_sessions y)(i := s')\<rparr>"
    using by_session [of ?y1 i s' w'] steps_step.hyps(3) t by simp
  ultimately show ?case by (rule steps.steps_step)
qed

lemma wire_step_simulated:
  assumes "wire_step opts y y'" "wire_inv y"
  shows "wire_inv y' \<and> steps system_step (wire_abs y) (wire_abs y')"
  using assms
proof (induction rule: wire_step.induct)
  case (accept y i inp isTLS)
  let ?c = "(newConn inp isTLS)\<lparr>c_session := Some mem_NewSession\<rparr>"
  have "wire_abs (y\<lparr>wi_conns := (wi_conns y)(i := ?c)\<rparr>) =
      (wire_abs y)\<lparr>sys_sessions := (sys_sessions (wire_abs y))(i := mem_NewSession)\<rparr>"
    by (auto simp: wire_abs_def)
  then show ?case
    using accept steps_one [where r = system_step, OF connect [of "wire_abs y" i]]
    by (auto simp: wire_inv_def mem_NewSession_def)
next
  case (command env y i e c' s' w')
  obtain s where s: "c_session (wi_conns y i) = Some s"
      "Conn_State (wi_conns y i) = NotAuthenticated \<longrightarrow> ss_selected s = None"
    using command.prems unfolding wire_inv_def by blast
  from command_effect [OF s command.hyps(3,1)] command.hyps(2)
  have c': "Conn_State c' = NotAuthenticated \<longrightarrow> ss_selected s' = None" and
    "wi_world y = w' \<and> steps session_step (s, wi_world y) (s', w') \<or>
     (\<exists>s1. session_step (s, wi_world y) (s1, w') \<and> steps session_step (s1, w') (s', w'))"
    by auto
  then have "steps session_step (s, wi_world y) (s', w')"
    using steps_one [where r = session_step] steps_trans [where r = session_step] by blast
  from session_steps_system [OF this, of "wire_abs y" i] s(1)
  have "steps system_step (wire_abs y) \<lparr>sys_world = w', sys_sessions = (sys_sessions (wire_abs y))(i := s')\<rparr>"
    by (simp add: wire_abs_def)
  moreover have "wire_abs \<lparr>wi_world = w', wi_conns = (wi_conns y)(i := sessions_only c')\<rparr> =
      \<lparr>sys_world = w', sys_sessions = (sys_sessions (wire_abs y))(i := s')\<rparr>"
    using command.hyps(2) by (auto simp: wire_abs_def sessions_only_def)
  moreover have "Conn_State (sessions_only c') = Conn_State c'" by (simp add: sessions_only_def Conn_State_def)
  ultimately show ?case
    using command.hyps(2) command.prems c' by (auto simp: wire_inv_def sessions_only_def)
next
  case (hang_up y i)
  obtain s where s: "c_session (wi_conns y i) = Some s"
      "Conn_State (wi_conns y i) = NotAuthenticated \<longrightarrow> ss_selected s = None"
    using hang_up unfolding wire_inv_def by blast
  show ?case
  proof (cases "c_closed (wi_conns y i)")
    case True
    then have "y\<lparr>wi_conns := (wi_conns y)(i := Conn_Close Session_Close (wi_conns y i))\<rparr> = y" by (simp add: Conn_Close_def)
    then show ?thesis using hang_up by simp
  next
    case False
    have "steps system_step (wire_abs y)
        \<lparr>sys_world = wi_world y, sys_sessions = (sys_sessions (wire_abs y))(i := Session_Close s)\<rparr>"
      using by_session [OF do_close, of "wire_abs y" i] s(1) by (intro steps_one) (simp add: wire_abs_def)
    moreover have "wire_abs (y\<lparr>wi_conns := (wi_conns y)(i := Conn_Close Session_Close (wi_conns y i))\<rparr>) =
        \<lparr>sys_world = wi_world y, sys_sessions = (sys_sessions (wire_abs y))(i := Session_Close s)\<rparr>"
      using s(1) False by (auto simp: wire_abs_def Conn_Close_def)
    ultimately show ?thesis
      using hang_up s False by (auto simp: wire_inv_def Conn_Close_def Session_Close_def)
  qed
next
  case (admin_add y name pass)
  then show ?case
    using steps_one [where r = system_step, OF add_user [of "wire_abs y" name pass]]
    by (simp add: wire_inv_def wire_abs_def)
next
  case (admin_remove y name)
  then show ?case
    using steps_one [where r = system_step, OF remove_user [of "wire_abs y" name]]
    by (simp add: wire_inv_def wire_abs_def)
qed

lemma wire_simulated:
  "steps (wire_step opts) wire_init y \<Longrightarrow> wire_inv y \<and> steps system_step system_init (wire_abs y)"
proof (induction wire_init y rule: steps.induct)
  case steps_refl
  have "wire_abs wire_init = system_init" by (simp add: wire_abs_def wire_init_def system_init_def)
  then show ?case using wire_inv_init by simp
next
  case (steps_step t u)
  then show ?case using wire_step_simulated [of opts t u] steps_trans [where r = system_step] by blast
qed

text \<open>C1. The server refines the system of sessions: whatever clients send on any number of
  connections, in any interleaving and with the administrator at work, the store and the
  sessions it leaves are ones that the methods of the sessions alone can reach, so that
  everything proved of those holds of the server.\<close>

theorem wire_refines_system:
  "steps (wire_step opts) wire_init y \<Longrightarrow> steps system_step system_init (wire_abs y)"
  using wire_simulated by blast

text \<open>C2. Users are isolated over the wire: no line that a client sends on a connection that is not
  logged in as user \<open>v\<close> changes anything \<open>v\<close> can see, whatever the line says and whatever
  happened before.\<close>

theorem wire_isolation:
  assumes "steps (wire_step opts) wire_init y" "spacious (wi_world y)"
    and "c_session (wi_conns y i) = Some s" "ss_userData s \<noteq> Some v" "v < w_nextUserData (wi_world y)"
    and "readAndHandle (builtin opts (mem_backend env)) (with_world (wi_world y) (wi_conns y i)) = Finished e c'"
  shows "\<exists>s' w'. c_session c' = Some (s', w') \<and> view v w' = view v (wi_world y)"
proof -
  let ?w = "wi_world y"
  have inv: "wire_inv y" and reach: "steps system_step system_init (wire_abs y)" using wire_simulated [OF assms(1)] by auto
  have "system_ok (wire_abs y)" by (rule systems.inv_reachable [OF refl reach])
  then obtain own where "\<forall>j. all_ok own (sys_sessions (wire_abs y) j) (sys_world (wire_abs y))"
    unfolding system_ok_def by blast
  then have ok: "all_ok own s ?w" using assms(3) by (auto simp: wire_abs_def dest: spec [of _ i])
  have "Conn_State (wi_conns y i) = NotAuthenticated \<longrightarrow> ss_selected s = None"
    using inv assms(3) unfolding wire_inv_def by (metis option.inject)
  from command_effect [OF assms(3) this assms(2,6)] obtain s' w' where c': "c_session c' = Some (s', w')"
    and eff: "w' = ?w \<or> (\<exists>s1. session_step (s, ?w) (s1, w'))" by blast
  have "view v w' = view v ?w"
    using eff
  proof
    assume "\<exists>s1. session_step (s, ?w) (s1, w')"
    then obtain s1 own' where "good_step own (s, ?w) own' (s1, w')" using session_step_good [of "(s, ?w)"] ok by fastforce
    then have "confined own (ss_userData s) ?w w'" by (simp add: good_step_def)
    then show ?thesis by (rule confined_view [OF ok _ assms(4,5)])
  qed simp
  then show ?thesis using c' by blast
qed

text \<open>Two users, and bob connected under TLS: the login, and then a CREATE.\<close>

definition example_input :: string where
  "example_input = ''a LOGIN bob q'' @ [CHR 0x0D, CHR 0x0A] @ ''b CREATE Work''"

definition wire_world :: world where
  "wire_world = AddUser ''bob'' ''q'' (AddUser ''ann'' ''p'' mem_New)"

definition bob :: session where
  "bob = mem_NewSession\<lparr>ss_userData := Some 1\<rparr>"

definition bob_conn :: "session conn" where
  "bob_conn = (newConn ''b CREATE Work'' True)\<lparr>c_output := [enc_StatusResponse ''a'' ''OK'' [] ''LOGIN completed''],
     c_session := Some bob, c_machine := (New NotAuthenticated)\<lparr>cur := Authenticated\<rparr>\<rparr>"

definition example_wire :: wire_state where
  "example_wire = \<lparr>wi_world = wire_world, wi_conns = (wi_conns wire_init)(7 := bob_conn)\<rparr>"

lemma wire_world_facts:
  "spacious wire_world" "w_nextUserData wire_world = 2"
  "Session_Login ''bob'' ''q'' mem_NewSession wire_world = (None, bob)"
  by (simp_all add: wire_world_def AddUser_def NewUserData_def alloc_mailbox_def mem_New_def Let_def spacious_def
      NewMailbox_def Session_Login_def bob_def mem_NewSession_def)

lemma example_lines:
  "ReadLine example_input = (Inr ''a LOGIN bob q'', ''b CREATE Work'')"
  "parseLine ''a LOGIN bob q'' = Inr (''a'', ''LOGIN'', ''bob q'')"
  "ToUpper ''LOGIN'' = ''LOGIN''"
  "uid_prefix ''LOGIN'' ''bob q'' = Some (NumKindSeq, ''LOGIN'', ''bob q'')"
  "CommandAllowedStates ''LOGIN'' = Some [NotAuthenticated]"
  "ReadAString ''bob q'' = (Inr ''bob'', '' q'')" "ReadSP '' q'' = (Inr (), ''q'')" "ReadAString ''q'' = (Inr ''q'', [])"
  "ReadLine ''b CREATE Work'' = (Inr ''b CREATE Work'', [])"
  "parseLine ''b CREATE Work'' = Inr (''b'', ''CREATE'', ''Work'')"
  "ToUpper ''CREATE'' = ''CREATE''"
  "uid_prefix ''CREATE'' ''Work'' = Some (NumKindSeq, ''CREATE'', ''Work'')"
  "CommandAllowedStates ''CREATE'' = Some [Authenticated, Selected]"
  "ReadAString ''Work'' = (Inr ''Work'', [])"
  by code_simp+

lemma example_handlers:
  "Dispatcher_Get (builtin opts be) ''LOGIN'' = Some (Login opts be)"
  "Dispatcher_Get (builtin opts be) ''CREATE'' = Some (Create be)"
  by (simp_all add: Dispatcher_Get_def builtin_def RegisterAll_def builtin_handlers_def Dispatcher_Register_def ToUpper_def
      upper_char_def is_lower_def)

lemma example_login:
  "readAndHandle (builtin example_options (mem_backend example_env))
     (with_world wire_world ((newConn example_input True)\<lparr>c_session := Some mem_NewSession\<rparr>)) =
   Finished None (with_world wire_world bob_conn)"
proof -
  have "be_Login (mem_backend example_env) ''bob'' ''q'' (mem_NewSession, wire_world) = (Ret (), [], bob, wire_world)"
    by (simp add: mem_backend_def wire_world_facts unit_ret_def)
  then show ?thesis
    unfolding readAndHandle_def
    by (simp add: newConn_def with_world_def example_lines example_handlers dispatch_def RequireState_def New_def Login_def with_args_def
        read_arg_def ask_def set_state_def Conn_SetState_def Transition_def canTransition_def bob_conn_def
        DefaultTransitions_def return_ok_def WriteOK_def emit_def respond_def Conn_State_def State_def Let_def)
qed

lemma example_wire_reachable: "steps (wire_step example_options) wire_init example_wire"
proof -
  let ?c = "(newConn example_input True)\<lparr>c_session := Some mem_NewSession\<rparr>"
  let ?y1 = "wire_init\<lparr>wi_world := AddUser ''ann'' ''p'' (wi_world wire_init)\<rparr>"
  let ?y2 = "?y1\<lparr>wi_world := AddUser ''bob'' ''q'' (wi_world ?y1)\<rparr>"
  let ?y3 = "?y2\<lparr>wi_conns := (wi_conns ?y2)(7 := ?c)\<rparr>"
  have w: "wi_world ?y3 = wire_world" "wi_conns ?y3 7 = ?c" by (simp_all add: wire_init_def wire_world_def)
  have "steps (wire_step example_options) wire_init ?y3"
    by (rule steps_step, rule steps_step, rule steps_one, rule admin_add, rule admin_add, rule accept)
  moreover have "wire_step example_options ?y3 example_wire"
  proof -
    have "c_session (with_world wire_world bob_conn) = Some (bob, wire_world)" by (simp add: with_world_def bob_conn_def)
    moreover have "sessions_only (with_world wire_world bob_conn) = bob_conn" by (simp add: with_world_def sessions_only_def bob_conn_def newConn_def)
    moreover have "(wi_conns ?y3)(7 := bob_conn) = (wi_conns wire_init)(7 := bob_conn)" by simp
    ultimately show ?thesis
      using command [of example_options example_env ?y3 7 None "with_world wire_world bob_conn" bob wire_world]
        example_login wire_world_facts(1) w
      by (simp only: example_wire_def)
  qed
  ultimately show ?thesis by (rule steps_step)
qed

theorem wire_refines_system_witness: "steps system_step system_init (wire_abs example_wire)"
  by (rule wire_refines_system [OF example_wire_reachable])

theorem wire_isolation_witness:
  "\<exists>c' s' w'. readAndHandle (builtin example_options (mem_backend example_env))
       (with_world (wi_world example_wire) (wi_conns example_wire 7)) = Finished None c' \<and>
     c_session c' = Some (s', w') \<and> view 0 w' = view 0 (wi_world example_wire) \<and> GetMailbox 1 ''Work'' w' \<noteq> None"
proof -
  obtain w where create: "Session_Create ''Work'' bob wire_world = (None, w)" and work: "GetMailbox 1 ''Work'' w \<noteq> None"
    by (simp add: Session_Create_def bob_def CreateMailbox_def wire_world_def AddUser_def NewUserData_def alloc_mailbox_def
        mem_New_def Let_def getMailboxLocked_def GetMailbox_def normalizeINBOX_def mem_NewSession_def)
  then have "be_Create (mem_backend example_env) ''Work'' \<lparr>SpecialUse = []\<rparr> (bob, wire_world) = (Ret (), [], bob, w)"
    by (simp add: mem_backend_def unit_ret_def)
  then obtain c' where run: "readAndHandle (builtin example_options (mem_backend example_env))
      (with_world (wi_world example_wire) (wi_conns example_wire 7)) = Finished None c'" and s': "c_session c' = Some (bob, w)"
    unfolding readAndHandle_def
    by (simp add: example_wire_def bob_conn_def newConn_def with_world_def example_lines example_handlers dispatch_def RequireState_def
        New_def Create_def mailbox_command_def with_args_def read_arg_def ask_def return_ok_def WriteOK_def emit_def respond_def Let_def)
  have "spacious (wi_world example_wire)" "0 < w_nextUserData (wi_world example_wire)"
      "c_session (wi_conns example_wire 7) = Some bob" "ss_userData bob \<noteq> Some 0"
    by (simp_all add: example_wire_def wire_world_facts bob_conn_def bob_def)
  from wire_isolation [OF example_wire_reachable this(1,3,4,2) run] run s' work show ?thesis by auto
qed

end
