(* ===== verification/ParserLaws.thy ===== *)
theory ParserLaws
  imports ServerLaws
begin

text \<open>
  Which commands come to an end. The parsers of SEARCH and STATUS always return, the parser of
  FETCH returns unless its argument has a partial specifier, and the loop that skips a partial
  specifier returns only when nothing but atom characters follows on the line. With the
  combinators of the handlers this gives the commands that can keep a connection waiting for
  ever.
\<close>

section \<open>SEARCH\<close>

definition consumes :: "'a parsed \<Rightarrow> string \<Rightarrow> bool" where
  "consumes r inp \<longleftrightarrow> suffix (snd r) inp"

lemma consumes_pbind:
  assumes "consumes r inp" "\<And>x rest. suffix rest inp \<Longrightarrow> consumes (f x rest) rest"
  shows "consumes (pbind r f) inp"
proof -
  obtain x rest where r: "r = (x, rest)" by (cases r)
  have s: "suffix rest inp" using assms(1) r by (simp add: consumes_def)
  show ?thesis
  proof (cases x)
    case (Inr y)
    have "suffix (snd (f y rest)) rest" using assms(2) [OF s, of y] by (simp add: consumes_def)
    then have "suffix (snd (f y rest)) inp" using s by (rule suffix_order.order_trans)
    then show ?thesis using r Inr by (simp add: consumes_def pbind_def)
  qed (simp add: consumes_def pbind_def r s)
qed

lemma consumes_wire: "keeps_suffix d \<Longrightarrow> consumes (wire (d inp)) inp"
  by (simp add: consumes_def wire_def keeps_suffix_def)

lemma consumes_return [simp]: "consumes (r, inp) inp"
  by (simp add: consumes_def)

lemma keeps_suffix_ReadNumber64: "keeps_suffix ReadNumber64"
  unfolding ReadNumber64_def
  by (intro keeps_suffix_dbind keeps_suffix_ReadAtom) (simp add: keeps_suffix_def split: option.split)

lemmas decoder_suffix =
  keeps_suffix_ReadSP keeps_suffix_ReadAtom keeps_suffix_ReadAString keeps_suffix_ReadNumber64 keeps_suffix_PeekByte
  keeps_suffix_ReadQuotedString keeps_suffix_ExpectByte

lemma consumes_key_arg: "keeps_suffix d \<Longrightarrow> consumes (key_arg d f c inp) inp"
  unfolding key_arg_def by (intro consumes_pbind consumes_wire decoder_suffix) simp_all

lemma consumes_key_date: "consumes (key_date pt key f c inp) inp"
  unfolding key_date_def by (intro consumes_pbind consumes_wire decoder_suffix) (simp split: option.split)

lemma consumes_key_header: "consumes (key_header c inp) inp"
  unfolding key_header_def by (intro consumes_pbind consumes_wire decoder_suffix) simp

lemma consumes_key_uid: "consumes (key_uid c inp) inp"
  unfolding key_uid_def by (intro consumes_pbind consumes_wire decoder_suffix) (simp split: sum.split)

lemma consumes_modseq_entry: "consumes (modseq_entry inp) inp"
  unfolding modseq_entry_def by (intro consumes_pbind consumes_wire decoder_suffix) simp

lemma consumes_key_modseq: "consumes (key_modseq c inp) inp"
proof -
  have "consumes (pbind (wire (ReadNumber64 rest)) (\<lambda>n inp. (Inr (f n), inp))) rest" for rest and f :: "64 word \<Rightarrow> search_base"
    by (intro consumes_pbind consumes_wire decoder_suffix) simp
  then show ?thesis
    unfolding key_modseq_def
    by (intro consumes_pbind consumes_wire decoder_suffix) (simp_all add: consumes_modseq_entry split: prod.split)
qed

lemmas consumes_keys =
  consumes_key_arg [OF keeps_suffix_ReadAString] consumes_key_arg [OF keeps_suffix_ReadAtom]
  consumes_key_arg [OF keeps_suffix_ReadNumber64] consumes_key_date consumes_key_header consumes_key_uid consumes_key_modseq

lemma consumes_if: "consumes r inp \<Longrightarrow> consumes q inp \<Longrightarrow> consumes (if b then r else q) inp"
  by simp

lemma consumes_search_key: "consumes (search_key pt key c inp) inp"
proof -
  have seq: "consumes (case ParseSeqSet key of Inl e \<Rightarrow> (Inr c, inp) | Inr ss \<Rightarrow> (Inr (f ss), inp)) inp" for f
    by (simp split: sum.split)
  show ?thesis
    unfolding search_key_def Let_def
    by (cases "flag_key (ToUpper key)"; cases "header_key (ToUpper key)"; simp only: option.case consumes_return)
      (intro consumes_if consumes_keys seq)+
qed

lemma suffix_on_base:
  assumes "on_base (search_key pt key) crit inp = (r, rest)" shows "suffix rest inp"
proof -
  have "consumes (on_base (search_key pt key) crit inp) inp"
    unfolding on_base_def by (cases crit) (simp add: consumes_pbind consumes_search_key)
  then show ?thesis using assms by (simp add: consumes_def)
qed

lemma ReadAtom_shorter: "ReadAtom inp = (Inr a, rest) \<Longrightarrow> suffix rest inp \<and> length rest < length inp"
proof -
  assume a: "ReadAtom inp = (Inr a, rest)"
  have s: "suffix rest inp" by (rule keeps_suffixD [OF keeps_suffix_ReadAtom a])
  have a': "a \<noteq> []" "a = takeWhile isAtomChar inp" "rest = dropWhile isAtomChar inp"
    using a unfolding ReadAtom_def Let_def by (simp_all del: dropWhile_eq_Nil_conv split: if_splits)
  from a'(2,3) have "inp = a @ rest" by (simp only: takeWhile_dropWhile_id)
  with a'(1) s show ?thesis by simp
qed

lemma parseSearchCriteria_suffix:
  "\<exists>r rest. parseSearchCriteria pt crit inp = Some (r, rest) \<and> suffix rest inp"
proof (induction "length inp" arbitrary: crit inp rule: less_induct)
  case less
  show ?case
  proof (cases "inp = [] \<or> hd inp = CHR '')''")
    case True
    then show ?thesis by (subst parseSearchCriteria.simps) simp
  next
    case False
    show ?thesis
    proof (cases "ReadAtom inp")
      case (Pair a rest)
      show ?thesis
      proof (cases a)
        case (Inl e)
        then show ?thesis
          using False Pair keeps_suffixD [OF keeps_suffix_ReadAtom Pair] by (subst parseSearchCriteria.simps) simp
      next
        case (Inr key)
        have rest: "suffix rest inp" "length rest < length inp" using ReadAtom_shorter Pair Inr by blast+
        define step where "step =
          (if ToUpper key = ''NOT''
           then (case ReadSP rest of
                   (Inl e, rest) \<Rightarrow> Some (Inl (WireError e), rest)
                 | (Inr _, rest) \<Rightarrow>
                     Option.bind (parseSearchCriteria pt zero_criteria rest) (\<lambda>r.
                       Some (map_sum (\<lambda>e. e) (add_not crit) (fst r), snd r)))
           else Some (on_base (search_key pt key) crit rest))"
        have "\<exists>r rest'. step = Some (r, rest') \<and> suffix rest' rest"
        proof (cases "ToUpper key = ''NOT''")
          case True
          obtain sp rest1 where sp: "ReadSP rest = (sp, rest1)" by (cases "ReadSP rest")
          then have s1: "suffix rest1 rest" by (rule keeps_suffixD [OF keeps_suffix_ReadSP])
          then have "length rest1 < length inp" using rest suffix_length_le by fastforce
          from less [OF this, of zero_criteria] obtain r rest2
            where "parseSearchCriteria pt zero_criteria rest1 = Some (r, rest2)" "suffix rest2 rest1" by blast
          moreover from this have "suffix rest2 rest" using s1 by (blast intro: suffix_order.order_trans)
          ultimately show ?thesis using True sp s1 unfolding step_def by (cases sp) simp_all
        next
          case nt: False
          obtain r rest2 where "on_base (search_key pt key) crit rest = (r, rest2)" by fastforce
          then show ?thesis using nt suffix_on_base unfolding step_def by simp
        qed
        then obtain r rest1 where step: "step = Some (r, rest1)" "suffix rest1 rest" by blast
        have unf: "parseSearchCriteria pt crit inp =
          Option.bind step (\<lambda>r. case fst r of
              Inl e \<Rightarrow> Some (Inl e, snd r)
            | Inr crit \<Rightarrow>
                (case ReadSP (snd r) of
                   (Inl e, rest) \<Rightarrow> Some (Inr crit, rest)
                 | (Inr _, rest) \<Rightarrow> parseSearchCriteria pt crit rest))"
          using False Pair Inr unfolding step_def by (subst parseSearchCriteria.simps) simp
        obtain sp rest2 where sp: "ReadSP rest1 = (sp, rest2)" by (cases "ReadSP rest1")
        then have s2: "suffix rest2 rest1" by (rule keeps_suffixD [OF keeps_suffix_ReadSP])
        have s4: "suffix rest1 inp" by (rule suffix_order.order_trans [OF step(2) rest(1)])
        have s3: "suffix rest2 inp" by (rule suffix_order.order_trans [OF s2 s4])
        have len: "length rest2 < length inp"
          using suffix_length_le [OF s2] suffix_length_le [OF step(2)] rest(2) by simp
        show ?thesis
        proof (cases r)
          case (Inl e)
          then show ?thesis using unf step s4 by simp
        next
          case (Inr crit')
          show ?thesis
          proof (cases sp)
            case (Inl e)
            then show ?thesis using unf step Inr sp s3 \<open>r = Inr crit'\<close> by simp
          next
            case (Inr u)
            from less [OF len, of crit'] obtain r3 rest3
              where "parseSearchCriteria pt crit' rest2 = Some (r3, rest3)" "suffix rest3 rest2" by blast
            moreover from this have "suffix rest3 inp" using s3 by (blast intro: suffix_order.order_trans)
            ultimately show ?thesis using unf step Inr sp \<open>r = Inr crit'\<close> by simp
          qed
        qed
      qed
    qed
  qed
qed

section \<open>FETCH\<close>

definition oreturns :: "'a reply option \<Rightarrow> string \<Rightarrow> bool" where
  "oreturns r inp \<longleftrightarrow> (\<exists>x rest. r = Some (x, rest) \<and> suffix rest inp)"

lemma oreturns_obind:
  assumes "oreturns r inp" "\<And>x rest. suffix rest inp \<Longrightarrow> oreturns (f x rest) rest"
  shows "oreturns (obind r f) inp"
proof -
  obtain x rest where r: "r = Some (x, rest)" "suffix rest inp" using assms(1) unfolding oreturns_def by blast
  show ?thesis
  proof (cases x)
    case (Inr y)
    obtain z rest' where f: "f y rest = Some (z, rest')" "suffix rest' rest"
      using assms(2) [OF r(2), of y] unfolding oreturns_def by blast
    have "suffix rest' inp" by (rule suffix_order.order_trans [OF f(2) r(2)])
    then show ?thesis using r f Inr by (simp add: oreturns_def obind_def)
  qed (use r in \<open>simp add: oreturns_def obind_def\<close>)
qed

lemma oreturns_decoder: "keeps_suffix d \<Longrightarrow> oreturns (Some (d inp)) inp"
  unfolding oreturns_def keeps_suffix_def by (metis prod.collapse)

lemma oreturns_return [simp]: "oreturns (Some (r, inp)) inp"
  by (simp add: oreturns_def)

lemma oreturns_if: "oreturns r inp \<Longrightarrow> oreturns q inp \<Longrightarrow> oreturns (if b then r else q) inp"
  by simp

lemma oreturns_readFieldList: "oreturns (readFieldList inp) inp"
  unfolding oreturns_def readFieldList_def
  by (rule ReadList_returns [OF returns_collect [OF keeps_suffix_ReadAString] suffix_closed_True TrueI])

lemma oreturns_section_spec: "oreturns (section_spec upper sec inp) inp"
  unfolding section_spec_def
  by (intro oreturns_if oreturns_return oreturns_obind oreturns_decoder decoder_suffix oreturns_readFieldList)

definition no_partial :: "string \<Rightarrow> bool" where
  "no_partial inp \<longleftrightarrow> CHR ''<'' \<notin> set inp"

lemma no_partial_suffix: "suffix rest inp \<Longrightarrow> no_partial inp \<Longrightarrow> no_partial rest"
  using set_mono_suffix unfolding no_partial_def by blast

lemma suffix_closed_no_partial: "suffix_closed no_partial"
  unfolding suffix_closed_def using no_partial_suffix by blast

lemma no_partial_hd: "no_partial inp \<Longrightarrow> (inp \<noteq> [] \<and> hd inp = CHR ''<'') = False"
  by (cases inp) (auto simp: no_partial_def)

lemma oreturns_end_section: "no_partial inp \<Longrightarrow> oreturns (end_section sec inp) inp"
  unfolding end_section_def
  by (rule oreturns_obind [OF oreturns_decoder [OF keeps_suffix_ExpectByte]], drule (1) no_partial_suffix) (simp add: no_partial_hd)

lemma oreturns_atom_section: "no_partial inp \<Longrightarrow> oreturns (parseFetchBodySectionFromAtom item peek inp) inp"
  unfolding parseFetchBodySectionFromAtom_def Let_def
  by (rule oreturns_obind [OF oreturns_section_spec]) (rule oreturns_end_section [OF no_partial_suffix])

lemma oreturns_section: "no_partial inp \<Longrightarrow> oreturns (parseFetchBodySection peek inp) inp"
  unfolding parseFetchBodySection_def
proof (rule oreturns_obind [OF oreturns_decoder [OF keeps_suffix_ExpectByte]],
    rule oreturns_obind [OF oreturns_decoder [OF keeps_suffix_PeekByte]])
  fix i j b
  assume "no_partial inp" "suffix i inp" "suffix j i"
  then have n: "no_partial j" using no_partial_suffix [of i inp] no_partial_suffix [of j i] by simp
  show "oreturns (obind (if b \<noteq> CHR '']''
      then obind (Some (ReadAtom j)) (\<lambda>spec inp. section_spec (ToUpper spec) (zero_section peek) inp)
      else Some (Inr (zero_section peek), j)) end_section) j"
    by (rule oreturns_obind, intro oreturns_if oreturns_return oreturns_obind oreturns_decoder decoder_suffix oreturns_section_spec)
      (rule oreturns_end_section [OF no_partial_suffix [OF _ n]])
qed

lemma suffix_consumePartial:
  assumes "consumePartial inp = (p, rest)" shows "suffix rest inp"
proof -
  have e: "suffix (snd (ExpectByte b i)) i" for b i
    using keeps_suffix_ExpectByte [of b] by (simp add: keeps_suffix_def)
  have a: "suffix (snd (ReadAtom i)) i" for i using keeps_suffix_ReadAtom by (simp add: keeps_suffix_def)
  have "suffix (snd (consumePartial inp)) inp"
  proof (cases "inp = [] \<or> hd inp \<noteq> CHR ''<''")
    case False
    then have p: "PeekByte inp = (Inr (CHR ''<''), inp)" by (cases inp) (simp_all add: PeekByte_def)
    let ?i = "snd (ExpectByte (CHR ''<'') inp)"
    obtain x i where x: "ReadAtom ?i = (x, i)" by (cases "ReadAtom ?i")
    have i: "suffix i inp" using a [of ?i] e suffix_order.order_trans [of i ?i inp] by (simp add: x)
    have "suffix (snd (ExpectByte (CHR ''>'') i)) inp" by (rule suffix_order.order_trans [OF e i])
    then show ?thesis using p x i by (cases x) (simp_all add: consumePartial_def)
  qed (cases inp; simp add: consumePartial_def PeekByte_def)
  then show ?thesis using assms by simp
qed

lemma oreturns_binary_item: "oreturns (binary_item part peek fopts inp) inp"
proof -
  have c: "oreturns (case consumePartial i of (p, rest) \<Rightarrow> Some (Inr (f p), rest)) i" for f :: "(int \<times> int) option \<Rightarrow> fetch_options" and i
  proof (cases "consumePartial i")
    case (Pair p rest)
    then show ?thesis using suffix_consumePartial [OF Pair] by (simp add: oreturns_def)
  qed
  show ?thesis
    unfolding binary_item_def by (rule oreturns_obind [OF oreturns_decoder [OF keeps_suffix_ExpectByte]]) (rule c)
qed

lemma oreturns_body_item: "oreturns (parse inp) inp \<Longrightarrow> oreturns (body_item parse fopts inp) inp"
  unfolding body_item_def by (intro oreturns_obind) simp_all

lemma oreturns_option:
  "(\<And>f. x = Some f \<Longrightarrow> oreturns (h f) inp) \<Longrightarrow> oreturns g inp \<Longrightarrow> oreturns (case x of Some f \<Rightarrow> h f | None \<Rightarrow> g) inp"
  by (cases x) simp_all

lemma oreturns_single: "no_partial inp \<Longrightarrow> oreturns (parseSingleFetchItem fopts inp) inp"
  unfolding parseSingleFetchItem_def Let_def
  by (rule oreturns_obind [OF oreturns_decoder [OF keeps_suffix_ReadAtom]], drule (1) no_partial_suffix)
    (intro oreturns_option oreturns_if oreturns_return oreturns_body_item oreturns_atom_section oreturns_section oreturns_binary_item
      oreturns_obind oreturns_decoder decoder_suffix)

lemma returns_single: "returns_on no_partial parseSingleFetchItem"
  using oreturns_single unfolding returns_on_def oreturns_def by blast

lemma parseFetchItems_returns: "no_partial inp \<Longrightarrow> oreturns (parseFetchItems inp) inp"
  unfolding parseFetchItems_def
proof (rule oreturns_obind [OF oreturns_decoder [OF keeps_suffix_PeekByte]])
  fix b rest
  assume "no_partial inp" "suffix rest inp"
  then have n: "no_partial rest" by (blast intro: no_partial_suffix)
  have "oreturns (ReadList parseSingleFetchItem zero_fetch_options rest) rest"
    unfolding oreturns_def by (rule ReadList_returns [OF returns_single suffix_closed_no_partial n])
  then show "oreturns (if b = CHR ''('' then ReadList parseSingleFetchItem zero_fetch_options rest
      else parseSingleFetchItem zero_fetch_options rest) rest"
    using oreturns_single [OF n] by simp
qed

text \<open>The loop over a partial specifier: the closing bracket is an atom character, so the first
  read takes it along with everything up to the first character that is not one, and every
  later read fails without consuming anything.\<close>

lemma skip_partial_stuck: "\<not> isAtomChar c \<Longrightarrow> c \<noteq> CHR ''>'' \<Longrightarrow> skip_partial (c # rest) = None"
proof (rule ccontr)
  assume c: "\<not> isAtomChar c" "c \<noteq> CHR ''>''" and "skip_partial (c # rest) \<noteq> None"
  moreover have "inp \<noteq> c # rest" if s: "skip_partial inp = Some r" for inp r
  proof (rule skip_partial.raw_induct [of "\<lambda>inp _. inp \<noteq> c # rest", OF _ s])
    fix f inp r
    assume ih: "\<And>x y. f x = Some y \<Longrightarrow> x \<noteq> c # rest"
      and run: "(case PeekByte inp of
        (Inl e, rest) \<Rightarrow> Some rest
      | (Inr ch, rest) \<Rightarrow>
          (if ch = CHR ''>'' then Some (snd (ExpectByte (CHR ''>'') rest)) else f (snd (ReadAtom rest)))) = Some r"
    have "snd (ReadAtom (c # rest)) = c # rest" using c by (simp add: ReadAtom_def)
    then show "inp \<noteq> c # rest" using ih [of "c # rest" r] run c by (auto simp: PeekByte_def)
  qed
  ultimately show False by blast
qed

lemma skip_partial_exact:
  assumes "hd inp = CHR ''<''" "inp \<noteq> []"
  shows "skip_partial inp = (if list_all isAtomChar inp then Some [] else None)"
proof -
  have lt: "isAtomChar (CHR ''<'')" "isAtomChar (CHR ''>'')" by code_simp+
  have unf: "skip_partial inp = skip_partial (dropWhile isAtomChar inp)"
    using assms lt by (cases inp, simp, subst skip_partial.simps) (auto simp: PeekByte_def ReadAtom_def Let_def simp del: dropWhile_eq_Nil_conv)
  show ?thesis
  proof (cases "dropWhile isAtomChar inp")
    case Nil
    moreover have "skip_partial [] = Some []" by (subst skip_partial.simps) (simp add: PeekByte_def)
    ultimately have "skip_partial inp = Some []" using unf by (simp only:)
    moreover have "list_all isAtomChar inp" using Nil by (simp add: list_all_iff)
    ultimately show ?thesis by simp
  next
    case (Cons c rest)
    then have c: "\<not> isAtomChar c" by (metis hd_dropWhile list.sel(1) list.distinct(1))
    then have "\<not> list_all isAtomChar inp" using Cons by (auto simp: list_all_iff dropWhile_eq_Nil_conv [symmetric])
    moreover have "skip_partial (c # rest) = None" using skip_partial_stuck c lt by blast
    ultimately show ?thesis using unf Cons by simp
  qed
qed

section \<open>Handlers that return\<close>

definition live :: "'b cont \<Rightarrow> bool" where
  "live k \<longleftrightarrow> (\<forall>c. k c \<noteq> Hangs)"

lemma liveI: "(\<And>c. k c \<noteq> Hangs) \<Longrightarrow> live k"
  by (simp add: live_def)

lemma live_fail: "live (fail e)" and live_return_ok: "live (return_ok ctx s)"
  by (simp_all add: live_def fail_def return_ok_def)

lemma live_Finished: "live (\<lambda>c. Finished (f c) (g c))"
  by (simp add: live_def)

lemma live_pre: "live k \<Longrightarrow> live (\<lambda>c. k (f c))"
  by (simp add: live_def)

lemma live_ask: "(\<And>x. live (k x)) \<Longrightarrow> live (ask m k)"
  by (simp add: live_def ask_def fail_def Let_def split: option.split prod.split ret.split)

lemma live_set_state: "live k \<Longrightarrow> live (set_state s k)"
  by (simp add: live_def set_state_def fail_def split: prod.split option.split)

lemma live_with_args: "(\<And>inp. cx_Decoder ctx = Some inp \<Longrightarrow> live (k inp)) \<Longrightarrow> live (with_args ctx s k)"
  by (cases "cx_Decoder ctx") (simp_all add: with_args_def live_fail)

lemma live_read_arg: "(\<And>x rest. d inp = (Inr x, rest) \<Longrightarrow> live (k x rest)) \<Longrightarrow> live (read_arg d s k inp)"
  by (cases "d inp"; cases "fst (d inp)") (simp_all add: read_arg_def live_fail)

lemma live_read_loop:
  "oreturns (d inp) inp \<Longrightarrow> (\<And>x rest. live (k x rest)) \<Longrightarrow> live (read_loop d s k inp)"
  unfolding oreturns_def by (auto simp: read_loop_def live_fail split: sum.split)

lemma live_read_numset:
  assumes "\<And>ns rest. suffix rest inp \<Longrightarrow> live (k ns rest)" shows "live (read_numset ctx k inp)"
  unfolding read_numset_def
proof (rule live_read_arg)
  fix s rest
  assume "ReadAtom inp = (Inr s, rest)"
  then have "suffix rest inp" by (rule keeps_suffixD [OF keeps_suffix_ReadAtom])
  then show "live (if cx_NumKind ctx = NumKindUID
      then case ParseUIDSet s of Inl _ \<Rightarrow> fail (ErrBad ''invalid UID set'') | Inr us \<Rightarrow> k (UIDSet us) rest
      else case ParseSeqSet s of Inl _ \<Rightarrow> fail (ErrBad ''invalid sequence set'') | Inr ss \<Rightarrow> k (SeqSet ss) rest)"
    using assms by (simp add: live_fail split: sum.split)
qed

lemmas live_intros =
  live_with_args live_read_arg live_ask live_set_state live_return_ok live_fail live_Finished

lemma live_mailbox_command: "live (mailbox_command m s ctx)"
  unfolding mailbox_command_def by (intro live_intros)

lemma oreturns_ReadFlags: "oreturns (ReadFlags inp) inp"
  unfolding oreturns_def ReadFlags_def
  by (rule ReadList_returns [OF returns_collect [OF keeps_suffix_ReadAtom] suffix_closed_True TrueI])

lemma oreturns_status_list: "oreturns (status_list inp) inp"
proof -
  have "returns (\<lambda>s inp. Some (dbind (ReadAtom inp) (\<lambda>item rest. (Inr (f item s), rest))))" for f :: "string \<Rightarrow> status_options \<Rightarrow> status_options"
  proof -
    have "keeps_suffix (\<lambda>inp. dbind (ReadAtom inp) (\<lambda>item rest. (Inr (f item s), rest)))" for s
      by (intro keeps_suffix_dbind keeps_suffix_ReadAtom keeps_suffix_return)
    then show ?thesis unfolding returns_on_def keeps_suffix_def by (metis prod.collapse)
  qed
  then show ?thesis
    unfolding oreturns_def status_list_def by (rule ReadList_returns [OF _ suffix_closed_True TrueI])
qed

lemma live_handleSelect: "live (handleSelect ro be ctx)"
  unfolding handleSelect_def Let_def by (intro live_intros) (rule live_pre, intro live_intros)

lemma live_list_command: "live (list_command be lopts s ctx)"
  unfolding list_command_def by (intro live_intros)

lemma live_StartTLS: "live (StartTLS opts ctx)"
  by (rule liveI) (simp add: StartTLS_def fail_def Let_def split: prod.split bool.split)

lemma live_Login: "live (Login opts be ctx)"
proof -
  have "live (with_args ctx ''missing arguments''
        (read_arg ReadAString ''invalid username'' (\<lambda>username.
         read_arg ReadSP ''missing password'' (\<lambda>_.
         read_arg ReadAString ''invalid password'' (\<lambda>password _.
         ask (be_Login be username password) (\<lambda>_.
         set_state Authenticated (return_ok ctx ''LOGIN completed'')))))))"
    by (intro live_intros)
  then show ?thesis by (simp add: live_def Login_def fail_def)
qed

lemma live_Enable: "live (Enable opts ctx)"
  unfolding Enable_def by (intro live_intros) (simp add: live_def return_ok_def Let_def fail_def)

lemma live_Rename: "live (Rename be ctx)"
  unfolding Rename_def by (intro live_intros)

lemma live_Status: "live (Status be ctx)"
  unfolding Status_def by (intro live_intros live_read_loop oreturns_status_list) (rule live_pre, intro live_intros)

lemma live_append_ok: "live (append_ok ctx d)"
  unfolding append_ok_def by (auto simp: live_return_ok live_Finished split: option.split)

lemma live_append_literal: "live (append_literal opts be ctx mb fl t inp)"
proof -
  have "live (ask m (append_ok ctx))" for m :: "('a, append_data option) meth" by (intro live_ask live_append_ok)
  then show ?thesis by (auto simp: live_def append_literal_def fail_def Let_def split: sum.split)
qed

lemma live_append_date: "(\<And>t inp. live (k t inp)) \<Longrightarrow> live (append_date opts b k inp)"
  unfolding append_date_def by (auto intro!: live_read_arg live_fail split: option.split)

lemma live_append_flags: "(\<And>fl b inp. live (k fl b inp)) \<Longrightarrow> live (append_flags k inp)"
  unfolding append_flags_def by (auto intro!: live_read_arg live_read_loop oreturns_ReadFlags)

lemma live_Append: "live (Append opts be ctx)"
  unfolding Append_def by (intro live_intros live_append_flags live_append_date live_append_literal)

lemma live_leave: "live (leave be s ctx)"
  unfolding leave_def by (intro live_ask) (rule live_pre, intro live_intros)

lemma live_Close: "live (Close be ctx)"
  unfolding Close_def by (intro live_ask live_leave)

lemma live_Expunge: "live (Expunge be ctx)"
  unfolding Expunge_def Let_def by (auto intro!: live_intros split: sum.split)

lemma live_Search: "live (Search opts be ctx)"
  unfolding Search_def
proof (rule live_with_args)
  fix inp
  obtain r rest where p: "parseSearchCriteria (o_parse_time opts) zero_criteria inp = Some (r, rest)"
    using parseSearchCriteria_suffix by blast
  show "live (case parseSearchCriteria (o_parse_time opts) zero_criteria inp of
       None \<Rightarrow> (\<lambda>_. Hangs)
     | Some (Inl e, _) \<Rightarrow> fail (ErrBad (''invalid search criteria: '' @ o_error_text opts e))
     | Some (Inr criteria, _) \<Rightarrow>
         ask (be_Search be (cx_NumKind ctx) criteria zero_search_options) (\<lambda>data c.
           return_ok ctx ''SEARCH completed'' (emit (search_response (cx_NumKind ctx) data) c)))"
    unfolding p by (cases r) (simp_all only: option.case prod.case sum.case live_fail live_ask live_pre [OF live_return_ok])
qed

lemma live_Store: "live (Store be ctx)"
  unfolding Store_def
  by (rule live_with_args, rule live_read_numset, (rule live_read_arg)+)
    (auto simp: Let_def intro!: live_fail live_read_arg live_read_loop oreturns_ReadFlags live_ask live_return_ok split: option.split)

lemma live_Copy: "live (Copy be ctx)"
proof -
  have "live (copy_ok ctx d)" for d :: "copy_data option" by (auto simp: copy_ok_def live_return_ok live_Finished split: option.split)
  then show ?thesis
    unfolding Copy_def by (intro live_with_args live_read_numset live_read_arg live_ask)
qed

lemma live_Fetch:
  assumes "\<And>inp. cx_Decoder ctx = Some inp \<Longrightarrow> no_partial inp" shows "live (Fetch opts be ctx)"
  unfolding Fetch_def
proof (rule live_with_args, rule live_read_numset, rule live_read_arg, rule live_read_loop)
  fix inp ns i u j
  assume "cx_Decoder ctx = Some inp" "suffix i inp" "ReadSP i = (Inr u, j)"
  then have "suffix j inp" using keeps_suffixD [OF keeps_suffix_ReadSP] suffix_order.order_trans by blast
  then show "oreturns (parseFetchItems j) j" using assms \<open>cx_Decoder ctx = Some inp\<close> no_partial_suffix parseFetchItems_returns by blast
qed (simp add: Let_def live_ask live_return_ok)

lemma live_Capability: "live (Capability opts ctx)"
  by (simp add: live_def Capability_def return_ok_def)

lemma live_Logout: "live (Logout_cmd ctx)"
  unfolding Logout_cmd_def by (rule live_pre, intro live_intros)

lemma live_builtin:
  assumes "(upper, h) \<in> set (builtin_handlers opts be)" "upper \<noteq> ''IDLE''"
    and "upper = ''FETCH'' \<Longrightarrow> \<forall>inp. cx_Decoder ctx = Some inp \<longrightarrow> no_partial inp"
  shows "live (h ctx)"
  using assms unfolding builtin_handlers_def
  by (simp only: set_simps insert_iff empty_iff, elim disjE)
    (simp_all only: prod.inject HOL.simp_thms list.inject char.inject
      live_StartTLS live_Login live_Enable Select_def Examine_def live_handleSelect Create_def Delete_def Subscribe_def
      Unsubscribe_def live_mailbox_command live_Rename List_cmd_def Lsub_def live_list_command live_Status live_Append
      live_Close Unselect_def live_leave live_Expunge live_Search live_Store live_Copy live_Fetch Noop_def live_return_ok live_Capability live_Logout)

text \<open>C7. Every command comes to an end but two: a command on which the server never finishes is
  IDLE, or it is FETCH with a partial specifier in its arguments. All others return, fail or
  panic, whatever their arguments are and whatever the session answers.\<close>

theorem commands_return:
  assumes "dispatch (builtin opts be) tag name rest c = Hangs"
  shows "\<exists>kind upper args. uid_prefix (ToUpper name) rest = Some (kind, upper, args) \<and>
    (upper = ''IDLE'' \<or> upper = ''FETCH'' \<and> CHR ''<'' \<in> set args)"
proof -
  obtain kind upper args where u: "uid_prefix (ToUpper name) rest = Some (kind, upper, args)"
    using assms by (cases "uid_prefix (ToUpper name) rest") (auto simp: dispatch_def)
  let ?ctx = "\<lparr>cx_Tag = tag, cx_Name = upper, cx_NumKind = kind, cx_Decoder = (if args \<noteq> [] then Some args else None)\<rparr>"
  obtain h where h: "Dispatcher_Get (builtin opts be) upper = Some h" "h ?ctx c = Hangs"
    using assms u by (auto simp: dispatch_def Let_def respond_def split: option.splits result.splits go_error.splits status_type.splits)
  have t: "(upper, h) \<in> set (builtin_handlers opts be)" using builtin_Some [OF h(1)] uid_prefix_upper [OF u] by simp
  have "upper = ''IDLE'' \<or> upper = ''FETCH'' \<and> CHR ''<'' \<in> set args"
  proof (rule ccontr)
    assume n: "\<not> (upper = ''IDLE'' \<or> upper = ''FETCH'' \<and> CHR ''<'' \<in> set args)"
    then have "live (h ?ctx)" by (intro live_builtin [OF t]) (auto simp: no_partial_def)
    then show False using h(2) by (simp add: live_def)
  qed
  then show ?thesis using u by blast
qed

lemma ReadAtom_stop:
  assumes "list_all isAtomChar a" "a \<noteq> []" "\<not> isAtomChar c"
  shows "ReadAtom (a @ c # rest) = (Inr a, c # rest)"
  using assms by (simp add: ReadAtom_def Let_def list_all_iff)

lemma body_partial_hangs:
  assumes "list_all isAtomChar p"
  shows "parseFetchItems (''(BODY[]<'' @ p @ ''>)'') = None"
proof -
  let ?r = "CHR '']'' # CHR ''<'' # p @ ''>)''"
  have c: "isAtomChar (CHR ''<'')" "isAtomChar (CHR ''>'')" "\<not> isAtomChar (CHR '']'')" "\<not> isAtomChar (CHR '')'')"
    "list_all isAtomChar ''BODY[''" "ToUpper ''BODY['' = ''BODY[''" "simple_item ''BODY['' = None" by code_simp+
  have "\<not> list_all isAtomChar (CHR ''<'' # p @ ''>)'')" using c by simp
  then have "skip_partial (CHR ''<'' # p @ ''>)'') = None" using skip_partial_exact [of "CHR ''<'' # p @ ''>)''"] by simp
  then have e: "end_section s ?r = None" for s by (simp add: end_section_def obind_def ExpectByte_def dbind_def ReadByte_def)
  have "ReadAtom (''BODY['' @ ?r) = (Inr ''BODY['', ?r)" by (rule ReadAtom_stop [OF c(5) _ c(3)]) simp
  moreover have "parseFetchBodySectionFromAtom ''BODY['' False ?r = None"
    using e by (simp add: parseFetchBodySectionFromAtom_def section_spec_def ToUpper_def HasPrefix_def obind_def)
  ultimately have "parseSingleFetchItem s (''BODY['' @ ?r) = None" for s
    unfolding parseSingleFetchItem_def Let_def obind_def
    by (simp add: c HasPrefix_def body_item_def obind_def)
  then show ?thesis
    by (simp add: parseFetchItems_def obind_def PeekByte_def ReadList_def ExpectByte_def dbind_def ReadByte_def)
      (subst list_loop.simps, simp add: PeekByte_def)
qed

text \<open>C38. A flaw: asking for a part of a section inside a list of items, as in
  \<open>FETCH 1 (BODY[]<0.100>)\<close>, keeps the server in the parser for ever. Nothing is answered, and
  the connection never serves another command.\<close>

theorem fetch_partial_hangs:
  assumes "Conn_State c = Selected" "list_all isAtomChar s" "s \<noteq> []" "ParseSeqSet s = Inr ns" "list_all isAtomChar p"
  shows "dispatch (builtin opts be) tag ''FETCH'' (s @ '' (BODY[]<'' @ p @ ''>)'') c = Hangs"
proof -
  let ?r = "s @ SP # ''(BODY[]<'' @ p @ ''>)''"
  have up: "ToUpper ''FETCH'' = ''FETCH''" "CommandAllowedStates ''FETCH'' = Some [Selected]" "\<not> isAtomChar SP"
    "uid_prefix ''FETCH'' r = Some (NumKindSeq, ''FETCH'', r)" for r
    by (code_simp, code_simp, code_simp, simp add: uid_prefix_def)
  have get: "Dispatcher_Get (builtin opts be) ''FETCH'' = Some (Fetch opts be)"
    by (simp add: Dispatcher_Get_def builtin_def RegisterAll_def builtin_handlers_def Dispatcher_Register_def ToUpper_def
        upper_char_def is_lower_def)
  have "ReadAtom ?r = (Inr s, SP # ''(BODY[]<'' @ p @ ''>)'')" by (rule ReadAtom_stop [OF assms(2,3) up(3)])
  then have "Fetch opts be ctx c = Hangs" if "cx_Decoder ctx = Some ?r" "cx_NumKind ctx = NumKindSeq" for ctx
    using body_partial_hangs [OF assms(5)] assms(4) that
    by (simp add: Fetch_def with_args_def read_numset_def read_arg_def read_loop_def ReadSP_def dbind_def ReadByte_def)
  then show ?thesis
    using assms(1,3) by (simp add: dispatch_def up get RequireState_def Conn_State_def State_def respond_def)
qed

definition selected_conn :: "unit conn" where
  "selected_conn = (newConn [] True)\<lparr>c_session := Some (), c_machine := (New NotAuthenticated)\<lparr>cur := Selected\<rparr>\<rparr>"

theorem fetch_partial_hangs_witness:
  "dispatch (builtin example_options example_backend) ''a'' ''FETCH'' ''1 (BODY[]<0.100>)'' selected_conn = Hangs"
proof -
  have "list_all isAtomChar ''1''" "list_all isAtomChar ''0.100''" and one: "digit_char (Suc 0) = CHR ''1''" by code_simp+
  moreover have "ParseSeqSet ''1'' = Inr [NumRange 1 1]"
    using parseNumSet_formatNumSet [of "[NumRange 1 1]"]
    by (simp add: ParseSeqSet_def formatNumSet_def NumRange_String_def FormatUint_small one)
  moreover have "Conn_State selected_conn = Selected" by (simp add: selected_conn_def Conn_State_def State_def)
  ultimately show ?thesis
    using fetch_partial_hangs [of selected_conn "''1''" "[NumRange 1 1]" "''0.100''" example_options example_backend "''a''"] by simp
qed

definition waiting_backend :: "unit backend" where
  "waiting_backend = example_backend\<lparr>be_Idle := (\<lambda>_ _. None)\<rparr>"

theorem commands_return_witness:
  "\<exists>kind upper args. uid_prefix (ToUpper ''idle'') [] = Some (kind, upper, args) \<and>
     (upper = ''IDLE'' \<or> upper = ''FETCH'' \<and> CHR ''<'' \<in> set args)"
proof (rule commands_return)
  have up: "ToUpper ''idle'' = ''IDLE''" "CommandAllowedStates ''IDLE'' = Some [Authenticated, Selected]" by code_simp+
  have "Dispatcher_Get (builtin example_options waiting_backend) ''IDLE'' = Some (Idle example_options waiting_backend)"
    by (simp add: Dispatcher_Get_def builtin_def RegisterAll_def builtin_handlers_def Dispatcher_Register_def ToUpper_def
        upper_char_def is_lower_def)
  then show "dispatch (builtin example_options waiting_backend) ''a'' ''idle'' [] selected_conn = Hangs"
    by (simp add: dispatch_def up uid_prefix_def RequireState_def selected_conn_def Idle_def waiting_backend_def newConn_def
        WriteContinuation_def emit_def Let_def respond_def split: prod.split)
qed

end
