(* ===== verification/Auth.thy ===== *)
theory Auth
  imports CapSet
begin

text \<open>
  The SASL mechanisms of \<open>auth\<close>: for each of PLAIN, LOGIN, EXTERNAL, ANONYMOUS, CRAM-MD5, XOAUTH2
  and OAUTHBEARER the client side and the server side, and the registry of mechanisms
  (\<open>auth/auth.go\<close>). A mechanism is a state; a call of \<open>Next\<close> returns the next state with its
  results. The authenticator is a function of the mechanism, the identity and the credentials,
  where \<open>None\<close> stands for nil credentials; HMAC-MD5 in hexadecimal is an argument.
\<close>

type_synonym authenticator = "string \<Rightarrow> string \<Rightarrow> string option \<Rightarrow> go_error option"

text \<open>The answer of a server mechanism: challenge, done, error.\<close>

type_synonym server_reply = "string option \<times> bool \<times> go_error option"

abbreviation NUL :: char where "NUL \<equiv> CHR 0x00"
abbreviation SOH :: char where "SOH \<equiv> CHR 0x01"

text \<open>\<open>SplitN(s, c, 3)\<close> and \<open>SplitN(s, c, 2)\<close> when they give three and two parts.\<close>

definition split2 :: "char \<Rightarrow> string \<Rightarrow> (string \<times> string) option" where
  "split2 c s = map_option (\<lambda>i. (take i s, drop (i + 1) s)) (IndexByte s c)"

definition split3 :: "char \<Rightarrow> string \<Rightarrow> (string \<times> string \<times> string) option" where
  "split3 c s =
     (case split2 c s of
        None \<Rightarrow> None
      | Some (a, r) \<Rightarrow> (case split2 c r of None \<Rightarrow> None | Some (b, d) \<Rightarrow> Some (a, b, d)))"

section \<open>Client mechanisms\<close>

datatype client_mech =
    PlainClient (AuthzID: string) (Username: string) (Password: string)
  | LoginClient (Username: string) (Password: string) (client_step: nat)
  | ExternalClient (AuthzID: string)
  | AnonymousClient (Trace: string)
  | CramMD5Client (Username: string) (Password: string)
  | XOAuth2Client (Username: string) (AccessToken: string)
  | OAuthBearerClient (Username: string) (AccessToken: string) (Host: string) (Port: string)

primrec client_Name :: "client_mech \<Rightarrow> string" where
  "client_Name (PlainClient z u p) = ''PLAIN''"
| "client_Name (LoginClient u p n) = ''LOGIN''"
| "client_Name (ExternalClient z) = ''EXTERNAL''"
| "client_Name (AnonymousClient t) = ''ANONYMOUS''"
| "client_Name (CramMD5Client u p) = ''CRAM-MD5''"
| "client_Name (XOAuth2Client u t) = ''XOAUTH2''"
| "client_Name (OAuthBearerClient u t h p) = ''OAUTHBEARER''"

definition plain_Start :: "string \<Rightarrow> string \<Rightarrow> string \<Rightarrow> string" where
  "plain_Start authzID username password = authzID @ [NUL] @ username @ [NUL] @ password"

definition xoauth2_Start :: "string \<Rightarrow> string \<Rightarrow> string" where
  "xoauth2_Start username token = ''user='' @ username @ [SOH] @ ''auth=Bearer '' @ token @ [SOH, SOH]"

definition oauthbearer_Start :: "string \<Rightarrow> string \<Rightarrow> string \<Rightarrow> string \<Rightarrow> string" where
  "oauthbearer_Start username token host port =
     ''n,a='' @ username @ '','' @ [SOH] @
     (if host \<noteq> [] then ''host='' @ host @ [SOH] else []) @
     (if port \<noteq> [] then ''port='' @ port @ [SOH] else []) @
     ''auth=Bearer '' @ token @ [SOH, SOH]"

text \<open>The initial response, \<open>None\<close> when there is none.\<close>

primrec client_Start :: "client_mech \<Rightarrow> string option" where
  "client_Start (PlainClient z u p) = Some (plain_Start z u p)"
| "client_Start (LoginClient u p n) = None"
| "client_Start (ExternalClient z) = Some z"
| "client_Start (AnonymousClient t) = Some t"
| "client_Start (CramMD5Client u p) = None"
| "client_Start (XOAuth2Client u t) = Some (xoauth2_Start u t)"
| "client_Start (OAuthBearerClient u t h p) = Some (oauthbearer_Start u t h p)"

definition login_Next :: "string \<Rightarrow> string \<Rightarrow> nat \<Rightarrow> (go_error + string) \<times> nat" where
  "login_Next username password n =
     (if n = 0 then (Inr username, n + 1)
      else if n = 1 then (Inr password, n + 1)
      else (Inl (OtherErr ''login: unexpected challenge''), n))"

primrec client_Next :: "(string \<Rightarrow> string \<Rightarrow> string) \<Rightarrow> client_mech \<Rightarrow> string \<Rightarrow> (go_error + string) \<times> client_mech" where
  "client_Next hmac (PlainClient z u p) ch = (Inl (OtherErr ''plain: unexpected challenge''), PlainClient z u p)"
| "client_Next hmac (LoginClient u p n) ch = (case login_Next u p n of (r, n') \<Rightarrow> (r, LoginClient u p n'))"
| "client_Next hmac (ExternalClient z) ch = (Inl (OtherErr ''external: unexpected challenge''), ExternalClient z)"
| "client_Next hmac (AnonymousClient t) ch = (Inl (OtherErr ''anonymous: unexpected challenge''), AnonymousClient t)"
| "client_Next hmac (CramMD5Client u p) ch = (Inr (u @ '' '' @ hmac p ch), CramMD5Client u p)"
| "client_Next hmac (XOAuth2Client u t) ch = (Inr [], XOAuth2Client u t)"
| "client_Next hmac (OAuthBearerClient u t h p) ch = (Inr [SOH], OAuthBearerClient u t h p)"

section \<open>Server mechanisms\<close>

text \<open>The fields are \<open>done\<close>, or \<open>step\<close> with the user name or the challenge.\<close>

datatype server_mech =
    PlainServer bool
  | LoginServer nat string
  | ExternalServer bool
  | AnonymousServer bool
  | CramMD5Server string nat
  | XOAuth2Server bool
  | OAuthBearerServer bool

primrec server_Name :: "server_mech \<Rightarrow> string" where
  "server_Name (PlainServer d) = ''PLAIN''"
| "server_Name (LoginServer n u) = ''LOGIN''"
| "server_Name (ExternalServer d) = ''EXTERNAL''"
| "server_Name (AnonymousServer d) = ''ANONYMOUS''"
| "server_Name (CramMD5Server c n) = ''CRAM-MD5''"
| "server_Name (XOAuth2Server d) = ''XOAUTH2''"
| "server_Name (OAuthBearerServer d) = ''OAUTHBEARER''"

definition plain_server :: "authenticator \<Rightarrow> string \<Rightarrow> go_error option" where
  "plain_server auth response =
     (case split3 NUL response of
        None \<Rightarrow> Some (OtherErr ''plain: invalid response format'')
      | Some (authzID, username, password) \<Rightarrow> auth ''PLAIN'' username (Some password))"

definition login_server :: "authenticator \<Rightarrow> nat \<Rightarrow> string \<Rightarrow> string \<Rightarrow> server_reply \<times> nat \<times> string" where
  "login_server auth n username response =
     (if n = 0 then ((Some ''Username:'', False, None), n + 1, username)
      else if n = 1 then ((Some ''Password:'', False, None), n + 1, response)
      else if n = 2 then ((None, True, auth ''LOGIN'' username (Some response)), n + 1, username)
      else ((None, True, Some (OtherErr ''login: unexpected response'')), n, username))"

text \<open>The challenge is \<open>fmt.Sprintf("<%d.%d@localhost>", 0, 0)\<close>.\<close>

definition cram_md5_server :: "authenticator \<Rightarrow> string \<Rightarrow> nat \<Rightarrow> string \<Rightarrow> server_reply \<times> string \<times> nat" where
  "cram_md5_server auth ch n response =
     (if n = 0 then ((Some ''<0.0@localhost>'', False, None), ''<0.0@localhost>'', n + 1)
      else if n = 1
      then ((None, True, case split2 SP response of
                           None \<Rightarrow> Some (OtherErr ''cram-md5: invalid response format'')
                         | Some (username, _) \<Rightarrow> auth ''CRAM-MD5'' username (Some response)), ch, n)
      else ((None, True, Some (OtherErr ''cram-md5: unexpected response'')), ch, n))"

text \<open>The loop of \<open>parseXOAuth2\<close>: the key up to the next equals sign, the value up to the next
  \<open>\x01\<close>, which is skipped.\<close>

function xoauth2_loop :: "string \<Rightarrow> string \<Rightarrow> string \<Rightarrow> string \<times> string" where
  "xoauth2_loop s username token =
     (case IndexByte s (CHR ''='') of
        None \<Rightarrow> (username, token)
      | Some i \<Rightarrow>
          (let key = take i s;
               val = takeWhile (\<lambda>c. c \<noteq> SOH) (drop (i + 1) s);
               rest = drop 1 (dropWhile (\<lambda>c. c \<noteq> SOH) (drop (i + 1) s))
           in xoauth2_loop rest
                (if key = ''user'' then val else username)
                (if key = ''auth'' then (if length val > 7 \<and> take 7 val = ''Bearer '' then drop 7 val else val) else token)))"
  by pat_completeness auto
termination
proof (relation "measure (\<lambda>(s, _, _). length s)", simp)
  fix s username token :: string and i key val rest
  assume "IndexByte s (CHR ''='') = Some i" and "rest = drop 1 (dropWhile (\<lambda>c. c \<noteq> SOH) (drop (i + 1) s))"
  moreover have "length (dropWhile (\<lambda>c. c \<noteq> SOH) (drop (i + 1) s)) \<le> length s - (i + 1)"
    by (metis length_drop length_dropWhile_le)
  ultimately show "((rest, if key = ''user'' then val else username,
      if key = ''auth'' then if 7 < length val \<and> take 7 val = ''Bearer '' then drop 7 val else val else token),
      s, username, token) \<in> measure (\<lambda>(s, _, _). length s)"
    by (cases s) auto
qed

declare xoauth2_loop.simps [simp del]

definition parseXOAuth2 :: "string \<Rightarrow> go_error + string \<times> string" where
  "parseXOAuth2 data =
     (case xoauth2_loop data [] [] of
        (username, token) \<Rightarrow>
          (if username = [] then Inl (OtherErr ''xoauth2: missing username'')
           else if token = [] then Inl (OtherErr ''xoauth2: missing access token'')
           else Inr (username, token)))"

text \<open>The last \<open>auth=\<close> part wins.\<close>

definition bearer_token :: "string list \<Rightarrow> string" where
  "bearer_token parts =
     foldl (\<lambda>token part.
       if HasPrefix part ''auth=Bearer '' then drop (length ''auth=Bearer '') part
       else if HasPrefix part ''auth='' then drop 5 part else token) [] parts"

definition parseOAuthBearer :: "string \<Rightarrow> go_error + string \<times> string" where
  "parseOAuthBearer data =
     (if \<not> HasPrefix data ''n,'' then Inl (OtherErr ''oauthbearer: invalid GS2 header'')
      else case split2 (CHR '','') (drop 2 data) of
             None \<Rightarrow> Inl (OtherErr ''oauthbearer: invalid format'')
           | Some (authzPart, s) \<Rightarrow>
               (let username = (if HasPrefix authzPart ''a='' then drop 2 authzPart else []);
                    token = bearer_token (split_byte SOH s)
                in if username = [] then Inl (OtherErr ''oauthbearer: missing username'')
                   else if token = [] then Inl (OtherErr ''oauthbearer: missing access token'')
                   else Inr (username, token)))"

definition token_server :: "authenticator \<Rightarrow> string \<Rightarrow> go_error + string \<times> string \<Rightarrow> go_error option" where
  "token_server auth name parsed =
     (case parsed of Inl e \<Rightarrow> Some e | Inr (username, token) \<Rightarrow> auth name username (Some token))"

primrec server_Next :: "authenticator \<Rightarrow> server_mech \<Rightarrow> string \<Rightarrow> server_reply \<times> server_mech" where
  "server_Next auth (PlainServer d) r =
     (if d then ((None, True, Some (OtherErr ''plain: mechanism already completed'')), PlainServer d)
      else ((None, True, plain_server auth r), PlainServer True))"
| "server_Next auth (LoginServer n u) r = (case login_server auth n u r of (reply, n', u') \<Rightarrow> (reply, LoginServer n' u'))"
| "server_Next auth (ExternalServer d) r =
     (if d then ((None, True, Some (OtherErr ''external: mechanism already completed'')), ExternalServer d)
      else ((None, True, auth ''EXTERNAL'' r None), ExternalServer True))"
| "server_Next auth (AnonymousServer d) r =
     (if d then ((None, True, Some (OtherErr ''anonymous: mechanism already completed'')), AnonymousServer d)
      else ((None, True, auth ''ANONYMOUS'' r None), AnonymousServer True))"
| "server_Next auth (CramMD5Server ch n) r =
     (case cram_md5_server auth ch n r of (reply, ch', n') \<Rightarrow> (reply, CramMD5Server ch' n'))"
| "server_Next auth (XOAuth2Server d) r =
     (if d then ((None, True, Some (OtherErr ''xoauth2: mechanism already completed'')), XOAuth2Server d)
      else ((None, True, token_server auth ''XOAUTH2'' (parseXOAuth2 r)), XOAuth2Server True))"
| "server_Next auth (OAuthBearerServer d) r =
     (if d then ((None, True, Some (OtherErr ''oauthbearer: mechanism already completed'')), OAuthBearerServer d)
      else ((None, True, token_server auth ''OAUTHBEARER'' (parseOAuthBearer r)), OAuthBearerServer True))"

section \<open>The registry\<close>

text \<open>A factory of server mechanisms; the authenticator is an argument of \<^const>\<open>server_Next\<close>. The
  factories of client mechanisms make one without credentials.\<close>

record auth_registry =
  clientFactories :: "string \<rightharpoonup> client_mech"
  serverFactories :: "string \<rightharpoonup> server_mech"

datatype auth_error = UnsupportedMechanism string

definition auth_NewRegistry :: auth_registry where
  "auth_NewRegistry = \<lparr>clientFactories = Map.empty, serverFactories = Map.empty\<rparr>"

definition RegisterClient :: "string \<Rightarrow> client_mech \<Rightarrow> auth_registry \<Rightarrow> auth_registry" where
  "RegisterClient name factory r = r\<lparr>clientFactories := (clientFactories r)(ToUpper name \<mapsto> factory)\<rparr>"

definition RegisterServer :: "string \<Rightarrow> server_mech \<Rightarrow> auth_registry \<Rightarrow> auth_registry" where
  "RegisterServer name factory r = r\<lparr>serverFactories := (serverFactories r)(ToUpper name \<mapsto> factory)\<rparr>"

definition NewClientMechanism :: "string \<Rightarrow> auth_registry \<Rightarrow> auth_error + client_mech" where
  "NewClientMechanism name r =
     (case clientFactories r (ToUpper name) of
        None \<Rightarrow> Inl (UnsupportedMechanism name)
      | Some m \<Rightarrow> Inr m)"

definition NewServerMechanism :: "string \<Rightarrow> auth_registry \<Rightarrow> auth_error + server_mech" where
  "NewServerMechanism name r =
     (case serverFactories r (ToUpper name) of
        None \<Rightarrow> Inl (UnsupportedMechanism name)
      | Some m \<Rightarrow> Inr m)"

definition ClientMechanisms :: "(string set \<Rightarrow> string list) \<Rightarrow> auth_registry \<Rightarrow> string list" where
  "ClientMechanisms order r = order (dom (clientFactories r))"

definition ServerMechanisms :: "(string set \<Rightarrow> string list) \<Rightarrow> auth_registry \<Rightarrow> string list" where
  "ServerMechanisms order r = order (dom (serverFactories r))"

text \<open>The \<open>init\<close> functions of the packages.\<close>

definition DefaultRegistry :: auth_registry where
  "DefaultRegistry =
     RegisterServer ''PLAIN'' (PlainServer False)
     (RegisterServer ''LOGIN'' (LoginServer 0 [])
     (RegisterServer ''EXTERNAL'' (ExternalServer False)
     (RegisterServer ''ANONYMOUS'' (AnonymousServer False)
     (RegisterClient ''CRAM-MD5'' (CramMD5Client [] [])
     (RegisterServer ''CRAM-MD5'' (CramMD5Server [] 0)
     (RegisterServer ''XOAUTH2'' (XOAuth2Server False)
     (RegisterServer ''OAUTHBEARER'' (OAuthBearerServer False) auth_NewRegistry)))))))"

end
