(* ===== verification/AuthLaws.thy ===== *)
theory AuthLaws
  imports Auth
begin

text \<open>
  What the SASL mechanisms guarantee: client and server of a mechanism agree on who logs in with
  which credentials, and a server never reports success that the authenticator has not given.
\<close>

section \<open>Splitting\<close>

lemma split2_at: "c \<notin> set a \<Longrightarrow> split2 c (a @ c # b) = Some (a, b)"
  by (simp add: split2_def IndexByte_append)

lemma split3_at: "c \<notin> set a \<Longrightarrow> c \<notin> set b \<Longrightarrow> split3 c (a @ c # b @ c # d) = Some (a, b, d)"
  by (simp add: split3_def split2_at)

section \<open>The parsers of tokens\<close>

lemma xoauth2_loop_pair:
  assumes "CHR ''='' \<notin> set key" "SOH \<notin> set val"
  shows "xoauth2_loop (key @ CHR ''='' # val @ SOH # rest) u t =
    xoauth2_loop rest (if key = ''user'' then val else u)
      (if key = ''auth'' then (if length val > 7 \<and> take 7 val = ''Bearer '' then drop 7 val else val) else t)"
proof -
  have i: "IndexByte (key @ CHR ''='' # val @ SOH # rest) (CHR ''='') = Some (length key)" using assms(1) by (simp add: IndexByte_append)
  have v: "takeWhile (\<lambda>c. c \<noteq> SOH) (val @ SOH # rest) = val" "dropWhile (\<lambda>c. c \<noteq> SOH) (val @ SOH # rest) = SOH # rest"
    using assms(2) by (auto simp: takeWhile_append dropWhile_append)
  show ?thesis by (subst xoauth2_loop.simps) (simp only: i option.case Let_def, simp add: v)
qed

lemma xoauth2_loop_end:
  assumes "CHR ''='' \<notin> set s" shows "xoauth2_loop s u t = (u, t)"
proof -
  have "IndexByte s (CHR ''='') = None" using assms by (simp add: IndexByte_None)
  then show ?thesis by (subst xoauth2_loop.simps) simp
qed

lemma xoauth2_loop_Start:
  assumes "SOH \<notin> set u" "SOH \<notin> set t"
  shows "xoauth2_loop (xoauth2_Start u t) [] [] = (u, if t = [] then ''Bearer '' else t)"
proof -
  let ?r = "''auth'' @ CHR ''='' # (''Bearer '' @ t) @ SOH # [SOH]"
  have "xoauth2_loop (xoauth2_Start u t) [] [] = xoauth2_loop ?r u []"
    using xoauth2_loop_pair [of "''user''" u ?r] assms by (simp add: xoauth2_Start_def)
  also have "\<dots> = xoauth2_loop [SOH] u (if t = [] then ''Bearer '' else t)"
    using xoauth2_loop_pair [of "''auth''" "''Bearer '' @ t" "[SOH]"] assms by simp
  also have "\<dots> = (u, if t = [] then ''Bearer '' else t)" by (simp add: xoauth2_loop_end)
  finally show ?thesis .
qed

lemma split_byte_last: "\<exists>ps. split_byte c (a @ c # b) = ps @ split_byte c b"
proof (induction a)
  case (Cons x a)
  then obtain ps where ps: "split_byte c (a @ c # b) = ps @ split_byte c b" by blast
  have "split_byte c (a @ c # b) \<noteq> split_byte c b" for a
  proof
    have "length (split_byte c s) = Suc (count_list s c)" for s
      by (induction s) (auto split: list.split)
    moreover assume "split_byte c (a @ c # b) = split_byte c b"
    ultimately have "count_list (a @ c # b) c = count_list b c" by (metis Suc_inject)
    then show False by simp
  qed
  with ps obtain p ps' where "ps = p # ps'" by (cases ps) auto
  then show ?case using ps by (cases "x = c") auto
qed simp

lemma bearer_token_snoc: "bearer_token (ps @ [''auth=Bearer '' @ t, [], []]) = t"
  by (simp add: bearer_token_def HasPrefix_def)

lemma bearer_token_Start:
  assumes "SOH \<notin> set t"
  shows "bearer_token (split_byte SOH (pre @ SOH # ''auth=Bearer '' @ t @ [SOH, SOH])) = t"
proof -
  have "SOH \<notin> set (''auth=Bearer '' @ t)" using assms by simp
  then have "split_byte SOH ((''auth=Bearer '' @ t) @ SOH # [SOH]) = [''auth=Bearer '' @ t, [], []]"
    by (subst split_byte_append) simp_all
  moreover obtain ps where "split_byte SOH (pre @ SOH # ((''auth=Bearer '' @ t) @ SOH # [SOH])) =
      ps @ split_byte SOH ((''auth=Bearer '' @ t) @ SOH # [SOH])"
    using split_byte_last by blast
  ultimately show ?thesis using bearer_token_snoc [of ps t] by simp
qed

text \<open>What stands between the comma and the last pair of the initial response.\<close>

lemma oauthbearer_Start_shape:
  "\<exists>pre. oauthbearer_Start u t host port = ''n,a='' @ u @ '','' @ pre @ SOH # ''auth=Bearer '' @ t @ [SOH, SOH]"
  by (rule exI [of _ "if port \<noteq> [] then [SOH] @ (if host \<noteq> [] then ''host='' @ host @ [SOH] else []) @ ''port='' @ port
      else if host \<noteq> [] then [SOH] @ ''host='' @ host else []"]) (simp add: oauthbearer_Start_def)

lemma parseOAuthBearer_shape:
  assumes "CHR '','' \<notin> set u" "SOH \<notin> set t"
  shows "parseOAuthBearer (''n,a='' @ u @ '','' @ pre @ SOH # ''auth=Bearer '' @ t @ [SOH, SOH]) =
    (if u = [] then Inl (OtherErr ''oauthbearer: missing username'')
     else if t = [] then Inl (OtherErr ''oauthbearer: missing access token'') else Inr (u, t))"
proof -
  have "split2 (CHR '','') ((''a='' @ u) @ CHR '','' # pre @ SOH # ''auth=Bearer '' @ t @ [SOH, SOH]) =
      Some (''a='' @ u, pre @ SOH # ''auth=Bearer '' @ t @ [SOH, SOH])"
    by (rule split2_at) (use assms in simp)
  then show ?thesis
    using bearer_token_Start [OF assms(2), of pre] by (simp add: parseOAuthBearer_def HasPrefix_def Let_def)
qed

section \<open>The exchange\<close>

text \<open>The server answers the client until it is done. The result is the error the client stops
  with, or what the server reports.\<close>

partial_function (option) exchange ::
  "(string \<Rightarrow> string \<Rightarrow> string) \<Rightarrow> authenticator \<Rightarrow> client_mech \<Rightarrow> server_mech \<Rightarrow> string \<Rightarrow> (go_error + go_error option) option" where
  "exchange hmac auth c s response =
     (case server_Next auth s response of
        ((ch, fin, e), s') \<Rightarrow>
          (if fin then Some (Inr e)
           else case client_Next hmac c (case ch of None \<Rightarrow> [] | Some x \<Rightarrow> x) of
                  (Inl err, c') \<Rightarrow> Some (Inl err)
                | (Inr r, c') \<Rightarrow> exchange hmac auth c' s' r))"

definition run_mechanism ::
  "(string \<Rightarrow> string \<Rightarrow> string) \<Rightarrow> authenticator \<Rightarrow> client_mech \<Rightarrow> server_mech \<Rightarrow> (go_error + go_error option) option" where
  "run_mechanism hmac auth c s = exchange hmac auth c s (case client_Start c of None \<Rightarrow> [] | Some ir \<Rightarrow> ir)"

text \<open>Who logs in, and with what. An empty XOAUTH2 token reaches the authenticator as the word
  \<open>Bearer\<close> and a space: the server strips that prefix only when something follows it.\<close>

primrec identity :: "client_mech \<Rightarrow> string" where
  "identity (PlainClient z u p) = u"
| "identity (LoginClient u p n) = u"
| "identity (ExternalClient z) = z"
| "identity (AnonymousClient t) = t"
| "identity (CramMD5Client u p) = u"
| "identity (XOAuth2Client u t) = u"
| "identity (OAuthBearerClient u t h p) = u"

primrec credentials :: "(string \<Rightarrow> string \<Rightarrow> string) \<Rightarrow> client_mech \<Rightarrow> string option" where
  "credentials hmac (PlainClient z u p) = Some p"
| "credentials hmac (LoginClient u p n) = Some p"
| "credentials hmac (ExternalClient z) = None"
| "credentials hmac (AnonymousClient t) = None"
| "credentials hmac (CramMD5Client u p) = Some (u @ '' '' @ hmac p ''<0.0@localhost>'')"
| "credentials hmac (XOAuth2Client u t) = Some (if t = [] then ''Bearer '' else t)"
| "credentials hmac (OAuthBearerClient u t h p) = Some t"

text \<open>Whom the server turns away without asking the authenticator.\<close>

primrec turned_away :: "client_mech \<Rightarrow> go_error option" where
  "turned_away (PlainClient z u p) = None"
| "turned_away (LoginClient u p n) = None"
| "turned_away (ExternalClient z) = None"
| "turned_away (AnonymousClient t) = None"
| "turned_away (CramMD5Client u p) = None"
| "turned_away (XOAuth2Client u t) = (if u = [] then Some (OtherErr ''xoauth2: missing username'') else None)"
| "turned_away (OAuthBearerClient u t h p) =
     (if u = [] then Some (OtherErr ''oauthbearer: missing username'')
      else if t = [] then Some (OtherErr ''oauthbearer: missing access token'') else None)"

text \<open>What the formats can carry. The client of LOGIN must not have answered a prompt before.\<close>

primrec expressible :: "client_mech \<Rightarrow> bool" where
  "expressible (PlainClient z u p) \<longleftrightarrow> NUL \<notin> set z \<and> NUL \<notin> set u"
| "expressible (LoginClient u p n) \<longleftrightarrow> n = 0"
| "expressible (ExternalClient z) \<longleftrightarrow> True"
| "expressible (AnonymousClient t) \<longleftrightarrow> True"
| "expressible (CramMD5Client u p) \<longleftrightarrow> SP \<notin> set u"
| "expressible (XOAuth2Client u t) \<longleftrightarrow> SOH \<notin> set u \<and> SOH \<notin> set t"
| "expressible (OAuthBearerClient u t h p) \<longleftrightarrow> CHR '','' \<notin> set u \<and> SOH \<notin> set t"

primrec fresh_server :: "client_mech \<Rightarrow> server_mech" where
  "fresh_server (PlainClient z u p) = PlainServer False"
| "fresh_server (LoginClient u p n) = LoginServer 0 []"
| "fresh_server (ExternalClient z) = ExternalServer False"
| "fresh_server (AnonymousClient t) = AnonymousServer False"
| "fresh_server (CramMD5Client u p) = CramMD5Server [] 0"
| "fresh_server (XOAuth2Client u t) = XOAuth2Server False"
| "fresh_server (OAuthBearerClient u t h p) = OAuthBearerServer False"

lemma NewServerMechanism_default: "NewServerMechanism (client_Name m) DefaultRegistry = Inr (fresh_server m)"
  by (cases m) (simp_all add: NewServerMechanism_def DefaultRegistry_def RegisterServer_def RegisterClient_def auth_NewRegistry_def
      ToUpper_def upper_char_def is_lower_def)

lemma exchange_agrees:
  assumes "expressible m"
  shows "run_mechanism hmac auth m (fresh_server m) =
    Some (Inr (case turned_away m of Some e \<Rightarrow> Some e | None \<Rightarrow> auth (client_Name m) (identity m) (credentials hmac m)))"
proof (cases m)
  case (PlainClient z u p)
  then show ?thesis
    using assms split3_at [of NUL z u p]
    by (simp add: run_mechanism_def exchange.simps plain_server_def plain_Start_def)
next
  case (LoginClient u p n)
  then show ?thesis
    using assms by (simp add: run_mechanism_def exchange.simps login_server_def login_Next_def)
next
  case (CramMD5Client u p)
  then show ?thesis
    using assms split2_at [of SP u] by (simp add: run_mechanism_def exchange.simps cram_md5_server_def)
next
  case (XOAuth2Client u t)
  then show ?thesis
    using assms xoauth2_loop_Start [of u t] by (simp add: run_mechanism_def exchange.simps token_server_def parseXOAuth2_def)
next
  case (OAuthBearerClient u t h p)
  obtain pre where "oauthbearer_Start u t h p = ''n,a='' @ u @ '','' @ pre @ SOH # ''auth=Bearer '' @ t @ [SOH, SOH]"
    using oauthbearer_Start_shape by blast
  then show ?thesis
    using parseOAuthBearer_shape [of u t pre] assms OAuthBearerClient
    by (simp add: run_mechanism_def exchange.simps token_server_def)
qed (use assms in \<open>simp_all add: run_mechanism_def exchange.simps\<close>)

section \<open>Properties\<close>

text \<open>C11. Client and server of every mechanism agree: unless the credentials contain a character
  that the format of the mechanism cannot carry, the exchange ends, and the outcome is exactly
  what the authenticator says about the client's identity and credentials. The exceptions are
  named: a token mechanism turns an empty user name away, and OAUTHBEARER an empty token, without
  asking the authenticator, while XOAUTH2 hands it \<open>Bearer\<close> and a space for an empty token. The
  client of LOGIN is a fresh one.\<close>

theorem sasl_exchange:
  assumes "expressible m"
  shows "\<exists>s. NewServerMechanism (client_Name m) DefaultRegistry = Inr s \<and>
    run_mechanism hmac auth m s =
      Some (Inr (case turned_away m of Some e \<Rightarrow> Some e | None \<Rightarrow> auth (client_Name m) (identity m) (credentials hmac m)))"
  using NewServerMechanism_default exchange_agrees [OF assms] by blast

definition example_auth :: authenticator where
  "example_auth mech ident cred = (if ident = ''ann'' \<and> cred \<noteq> Some [] then None else Some (ErrNo ''no''))"

theorem sasl_exchange_witness:
  "run_mechanism (\<lambda>_ _. []) example_auth (PlainClient [] ''ann'' [NUL]) (PlainServer False) = Some (Inr None) \<and>
   run_mechanism (\<lambda>_ _. []) example_auth (XOAuth2Client ''eve'' ''tok'') (XOAuth2Server False) = Some (Inr (Some (ErrNo ''no'')))"
  using sasl_exchange [of "PlainClient [] ''ann'' [NUL]" "\<lambda>_ _. []" example_auth] NewServerMechanism_default [of "PlainClient [] ''ann'' [NUL]"]
    sasl_exchange [of "XOAuth2Client ''eve'' ''tok''" "\<lambda>_ _. []" example_auth] NewServerMechanism_default [of "XOAuth2Client ''eve'' ''tok''"]
  by (simp add: example_auth_def)

text \<open>C12. No server mechanism reports success on its own: whatever state it is in and whatever the
  client sends, a finished exchange without an error means that the authenticator has accepted
  an identity under the name of that mechanism.\<close>

theorem sasl_no_bypass:
  assumes "server_Next auth s response = ((ch, True, None), s')"
  shows "\<exists>ident cred. auth (server_Name s) ident cred = None"
proof (cases s)
  case (PlainServer d)
  then show ?thesis using assms by (auto simp: plain_server_def split: if_splits option.splits)
next
  case (LoginServer n u)
  then show ?thesis using assms by (auto simp: login_server_def split: if_splits)
next
  case (CramMD5Server c n)
  then show ?thesis using assms by (auto simp: cram_md5_server_def split: if_splits option.splits)
next
  case (XOAuth2Server d)
  then show ?thesis using assms by (auto simp: token_server_def split: if_splits sum.splits)
next
  case (OAuthBearerServer d)
  then show ?thesis using assms by (auto simp: token_server_def split: if_splits sum.splits)
qed (use assms in \<open>auto split: if_splits\<close>)

theorem sasl_no_bypass_witness: "\<exists>ident cred. example_auth (server_Name (ExternalServer False)) ident cred = None"
  by (rule sasl_no_bypass [of example_auth "ExternalServer False" "''ann''" None "ExternalServer True"])
    (simp add: example_auth_def)

text \<open>A flaw of OAUTHBEARER: the client does not escape a comma in the user name, as RFC 7628
  demands, and the server cuts the name there. The client of user \<open>a,b\<close> is logged in as \<open>a\<close>.\<close>

theorem oauthbearer_comma:
  assumes "a \<noteq> []" "CHR '','' \<notin> set a" "t \<noteq> []" "SOH \<notin> set t"
  shows "run_mechanism hmac auth (OAuthBearerClient (a @ CHR '','' # b) t host port) (OAuthBearerServer False) =
    Some (Inr (auth ''OAUTHBEARER'' a (Some t)))"
proof -
  obtain pre where "oauthbearer_Start (a @ CHR '','' # b) t host port =
      ''n,a='' @ (a @ CHR '','' # b) @ '','' @ pre @ SOH # ''auth=Bearer '' @ t @ [SOH, SOH]"
    using oauthbearer_Start_shape by blast
  then have "parseOAuthBearer (oauthbearer_Start (a @ CHR '','' # b) t host port) = Inr (a, t)"
    using parseOAuthBearer_shape [of a t "b @ '','' @ pre"] assms by simp
  then show ?thesis by (simp add: run_mechanism_def exchange.simps token_server_def)
qed

theorem oauthbearer_comma_witness:
  "run_mechanism (\<lambda>_ _. []) example_auth (OAuthBearerClient ''ann,eve'' ''tok'' [] []) (OAuthBearerServer False) = Some (Inr None)"
  using oauthbearer_comma [of "''ann''" "''tok''" "\<lambda>_ _. []" example_auth "''eve''" "[]" "[]"]
  by (simp add: example_auth_def)

text \<open>The challenge of CRAM-MD5 is the same in every exchange, so a recorded response stays good
  for ever, and since the step does not advance after the check, one exchange accepts any number
  of guesses.\<close>

lemma cram_md5_replay:
  "fst (server_Next auth (CramMD5Server [] 0) r) = (Some ''<0.0@localhost>'', False, None)"
  "snd (server_Next auth (CramMD5Server c 1) response) = CramMD5Server c 1"
  by (simp_all add: cram_md5_server_def)

end
