(* ===== verification/Client.thy ===== *)
theory Client
  imports Server MailboxLaws Types Utf7 Auth
begin

text \<open>
  The client: connection and commands (\<open>client/client.go\<close>, \<open>client/command.go\<close>,
  \<open>client/auth.go\<close>, \<open>client/mailbox.go\<close>, \<open>client/message.go\<close>, \<open>client/idle.go\<close>), the reader of
  responses (\<open>client/reader.go\<close>) and the pool (\<open>client/pool/pool.go\<close>).

  A client is a record of its fields. The channel of a pending command, of capacity one, is the
  list of the results sent on it; the channel of continuation requests holds at most one. The
  background reader is the function \<open>processLine\<close> on lines; an operation that waits takes the
  lines that the reader handles meanwhile as an argument, and \<open>None\<close> means that it still
  waits after them. The error of a write to the connection is an argument as well.
\<close>

text \<open>\<open>strings.Fields\<close>, \<open>strings.TrimLeft(s, " ")\<close>.\<close>

function Fields :: "string \<Rightarrow> string list" where
  "Fields s =
     (case dropWhile is_space s of
        [] \<Rightarrow> []
      | c # cs \<Rightarrow> takeWhile (\<lambda>c. \<not> is_space c) (c # cs) # Fields (dropWhile (\<lambda>c. \<not> is_space c) (c # cs)))"
  by pat_completeness auto
termination
proof (relation "measure length", simp)
  fix s :: string and c cs
  assume a: "dropWhile is_space s = c # cs"
  then have "\<not> is_space c" by (metis hd_dropWhile list.distinct(1) list.sel(1))
  then have "length (dropWhile (\<lambda>c. \<not> is_space c) (c # cs)) \<le> length cs" by (simp add: length_dropWhile_le)
  moreover have "length (c # cs) \<le> length s" using a length_dropWhile_le [of is_space s] by simp
  ultimately show "(dropWhile (\<lambda>c. \<not> is_space c) (c # cs), s) \<in> measure length" by simp
qed

declare Fields.simps [simp del]

definition TrimLeftSP :: "string \<Rightarrow> string" where
  "TrimLeftSP s = dropWhile (\<lambda>c. c = SP) s"

section \<open>Commands and their results\<close>

record command_result =
  cr_status :: string
  cr_code :: string
  cr_text :: string
  cr_err :: "string option"

datatype client_error =
    ConnErr string
  | StatusErr string string string

datatype unilateral = Exists u32 | Recent u32 | Expunged u32

record client =
  cl_counter :: int
  cl_pending :: "string \<rightharpoonup> nat"
  cl_done :: "nat \<Rightarrow> command_result list"
  cl_commands :: nat
  cl_state :: conn_state
  cl_caps :: "string list"
  cl_mailboxName :: string
  cl_mailboxMessages :: u32
  cl_mailboxRecent :: u32
  cl_mailboxUIDValidity :: u32
  cl_mailboxUIDNext :: u32
  cl_mailboxUnseen :: u32
  cl_mailboxReadOnly :: bool
  cl_untagged :: "string list"
  cl_continuation :: "(string + string) option"
  cl_unilateral :: "unilateral list"
  cl_closed :: bool
  cl_disconnected :: "string option"
  cl_sent :: string

text \<open>The atomic counter is an \<open>int64\<close>; the prefix is \<open>A\<close>.\<close>

definition tag_Next :: "client \<Rightarrow> string \<times> client" where
  "tag_Next c = (let n = wrap64 (cl_counter c + 1) in (''A'' @ FormatInt n, c\<lparr>cl_counter := n\<rparr>))"

definition pending_Add :: "string \<Rightarrow> client \<Rightarrow> nat \<times> client" where
  "pending_Add tag c =
     (let cmd = cl_commands c
      in (cmd, c\<lparr>cl_commands := cmd + 1, cl_done := (cl_done c)(cmd := []), cl_pending := (cl_pending c)(tag \<mapsto> cmd)\<rparr>))"

definition send_result :: "nat \<Rightarrow> command_result \<Rightarrow> client \<Rightarrow> client" where
  "send_result cmd r c = c\<lparr>cl_done := (cl_done c)(cmd := cl_done c cmd @ [r])\<rparr>"

definition pending_Complete :: "string \<Rightarrow> command_result \<Rightarrow> client \<Rightarrow> client" where
  "pending_Complete tag r c =
     (case cl_pending c tag of
        None \<Rightarrow> c
      | Some cmd \<Rightarrow> send_result cmd r (c\<lparr>cl_pending := (cl_pending c)(tag := None)\<rparr>))"

definition error_result :: "string \<Rightarrow> command_result" where
  "error_result e = \<lparr>cr_status = [], cr_code = [], cr_text = [], cr_err = Some e\<rparr>"

text \<open>The order in which the map of commands is iterated is an argument.\<close>

definition CompleteAll :: "(nat set \<Rightarrow> nat list) \<Rightarrow> string \<Rightarrow> client \<Rightarrow> client" where
  "CompleteAll order e c =
     foldl (\<lambda>c cmd. send_result cmd (error_result e) c) (c\<lparr>cl_pending := Map.empty\<rparr>) (order (ran (cl_pending c)))"

definition commandResultError :: "command_result \<Rightarrow> client_error option" where
  "commandResultError r =
     (case cr_err r of
        Some e \<Rightarrow> Some (ConnErr e)
      | None \<Rightarrow> if cr_status r = ''OK'' then None else Some (StatusErr (cr_status r) (cr_code r) (cr_text r)))"

section \<open>The reader\<close>

definition storeUntagged :: "string \<Rightarrow> client \<Rightarrow> client" where
  "storeUntagged line c = c\<lparr>cl_untagged := cl_untagged c @ [line]\<rparr>"

definition collectUntagged :: "client \<Rightarrow> string list \<times> client" where
  "collectUntagged c = (cl_untagged c, c\<lparr>cl_untagged := []\<rparr>)"

text \<open>A send that does not block: with a continuation waiting already, the new one is dropped.\<close>

definition handleContinuation :: "string \<Rightarrow> client \<Rightarrow> client" where
  "handleContinuation line c =
     (case cl_continuation c of
        None \<Rightarrow> c\<lparr>cl_continuation := Some (Inr (if length line > 2 then drop 2 line else []))\<rparr>
      | Some _ \<Rightarrow> c)"

definition handleDisconnect :: "(nat set \<Rightarrow> nat list) \<Rightarrow> string \<Rightarrow> client \<Rightarrow> client" where
  "handleDisconnect order e c =
     (if cl_disconnected c \<noteq> None then c
      else let c = CompleteAll order (''connection closed: '' @ e) (c\<lparr>cl_disconnected := Some e\<rparr>)
           in case cl_continuation c of
                None \<Rightarrow> c\<lparr>cl_continuation := Some (Inl (''connection closed: '' @ e))\<rparr>
              | Some _ \<Rightarrow> c)"

definition Client_Close :: "(nat set \<Rightarrow> nat list) \<Rightarrow> client \<Rightarrow> client" where
  "Client_Close order c =
     (if cl_closed c then c else handleDisconnect order ''connection closed'' (c\<lparr>cl_closed := True\<rparr>))"

definition parseStatusResponse :: "string \<Rightarrow> string \<times> string \<times> string" where
  "parseStatusResponse s =
     (case IndexByte s SP of
        None \<Rightarrow> (s, [], [])
      | Some i \<Rightarrow>
          (let status = take i s; rest = drop (i + 1) s
           in case (if HasPrefix rest ''['' then IndexByte rest (CHR '']'') else None) of
                None \<Rightarrow> (status, [], rest)
              | Some j \<Rightarrow> (status, take (j - 1) (drop 1 rest), if j + 2 < length rest then drop (j + 2) rest else [])))"

definition processTagged :: "string \<Rightarrow> client \<Rightarrow> client" where
  "processTagged line c =
     (case IndexByte line SP of
        None \<Rightarrow> c
      | Some i \<Rightarrow>
          (case parseStatusResponse (drop (i + 1) line) of
             (status, code, text) \<Rightarrow>
               pending_Complete (take i line) \<lparr>cr_status = status, cr_code = code, cr_text = text, cr_err = None\<rparr> c))"

definition handleCapability :: "string \<Rightarrow> client \<Rightarrow> client" where
  "handleCapability line c = c\<lparr>cl_caps := Fields line\<rparr>"

definition set_number :: "(u32 \<Rightarrow> client \<Rightarrow> client) \<Rightarrow> string \<Rightarrow> client \<Rightarrow> client" where
  "set_number f arg c = (case ParseUint 32 arg of None \<Rightarrow> c | Some n \<Rightarrow> f (of_nat n) c)"

definition handleResponseCode :: "string \<Rightarrow> client \<Rightarrow> client" where
  "handleResponseCode code c =
     (let (name, args) = splitN2 code;
          name = ToUpper name;
          arg = (case args of None \<Rightarrow> [] | Some a \<Rightarrow> a)
      in if name = ''UIDVALIDITY'' then set_number (\<lambda>n c. c\<lparr>cl_mailboxUIDValidity := n\<rparr>) arg c
         else if name = ''UIDNEXT'' then set_number (\<lambda>n c. c\<lparr>cl_mailboxUIDNext := n\<rparr>) arg c
         else if name = ''UNSEEN'' then set_number (\<lambda>n c. c\<lparr>cl_mailboxUnseen := n\<rparr>) arg c
         else if name = ''PERMANENTFLAGS'' then storeUntagged (''PERMANENTFLAGS '' @ arg) c
         else if name = ''CAPABILITY'' then handleCapability arg c
         else if name = ''READ-ONLY'' then c\<lparr>cl_mailboxReadOnly := True\<rparr>
         else if name = ''READ-WRITE'' then c\<lparr>cl_mailboxReadOnly := False\<rparr>
         else c)"

definition handleStatusResponse :: "string \<Rightarrow> client \<Rightarrow> client" where
  "handleStatusResponse text c =
     (case (if HasPrefix text ''['' then IndexByte text (CHR '']'') else None) of
        None \<Rightarrow> c
      | Some j \<Rightarrow> handleResponseCode (take (j - 1) (drop 1 text)) c)"

definition processNumericResponse :: "u32 \<Rightarrow> string \<Rightarrow> client \<Rightarrow> client" where
  "processNumericResponse num rest c =
     (let upper = ToUpper rest in
      if upper = ''EXISTS'' then c\<lparr>cl_mailboxMessages := num, cl_unilateral := cl_unilateral c @ [Exists num]\<rparr>
      else if upper = ''RECENT'' then c\<lparr>cl_mailboxRecent := num, cl_unilateral := cl_unilateral c @ [Recent num]\<rparr>
      else if upper = ''EXPUNGE'' then c\<lparr>cl_unilateral := cl_unilateral c @ [Expunged num]\<rparr>
      else if HasPrefix upper ''FETCH ''
      then storeUntagged (''FETCH '' @ FormatUint (unat num) @ '' '' @ drop 6 rest) c
      else storeUntagged (FormatUint (unat num) @ '' '' @ rest) c)"

definition processNamed :: "string \<Rightarrow> client \<Rightarrow> client" where
  "processNamed line c =
     (let upperLine = ToUpper line in
      if HasPrefix upperLine ''OK '' then handleStatusResponse (drop 3 line) c
      else if HasPrefix upperLine ''NO '' then handleStatusResponse (drop 3 line) c
      else if HasPrefix upperLine ''BAD '' then handleStatusResponse (drop 4 line) c
      else if HasPrefix upperLine ''BYE '' then handleStatusResponse (drop 4 line) c
      else if HasPrefix upperLine ''PREAUTH '' then handleStatusResponse (drop 8 line) c
      else if HasPrefix upperLine ''CAPABILITY '' then handleCapability (drop 11 line) c
      else if HasPrefix upperLine ''FLAGS '' then storeUntagged (''FLAGS '' @ drop 6 line) c
      else if HasPrefix upperLine ''LIST '' then storeUntagged (''LIST '' @ drop 5 line) c
      else if HasPrefix upperLine ''LSUB '' then storeUntagged (''LIST '' @ drop 5 line) c
      else if HasPrefix upperLine ''STATUS '' then storeUntagged (''STATUS '' @ drop 7 line) c
      else if HasPrefix upperLine ''SEARCH '' \<or> upperLine = ''SEARCH'' then storeUntagged (''SEARCH '' @ line) c
      else if HasPrefix upperLine ''ESEARCH '' then storeUntagged (''ESEARCH '' @ drop 8 line) c
      else if HasPrefix upperLine ''NAMESPACE '' then storeUntagged (''NAMESPACE '' @ drop 10 line) c
      else storeUntagged line c)"

definition processUntagged :: "string \<Rightarrow> client \<Rightarrow> client" where
  "processUntagged line c =
     (case (case IndexByte line SP of
              None \<Rightarrow> None
            | Some i \<Rightarrow> if i > 0 then map_option (\<lambda>n. (n, drop (i + 1) line)) (ParseUint 32 (take i line)) else None) of
        Some (num, rest) \<Rightarrow> processNumericResponse (of_nat num) rest c
      | None \<Rightarrow> processNamed line c)"

definition processLine :: "string \<Rightarrow> client \<Rightarrow> client" where
  "processLine line c =
     (if line = [] then c
      else if hd line = CHR ''+'' then handleContinuation line c
      else if HasPrefix line ''* '' then processUntagged (drop 2 line) c
      else processTagged line c)"

text \<open>\<open>run\<close> on everything the server sends before it closes the connection.\<close>

function reader_run :: "(nat set \<Rightarrow> nat list) \<Rightarrow> string \<Rightarrow> client \<Rightarrow> client" where
  "reader_run order inp c =
     (case ReadLine inp of
        (Inl e, rest) \<Rightarrow> handleDisconnect order ''unexpected EOF'' c
      | (Inr line, rest) \<Rightarrow> reader_run order rest (processLine line c))"
  by pat_completeness auto
termination
proof (relation "measure (\<lambda>(_, inp, _). length inp)", simp)
  fix order :: "nat set \<Rightarrow> nat list" and inp :: string and c :: client and r rest line
  assume a: "(r, rest) = ReadLine inp" "r = Inr line"
  have "length (dropWhile (\<lambda>c. c \<noteq> LF) inp) \<le> length inp" by (rule length_dropWhile_le)
  then have "length rest < length inp"
    using a by (cases "dropWhile (\<lambda>c. c \<noteq> LF) inp") (auto simp: ReadLine_def Let_def split: if_splits)
  then show "((order, rest, processLine line c), order, inp, c) \<in> measure (\<lambda>(_, inp, _). length inp)" by simp
qed

declare reader_run.simps [simp del]

definition process_lines :: "string list \<Rightarrow> client \<Rightarrow> client" where
  "process_lines lines c = foldl (\<lambda>c line. processLine line c) c lines"

section \<open>The connection\<close>

definition zero_client :: client where
  "zero_client =
     \<lparr>cl_counter = 0, cl_pending = Map.empty, cl_done = (\<lambda>_. []), cl_commands = 0, cl_state = NotAuthenticated, cl_caps = [],
      cl_mailboxName = [], cl_mailboxMessages = 0, cl_mailboxRecent = 0, cl_mailboxUIDValidity = 0, cl_mailboxUIDNext = 0,
      cl_mailboxUnseen = 0, cl_mailboxReadOnly = False, cl_untagged = [], cl_continuation = None, cl_unilateral = [],
      cl_closed = False, cl_disconnected = None, cl_sent = []\<rparr>"

definition greeting_caps :: "string \<Rightarrow> string list" where
  "greeting_caps line =
     (case Index line ''[CAPABILITY '' of
        None \<Rightarrow> []
      | Some i \<Rightarrow>
          (case IndexByte (drop i line) (CHR '']'') of
             None \<Rightarrow> []
           | Some e \<Rightarrow> Fields (take (e - 12) (drop (i + 12) line))))"

definition Client_New :: "string \<Rightarrow> string + client" where
  "Client_New line =
     (if HasPrefix line ''* OK'' then Inr (zero_client\<lparr>cl_caps := greeting_caps line\<rparr>)
      else if HasPrefix line ''* PREAUTH'' then Inr (zero_client\<lparr>cl_state := Authenticated, cl_caps := greeting_caps line\<rparr>)
      else if HasPrefix line ''* BYE'' then Inl (''server rejected connection: '' @ line)
      else Inl (''unexpected greeting: '' @ line))"

definition HasCap :: "string \<Rightarrow> client \<Rightarrow> bool" where
  "HasCap cap c \<longleftrightarrow> list_ex (\<lambda>s. ToUpper s = ToUpper cap) (cl_caps c)"

text \<open>The line of a command.\<close>

definition command_line :: "string \<Rightarrow> string \<Rightarrow> string list \<Rightarrow> string" where
  "command_line tag name args = tag @ [SP] @ name @ concat (map (\<lambda>arg. SP # arg) args) @ [CR, LF]"

text \<open>Everything up to the wait: the tag, the pending command and the line on the wire.\<close>

definition begin_command :: "(string \<Rightarrow> string) \<Rightarrow> client \<Rightarrow> nat \<times> string \<times> client" where
  "begin_command line c =
     (let (tag, c) = tag_Next c; (cmd, c) = pending_Add tag c
      in (cmd, tag, c\<lparr>cl_sent := cl_sent c @ line tag\<rparr>))"

text \<open>Receiving from the channel of a command.\<close>

definition take_result :: "nat \<Rightarrow> client \<Rightarrow> (command_result \<times> client) option" where
  "take_result cmd c =
     (case cl_done c cmd of [] \<Rightarrow> None | r # rs \<Rightarrow> Some (r, c\<lparr>cl_done := (cl_done c)(cmd := rs)\<rparr>))"

definition execute :: "string option \<Rightarrow> string \<Rightarrow> string list \<Rightarrow> string list \<Rightarrow> client \<Rightarrow> ((client_error + command_result) \<times> client) option" where
  "execute werr name args lines c =
     (let (cmd, tag, c) = begin_command (\<lambda>tag. command_line tag name args) c
      in case werr of
           Some e \<Rightarrow> Some (Inl (ConnErr e), pending_Complete tag (error_result e) c)
         | None \<Rightarrow>
             map_option (\<lambda>(r, c). (case cr_err r of Some e \<Rightarrow> Inl (ConnErr e) | None \<Rightarrow> Inr r, c))
               (take_result cmd (process_lines lines c)))"

definition executeCheck :: "string option \<Rightarrow> string \<Rightarrow> string list \<Rightarrow> string list \<Rightarrow> client \<Rightarrow> (client_error option \<times> client) option" where
  "executeCheck werr name args lines c =
     map_option (\<lambda>(r, c). (case r of Inl e \<Rightarrow> Some e | Inr r \<Rightarrow> commandResultError r, c)) (execute werr name args lines c)"

text \<open>\<open>executeOK\<close> stands for the check of \<open>result.status\<close> that most commands write out.\<close>

definition executeOK :: "string option \<Rightarrow> string \<Rightarrow> string list \<Rightarrow> string list \<Rightarrow> client \<Rightarrow> ((client_error + command_result) \<times> client) option" where
  "executeOK werr name args lines c =
     map_option (\<lambda>(r, c).
       (case r of
          Inl e \<Rightarrow> Inl e
        | Inr r \<Rightarrow> if cr_status r \<noteq> ''OK'' then Inl (StatusErr (cr_status r) (cr_code r) (cr_text r)) else Inr r, c))
       (execute werr name args lines c)"

section \<open>Arguments\<close>

definition quote_needed :: "char \<Rightarrow> bool" where
  "quote_needed b \<longleftrightarrow>
     b = SP \<or> b = DQ \<or> b = BSL \<or> b = CHR ''('' \<or> b = CHR '')'' \<or> b = CHR ''{'' \<or> ord b < 0x20 \<or> ord b > 0x7e"

definition quoteArg :: "string \<Rightarrow> string" where
  "quoteArg s =
     (if s = [] then [DQ, DQ]
      else if list_ex quote_needed s
      then [DQ] @ concat (map (\<lambda>b. if b = DQ \<or> b = BSL then [BSL, b] else [b]) s) @ [DQ]
      else s)"

section \<open>Parsers of responses\<close>

text \<open>Up to the closing quote, escapes left as they are; \<open>None\<close> when there is none.\<close>

fun scan_quoted :: "string \<Rightarrow> (string \<times> string) option" where
  "scan_quoted [] = None"
| "scan_quoted [c] = (if c = DQ then Some ([], []) else None)"
| "scan_quoted (c # d # cs) =
     (if c = BSL then map_option (\<lambda>(a, r). (c # d # a, r)) (scan_quoted cs)
      else if c = DQ then Some ([], d # cs)
      else map_option (\<lambda>(a, r). (c # a, r)) (scan_quoted (d # cs)))"

definition parseMailboxName :: "string \<Rightarrow> string \<times> string" where
  "parseMailboxName line =
     (if HasPrefix line [DQ]
      then (case scan_quoted (drop 1 line) of Some r \<Rightarrow> r | None \<Rightarrow> (TrimQuotes line, []))
      else (case IndexByte line SP of None \<Rightarrow> (line, []) | Some i \<Rightarrow> (take i line, drop i line)))"

definition readQuotedOrAtom :: "string \<Rightarrow> string \<times> string" where
  "readQuotedOrAtom s =
     (if s = [] then ([], [])
      else if hd s = DQ then (case scan_quoted (tl s) of Some r \<Rightarrow> r | None \<Rightarrow> (tl s, []))
      else let stop = (\<lambda>c. c = SP \<or> c = CHR ''('' \<or> c = CHR '')'')
           in (takeWhile (\<lambda>c. \<not> stop c) s, dropWhile (\<lambda>c. \<not> stop c) s))"

text \<open>The text up to the parenthesis that closes the \<open>depth\<close> open ones, and the text after it.\<close>

fun close_paren :: "nat \<Rightarrow> string \<Rightarrow> (string \<times> string) option" where
  "close_paren depth [] = None"
| "close_paren depth (c # cs) =
     (if c = CHR ''('' then map_option (\<lambda>(a, r). (c # a, r)) (close_paren (depth + 1) cs)
      else if c = CHR '')''
      then (if depth = 1 then Some ([], cs) else map_option (\<lambda>(a, r). (c # a, r)) (close_paren (depth - 1) cs))
      else map_option (\<lambda>(a, r). (c # a, r)) (close_paren depth cs))"

definition extractParenthesized :: "string \<Rightarrow> string \<times> string" where
  "extractParenthesized s =
     (if s = [] \<or> hd s \<noteq> CHR ''('' then ([], s)
      else case close_paren 1 (tl s) of Some r \<Rightarrow> r | None \<Rightarrow> (tl s, []))"

text \<open>The loops over the value of \<open>CHILDINFO\<close> and of \<open>METADATA\<close>.\<close>

partial_function (option) childinfo_loop :: "string \<Rightarrow> string list \<Rightarrow> string list option" where
  "childinfo_loop listInner acc =
     (let inner = TrimLeftSP listInner in
      if inner = [] then Some acc
      else case readQuotedOrAtom inner of (val, r) \<Rightarrow> childinfo_loop r (acc @ [val]))"

definition map_put :: "string \<Rightarrow> string \<Rightarrow> (string \<times> string) list \<Rightarrow> (string \<times> string) list" where
  "map_put k v m = filter (\<lambda>e. fst e \<noteq> k) m @ [(k, v)]"

partial_function (option) metadata_loop :: "string \<Rightarrow> (string \<times> string) list \<Rightarrow> (string \<times> string) list option" where
  "metadata_loop listInner m =
     (let inner = TrimLeftSP listInner in
      if inner = [] then Some m
      else case readQuotedOrAtom inner of (key, r) \<Rightarrow>
             (case readQuotedOrAtom (TrimLeftSP r) of (val, r2) \<Rightarrow>
                metadata_loop (TrimLeftSP r2) (map_put key val m)))"

partial_function (option) extended_loop :: "string \<Rightarrow> list_data \<Rightarrow> list_data option" where
  "extended_loop inner data =
     (let inner = TrimLeftSP inner in
      if inner = [] then Some data
      else case readQuotedOrAtom inner of (key, rest) \<Rightarrow>
        (let inner = TrimLeftSP rest; key = ToUpper key in
         if key = ''CHILDINFO''
         then (if HasPrefix inner ''(''
               then (case extractParenthesized inner of (listStr, rest2) \<Rightarrow>
                       Option.bind (childinfo_loop listStr []) (\<lambda>vals.
                         extended_loop (TrimLeftSP rest2) (data\<lparr>ld_ChildInfo := ld_ChildInfo data @ vals\<rparr>)))
               else extended_loop inner data)
         else if key = ''OLDNAME''
         then (if HasPrefix inner ''(''
               then (case extractParenthesized inner of (listStr, rest2) \<Rightarrow>
                       extended_loop (TrimLeftSP rest2) (data\<lparr>ld_OldName := fst (readQuotedOrAtom (TrimSpace listStr))\<rparr>))
               else extended_loop inner data)
         else if key = ''MYRIGHTS''
         then (case readQuotedOrAtom inner of (val, rest2) \<Rightarrow>
                 extended_loop (TrimLeftSP rest2) (data\<lparr>ld_MyRights := val\<rparr>))
         else if key = ''METADATA''
         then (if HasPrefix inner ''(''
               then (case extractParenthesized inner of (listStr, rest2) \<Rightarrow>
                       Option.bind (metadata_loop listStr []) (\<lambda>m.
                         extended_loop (TrimLeftSP rest2) (data\<lparr>ld_Metadata := Some m\<rparr>)))
               else extended_loop inner data)
         else extended_loop inner data))"

definition parseExtendedData :: "string \<Rightarrow> list_data \<Rightarrow> list_data option" where
  "parseExtendedData s data =
     (if length s < 2 \<or> hd s \<noteq> CHR ''('' then Some data
      else case close_paren 1 (tl s) of None \<Rightarrow> Some data | Some (inner, _) \<Rightarrow> extended_loop inner data)"

definition zero_list_data :: list_data where
  "zero_list_data =
     \<lparr>ld_Attrs = [], ld_Delim = None, ld_Mailbox = [], ld_OldName = [], ld_ChildInfo = [], ld_Status = None,
      ld_MyRights = [], ld_Metadata = None\<rparr>"

text \<open>The attributes; \<open>None\<close> when the parenthesis is not closed.\<close>

definition list_attrs :: "string \<Rightarrow> (string list \<times> string) option" where
  "list_attrs line =
     (if HasPrefix line ''(''
      then (case IndexByte line (CHR '')'') of
              None \<Rightarrow> None
            | Some i \<Rightarrow> Some (Fields (take (i - 1) (drop 1 line)), TrimLeftSP (drop (i + 1) line)))
      else Some ([], line))"

definition list_delim :: "string \<Rightarrow> char option \<times> string" where
  "list_delim line =
     (if HasPrefix line ''NIL'' then (None, TrimLeftSP (drop 3 line))
      else if HasPrefix line [DQ] \<and> length line \<ge> 3 then (Some (line ! 1), TrimLeftSP (drop 3 line))
      else (None, line))"

text \<open>Outer \<open>None\<close>: it does not return; inner \<open>None\<close>: nil.\<close>

definition parseListResponse :: "string \<Rightarrow> list_data option option" where
  "parseListResponse line =
     (case list_attrs line of
        None \<Rightarrow> Some None
      | Some (attrs, line) \<Rightarrow>
          (case list_delim line of (delim, line) \<Rightarrow>
             (case parseMailboxName line of (mailbox, rest) \<Rightarrow>
                (let data = zero_list_data\<lparr>ld_Attrs := attrs, ld_Delim := delim, ld_Mailbox := mailbox\<rparr>;
                     rest = TrimLeftSP rest
                 in map_option Some (if HasPrefix rest ''('' then parseExtendedData rest data else Some data)))))"

definition zero_status_data :: status_data where
  "zero_status_data =
     \<lparr>st_Mailbox = [], st_NumMessages = None, st_UIDNext = None, st_UIDValidity = None, st_NumUnseen = None,
      st_NumRecent = None, st_Size = None, st_AppendLimit = None, st_NumDeleted = None, st_HighestModSeq = None,
      st_MailboxID = []\<rparr>"

definition status_value :: "string \<Rightarrow> nat \<Rightarrow> status_data \<Rightarrow> status_data" where
  "status_value name val data =
     (let v32 = Some (of_nat val) in
      if name = ''MESSAGES'' then data\<lparr>st_NumMessages := v32\<rparr>
      else if name = ''UIDNEXT'' then data\<lparr>st_UIDNext := v32\<rparr>
      else if name = ''UIDVALIDITY'' then data\<lparr>st_UIDValidity := v32\<rparr>
      else if name = ''UNSEEN'' then data\<lparr>st_NumUnseen := v32\<rparr>
      else if name = ''RECENT'' then data\<lparr>st_NumRecent := v32\<rparr>
      else if name = ''SIZE'' then data\<lparr>st_Size := Some (wrap64 (int val))\<rparr>
      else if name = ''HIGHESTMODSEQ'' then data\<lparr>st_HighestModSeq := Some (of_nat val)\<rparr>
      else data)"

fun status_pairs :: "string list \<Rightarrow> status_data \<Rightarrow> status_data" where
  "status_pairs (name # val # parts) data =
     status_pairs parts (case ParseUint 64 val of None \<Rightarrow> data | Some v \<Rightarrow> status_value (ToUpper name) v data)"
| "status_pairs parts data = data"

definition parseStatusResponse2 :: "string \<Rightarrow> status_data" where
  "parseStatusResponse2 line =
     (case IndexByte line SP of
        None \<Rightarrow> zero_status_data
      | Some i \<Rightarrow>
          (let rest = TrimLeftSP (drop (i + 1) line);
               rest = (if HasPrefix rest ''(''
                       then (let r = drop 1 rest in if HasSuffix r '')'' then butlast r else r) else rest)
           in status_pairs (Fields rest) (zero_status_data\<lparr>st_Mailbox := TrimQuotes (take i line)\<rparr>)))"

definition parse_numbers :: "string \<Rightarrow> u32 list" where
  "parse_numbers s = List.map_filter (\<lambda>f. map_option of_nat (ParseUint 32 f)) (Fields s)"

definition parseSearchResults :: "string list \<Rightarrow> u32 list" where
  "parseSearchResults lines =
     concat (map (\<lambda>line. if HasPrefix line ''SEARCH '' then parse_numbers (drop 7 line) else []) lines)"

definition zero_copy_data :: copy_data where
  "zero_copy_data = \<lparr>cd_UIDValidity = 0, cd_SourceUIDs = [], cd_DestUIDs = []\<rparr>"

definition parseCopyUID :: "string \<Rightarrow> copy_data \<Rightarrow> copy_data" where
  "parseCopyUID s data =
     (case Fields s of
        p0 # p1 # p2 # _ \<Rightarrow>
          (let data = (case ParseUint 32 p0 of None \<Rightarrow> data | Some v \<Rightarrow> data\<lparr>cd_UIDValidity := of_nat v\<rparr>);
               data = (case ParseUIDSet p1 of Inl _ \<Rightarrow> data | Inr us \<Rightarrow> data\<lparr>cd_SourceUIDs := us\<rparr>)
           in case ParseUIDSet p2 of Inl _ \<Rightarrow> data | Inr us \<Rightarrow> data\<lparr>cd_DestUIDs := us\<rparr>)
      | _ \<Rightarrow> data)"

section \<open>Commands on mailboxes\<close>

text \<open>
  Every command takes the error of the write of its line, if there is one, and the lines that the
  reader handles until the command returns.
\<close>

type_synonym 'a client_op = "string option \<Rightarrow> string list \<Rightarrow> client \<Rightarrow> ((client_error + 'a) \<times> client) option"
type_synonym client_check = "string option \<Rightarrow> string list \<Rightarrow> client \<Rightarrow> (client_error option \<times> client) option"

text \<open>A command that forgets the untagged data before it and reads what came with its answer.\<close>

definition clear_untagged :: "client \<Rightarrow> client" where
  "clear_untagged c = snd (collectUntagged c)"

definition with_untagged :: "(string list \<Rightarrow> 'a) \<Rightarrow> ((client_error + command_result) \<times> client) option \<Rightarrow> ((client_error + 'a) \<times> client) option" where
  "with_untagged f res =
     map_option (\<lambda>(r, c). case r of Inl e \<Rightarrow> (Inl e, c) | Inr _ \<Rightarrow> (Inr (f (cl_untagged c)), clear_untagged c)) res"

definition Client_Select :: "string \<Rightarrow> bool \<Rightarrow> select_data client_op" where
  "Client_Select mailbox readOnly werr lines c =
     map_option (\<lambda>(r, c).
       case r of
         Inl e \<Rightarrow> (Inl e, c)
       | Inr _ \<Rightarrow>
           (Inr \<lparr>sd_Flags = [], sd_PermanentFlags = [], sd_NumMessages = cl_mailboxMessages c,
                 sd_NumRecent = cl_mailboxRecent c, sd_UIDNext = cl_mailboxUIDNext c,
                 sd_UIDValidity = cl_mailboxUIDValidity c, sd_FirstUnseen = cl_mailboxUnseen c,
                 sd_HighestModSeq = 0, sd_ReadOnly = cl_mailboxReadOnly c, sd_Vanished = None, sd_MailboxID = []\<rparr>,
            c\<lparr>cl_state := Selected, cl_mailboxName := mailbox\<rparr>))
       (executeOK werr (if readOnly then ''EXAMINE'' else ''SELECT'') [quoteArg mailbox] lines (clear_untagged c))"

definition Client_Examine :: "string \<Rightarrow> select_data client_op" where
  "Client_Examine mailbox = Client_Select mailbox True"

definition Client_Create :: "string \<Rightarrow> client_check" where
  "Client_Create mailbox werr = executeCheck werr ''CREATE'' [quoteArg mailbox]"

definition CreateWithOptions :: "string \<Rightarrow> string option \<Rightarrow> client_check" where
  "CreateWithOptions mailbox specialUse werr =
     executeCheck werr ''CREATE''
       ([quoteArg mailbox] @
        (case specialUse of Some u \<Rightarrow> if u \<noteq> [] then [''(USE ('' @ u @ ''))''] else [] | None \<Rightarrow> []))"

definition Client_Delete :: "string \<Rightarrow> client_check" where
  "Client_Delete mailbox werr = executeCheck werr ''DELETE'' [quoteArg mailbox]"

definition Client_Rename :: "string \<Rightarrow> string \<Rightarrow> client_check" where
  "Client_Rename oldName newName werr = executeCheck werr ''RENAME'' [quoteArg oldName, quoteArg newName]"

definition Client_Subscribe :: "string \<Rightarrow> client_check" where
  "Client_Subscribe mailbox werr = executeCheck werr ''SUBSCRIBE'' [quoteArg mailbox]"

definition Client_Unsubscribe :: "string \<Rightarrow> client_check" where
  "Client_Unsubscribe mailbox werr = executeCheck werr ''UNSUBSCRIBE'' [quoteArg mailbox]"

text \<open>The \<open>LIST\<close> responses among the untagged lines; \<open>None\<close> when one of them is never parsed.\<close>

fun list_entries :: "string list \<Rightarrow> list_data list option" where
  "list_entries [] = Some []"
| "list_entries (line # lines) =
     (if HasPrefix line ''LIST ''
      then (case parseListResponse (drop 5 line) of
              None \<Rightarrow> None
            | Some None \<Rightarrow> list_entries lines
            | Some (Some data) \<Rightarrow> map_option ((#) data) (list_entries lines))
      else list_entries lines)"

text \<open>A loop that does not end leaves the command waiting as well.\<close>

definition sequence_untagged :: "((client_error + 'a option) \<times> client) option \<Rightarrow> ((client_error + 'a) \<times> client) option" where
  "sequence_untagged res =
     (case res of
        None \<Rightarrow> None
      | Some (Inl e, c) \<Rightarrow> Some (Inl e, c)
      | Some (Inr None, c) \<Rightarrow> None
      | Some (Inr (Some x), c) \<Rightarrow> Some (Inr x, c))"

definition ListMailboxes :: "string \<Rightarrow> string \<Rightarrow> list_data list client_op" where
  "ListMailboxes ref pattern werr lines c =
     sequence_untagged (with_untagged list_entries
       (executeOK werr ''LIST'' [quoteArg ref, quoteArg pattern] lines (clear_untagged c)))"

definition hasSelectionOpts :: "list_options \<Rightarrow> bool" where
  "hasSelectionOpts opts \<longleftrightarrow>
     lo_SelectSubscribed opts \<or> lo_SelectRemote opts \<or> lo_SelectRecursiveMatch opts \<or> lo_SelectSpecialUse opts"

definition hasReturnOpts :: "list_options \<Rightarrow> bool" where
  "hasReturnOpts opts \<longleftrightarrow>
     lo_ReturnSubscribed opts \<or> lo_ReturnChildren opts \<or> lo_ReturnSpecialUse opts \<or> lo_ReturnMyRights opts \<or>
     lo_ReturnStatus opts \<noteq> None \<or> lo_ReturnMetadata opts \<noteq> None"

definition optional :: "bool \<Rightarrow> string \<Rightarrow> string list" where
  "optional b s = (if b then [s] else [])"

definition parens :: "string list \<Rightarrow> string" where
  "parens xs = ''('' @ join '' '' xs @ '')''"

definition default_status_items :: "string list" where
  "default_status_items = [''MESSAGES'', ''UIDNEXT'', ''UIDVALIDITY'', ''UNSEEN'']"

definition buildStatusItems :: "status_options option \<Rightarrow> string list" where
  "buildStatusItems opts =
     (case opts of
        None \<Rightarrow> default_status_items
      | Some opt \<Rightarrow>
          (let items = optional (so_NumMessages opt) ''MESSAGES'' @ optional (so_UIDNext opt) ''UIDNEXT'' @
                       optional (so_UIDValidity opt) ''UIDVALIDITY'' @ optional (so_NumUnseen opt) ''UNSEEN'' @
                       optional (so_NumRecent opt) ''RECENT'' @ optional (so_Size opt) ''SIZE'' @
                       optional (so_HighestModSeq opt) ''HIGHESTMODSEQ''
           in if items = [] then default_status_items else items))"

definition selection_args :: "list_options \<Rightarrow> string list" where
  "selection_args opt =
     (if hasSelectionOpts opt
      then [parens (optional (lo_SelectSubscribed opt) ''SUBSCRIBED'' @ optional (lo_SelectRemote opt) ''REMOTE'' @
                    optional (lo_SelectRecursiveMatch opt) ''RECURSIVEMATCH'' @ optional (lo_SelectSpecialUse opt) ''SPECIAL-USE'')]
      else [])"

definition metadata_args :: "list_return_metadata \<Rightarrow> string" where
  "metadata_args md =
     ''METADATA '' @ parens (map quoteArg (lm_Options md) @
       optional (lm_MaxSize md > 0) (''MAXSIZE '' @ FormatInt (lm_MaxSize md)) @
       optional (lm_Depth md \<noteq> []) (''DEPTH '' @ lm_Depth md))"

definition return_args :: "list_options \<Rightarrow> string list" where
  "return_args opt =
     (if hasReturnOpts opt
      then [''RETURN'',
            parens (optional (lo_ReturnSubscribed opt) ''SUBSCRIBED'' @ optional (lo_ReturnChildren opt) ''CHILDREN'' @
                    optional (lo_ReturnSpecialUse opt) ''SPECIAL-USE'' @ optional (lo_ReturnMyRights opt) ''MYRIGHTS'' @
                    (case lo_ReturnStatus opt of None \<Rightarrow> [] | Some s \<Rightarrow> [''STATUS '' @ parens (buildStatusItems (Some s))]) @
                    (case lo_ReturnMetadata opt of None \<Rightarrow> [] | Some md \<Rightarrow> [metadata_args md]))]
      else [])"

definition list_args :: "string \<Rightarrow> string list \<Rightarrow> list_options option \<Rightarrow> string list" where
  "list_args ref patterns opts =
     (case opts of None \<Rightarrow> [] | Some opt \<Rightarrow> selection_args opt) @ [quoteArg ref] @
     [case patterns of [p] \<Rightarrow> quoteArg p | ps \<Rightarrow> parens (map quoteArg ps)] @
     (case opts of None \<Rightarrow> [] | Some opt \<Rightarrow> return_args opt)"

text \<open>
  The map from names to entries holds the last entry of a name; a \<open>STATUS\<close> line replaces the status
  of that entry.
\<close>

fun set_last_status :: "status_data \<Rightarrow> list_data list \<Rightarrow> list_data list" where
  "set_last_status s [] = []"
| "set_last_status s (d # ds) =
     (if ld_Mailbox d = st_Mailbox s \<and> (\<forall>e\<in>set ds. ld_Mailbox e \<noteq> st_Mailbox s)
      then d\<lparr>ld_Status := Some s\<rparr> # ds else d # set_last_status s ds)"

definition match_status :: "string list \<Rightarrow> list_data list \<Rightarrow> list_data list" where
  "match_status untagged ds =
     foldl (\<lambda>ds line. if HasPrefix line ''STATUS '' then set_last_status (parseStatusResponse2 (drop 7 line)) ds else ds) ds untagged"

definition ListMailboxesExtended :: "string \<Rightarrow> string list \<Rightarrow> list_options option \<Rightarrow> list_data list client_op" where
  "ListMailboxesExtended ref patterns opts werr lines c =
     sequence_untagged (with_untagged (\<lambda>untagged. map_option (match_status untagged) (list_entries untagged))
       (executeOK werr ''LIST'' (list_args ref patterns opts) lines (clear_untagged c)))"

definition Client_Status :: "string \<Rightarrow> status_options option \<Rightarrow> status_data client_op" where
  "Client_Status mailbox opts werr lines c =
     with_untagged (\<lambda>untagged.
         case find (\<lambda>line. HasPrefix line ''STATUS '') untagged of
           Some line \<Rightarrow> parseStatusResponse2 (drop 7 line)
         | None \<Rightarrow> zero_status_data\<lparr>st_Mailbox := mailbox\<rparr>)
       (executeOK werr ''STATUS'' [quoteArg mailbox, parens (buildStatusItems opts)] lines (clear_untagged c))"

definition leave_selected :: "(client_error option \<times> client) option \<Rightarrow> (client_error option \<times> client) option" where
  "leave_selected res =
     map_option (\<lambda>(e, c). (e, if e = None then c\<lparr>cl_state := Authenticated, cl_mailboxName := []\<rparr> else c)) res"

definition Client_Unselect :: client_check where
  "Client_Unselect werr lines c = leave_selected (executeCheck werr ''UNSELECT'' [] lines c)"

definition CloseMailbox :: client_check where
  "CloseMailbox werr lines c = leave_selected (executeCheck werr ''CLOSE'' [] lines c)"

definition Client_Noop :: client_check where
  "Client_Noop werr = executeCheck werr ''NOOP'' []"

definition Client_Capability :: "string list client_op" where
  "Client_Capability werr lines c =
     map_option (\<lambda>(e, c). (case e of Some e \<Rightarrow> Inl e | None \<Rightarrow> Inr (cl_caps c), c))
       (executeCheck werr ''CAPABILITY'' [] lines (clear_untagged c))"

definition Client_Enable :: "string list \<Rightarrow> client_check" where
  "Client_Enable caps werr lines c =
     (if caps = [] then Some (None, c) else executeCheck werr ''ENABLE'' [join '' '' caps] lines c)"

section \<open>Login\<close>

definition Client_Login :: "string \<Rightarrow> string \<Rightarrow> client_check" where
  "Client_Login username password werr lines c =
     map_option (\<lambda>(e, c). (e, if e = None then c\<lparr>cl_state := Authenticated\<rparr> else c))
       (executeCheck werr ''LOGIN'' [quoteArg username, quoteArg password] lines c)"

definition Client_Logout :: "(nat set \<Rightarrow> nat list) \<Rightarrow> client_check" where
  "Client_Logout order werr lines c =
     map_option (\<lambda>(e, c). (e, Client_Close order (c\<lparr>cl_state := Logout\<rparr>))) (executeCheck werr ''LOGOUT'' [] lines c)"

section \<open>Commands on messages\<close>

definition fetch_command :: "string \<Rightarrow> string \<Rightarrow> string \<Rightarrow> string list client_op" where
  "fetch_command name numSet items werr lines c =
     with_untagged (filter (\<lambda>line. HasPrefix line ''FETCH ''))
       (executeOK werr name [numSet, items] lines (clear_untagged c))"

definition Client_Fetch :: "string \<Rightarrow> string \<Rightarrow> string list client_op" where
  "Client_Fetch seqSet items = fetch_command ''FETCH'' seqSet items"

definition UIDFetch :: "string \<Rightarrow> string \<Rightarrow> string list client_op" where
  "UIDFetch uidSet items = fetch_command ''UID FETCH'' uidSet items"

definition store_args :: "string \<Rightarrow> store_action \<Rightarrow> flag list \<Rightarrow> bool \<Rightarrow> string list" where
  "store_args numSet action flags silent =
     [numSet, StoreAction_String action @ (if silent then ''.SILENT'' else []), parens flags]"

definition Client_Store :: "string \<Rightarrow> store_action \<Rightarrow> flag list \<Rightarrow> bool \<Rightarrow> client_check" where
  "Client_Store seqSet action flags silent werr = executeCheck werr ''STORE'' (store_args seqSet action flags silent)"

definition UIDStore :: "string \<Rightarrow> store_action \<Rightarrow> flag list \<Rightarrow> bool \<Rightarrow> client_check" where
  "UIDStore uidSet action flags silent werr = executeCheck werr ''UID STORE'' (store_args uidSet action flags silent)"

definition copy_command :: "string \<Rightarrow> string \<Rightarrow> string \<Rightarrow> copy_data client_op" where
  "copy_command name numSet dest werr lines c =
     map_option (\<lambda>(r, c).
       (map_sum id (\<lambda>r. if HasPrefix (cr_code r) ''COPYUID '' then parseCopyUID (drop 8 (cr_code r)) zero_copy_data
                        else zero_copy_data) r, c))
       (executeOK werr name [numSet, quoteArg dest] lines c)"

definition Client_Copy :: "string \<Rightarrow> string \<Rightarrow> copy_data client_op" where
  "Client_Copy seqSet dest = copy_command ''COPY'' seqSet dest"

definition UIDCopy :: "string \<Rightarrow> string \<Rightarrow> copy_data client_op" where
  "UIDCopy uidSet dest = copy_command ''UID COPY'' uidSet dest"

definition Client_Move :: "string \<Rightarrow> string \<Rightarrow> copy_data client_op" where
  "Client_Move seqSet dest = copy_command ''MOVE'' seqSet dest"

definition Client_Expunge :: client_check where
  "Client_Expunge werr = executeCheck werr ''EXPUNGE'' []"

definition UIDExpunge :: "string \<Rightarrow> client_check" where
  "UIDExpunge uidSet werr = executeCheck werr ''UID EXPUNGE'' [uidSet]"

definition Client_Search :: "string \<Rightarrow> u32 list client_op" where
  "Client_Search criteria werr lines c =
     with_untagged parseSearchResults (executeOK werr ''SEARCH'' [criteria] lines (clear_untagged c))"

definition UIDSearch :: "string \<Rightarrow> u32 list client_op" where
  "UIDSearch criteria werr lines c =
     with_untagged parseSearchResults (executeOK werr ''UID SEARCH'' [criteria] lines (clear_untagged c))"

definition Client_Sort :: "string \<Rightarrow> u32 list client_op" where
  "Client_Sort criteria werr lines c =
     with_untagged (\<lambda>untagged. concat (map (\<lambda>line. if HasPrefix line ''SORT '' then parse_numbers (drop 5 line) else []) untagged))
       (executeOK werr ''SORT'' [criteria] lines (clear_untagged c))"

definition Client_Thread :: "string \<Rightarrow> string \<Rightarrow> string list client_op" where
  "Client_Thread algorithm criteria werr lines c =
     with_untagged (\<lambda>untagged. map (drop 7) (filter (\<lambda>line. HasPrefix line ''THREAD '') untagged))
       (executeOK werr ''THREAD'' [algorithm, criteria] lines (clear_untagged c))"

text \<open>The pairs of the map in the order of the iteration; \<open>q\<close> is the verb \<open>%q\<close>.\<close>

definition Client_ID :: "(string \<Rightarrow> string) \<Rightarrow> (string \<times> string) list option \<Rightarrow> unit client_op" where
  "Client_ID q clientID werr lines c =
     with_untagged (\<lambda>_. ())
       (executeOK werr ''ID''
          [case clientID of None \<Rightarrow> ''NIL'' | Some ps \<Rightarrow> parens (map (\<lambda>(k, v). q k @ '' '' @ q v) ps)]
          lines (clear_untagged c))"

section \<open>Continuation requests\<close>

text \<open>
  \<open>select\<close> on the channel of continuation requests and the channel of the command, after the
  lines of a turn; with both ready the choice is the Boolean of the turn.
\<close>

type_synonym turn = "string list \<times> bool"

definition select_channels :: "nat \<Rightarrow> turn \<Rightarrow> client \<Rightarrow> (((string + string) + command_result) \<times> client) option" where
  "select_channels cmd turn c =
     (let c = process_lines (fst turn) c
      in case (cl_continuation c, take_result cmd c) of
           (None, None) \<Rightarrow> None
         | (None, Some (r, c')) \<Rightarrow> Some (Inr r, c')
         | (Some k, None) \<Rightarrow> Some (Inl k, c\<lparr>cl_continuation := None\<rparr>)
         | (Some k, Some (r, c')) \<Rightarrow> Some (if snd turn then (Inl k, c\<lparr>cl_continuation := None\<rparr>) else (Inr r, c')))"

definition waitForContinuation :: "nat \<Rightarrow> turn \<Rightarrow> client \<Rightarrow> ((client_error + string) \<times> client) option" where
  "waitForContinuation cmd turn c =
     map_option (\<lambda>(r, c).
       (case r of
          Inl (Inl e) \<Rightarrow> Inl (ConnErr e)
        | Inl (Inr text) \<Rightarrow> Inr text
        | Inr r \<Rightarrow> (case commandResultError r of Some e \<Rightarrow> Inl e | None \<Rightarrow> Inl (ConnErr ''missing continuation request'')), c))
       (select_channels cmd turn c)"

definition send_raw :: "string \<Rightarrow> client \<Rightarrow> client" where
  "send_raw s c = c\<lparr>cl_sent := cl_sent c @ s\<rparr>"

definition append_line :: "string \<Rightarrow> flag list \<Rightarrow> string \<Rightarrow> string \<Rightarrow> string" where
  "append_line mailbox flags lit tag =
     tag @ '' APPEND '' @ quoteArg mailbox @ (if flags \<noteq> [] then '' '' @ parens flags else []) @
     '' {'' @ FormatUint (length lit) @ ''}'' @ [CR, LF]"

definition append_result :: "command_result \<Rightarrow> append_data" where
  "append_result r =
     (let data = \<lparr>ad_UIDValidity = 0, ad_UID = 0\<rparr> in
      if HasPrefix (cr_code r) ''APPENDUID ''
      then (case Fields (drop 10 (cr_code r)) of
              p0 # p1 # _ \<Rightarrow>
                (let data = (case ParseUint 32 p0 of None \<Rightarrow> data | Some v \<Rightarrow> data\<lparr>ad_UIDValidity := of_nat v\<rparr>)
                 in case ParseUint 32 p1 of None \<Rightarrow> data | Some v \<Rightarrow> data\<lparr>ad_UID := of_nat v\<rparr>)
            | _ \<Rightarrow> data)
      else data)"

text \<open>\<open>werr\<close>, \<open>lerr\<close> and \<open>nerr\<close> are the errors of the writes of the line, the literal and its line end.\<close>

definition Client_Append :: "string \<Rightarrow> flag list \<Rightarrow> string \<Rightarrow> string option \<Rightarrow> string option \<Rightarrow> string option \<Rightarrow> turn \<Rightarrow> string list \<Rightarrow> client \<Rightarrow> ((client_error + append_data) \<times> client) option" where
  "Client_Append mailbox flags lit werr lerr nerr turn lines c =
     (let (cmd, tag, c) = begin_command (append_line mailbox flags lit) c
      in case werr of
           Some e \<Rightarrow> Some (Inl (ConnErr e), pending_Complete tag (error_result e) c)
         | None \<Rightarrow>
             Option.bind (waitForContinuation cmd turn c) (\<lambda>(r, c).
               case r of
                 Inl e \<Rightarrow> Some (Inl e, c)
               | Inr _ \<Rightarrow>
                   (case lerr of
                      Some e \<Rightarrow> Some (Inl (ConnErr e), c)
                    | None \<Rightarrow>
                        (let c = send_raw lit c
                         in case nerr of
                              Some e \<Rightarrow> Some (Inl (ConnErr e), c)
                            | None \<Rightarrow>
                                map_option (\<lambda>(r, c).
                                    (case commandResultError r of Some e \<Rightarrow> Inl e | None \<Rightarrow> Inr (append_result r), c))
                                  (take_result cmd (process_lines lines (send_raw [CR, LF] c)))))))"

section \<open>Authentication by a mechanism\<close>

text \<open>\<open>base64.StdEncoding\<close>: the digits of the other alphabet, with padding.\<close>

definition StdEncode :: "string \<Rightarrow> string" where
  "StdEncode s =
     (let ds = map (\<lambda>c. if c = CHR '','' then CHR ''/'' else c) (b64_encode (map of_char s))
      in ds @ replicate ((4 - length ds mod 4) mod 4) (CHR ''=''))"

definition strip_pad :: "string \<Rightarrow> string" where
  "strip_pad s = (if HasSuffix s ''=='' then take (length s - 2) s else if HasSuffix s ''='' then butlast s else s)"

definition StdDecode :: "string \<Rightarrow> string option" where
  "StdDecode s =
     (let s = filter (\<lambda>c. c \<noteq> CR \<and> c \<noteq> LF) s
      in if length s mod 4 \<noteq> 0 \<or> CHR '','' \<in> set s then None
         else map_option (map char_of) (b64_decode (map (\<lambda>c. if c = CHR ''/'' then CHR '','' else c) (strip_pad s))))"

definition auth_line :: "client_mech \<Rightarrow> bool \<Rightarrow> string \<Rightarrow> string" where
  "auth_line mech saslIR tag =
     tag @ '' AUTHENTICATE '' @ client_Name mech @
     (case client_Start mech of Some ir \<Rightarrow> if saslIR then '' '' @ StdEncode ir else [] | None \<Rightarrow> []) @ [CR, LF]"

definition cancel :: "client \<Rightarrow> client" where
  "cancel c = send_raw (''*'' @ [CR, LF]) c"

text \<open>
  The loop of challenges; the errors of its writes are left out. \<open>hmac\<close> is HMAC-MD5, \<open>wrap\<close> the
  text of a wrapped error.
\<close>

fun auth_loop :: "(string \<Rightarrow> string \<Rightarrow> string) \<Rightarrow> (go_error \<Rightarrow> string) \<Rightarrow> nat \<Rightarrow> client_mech \<Rightarrow> turn list \<Rightarrow> client \<Rightarrow> (client_error option \<times> client) option" where
  "auth_loop hmac wrap cmd mech [] c = None"
| "auth_loop hmac wrap cmd mech (turn # turns) c =
     (case select_channels cmd turn c of
        None \<Rightarrow> None
      | Some (Inr r, c) \<Rightarrow>
          (case commandResultError r of
             Some e \<Rightarrow> Some (Some e, c)
           | None \<Rightarrow> Some (None, c\<lparr>cl_state := Authenticated\<rparr>))
      | Some (Inl (Inl e), c) \<Rightarrow> Some (Some (ConnErr e), c)
      | Some (Inl (Inr text), c) \<Rightarrow>
          (case StdDecode text of
             None \<Rightarrow> Some (Some (ConnErr ''decoding challenge''), cancel c)
           | Some challenge \<Rightarrow>
               (case client_Next hmac mech challenge of
                  (Inl e, mech') \<Rightarrow> Some (Some (ConnErr (''SASL response: '' @ wrap e)), cancel c)
                | (Inr response, mech') \<Rightarrow>
                    auth_loop hmac wrap cmd mech' turns (send_raw (StdEncode response @ [CR, LF]) c))))"

definition Authenticate :: "(string \<Rightarrow> string \<Rightarrow> string) \<Rightarrow> (go_error \<Rightarrow> string) \<Rightarrow> client_mech \<Rightarrow> string option \<Rightarrow> turn \<Rightarrow> turn list \<Rightarrow> client \<Rightarrow> (client_error option \<times> client) option" where
  "Authenticate hmac wrap mech werr turn turns c =
     (let saslIR = HasCap ''SASL-IR'' c;
          (cmd, tag, c) = begin_command (auth_line mech saslIR) c
      in case werr of
           Some e \<Rightarrow> Some (Some (ConnErr e), pending_Complete tag (error_result e) c)
         | None \<Rightarrow>
             (case client_Start mech of
                Some ir \<Rightarrow>
                  (if saslIR then auth_loop hmac wrap cmd mech (turn # turns) c
                   else Option.bind (waitForContinuation cmd turn c) (\<lambda>(r, c).
                          case r of
                            Inl e \<Rightarrow> Some (Some e, c)
                          | Inr _ \<Rightarrow> auth_loop hmac wrap cmd mech turns (send_raw (StdEncode ir @ [CR, LF]) c)))
              | None \<Rightarrow> auth_loop hmac wrap cmd mech (turn # turns) c))"

section \<open>IDLE\<close>

definition Client_Idle :: "string option \<Rightarrow> turn \<Rightarrow> client \<Rightarrow> ((client_error + nat) \<times> client) option" where
  "Client_Idle werr turn c =
     (let (cmd, tag, c) = begin_command (\<lambda>tag. tag @ '' IDLE'' @ [CR, LF]) c
      in case werr of
           Some e \<Rightarrow> Some (Inl (ConnErr e), pending_Complete tag (error_result e) c)
         | None \<Rightarrow> map_option (\<lambda>(r, c). (map_sum id (\<lambda>_. cmd) r, c)) (waitForContinuation cmd turn c))"

definition Idle_Wait :: "nat \<Rightarrow> string list \<Rightarrow> client \<Rightarrow> (client_error option \<times> client) option" where
  "Idle_Wait cmd lines c = map_option (\<lambda>(r, c). (commandResultError r, c)) (take_result cmd (process_lines lines c))"

definition Idle_Done :: "nat \<Rightarrow> string option \<Rightarrow> string list \<Rightarrow> client \<Rightarrow> (client_error option \<times> client) option" where
  "Idle_Done cmd werr lines c =
     (case werr of
        Some e \<Rightarrow> Some (Some (ConnErr e), c)
      | None \<Rightarrow> Idle_Wait cmd lines (send_raw (''DONE'' @ [CR, LF]) c))"

section \<open>The pool\<close>

text \<open>Clients are pointers into a heap; \<open>factory\<close> is the function that makes a new one.\<close>

record pool =
  pl_clients :: "nat list"
  pl_maxSize :: int
  pl_closed :: bool
  pl_heap :: "nat \<Rightarrow> client"

definition Pool_New :: "int \<Rightarrow> (nat \<Rightarrow> client) \<Rightarrow> pool" where
  "Pool_New maxSize heap = \<lparr>pl_clients = [], pl_maxSize = maxSize, pl_closed = False, pl_heap = heap\<rparr>"

definition Pool_Get :: "(string + nat) \<Rightarrow> pool \<Rightarrow> (string + nat) \<times> pool" where
  "Pool_Get factory p =
     (if pl_closed p then (Inl ''pool is closed'', p)
      else if pl_clients p \<noteq> [] then (Inr (last (pl_clients p)), p\<lparr>pl_clients := butlast (pl_clients p)\<rparr>)
      else (factory, p))"

definition Pool_Put :: "(nat set \<Rightarrow> nat list) \<Rightarrow> nat \<Rightarrow> pool \<Rightarrow> pool" where
  "Pool_Put order c p =
     (if pl_closed p \<or> int (length (pl_clients p)) \<ge> pl_maxSize p
      then p\<lparr>pl_heap := (pl_heap p)(c := Client_Close order (pl_heap p c))\<rparr>
      else p\<lparr>pl_clients := pl_clients p @ [c]\<rparr>)"

definition Pool_Close :: "(nat set \<Rightarrow> nat list) \<Rightarrow> pool \<Rightarrow> pool" where
  "Pool_Close order p =
     p\<lparr>pl_closed := True, pl_clients := [],
       pl_heap := foldl (\<lambda>h c. h(c := Client_Close order (h c))) (pl_heap p) (pl_clients p)\<rparr>"

definition Pool_Len :: "pool \<Rightarrow> nat" where
  "Pool_Len p = length (pl_clients p)"

end
