(* ===== verification/ClientLaws.thy ===== *)
theory ClientLaws
  imports Client MemBackend
begin

text \<open>
  What the client guarantees. Every command is answered exactly once, whatever the server sends;
  what the client writes is what the server reads, and what the server writes is what the client
  reads: LOGIN and SELECT end with both sides in the same state. The cases where this fails are
  stated too: arguments that inject a command, the read-only mode and the first unseen message of
  SELECT, a LIST response that the client never finishes to parse.
\<close>

section \<open>Answers\<close>

text \<open>
  A step of the program: a command begins, the reader handles a line, a write failed, the
  connection ends, a caller receives its result, or something else happens that leaves the
  commands alone. The set holds the commands whose result was received. The counter of tags
  does not reach the end of \<open>int64\<close>.
\<close>

definition enumerates :: "(nat set \<Rightarrow> nat list) \<Rightarrow> client \<Rightarrow> bool" where
  "enumerates order c \<longleftrightarrow> set (order (ran (cl_pending c))) = ran (cl_pending c) \<and> distinct (order (ran (cl_pending c)))"

inductive client_step :: "client \<times> nat set \<Rightarrow> client \<times> nat set \<Rightarrow> bool" where
  start: "begin_command line c = (cmd, tag, c') \<Longrightarrow> cl_counter c < 2 ^ 63 - 1 \<Longrightarrow> client_step (c, R) (c', R)"
| read: "client_step (c, R) (processLine line c, R)"
| write_failed: "client_step (c, R) (pending_Complete tag (error_result e) c, R)"
| disconnect: "enumerates order c \<Longrightarrow> client_step (c, R) (handleDisconnect order e c, R)"
| receive: "take_result cmd c = Some (r, c') \<Longrightarrow> client_step (c, R) (c', insert cmd R)"
| other: "cl_pending c' = cl_pending c \<Longrightarrow> cl_done c' = cl_done c \<Longrightarrow> cl_commands c' = cl_commands c \<Longrightarrow>
    cl_counter c' = cl_counter c \<Longrightarrow> client_step (c, R) (c', R)"

text \<open>Of a command that began, exactly one is true: it is pending, its result waits, its result was received.\<close>

definition answered_once :: "client \<Rightarrow> nat set \<Rightarrow> nat \<Rightarrow> bool" where
  "answered_once c R cmd \<longleftrightarrow>
     (if cmd \<in> ran (cl_pending c) then cl_done c cmd = [] \<and> cmd \<notin> R
      else if cmd \<in> R then cl_done c cmd = [] else length (cl_done c cmd) = 1)"

definition commands_ok :: "client \<times> nat set \<Rightarrow> bool" where
  "commands_ok = (\<lambda>(c, R).
     0 \<le> cl_counter c \<and> cl_counter c < 2 ^ 63 \<and>
     (\<forall>cmd < cl_commands c. answered_once c R cmd) \<and> 
     (\<forall>cmd \<ge> cl_commands c. cmd \<notin> ran (cl_pending c) \<and> cmd \<notin> R \<and> cl_done c cmd = []) \<and>
     (\<forall>tag \<in> dom (cl_pending c). \<exists>n. tag = ''A'' @ FormatInt n \<and> 0 < n \<and> n \<le> cl_counter c) \<and>
     inj_on (cl_pending c) (dom (cl_pending c)))"

lemma FormatInt_inj: "0 \<le> m \<Longrightarrow> 0 \<le> n \<Longrightarrow> FormatInt m = FormatInt n \<Longrightarrow> m = n"
  by (auto simp: FormatInt_def dest: FormatUint_inj)

lemma commands_okD:
  assumes "commands_ok (c, R)"
  shows "0 \<le> cl_counter c" "cl_counter c < 2 ^ 63"
    "cmd < cl_commands c \<Longrightarrow> answered_once c R cmd"
    "cmd \<ge> cl_commands c \<Longrightarrow> cmd \<notin> ran (cl_pending c) \<and> cmd \<notin> R \<and> cl_done c cmd = []"
    "tag \<in> dom (cl_pending c) \<Longrightarrow> \<exists>n. tag = ''A'' @ FormatInt n \<and> 0 < n \<and> n \<le> cl_counter c"
    "inj_on (cl_pending c) (dom (cl_pending c))"
  using assms unfolding commands_ok_def prod.case by blast+

text \<open>Of the operations on commands only these four fields matter.\<close>

lemma commands_ok_same:
  assumes "commands_ok (c, R)"
    "cl_pending c' = cl_pending c" "cl_done c' = cl_done c" "cl_commands c' = cl_commands c" "cl_counter c' = cl_counter c"
  shows "commands_ok (c', R)"
  using assms by (simp add: commands_ok_def answered_once_def)

lemma commands_ok_Complete:
  assumes "commands_ok (c, R)"
  shows "commands_ok (pending_Complete tag r c, R)"
proof (cases "cl_pending c tag")
  case None
  with assms show ?thesis by (simp add: pending_Complete_def)
next
  case (Some cmd)
  let ?p = "(cl_pending c)(tag := None)"
  note inj = commands_okD(6) [OF assms]
  have only: "t = tag" if "cl_pending c t = Some cmd" for t
    using that Some inj by (metis domI inj_onD)
  have gone: "cmd \<notin> ran ?p" by (auto simp: ran_def dest: only)
  have rest: "x \<in> ran ?p \<longleftrightarrow> x \<in> ran (cl_pending c)" if "x \<noteq> cmd" for x
    using that Some by (auto simp: ran_def) (metis option.inject)
  have was: "cmd \<in> ran (cl_pending c)" using Some by (rule ranI)
  have c': "pending_Complete tag r c = c\<lparr>cl_pending := ?p, cl_done := (cl_done c)(cmd := cl_done c cmd @ [r])\<rparr>"
    using Some by (simp add: pending_Complete_def send_result_def)
  have less: "cmd < cl_commands c" using was commands_okD(4) [OF assms, of cmd] by (meson not_less)
  have "answered_once (pending_Complete tag r c) R x" if "x < cl_commands c" for x
  proof (cases "x = cmd")
    case True
    have "answered_once c R cmd" using commands_okD(3) [OF assms less] .
    with True gone was c' show ?thesis by (simp add: answered_once_def)
  next
    case False
    have "answered_once c R x" using commands_okD(3) [OF assms that] .
    with False rest [OF False] c' show ?thesis by (simp add: answered_once_def)
  qed
  moreover have "x \<notin> ran ?p \<and> x \<notin> R \<and> x \<noteq> cmd \<and> cl_done c x = []" if "x \<ge> cl_commands c" for x
    using commands_okD(4) [OF assms that] that less rest [of x] by auto
  moreover have "inj_on ?p (dom ?p)" using inj by (auto simp: inj_on_def)
  moreover have "\<exists>n. t = ''A'' @ FormatInt n \<and> 0 < n \<and> n \<le> cl_counter c" if "t \<in> dom ?p" for t
    using commands_okD(5) [OF assms, of t] that by (auto split: if_splits)
  ultimately show ?thesis
    using commands_okD(1,2) [OF assms] unfolding commands_ok_def c' by simp
qed

lemma begin_command_fields:
  assumes "begin_command line c = (cmd, tag, c')"
  shows "cmd = cl_commands c" "tag = ''A'' @ FormatInt (wrap64 (cl_counter c + 1))"
    "cl_pending c' = (cl_pending c)(tag \<mapsto> cmd)" "cl_done c' = (cl_done c)(cmd := [])" "cl_commands c' = cl_commands c + 1"
    "cl_counter c' = wrap64 (cl_counter c + 1)" "cl_state c' = cl_state c" "cl_sent c' = cl_sent c @ line tag"
  using assms by (auto simp: begin_command_def tag_Next_def pending_Add_def Let_def)

lemma wrap64_id: "0 \<le> n \<Longrightarrow> n < 2 ^ 63 \<Longrightarrow> wrap64 n = n"
  by (simp add: wrap64_def)
lemma commands_ok_start:
  assumes "commands_ok (c, R)" "begin_command line c = (cmd, tag, c')" "cl_counter c < 2 ^ 63 - 1"
  shows "commands_ok (c', R)"
proof -
  note f = begin_command_fields [OF assms(2)]
  have n: "wrap64 (cl_counter c + 1) = cl_counter c + 1" "0 \<le> cl_counter c"
    using assms(1,3) by (auto simp: commands_ok_def intro: wrap64_id)
  have fresh: "tag \<notin> dom (cl_pending c)"
  proof
    assume "tag \<in> dom (cl_pending c)"
    then obtain m where "tag = ''A'' @ FormatInt m" "0 < m" "m \<le> cl_counter c"
      using assms(1) unfolding commands_ok_def by blast
    with f(2) n show False using FormatInt_inj [of m "cl_counter c + 1"] by simp
  qed
  have ran: "ran (cl_pending c') = insert cmd (ran (cl_pending c))" using fresh f(3) by (simp add: domIff)
  have new: "cmd \<notin> ran (cl_pending c)" "cmd \<notin> R" using assms(1) f(1) by (auto simp: commands_ok_def)
  have "answered_once c' R x" if "x < cl_commands c'" for x
    using that assms(1) new f(1,5) by (cases "x = cmd") (auto simp: answered_once_def ran f(4) commands_ok_def)
  moreover have "inj_on (cl_pending c') (dom (cl_pending c'))"
  proof -
    have "inj_on (cl_pending c) (dom (cl_pending c))" using assms(1) by (simp add: commands_ok_def)
    then have "inj_on (cl_pending c') (dom (cl_pending c))" using fresh f(3) by (auto simp: inj_on_def)
    moreover have "cl_pending c' tag \<notin> cl_pending c' ` dom (cl_pending c)"
      using new fresh f(3) by (auto simp: ran_def image_iff)
    ultimately have "inj_on (cl_pending c') (insert tag (dom (cl_pending c)))" using fresh by simp
    moreover have "dom (cl_pending c') = insert tag (dom (cl_pending c))" using f(3) by auto
    ultimately show ?thesis by simp
  qed
  moreover have "\<exists>n. t = ''A'' @ FormatInt n \<and> 0 < n \<and> n \<le> cl_counter c'" if "t \<in> dom (cl_pending c')" for t
  proof (cases "t = tag")
    case True
    with f(2,6) n show ?thesis by (intro exI [of _ "cl_counter c + 1"]) simp
  next
    case False
    with that f(3) have "t \<in> dom (cl_pending c)" by (auto split: if_splits)
    then obtain m where "t = ''A'' @ FormatInt m" "0 < m" "m \<le> cl_counter c"
      using assms(1) unfolding commands_ok_def by blast
    with f(6) n show ?thesis by (intro exI [of _ m]) simp
  qed
  moreover have "x \<notin> ran (cl_pending c') \<and> x \<notin> R \<and> cl_done c' x = []" if "x \<ge> cl_commands c'" for x
    using that assms(1) f(1,4,5) ran by (simp add: commands_ok_def)
  ultimately show ?thesis
    using assms(3) n f(6) unfolding commands_ok_def by simp
qed

lemma foldl_send_result:
  "distinct ds \<Longrightarrow> foldl (\<lambda>c cmd. send_result cmd r c) c ds =
     c\<lparr>cl_done := (\<lambda>cmd. if cmd \<in> set ds then cl_done c cmd @ [r] else cl_done c cmd)\<rparr>"
proof (induction ds arbitrary: c)
  case (Cons d ds)
  then show ?case by (auto simp: send_result_def fun_eq_iff intro!: client.equality)
qed simp

lemma CompleteAll_fields:
  assumes "enumerates order c"
  shows "CompleteAll order e c =
    c\<lparr>cl_pending := Map.empty,
      cl_done := (\<lambda>cmd. if cmd \<in> ran (cl_pending c) then cl_done c cmd @ [error_result e] else cl_done c cmd)\<rparr>"
  using assms by (auto simp: CompleteAll_def enumerates_def foldl_send_result intro!: client.equality)

lemma commands_ok_disconnect:
  assumes "commands_ok (c, R)" "enumerates order c"
  shows "commands_ok (handleDisconnect order e c, R)"
proof (cases "cl_disconnected c = None")
  case True
  let ?c = "CompleteAll order (''connection closed: '' @ e) (c\<lparr>cl_disconnected := Some e\<rparr>)"
  have "enumerates order (c\<lparr>cl_disconnected := Some e\<rparr>)" using assms(2) by (simp add: enumerates_def)
  then have "commands_ok (?c, R)"
    using assms(1) by (auto simp: CompleteAll_fields commands_ok_def answered_once_def)
  then show ?thesis
    by (rule commands_ok_same) (simp_all add: True handleDisconnect_def Let_def split: option.split)
qed (use assms in \<open>simp add: handleDisconnect_def\<close>)

lemma commands_ok_receive:
  assumes "commands_ok (c, R)" "take_result cmd c = Some (r, c')"
  shows "commands_ok (c', insert cmd R)"
proof -
  obtain rs where d: "cl_done c cmd = r # rs" and c': "c' = c\<lparr>cl_done := (cl_done c)(cmd := rs)\<rparr>"
    using assms(2) by (auto simp: take_result_def split: list.splits)
  then have less: "cmd < cl_commands c" using assms(1) by (simp add: commands_ok_def) (metis list.distinct(1) not_less)
  then have "answered_once c R cmd" using assms(1) by (simp add: commands_ok_def)
  then have "cmd \<notin> ran (cl_pending c)" "rs = []" using d by (auto simp: answered_once_def split: if_splits)
  with assms(1) less c' show ?thesis by (auto simp: commands_ok_def answered_once_def)
qed

lemma processLine_commands:
  "commands_ok (c, R) \<Longrightarrow> commands_ok (processLine line c, R)"
proof -
  assume a: "commands_ok (c, R)"
  have code: "commands_ok (handleResponseCode code c, R)" for code
    by (rule commands_ok_same [OF a])
      (simp_all add: handleResponseCode_def Let_def set_number_def storeUntagged_def handleCapability_def split: prod.split option.split)
  have status: "commands_ok (handleStatusResponse s c, R)" for s
    by (simp add: handleStatusResponse_def a code split: option.split)
  have named: "commands_ok (processNamed l c, R)" for l
  proof -
    have "commands_ok (storeUntagged s c, R)" "commands_ok (handleCapability s c, R)" for s
      by (rule commands_ok_same [OF a]; simp add: storeUntagged_def handleCapability_def)+
    then show ?thesis by (simp add: processNamed_def Let_def status)
  qed
  have numeric: "commands_ok (processNumericResponse n l c, R)" for n l
    by (rule commands_ok_same [OF a]) (simp_all add: processNumericResponse_def Let_def storeUntagged_def)
  have untagged: "commands_ok (processUntagged l c, R)" for l
    by (simp add: processUntagged_def named numeric split: option.split)
  have cont: "commands_ok (handleContinuation l c, R)" for l
    by (rule commands_ok_same [OF a]) (simp_all add: handleContinuation_def split: option.split)
  have tagged: "commands_ok (processTagged l c, R)" for l
    by (simp add: processTagged_def a commands_ok_Complete split: option.split prod.split)
  show ?thesis by (simp add: processLine_def a cont untagged tagged)
qed

definition client_started :: "client \<times> nat set \<Rightarrow> bool" where
  "client_started = (\<lambda>(c, R). R = {} \<and> (\<exists>greeting. Client_New greeting = Inr c))"

lemma commands_ok_started: "client_started x \<Longrightarrow> commands_ok x"
  by (auto simp: client_started_def Client_New_def zero_client_def commands_ok_def split: if_splits)

lemma commands_ok_step: "client_step x y \<Longrightarrow> commands_ok x \<Longrightarrow> commands_ok y"
proof (induction rule: client_step.induct)
  case (start line c cmd tag c' R)
  then show ?case by (blast intro: commands_ok_start)
next
  case (read c R line)
  then show ?case by (rule processLine_commands)
next
  case (write_failed c R tag e)
  then show ?case by (rule commands_ok_Complete)
next
  case (disconnect order c R e)
  then show ?case by (blast intro: commands_ok_disconnect)
next
  case (receive cmd c r c' R)
  then show ?case by (blast intro: commands_ok_receive)
next
  case (other c' c R)
  then show ?case by (blast intro: commands_ok_same)
qed

interpretation commands: transition_system client_started client_step commands_ok
  by unfold_locales (auto intro: commands_ok_started commands_ok_step)

text \<open>C10. Every command of the client is answered exactly once. In whatever order commands begin,
  the server's lines come in, writes fail, the connection ends and callers collect their results:
  a command that began is pending, or exactly one result waits for its caller, or its caller has
  received the one result there is. So the channel of a command, which has room for one result,
  never blocks the reader, and when the connection ends no command that began before stays
  without a result.\<close>

theorem answered_exactly_once:
  assumes "Client_New greeting = Inr c0" and "steps client_step (c0, {}) (c, R)"
  shows "(\<forall>cmd < cl_commands c. answered_once c R cmd) \<and>
    (cl_disconnected c = None \<and> enumerates order c \<longrightarrow>
      (\<forall>cmd < cl_commands c. cmd \<in> R \<or> (\<exists>r. cl_done (handleDisconnect order e c) cmd = [r])))"
proof (intro conjI impI)
  have ok: "commands_ok (c, R)"
    using assms by (intro commands.inv_reachable [of "(c0, {})"]) (auto simp: client_started_def)
  then show "\<forall>cmd < cl_commands c. answered_once c R cmd" by (blast dest: commands_okD(3))
  assume d: "cl_disconnected c = None \<and> enumerates order c"
  let ?c = "handleDisconnect order e c"
  have ok': "commands_ok (?c, R)" using d by (intro commands_ok_disconnect [OF ok]) simp
  have none: "cl_pending ?c = Map.empty" "cl_commands ?c = cl_commands c"
    using d by (auto simp: handleDisconnect_def Let_def CompleteAll_fields enumerates_def split: option.split)
  show "\<forall>cmd < cl_commands c. cmd \<in> R \<or> (\<exists>r. cl_done ?c cmd = [r])"
  proof (intro allI impI)
    fix cmd assume "cmd < cl_commands c"
    then have "answered_once ?c R cmd" using commands_okD(3) [OF ok'] none(2) by simp
    then show "cmd \<in> R \<or> (\<exists>r. cl_done ?c cmd = [r])"
      using none(1) by (auto simp: answered_once_def length_Suc_conv split: if_splits)
  qed
qed

definition noop_client :: client where
  "noop_client = snd (snd (begin_command (\<lambda>tag. command_line tag ''NOOP'' []) zero_client))"

theorem answered_exactly_once_witness:
  "\<exists>r. cl_done (handleDisconnect (\<lambda>_. [0]) ''EOF'' noop_client) 0 = [r]"
proof -
  have begun: "begin_command (\<lambda>tag. command_line tag ''NOOP'' []) zero_client =
      (0, ''A'' @ FormatInt (wrap64 1), noop_client)"
    by (simp add: noop_client_def begin_command_def tag_Next_def pending_Add_def zero_client_def Let_def)
  note f = begin_command_fields [OF begun]
  have "steps client_step (zero_client, {}) (noop_client, {})"
    by (rule steps_one [where r = client_step, OF start [OF begun]]) (simp add: zero_client_def)
  moreover have "Client_New ''* OK ready'' = Inr zero_client"
    by (simp add: Client_New_def HasPrefix_def zero_client_def greeting_caps_def)
  moreover have "enumerates (\<lambda>_. [0]) noop_client" "cl_disconnected noop_client = None" "cl_commands noop_client = 1"
    using f(3,5) by (simp_all add: enumerates_def zero_client_def noop_client_def begin_command_def tag_Next_def pending_Add_def Let_def)
  ultimately show ?thesis
    using answered_exactly_once [of "''* OK ready''" zero_client noop_client "{}" "\<lambda>_. [0]" "''EOF''"] by simp
qed

section \<open>What the client writes is what the server reads\<close>

text \<open>
  The arguments that reach the server: no line end, and if nothing makes \<open>quoteArg\<close> quote them
  then only the characters of an atom, not beginning with a tilde.
\<close>

definition sendable :: "string \<Rightarrow> bool" where
  "sendable s \<longleftrightarrow> CR \<notin> set s \<and> LF \<notin> set s \<and>
     (s = [] \<or> list_ex quote_needed s \<or> (list_all isAtomChar s \<and> hd s \<noteq> CHR ''~''))"

lemma quoteArg_quoted: "s = [] \<or> list_ex quote_needed s \<Longrightarrow> quoteArg s = enc_QuotedString s"
  by (auto simp: quoteArg_def enc_QuotedString_def IsQuotedSpecial_def)

lemma quoteArg_bare: "s \<noteq> [] \<Longrightarrow> \<not> list_ex quote_needed s \<Longrightarrow> quoteArg s = s"
  by (simp add: quoteArg_def)

lemma ReadAString_quoteArg:
  assumes "sendable s" "stops rest"
  shows "ReadAString (quoteArg s @ rest) = (Inr s, rest)"
proof (cases "s = [] \<or> list_ex quote_needed s")
  case True
  then show ?thesis by (simp add: quoteArg_quoted ReadString_Quoted ReadAString_def)
next
  case False
  with assms have "list_all isAtomChar s" "s \<noteq> []" "hd s \<noteq> CHR ''~''" by (auto simp: sendable_def)
  with False assms(2) show ?thesis by (simp add: quoteArg_bare ReadString_Atom ReadAString_def)
qed

lemma quoteArg_chars: "c \<in> set (quoteArg s) \<Longrightarrow> c \<in> set s \<or> c = DQ \<or> c = BSL"
  by (auto simp: quoteArg_def split: if_splits)

lemma sendable_one_line: "sendable s \<Longrightarrow> LF \<notin> set (quoteArg s)"
  by (auto simp: sendable_def dest: quoteArg_chars)

lemma command_line_read:
  assumes "LF \<notin> set (tag @ name @ concat args)"
  shows "ReadLine (command_line tag name args @ rest) =
    (Inr (tag @ SP # name @ concat (map (\<lambda>a. SP # a) args)), rest)"
proof -
  have "LF \<notin> set (tag @ SP # name @ concat (map (\<lambda>a. SP # a) args))" using assms by auto
  from ReadLine_CRLF [OF this, of rest] show ?thesis by (simp add: command_line_def)
qed

lemma parseLine_command:
  assumes "tag \<noteq> []" "SP \<notin> set tag" "name \<noteq> []" "SP \<notin> set name"
  shows "parseLine (tag @ SP # name @ concat (map (\<lambda>a. SP # a) args)) = Inr (tag, name, tl (concat (map (\<lambda>a. SP # a) args)))"
proof -
  have a: "IndexByte (tag @ SP # name @ rest) SP = Some (length tag)" for rest
    using assms by (simp add: IndexByte_append)
  show ?thesis
  proof (cases args)
    case Nil
    moreover have "IndexByte name SP = None" using assms by (simp add: IndexByte_None)
    ultimately show ?thesis using assms a [of "[]"] by (simp add: parseLine_def Let_def)
  next
    case (Cons x xs)
    then have "concat (map (\<lambda>a. SP # a) args) = SP # x @ concat (map (\<lambda>a. SP # a) xs)" by simp
    moreover have "IndexByte (name @ SP # r) SP = Some (length name)" for r
      using assms by (simp add: IndexByte_append)
    ultimately show ?thesis using assms a by (simp add: parseLine_def Let_def)
  qed
qed

text \<open>The tag of the command a client begins next.\<close>

definition next_tag :: "client \<Rightarrow> string" where
  "next_tag c = ''A'' @ FormatInt (wrap64 (cl_counter c + 1))"

lemma next_tag_chars: "x \<in> set (next_tag c) \<Longrightarrow> x = CHR ''A'' \<or> x = CHR ''-'' \<or> is_digit x"
  by (auto simp: next_tag_def FormatInt_def dest: digit_in_FormatUint split: if_splits)

lemma next_tag_simps [simp]:
  "next_tag c \<noteq> []" "SP \<notin> set (next_tag c)" "LF \<notin> set (next_tag c)" "next_tag c \<noteq> ''*''"
  using next_tag_chars [of SP c] next_tag_chars [of LF c] by (auto simp: is_digit_def) (auto simp: next_tag_def)

lemma server_reads_command:
  assumes "c_input s = command_line (next_tag c) name args @ rest" "name \<noteq> []" "SP \<notin> set name" "LF \<notin> set (name @ concat args)"
  shows "readAndHandle d s = dispatch d (next_tag c) name (tl (concat (map (\<lambda>a. SP # a) args))) (s\<lparr>c_input := rest\<rparr>)"
proof -
  have "LF \<notin> set (next_tag c @ name @ concat args)" using assms(4) by simp
  then show ?thesis
    using assms(2,3) by (simp add: readAndHandle_def assms(1) command_line_read parseLine_command)
qed

section \<open>What the server writes is what the client reads\<close>

lemma parseStatusResponse_enc:
  assumes "SP \<notin> set status" "CHR '']'' \<notin> set code" "code = [] \<longrightarrow> msg = [] \<or> hd msg \<noteq> CHR ''[''"
  shows "parseStatusResponse (status @ (if code = [] then [] else '' ['' @ code @ '']'') @ (if msg = [] then [] else '' '' @ msg)) =
    (status, code, msg)"
proof (cases "code = []")
  case True
  have "IndexByte status SP = None" using assms(1) by (simp add: IndexByte_None)
  moreover have "IndexByte (status @ SP # msg) SP = Some (length status)" using assms(1) by (rule IndexByte_append)
  moreover have "\<not> HasPrefix msg ''[''" if "msg \<noteq> []" using that True assms(3) by (cases msg) (auto simp: HasPrefix_def)
  ultimately show ?thesis using True by (simp add: parseStatusResponse_def Let_def)
next
  case False
  let ?rest = "CHR ''['' # code @ CHR '']'' # (if msg = [] then [] else SP # msg)"
  have i: "IndexByte (status @ SP # ?rest) SP = Some (length status)" using assms(1) by (rule IndexByte_append)
  have j: "IndexByte ?rest (CHR '']'') = Some (length code + 1)"
    using IndexByte_append [of "CHR '']''" "CHR ''['' # code"] assms(2) by simp
  have "status @ (if code = [] then [] else '' ['' @ code @ '']'') @ (if msg = [] then [] else '' '' @ msg) = status @ SP # ?rest"
    using False by simp
  then show ?thesis
    using i j by (simp add: parseStatusResponse_def Let_def HasPrefix_def)
qed

text \<open>The answer to the command that begins next completes it, and its caller gets it.\<close>

definition status_text :: "string \<Rightarrow> string \<Rightarrow> string \<Rightarrow> string \<Rightarrow> string" where
  "status_text tag status code text =
     tag @ '' '' @ status @ (if code = [] then [] else '' ['' @ code @ '']'') @ (if text = [] then [] else '' '' @ text)"

lemma enc_StatusResponse_text:
  "tag \<noteq> [] \<Longrightarrow> tag \<noteq> ''*'' \<Longrightarrow> enc_StatusResponse tag status code text = status_text tag status code text @ [CR, LF]"
  by (simp add: enc_StatusResponse_def status_text_def wire_defs)

lemma processLine_status:
  assumes "SP \<notin> set status" "CHR '']'' \<notin> set code" "code = [] \<longrightarrow> text = [] \<or> hd text \<noteq> CHR ''[''"
  shows "processLine (status_text (next_tag c0) status code text) c =
    pending_Complete (next_tag c0) \<lparr>cr_status = status, cr_code = code, cr_text = text, cr_err = None\<rparr> c"
proof -
  let ?s = "status @ (if code = [] then [] else '' ['' @ code @ '']'') @ (if text = [] then [] else '' '' @ text)"
  have line: "status_text (next_tag c0) status code text = next_tag c0 @ SP # ?s" by (simp add: status_text_def)
  obtain t where t: "next_tag c0 = CHR ''A'' # t" by (simp add: next_tag_def)
  have "IndexByte (next_tag c0 @ SP # ?s) SP = Some (length (next_tag c0))" by (simp add: IndexByte_append)
  then have "processTagged (next_tag c0 @ SP # ?s) c =
      pending_Complete (next_tag c0) \<lparr>cr_status = status, cr_code = code, cr_text = text, cr_err = None\<rparr> c"
    using parseStatusResponse_enc [OF assms] by (simp add: processTagged_def)
  moreover have "next_tag c0 @ SP # ?s \<noteq> []" "hd (next_tag c0 @ SP # ?s) \<noteq> CHR ''+''" "\<not> HasPrefix (next_tag c0 @ SP # ?s) ''* ''"
    by (simp_all add: t HasPrefix_def)
  ultimately show ?thesis unfolding processLine_def line by simp
qed

text \<open>What untagged responses leave alone.\<close>

definition core :: "client \<Rightarrow> (string \<rightharpoonup> nat) \<times> (nat \<Rightarrow> command_result list) \<times> nat \<times> conn_state \<times> string" where
  "core c = (cl_pending c, cl_done c, cl_commands c, cl_state c, cl_sent c)"

lemma core_stored: "core (storeUntagged s c) = core c" "core (handleCapability s c) = core c"
  by (simp_all add: core_def storeUntagged_def handleCapability_def)

lemma core_set_number: "(\<And>n. core (f n c) = core c) \<Longrightarrow> core (set_number f arg c) = core c"
  by (simp add: set_number_def split: option.split)

lemma core_handleResponseCode: "core (handleResponseCode code c) = core c"
proof -
  have n: "core (set_number (\<lambda>n c. c\<lparr>cl_mailboxUIDValidity := n\<rparr>) a c) = core c"
    "core (set_number (\<lambda>n c. c\<lparr>cl_mailboxUIDNext := n\<rparr>) a c) = core c"
    "core (set_number (\<lambda>n c. c\<lparr>cl_mailboxUnseen := n\<rparr>) a c) = core c" for a
    by (rule core_set_number, simp add: core_def)+
  have "core (c\<lparr>cl_mailboxReadOnly := b\<rparr>) = core c" for b by (simp add: core_def)
  then show ?thesis by (simp add: handleResponseCode_def Let_def n core_stored split: prod.split)
qed

lemma core_processNamed: "core (processNamed l c) = core c"
proof -
  have "core (handleStatusResponse s c) = core c" for s
    by (simp add: handleStatusResponse_def core_handleResponseCode split: option.split)
  then show ?thesis by (simp add: processNamed_def Let_def core_stored)
qed

lemma core_processUntagged: "core (processUntagged l c) = core c"
proof -
  have "core (processNumericResponse n s c) = core c" for n s
    using core_stored(1) by (simp add: processNumericResponse_def Let_def) (simp add: core_def)
  then show ?thesis by (simp add: processUntagged_def core_processNamed split: option.split)
qed

definition untagged_line :: "string \<Rightarrow> bool" where
  "untagged_line l \<longleftrightarrow> HasPrefix l ''* ''"

lemma processLine_untagged: "untagged_line l \<Longrightarrow> processLine l c = processUntagged (drop 2 l) c"
  by (cases l) (auto simp: untagged_line_def processLine_def HasPrefix_def)

lemma core_process_lines: "list_all untagged_line ls \<Longrightarrow> core (process_lines ls c) = core c"
  by (induction ls arbitrary: c) (simp_all add: process_lines_def processLine_untagged core_processUntagged)

lemma process_lines_fields:
  assumes "list_all untagged_line ls"
  shows "cl_pending (process_lines ls c) = cl_pending c" "cl_done (process_lines ls c) = cl_done c"
    "cl_commands (process_lines ls c) = cl_commands c" "cl_state (process_lines ls c) = cl_state c"
    "cl_sent (process_lines ls c) = cl_sent c"
  using core_process_lines [OF assms, of c] by (simp_all add: core_def)

lemma begin_command_eq:
  "begin_command line c = (cl_commands c, next_tag c, snd (snd (begin_command line c)))"
  by (simp add: begin_command_def tag_Next_def pending_Add_def next_tag_def Let_def)

text \<open>A command whose answer comes after some untagged lines.\<close>

lemma execute_answer:
  fixes c :: client and name :: string and args :: "string list"
  assumes "list_all untagged_line ls"
    and "SP \<notin> set status" "CHR '']'' \<notin> set code" "code = [] \<longrightarrow> msg = [] \<or> hd msg \<noteq> CHR ''[''"
  defines "c2 \<equiv> process_lines ls (snd (snd (begin_command (\<lambda>tag. command_line tag name args) c)))"
  shows "execute None name args (ls @ [status_text (next_tag c) status code msg]) c =
    Some (Inr \<lparr>cr_status = status, cr_code = code, cr_text = msg, cr_err = None\<rparr>,
      c2\<lparr>cl_pending := (cl_pending c2)(next_tag c := None)\<rparr>)"
proof -
  let ?r = "\<lparr>cr_status = status, cr_code = code, cr_text = msg, cr_err = None\<rparr>"
  let ?b = "begin_command (\<lambda>tag. command_line tag name args) c"
  note f = begin_command_fields [OF begin_command_eq [of "\<lambda>tag. command_line tag name args" c]]
  have p: "cl_pending c2 (next_tag c) = Some (cl_commands c)" "cl_done c2 (cl_commands c) = []"
    using f(3,4) by (simp_all add: c2_def process_lines_fields [OF assms(1)])
  have "process_lines (ls @ [status_text (next_tag c) status code msg]) (snd (snd ?b)) = pending_Complete (next_tag c) ?r c2"
    using processLine_status [OF assms(2-4)] by (simp add: process_lines_def c2_def)
  moreover have "take_result (cl_commands c) (pending_Complete (next_tag c) ?r c2) =
      Some (?r, c2\<lparr>cl_pending := (cl_pending c2)(next_tag c := None)\<rparr>)"
  proof -
    have "(cl_done c2)(cl_commands c := []) = cl_done c2" using p(2) by (rule fun_upd_idem)
    then show ?thesis using p by (simp add: take_result_def pending_Complete_def send_result_def)
  qed
  ultimately show ?thesis
    unfolding execute_def by (subst begin_command_eq) (simp add: Let_def)
qed

section \<open>LOGIN\<close>

lemma login_command:
  "ToUpper ''LOGIN'' = ''LOGIN''" "CommandAllowedStates ''LOGIN'' = Some [NotAuthenticated]" "SP \<notin> set ''LOGIN''"
  by code_simp+

lemma login_no_prefix: "uid_prefix ''LOGIN'' rest = Some (NumKindSeq, ''LOGIN'', rest)"
  by (simp add: uid_prefix_def)

text \<open>The status, code and text of the answer to a handler's error, and the errors whose answer is one
  line that the client can take apart again: not BYE, no line feed, no closing bracket in the code,
  and without a code no text that begins with a bracket.\<close>

definition refusal :: "go_error \<Rightarrow> string \<times> string \<times> string" where
  "refusal e =
     (case e of
        OtherErr _ \<Rightarrow> (''NO'', [], ''internal server error'')
      | IMAPErr r \<Rightarrow>
          (case sr_Type r of
             NO \<Rightarrow> (''NO'', sr_Code r, sr_Text r)
           | BAD \<Rightarrow> (''BAD'', sr_Code r, sr_Text r)
           | _ \<Rightarrow> (''NO'', [], go_error_text e)))"

definition legible :: "go_error \<Rightarrow> bool" where
  "legible e \<longleftrightarrow> \<not> is_bye e \<and>
     (case refusal e of (status, code, msg) \<Rightarrow>
        CHR '']'' \<notin> set code \<and> LF \<notin> set code \<and> LF \<notin> set msg \<and> (code = [] \<longrightarrow> msg = [] \<or> hd msg \<noteq> CHR ''[''))"

definition login_answer :: "unit ret \<Rightarrow> string \<times> string \<times> string" where
  "login_answer r = (case r of Err e \<Rightarrow> refusal e | _ \<Rightarrow> (''OK'', [], ''LOGIN completed''))"

lemma respond_refusal:
  assumes "\<not> is_bye e" "refusal e = (status, code, msg)"
  shows "respond tag (fail e c) = Finished None (emit (enc_StatusResponse tag status code msg) c)"
  using assms
  by (cases e) (auto simp: respond_def fail_def refusal_def is_bye_def WriteNO_def split: status_type.splits)

lemma refusal_status: "fst (refusal e) = ''NO'' \<or> fst (refusal e) = ''BAD''"
  by (auto simp: refusal_def split: go_error.split status_type.split)

lemma login_answer_legible:
  assumes "case r of Ret _ \<Rightarrow> True | Err e \<Rightarrow> legible e | Die _ \<Rightarrow> False" "login_answer r = (status, code, msg)"
  shows "SP \<notin> set status" "LF \<notin> set status" "CHR '']'' \<notin> set code" "LF \<notin> set code" "LF \<notin> set msg"
    "code = [] \<longrightarrow> msg = [] \<or> hd msg \<noteq> CHR ''[''" "status = ''OK'' \<longleftrightarrow> r = Ret ()"
proof -
  have "SP \<notin> set status \<and> LF \<notin> set status \<and> CHR '']'' \<notin> set code \<and> LF \<notin> set code \<and> LF \<notin> set msg \<and>
    (code = [] \<longrightarrow> msg = [] \<or> hd msg \<noteq> CHR ''['') \<and> (status = ''OK'' \<longleftrightarrow> r = Ret ())"
  proof (cases r)
    case (Err e)
    then show ?thesis using assms refusal_status [of e] by (auto simp: login_answer_def legible_def)
  qed (use assms in \<open>auto simp: login_answer_def\<close>)
  then show "SP \<notin> set status" "LF \<notin> set status" "CHR '']'' \<notin> set code" "LF \<notin> set code" "LF \<notin> set msg"
    "code = [] \<longrightarrow> msg = [] \<or> hd msg \<noteq> CHR ''[''" "status = ''OK'' \<longleftrightarrow> r = Ret ()" by blast+
qed

lemma server_login:
  assumes "sendable u" "sendable p" "c_isTLS s \<or> o_AllowInsecureAuth opts" "c_machine s = New NotAuthenticated"
    and "c_session s = Some b" "be_Login be u p b = (r, [], b')"
    and r: "case r of Ret _ \<Rightarrow> True | Err e \<Rightarrow> legible e | Die _ \<Rightarrow> False" "login_answer r = (status, code, msg)"
    and "c_input s = command_line tag ''LOGIN'' [quoteArg u, quoteArg p]" "tag = next_tag c"
  shows "\<exists>s'. readAndHandle (builtin opts be) s = Finished None s' \<and> c_session s' = Some b' \<and>
    Conn_State s' = (if r = Ret () then Authenticated else NotAuthenticated) \<and>
    c_output s' = c_output s @ [status_text tag status code msg @ [CR, LF]]"
proof -
  have lf: "LF \<notin> set (''LOGIN'' @ concat [quoteArg u, quoteArg p])"
    using sendable_one_line [OF assms(1)] sendable_one_line [OF assms(2)] by simp
  have run: "readAndHandle (builtin opts be) s =
      dispatch (builtin opts be) tag ''LOGIN'' (quoteArg u @ SP # quoteArg p) (s\<lparr>c_input := []\<rparr>)"
    using server_reads_command [where rest = "[]", OF _ _ login_command(3) lf] assms(9,10) by simp
  have args: "ReadAString (quoteArg u @ SP # quoteArg p) = (Inr u, SP # quoteArg p)" "ReadAString (quoteArg p) = (Inr p, [])"
    using ReadAString_quoteArg [OF assms(1), of "SP # quoteArg p"] ReadAString_quoteArg [OF assms(2), of "[]"] by simp_all
  have tag: "tag \<noteq> []" "tag \<noteq> ''*''" using assms(10) by simp_all
  note defs = dispatch_def login_command(1,2) login_no_prefix example_handlers RequireState_def New_def Login_def with_args_def read_arg_def args
    ReadSP_def dbind_def ReadByte_def ask_def set_state_def Conn_SetState_def Transition_def canTransition_def DefaultTransitions_def
    return_ok_def WriteOK_def emit_def Conn_State_def State_def Let_def enc_StatusResponse_text
  show ?thesis
  proof (cases r)
    case (Err e)
    then have "respond tag (fail e c) = Finished None (emit (enc_StatusResponse tag status code msg) c)" for c :: "'a conn"
      using r by (intro respond_refusal) (simp_all add: legible_def login_answer_def)
    then show ?thesis using assms(3-6) tag Err unfolding run by (auto simp: defs)
  qed (use assms(3-6) r tag in \<open>auto simp: run defs login_answer_def respond_def\<close>)
qed

text \<open>C8. LOGIN from end to end: the client's bytes, the server's handler and the client's reader
  together. For every user name and password that \<open>quoteArg\<close> can express, over TLS or with
  insecure logins allowed, the backend is asked about exactly this user name and password. If it
  accepts, the call returns without an error and both sides are authenticated. If it refuses, with
  any error but BYE whose code and text the answer can carry, the server answers with one line,
  the call returns the status, the code and the text of that refusal, and both sides are still
  not authenticated.\<close>

theorem login_end_to_end:
  assumes "sendable u" "sendable p" "c_isTLS s \<or> o_AllowInsecureAuth opts" "c_machine s = New NotAuthenticated"
    and "c_session s = Some b" "be_Login be u p b = (r, [], b')"
    and "case r of Ret _ \<Rightarrow> True | Err e \<Rightarrow> legible e | Die _ \<Rightarrow> False"
    and "c_input s = command_line (next_tag c) ''LOGIN'' [quoteArg u, quoteArg p]" "cl_state c = NotAuthenticated"
  shows "\<exists>s' line e c'. readAndHandle (builtin opts be) s = Finished None s' \<and> c_output s' = c_output s @ [line @ [CR, LF]] \<and>
    ReadLine (line @ [CR, LF]) = (Inr line, []) \<and>
    Client_Login u p None [line] c = Some (e, c') \<and> cl_sent c' = cl_sent c @ c_input s \<and> c_session s' = Some b' \<and>
    e = (case r of Err err \<Rightarrow> Some (case refusal err of (status, code, msg) \<Rightarrow> StatusErr status code msg) | _ \<Rightarrow> None) \<and>
    cl_state c' = (if r = Ret () then Authenticated else NotAuthenticated) \<and> Conn_State s' = cl_state c'"
proof -
  obtain status code msg where r: "login_answer r = (status, code, msg)" by (cases "login_answer r") auto
  note l = login_answer_legible [OF assms(7) r]
  let ?line = "status_text (next_tag c) status code msg"
  let ?args = "[quoteArg u, quoteArg p]"
  let ?c = "snd (snd (begin_command (\<lambda>tag. command_line tag ''LOGIN'' ?args) c))"
  obtain s' where s: "readAndHandle (builtin opts be) s = Finished None s'" "c_session s' = Some b'"
      "Conn_State s' = (if r = Ret () then Authenticated else NotAuthenticated)" "c_output s' = c_output s @ [?line @ [CR, LF]]"
    using server_login [OF assms(1-7) r assms(8) refl] by blast
  have line: "ReadLine (?line @ [CR, LF]) = (Inr ?line, [])"
    using ReadLine_CRLF [of ?line "[]"] l by (simp add: status_text_def)
  note f = begin_command_fields [OF begin_command_eq [of "\<lambda>tag. command_line tag ''LOGIN'' ?args" c]]
  have "execute None ''LOGIN'' ?args [?line] c =
      Some (Inr \<lparr>cr_status = status, cr_code = code, cr_text = msg, cr_err = None\<rparr>, ?c\<lparr>cl_pending := (cl_pending ?c)(next_tag c := None)\<rparr>)"
    using execute_answer [of "[]" status code msg] l by (simp add: process_lines_def)
  then have "\<exists>e c'. Client_Login u p None [?line] c = Some (e, c') \<and> cl_sent c' = cl_sent c @ c_input s \<and>
      e = (if r = Ret () then None else Some (StatusErr status code msg)) \<and> cl_state c' = (if r = Ret () then Authenticated else NotAuthenticated)"
    using f(7,8) l(7) assms(8,9) by (simp add: Client_Login_def executeCheck_def commandResultError_def)
  then obtain e c' where c: "Client_Login u p None [?line] c = Some (e, c')" "cl_sent c' = cl_sent c @ c_input s"
      "e = (if r = Ret () then None else Some (StatusErr status code msg))" "cl_state c' = (if r = Ret () then Authenticated else NotAuthenticated)" by blast
  have "e = (case r of Err err \<Rightarrow> Some (case refusal err of (status, code, msg) \<Rightarrow> StatusErr status code msg) | _ \<Rightarrow> None)"
    using c(3) r assms(7) by (cases r) (simp_all add: login_answer_def)
  then show ?thesis
    using s c line by (intro exI [of _ s'] exI [of _ ?line] exI [of _ e] exI [of _ c']) simp
qed

section \<open>SELECT\<close>

text \<open>What the client keeps of a mailbox.\<close>

definition kept :: "client \<Rightarrow> u32 \<times> u32 \<times> u32 \<times> u32 \<times> u32 \<times> bool" where
  "kept c = (cl_mailboxMessages c, cl_mailboxRecent c, cl_mailboxUIDValidity c, cl_mailboxUIDNext c, cl_mailboxUnseen c, cl_mailboxReadOnly c)"

lemma ToUpper_append: "ToUpper (a @ b) = ToUpper a @ ToUpper b"
  by (simp add: ToUpper_def)

lemma word_not_number: "c \<in> set w \<Longrightarrow> \<not> is_digit c \<Longrightarrow> ParseUint bits w = None"
  using ParseUint_Some_digits by (cases "ParseUint bits w") (auto simp: list_all_iff)

lemma processLine_word:
  assumes "w \<noteq> []" "SP \<notin> set w" "\<not> is_digit (hd w)"
  shows "processLine (''* '' @ w @ SP # s) c = processNamed (w @ SP # s) c"
proof -
  have "ParseUint 32 w = None" using assms word_not_number [of "hd w" w 32] by simp
  then show ?thesis
    using assms by (simp add: processLine_def HasPrefix_def processUntagged_def IndexByte_append)
qed

lemma processLine_code:
  assumes "CHR '']'' \<notin> set code"
  shows "processLine (''* OK ['' @ code @ ''] '') c = handleResponseCode code c"
proof -
  let ?t = "CHR ''['' # code @ CHR '']'' # [SP]"
  have j: "IndexByte ?t (CHR '']'') = Some (length code + 1)"
    using IndexByte_append [of "CHR '']''" "CHR ''['' # code"] assms by simp
  have "processLine (''* '' @ ''OK'' @ SP # ?t) c = processNamed (''OK'' @ SP # ?t) c"
    by (rule processLine_word) (simp_all add: is_digit_def)
  also have "\<dots> = handleStatusResponse ?t c"
    by (simp add: processNamed_def Let_def ToUpper_def HasPrefix_def upper_char_def is_lower_def)
  also have "\<dots> = handleResponseCode code c" using j by (simp add: handleStatusResponse_def HasPrefix_def)
  finally show ?thesis by simp
qed

lemma processLine_number:
  assumes "SP \<notin> set w"
  shows "processLine (''* '' @ FormatUint (unat n) @ SP # w) c = processNumericResponse n w c"
proof -
  have "SP \<notin> set (FormatUint (unat n))" by (auto dest!: digit_in_FormatUint simp: is_digit_def)
  moreover have "unat n < 2 ^ 32" using unsigned_less [of n] by simp
  ultimately show ?thesis
    by (simp add: processLine_def HasPrefix_def processUntagged_def IndexByte_append ParseUint_FormatUint)
qed

lemma code_number:
  fixes n :: u32
  shows "handleResponseCode (''UIDVALIDITY '' @ FormatUint (unat n)) c = c\<lparr>cl_mailboxUIDValidity := n\<rparr>"
    and "handleResponseCode (''UIDNEXT '' @ FormatUint (unat n)) c = c\<lparr>cl_mailboxUIDNext := n\<rparr>"
    and "handleResponseCode (''UNSEEN '' @ FormatUint (unat n)) c = c\<lparr>cl_mailboxUnseen := n\<rparr>"
proof -
  have n: "unat n < 4294967296" using unsigned_less [of n] by simp
  have i: "splitN2 (w @ SP # s) = (w, Some s)" if "SP \<notin> set w" for w s
    using that by (simp add: splitN2_def IndexByte_append)
  show "handleResponseCode (''UIDVALIDITY '' @ FormatUint (unat n)) c = c\<lparr>cl_mailboxUIDValidity := n\<rparr>"
    using i [of "''UIDVALIDITY''" "FormatUint (unat n)"] n
    by (simp add: handleResponseCode_def ToUpper_def upper_char_def is_lower_def set_number_def ParseUint_FormatUint)
  show "handleResponseCode (''UIDNEXT '' @ FormatUint (unat n)) c = c\<lparr>cl_mailboxUIDNext := n\<rparr>"
    using i [of "''UIDNEXT''" "FormatUint (unat n)"] n
    by (simp add: handleResponseCode_def ToUpper_def upper_char_def is_lower_def set_number_def ParseUint_FormatUint)
  show "handleResponseCode (''UNSEEN '' @ FormatUint (unat n)) c = c\<lparr>cl_mailboxUnseen := n\<rparr>"
    using i [of "''UNSEEN''" "FormatUint (unat n)"] n
    by (simp add: handleResponseCode_def ToUpper_def upper_char_def is_lower_def set_number_def ParseUint_FormatUint)
qed

lemma code_kept:
  assumes "SP \<notin> set w" "w \<in> {''PERMANENTFLAGS'', ''HIGHESTMODSEQ'', ''MAILBOXID''}"
  shows "kept (handleResponseCode (w @ SP # s) c) = kept c"
proof -
  have "splitN2 (w @ SP # s) = (w, Some s)" using assms(1) by (simp add: splitN2_def IndexByte_append)
  with assms(2) show ?thesis
    by (auto simp: handleResponseCode_def ToUpper_def upper_char_def is_lower_def kept_def storeUntagged_def)
qed

text \<open>Flags and mailbox ids that fit in a response code.\<close>

definition fits_code :: "string \<Rightarrow> bool" where
  "fits_code s \<longleftrightarrow> \<not> NeedsLiteral s \<and> CHR '']'' \<notin> set s"

definition select_fits :: "select_data \<Rightarrow> bool" where
  "select_fits data \<longleftrightarrow>
     list_all fits_code (sd_Flags data) \<and> list_all fits_code (sd_PermanentFlags data) \<and> fits_code (sd_MailboxID data)"

lemma enc_String_subset: "\<not> NeedsLiteral s \<Longrightarrow> set (enc_String s) \<subseteq> {DQ, BSL} \<union> set s"
  by (auto simp: enc_String_def enc_QuotedString_def enc_Atom_def split: if_splits)

lemma enc_String_chars:
  assumes "fits_code s" "x \<in> set (enc_String s)"
  shows "x \<noteq> LF \<and> x \<noteq> CHR '']''"
proof -
  have "LF \<notin> set s" using assms(1) by (auto simp: fits_code_def NeedsLiteral_def list_ex_iff)
  then show ?thesis using assms enc_String_subset [of s] by (auto simp: fits_code_def)
qed

lemma enc_items_chars:
  "list_all fits_code fs \<Longrightarrow> x \<in> set (enc_items enc_String fs) \<Longrightarrow> x \<noteq> LF \<and> x \<noteq> CHR '']''"
proof (induction fs rule: induct_list012)
  case (3 f g fs)
  then consider "x \<in> set (enc_String f)" | "x = SP" | "x \<in> set (enc_items enc_String (g # fs))" by auto
  then show ?case
  proof cases
    case 1
    with 3 show ?thesis using enc_String_chars [of f x] by simp
  qed (use 3 in auto)
qed (use enc_String_chars in auto)

lemma enc_Flags_chars: "list_all fits_code fs \<Longrightarrow> x \<in> set (enc_Flags fs) \<Longrightarrow> x \<noteq> LF \<and> x \<noteq> CHR '']''"
  using enc_items_chars [of fs x] by (auto simp: enc_Flags_def enc_List_def)

text \<open>The lines of the responses to SELECT.\<close>

definition code_line :: "string \<Rightarrow> string" where
  "code_line code = ''* OK ['' @ code @ ''] ''"

definition select_lines :: "select_data \<Rightarrow> string list" where
  "select_lines data =
     [''* '' @ ''FLAGS'' @ SP # enc_Flags (sd_Flags data),
      ''* '' @ FormatUint (unat (sd_NumMessages data)) @ SP # ''EXISTS'',
      ''* '' @ FormatUint (unat (sd_NumRecent data)) @ SP # ''RECENT'',
      code_line (''UIDVALIDITY '' @ FormatUint (unat (sd_UIDValidity data))),
      code_line (''UIDNEXT '' @ FormatUint (unat (sd_UIDNext data)))] @
     (if length (sd_PermanentFlags data) > 0 then [code_line (''PERMANENTFLAGS'' @ SP # enc_Flags (sd_PermanentFlags data))] else []) @
     (if sd_FirstUnseen data > 0 then [code_line (''UNSEEN '' @ FormatUint (unat (sd_FirstUnseen data)))] else []) @
     (if sd_HighestModSeq data > 0 then [code_line (''HIGHESTMODSEQ'' @ SP # FormatUint (unat (sd_HighestModSeq data)))] else []) @
     (if sd_MailboxID data \<noteq> [] then [code_line (''MAILBOXID'' @ SP # ''('' @ sd_MailboxID data @ '')'')] else [])"

lemma select_responses_lines: "select_responses data = map (\<lambda>l. l @ [CR, LF]) (select_lines data)"
  by (simp add: select_responses_def select_lines_def code_line_def ok_code_def enc_ResponseCode_def wire_defs)

lemma untagged_select_lines: "list_all untagged_line (select_lines data)"
  by (simp add: select_lines_def code_line_def untagged_line_def HasPrefix_def)

lemma FormatUint_no_bracket: "CHR '']'' \<notin> set (FormatUint n)"
  by (auto dest!: digit_in_FormatUint simp: is_digit_def)

lemma code_line_number:
  fixes n :: u32
  shows "processLine (code_line (''UIDVALIDITY '' @ FormatUint (unat n))) c = c\<lparr>cl_mailboxUIDValidity := n\<rparr>"
    and "processLine (code_line (''UIDNEXT '' @ FormatUint (unat n))) c = c\<lparr>cl_mailboxUIDNext := n\<rparr>"
    and "processLine (code_line (''UNSEEN '' @ FormatUint (unat n))) c = c\<lparr>cl_mailboxUnseen := n\<rparr>"
proof -
  have b: "CHR '']'' \<notin> set (''UIDVALIDITY '' @ FormatUint (unat n))" "CHR '']'' \<notin> set (''UIDNEXT '' @ FormatUint (unat n))"
    "CHR '']'' \<notin> set (''UNSEEN '' @ FormatUint (unat n))"
    by (simp_all add: FormatUint_no_bracket)
  show "processLine (code_line (''UIDVALIDITY '' @ FormatUint (unat n))) c = c\<lparr>cl_mailboxUIDValidity := n\<rparr>"
    unfolding code_line_def processLine_code [OF b(1)] by (rule code_number(1))
  show "processLine (code_line (''UIDNEXT '' @ FormatUint (unat n))) c = c\<lparr>cl_mailboxUIDNext := n\<rparr>"
    unfolding code_line_def processLine_code [OF b(2)] by (rule code_number(2))
  show "processLine (code_line (''UNSEEN '' @ FormatUint (unat n))) c = c\<lparr>cl_mailboxUnseen := n\<rparr>"
    unfolding code_line_def processLine_code [OF b(3)] by (rule code_number(3))
qed

lemma code_line_kept:
  assumes "CHR '']'' \<notin> set s" "w \<in> {''PERMANENTFLAGS'', ''HIGHESTMODSEQ'', ''MAILBOXID''}"
  shows "kept (processLine (code_line (w @ SP # s)) c) = kept c"
proof -
  have w: "SP \<notin> set w" "CHR '']'' \<notin> set (w @ SP # s)" using assms by auto
  show ?thesis unfolding code_line_def processLine_code [OF w(2)] by (rule code_kept [OF w(1) assms(2)])
qed

lemma flags_line_kept: "kept (processLine (''* '' @ ''FLAGS'' @ SP # s) c) = kept c"
proof -
  have "processLine (''* '' @ ''FLAGS'' @ SP # s) c = processNamed (''FLAGS'' @ SP # s) c"
    by (rule processLine_word) (simp_all add: is_digit_def)
  also have "\<dots> = storeUntagged (''FLAGS '' @ s) c"
    by (simp add: processNamed_def Let_def ToUpper_def HasPrefix_def upper_char_def is_lower_def)
  finally show ?thesis by (simp add: kept_def storeUntagged_def)
qed

lemma number_line:
  "processLine (''* '' @ FormatUint (unat n) @ SP # ''EXISTS'') c = c\<lparr>cl_mailboxMessages := n, cl_unilateral := cl_unilateral c @ [Exists n]\<rparr>"
  "processLine (''* '' @ FormatUint (unat n) @ SP # ''RECENT'') c = c\<lparr>cl_mailboxRecent := n, cl_unilateral := cl_unilateral c @ [Recent n]\<rparr>"
proof -
  have "SP \<notin> set ''EXISTS''" "SP \<notin> set ''RECENT''" by simp_all
  note this [THEN processLine_number]
  then show "processLine (''* '' @ FormatUint (unat n) @ SP # ''EXISTS'') c = c\<lparr>cl_mailboxMessages := n, cl_unilateral := cl_unilateral c @ [Exists n]\<rparr>"
    "processLine (''* '' @ FormatUint (unat n) @ SP # ''RECENT'') c = c\<lparr>cl_mailboxRecent := n, cl_unilateral := cl_unilateral c @ [Recent n]\<rparr>"
    by (simp_all add: processNumericResponse_def ToUpper_def upper_char_def is_lower_def)
qed

text \<open>Each line is a function on what is kept.\<close>

definition keeps_line :: "string \<Rightarrow> (u32 \<times> u32 \<times> u32 \<times> u32 \<times> u32 \<times> bool \<Rightarrow> u32 \<times> u32 \<times> u32 \<times> u32 \<times> u32 \<times> bool) \<Rightarrow> bool" where
  "keeps_line l f \<longleftrightarrow> (\<forall>c. kept (processLine l c) = f (kept c))"

lemma kept_process_lines:
  "list_all2 keeps_line ls fs \<Longrightarrow> kept (process_lines ls c) = foldl (\<lambda>k f. f k) (kept c) fs"
  by (induction ls fs arbitrary: c rule: list_all2_induct) (simp_all add: process_lines_def keeps_line_def)

lemma kept_select_lines:
  assumes "select_fits data" "kept c = (m0, r0, v0, n0, u0, ro)"
  shows "kept (process_lines (select_lines data) c) =
    (sd_NumMessages data, sd_NumRecent data, sd_UIDValidity data, sd_UIDNext data,
     if sd_FirstUnseen data = 0 then u0 else sd_FirstUnseen data, ro)"
proof -
  let ?fs = "[id, \<lambda>(m, r). (sd_NumMessages data, r), \<lambda>(m, r, x). (m, sd_NumRecent data, x),
      \<lambda>(m, r, v, x). (m, r, sd_UIDValidity data, x), \<lambda>(m, r, v, n, x). (m, r, v, sd_UIDNext data, x)] @
     (if length (sd_PermanentFlags data) > 0 then [id] else []) @
     (if sd_FirstUnseen data > 0 then [\<lambda>(m, r, v, n, u, x). (m, r, v, n, sd_FirstUnseen data, x)] else []) @
     (if sd_HighestModSeq data > 0 then [id] else []) @ (if sd_MailboxID data \<noteq> [] then [id] else [])"
  have pf: "keeps_line (code_line (''PERMANENTFLAGS'' @ SP # enc_Flags (sd_PermanentFlags data))) id"
    unfolding keeps_line_def id_apply
    by (intro allI code_line_kept) (use assms(1) enc_Flags_chars in \<open>auto simp: select_fits_def\<close>)
  have hm: "keeps_line (code_line (''HIGHESTMODSEQ'' @ SP # FormatUint (unat (sd_HighestModSeq data)))) id"
    unfolding keeps_line_def id_apply by (intro allI code_line_kept) (simp_all add: FormatUint_no_bracket)
  have mi: "keeps_line (code_line (''MAILBOXID'' @ SP # ''('' @ sd_MailboxID data @ '')'')) id"
    unfolding keeps_line_def id_apply
    by (intro allI code_line_kept) (use assms(1) in \<open>auto simp: select_fits_def fits_code_def\<close>)
  have fl: "keeps_line (''* '' @ ''FLAGS'' @ SP # enc_Flags (sd_Flags data)) id"
    unfolding keeps_line_def id_apply by (rule allI, rule flags_line_kept)
  have opt: "list_all2 keeps_line (if b then [l] else []) (if b then [f] else [])" if "keeps_line l f" for b l f
    using that by simp
  have "list_all2 keeps_line (select_lines data) ?fs"
    unfolding select_lines_def
    by (intro list_all2_appendI opt pf hm mi list.rel_intros fl)
      (simp_all only: keeps_line_def number_line code_line_number, simp_all add: kept_def)
  from kept_process_lines [OF this, of c] assms(2) show ?thesis by (auto simp: word_gt_0)
qed

lemma select_commands:
  "ToUpper ''SELECT'' = ''SELECT''" "CommandAllowedStates ''SELECT'' = Some [Authenticated, Selected]" "SP \<notin> set ''SELECT''"
  "ToUpper ''EXAMINE'' = ''EXAMINE''" "CommandAllowedStates ''EXAMINE'' = Some [Authenticated, Selected]" "SP \<notin> set ''EXAMINE''"
  by code_simp+

lemma select_no_prefix:
  "uid_prefix ''SELECT'' rest = Some (NumKindSeq, ''SELECT'', rest)" "uid_prefix ''EXAMINE'' rest = Some (NumKindSeq, ''EXAMINE'', rest)"
  by (simp_all add: uid_prefix_def)

lemma select_handlers:
  "Dispatcher_Get (builtin opts be) ''SELECT'' = Some (handleSelect False be)"
  "Dispatcher_Get (builtin opts be) ''EXAMINE'' = Some (handleSelect True be)"
  by (simp_all add: Dispatcher_Get_def builtin_def RegisterAll_def builtin_handlers_def Dispatcher_Register_def ToUpper_def
      upper_char_def is_lower_def Select_def Examine_def)

lemma foldl_emit: "foldl (\<lambda>c s. emit s c) c ss = c\<lparr>c_output := c_output c @ ss\<rparr>"
  by (induction ss arbitrary: c) (simp_all add: emit_def)

definition select_status :: "string \<Rightarrow> select_data \<Rightarrow> string" where
  "select_status tag data = status_text tag ''OK'' (if sd_ReadOnly data then ''READ-ONLY'' else ''READ-WRITE'') ''SELECT completed''"

lemma dispatch_select:
  assumes "d = builtin opts be" "c_machine s = (New NotAuthenticated)\<lparr>cur := Authenticated\<rparr>" "c_session s = Some b"
    and "be_Select be mailbox (zero_select_options readOnly) b = (Ret data, [], b')"
    and "ReadAString args = (Inr mailbox, [])" "args \<noteq> []" "tag \<noteq> []" "tag \<noteq> ''*''"
  shows "\<exists>s'. dispatch d tag (if readOnly then ''EXAMINE'' else ''SELECT'') args s = Finished None s' \<and>
    c_session s' = Some b' \<and> Conn_State s' = Selected \<and>
    c_output s' = c_output s @ map (\<lambda>l. l @ [CR, LF]) (select_lines data @ [select_status tag data])"
proof -
  let ?n = "if readOnly then ''EXAMINE'' else ''SELECT''"
  let ?ctx = "\<lparr>cx_Tag = tag, cx_Name = ?n, cx_NumKind = NumKindSeq, cx_Decoder = Some args\<rparr>"
  have "dispatch d tag ?n args s = respond tag (handleSelect readOnly be ?ctx s)"
    using assms(1,2,6) by (cases readOnly)
      (simp_all add: dispatch_def select_commands select_no_prefix select_handlers RequireState_def New_def)
  moreover have "\<exists>s'. handleSelect readOnly be ?ctx s = Finished None s' \<and> c_session s' = Some b' \<and> Conn_State s' = Selected \<and>
    c_output s' = c_output s @ map (\<lambda>l. l @ [CR, LF]) (select_lines data @ [select_status tag data])"
    using assms(2-8)
    by (simp add: handleSelect_def with_args_def read_arg_def ask_def Let_def foldl_emit [unfolded emit_def] SetMailbox_def set_state_def Conn_SetState_def
        Transition_def canTransition_def New_def DefaultTransitions_def WriteOKCode_def emit_def Conn_State_def State_def
        select_responses_lines select_status_def enc_StatusResponse_text)
  ultimately show ?thesis by (auto simp: respond_def)
qed

text \<open>C9. SELECT and EXAMINE from end to end. For every mailbox name that \<open>quoteArg\<close> can express,
  the backend is asked for exactly this mailbox, both sides end in the selected state, and the
  caller gets the backend's number of messages, recent messages, next UID and UID validity. Two
  fields are not what the backend returned: the first unseen message is the one of an earlier
  SELECT when the backend has none, and the read-only mode is whatever it was, because the client
  does not look at the code of the tagged response.\<close>

theorem select_end_to_end:
  assumes "sendable mailbox" "c_machine s = (New NotAuthenticated)\<lparr>cur := Authenticated\<rparr>" "c_session s = Some b"
    and "be_Select be mailbox (zero_select_options readOnly) b = (Ret data, [], b')" "select_fits data"
    and "c_input s = command_line (next_tag c) (if readOnly then ''EXAMINE'' else ''SELECT'') [quoteArg mailbox]"
  shows "\<exists>s' lines out c'. readAndHandle (builtin opts be) s = Finished None s' \<and>
    c_output s' = c_output s @ map (\<lambda>l. l @ [CR, LF]) lines \<and>
    Client_Select mailbox readOnly None lines c = Some (Inr out, c') \<and> cl_sent c' = cl_sent c @ c_input s \<and>
    Conn_State s' = Selected \<and> cl_state c' = Selected \<and> cl_mailboxName c' = mailbox \<and>
    sd_NumMessages out = sd_NumMessages data \<and> sd_NumRecent out = sd_NumRecent data \<and>
    sd_UIDNext out = sd_UIDNext data \<and> sd_UIDValidity out = sd_UIDValidity data \<and>
    sd_FirstUnseen out = (if sd_FirstUnseen data = 0 then cl_mailboxUnseen c else sd_FirstUnseen data) \<and>
    sd_ReadOnly out = cl_mailboxReadOnly c"
proof -
  let ?n = "if readOnly then ''EXAMINE'' else ''SELECT''"
  let ?lines = "select_lines data @ [select_status (next_tag c) data]"
  let ?cl = "clear_untagged c"
  let ?c1 = "snd (snd (begin_command (\<lambda>tag. command_line tag ?n [quoteArg mailbox]) ?cl))"
  let ?c2 = "process_lines (select_lines data) ?c1"
  have lf: "LF \<notin> set (?n @ concat [quoteArg mailbox])" "SP \<notin> set ?n" "?n \<noteq> []"
    using sendable_one_line [OF assms(1)] by simp_all
  have run: "readAndHandle (builtin opts be) s = dispatch (builtin opts be) (next_tag c) ?n (quoteArg mailbox) (s\<lparr>c_input := []\<rparr>)"
    using server_reads_command [where rest = "[]" and s = s and c = c, OF _ lf(3,2,1)] assms(6) by (simp split del: if_split)
  have arg: "ReadAString (quoteArg mailbox) = (Inr mailbox, [])" "quoteArg mailbox \<noteq> []"
    using ReadAString_quoteArg [OF assms(1), of "[]"] by (simp_all add: quoteArg_def)
  obtain s' where s: "readAndHandle (builtin opts be) s = Finished None s'" "Conn_State s' = Selected"
      "c_output s' = c_output s @ map (\<lambda>l. l @ [CR, LF]) ?lines"
    using dispatch_select [OF refl, of "s\<lparr>c_input := []\<rparr>", OF _ _ assms(4) arg, of "next_tag c"] assms(2,3) run by auto
  have cl: "next_tag ?cl = next_tag c" "cl_sent ?cl = cl_sent c" "kept ?cl = kept c"
    by (simp_all add: clear_untagged_def collectUntagged_def next_tag_def kept_def)
  note f = begin_command_fields [OF begin_command_eq [of "\<lambda>tag. command_line tag ?n [quoteArg mailbox]" ?cl]]
  have k1: "kept ?c1 = kept c"
    by (simp add: begin_command_def tag_Next_def pending_Add_def Let_def kept_def clear_untagged_def collectUntagged_def)
  have k: "kept ?c2 = (sd_NumMessages data, sd_NumRecent data, sd_UIDValidity data, sd_UIDNext data,
     if sd_FirstUnseen data = 0 then cl_mailboxUnseen c else sd_FirstUnseen data, cl_mailboxReadOnly c)"
    by (rule kept_select_lines [OF assms(5) trans [OF k1 kept_def]])
  have sent: "cl_sent ?c2 = cl_sent c @ c_input s"
    using f(8) cl assms(6) process_lines_fields(5) [OF untagged_select_lines, of data ?c1] by simp
  have code: "CHR '']'' \<notin> set (if sd_ReadOnly data then ''READ-ONLY'' else ''READ-WRITE'')" by simp
  have "execute None ?n [quoteArg mailbox] ?lines ?cl =
      Some (Inr \<lparr>cr_status = ''OK'', cr_code = if sd_ReadOnly data then ''READ-ONLY'' else ''READ-WRITE'',
                 cr_text = ''SELECT completed'', cr_err = None\<rparr>, ?c2\<lparr>cl_pending := (cl_pending ?c2)(next_tag c := None)\<rparr>)"
    unfolding select_status_def
    using execute_answer [OF untagged_select_lines [of data], where status = "''OK''" and code = "if sd_ReadOnly data then ''READ-ONLY'' else ''READ-WRITE''"
        and msg = "''SELECT completed''" and c = ?cl and name = ?n and args = "[quoteArg mailbox]"] cl(1) code by (simp split del: if_split)
  then have client: "Client_Select mailbox readOnly None ?lines c =
      Some (Inr \<lparr>sd_Flags = [], sd_PermanentFlags = [], sd_NumMessages = cl_mailboxMessages ?c2,
                 sd_NumRecent = cl_mailboxRecent ?c2, sd_UIDNext = cl_mailboxUIDNext ?c2,
                 sd_UIDValidity = cl_mailboxUIDValidity ?c2, sd_FirstUnseen = cl_mailboxUnseen ?c2,
                 sd_HighestModSeq = 0, sd_ReadOnly = cl_mailboxReadOnly ?c2, sd_Vanished = None, sd_MailboxID = []\<rparr>,
            ?c2\<lparr>cl_pending := (cl_pending ?c2)(next_tag c := None), cl_state := Selected, cl_mailboxName := mailbox\<rparr>)"
    by (simp add: Client_Select_def executeOK_def)
  show ?thesis
    by (rule exI [of _ s'], rule exI [of _ ?lines], rule exI, rule exI, intro conjI, rule s(1), rule s(3), rule client)
      (use s(2) k sent in \<open>simp_all add: kept_def\<close>)
qed

text \<open>A client that logs in to the memory server over TLS.\<close>

definition login_conn :: "(session \<times> world) conn" where
  "login_conn = (newConn (command_line (next_tag zero_client) ''LOGIN'' [quoteArg ''bob'', quoteArg ''q'']) True)
     \<lparr>c_session := Some (mem_NewSession, wire_world)\<rparr>"

theorem login_end_to_end_witness:
  "\<exists>s' line c'. readAndHandle (builtin example_options (mem_backend example_env)) login_conn = Finished None s' \<and>
     c_output s' = [line @ [CR, LF]] \<and> Client_Login ''bob'' ''q'' None [line] zero_client = Some (None, c') \<and>
     cl_state c' = Authenticated \<and> c_session s' = Some (bob, wire_world)"
proof -
  have "sendable ''bob''" "sendable ''q''" by (simp_all add: sendable_def quote_needed_def isAtomChar_def)
  moreover have "be_Login (mem_backend example_env) ''bob'' ''q'' (mem_NewSession, wire_world) = (Ret (), [], (bob, wire_world))"
    by (simp add: mem_backend_def wire_world_facts unit_ret_def)
  moreover have "c_isTLS login_conn" "c_machine login_conn = New NotAuthenticated" "c_session login_conn = Some (mem_NewSession, wire_world)"
    "c_output login_conn = []" "cl_state zero_client = NotAuthenticated"
    "c_input login_conn = command_line (next_tag zero_client) ''LOGIN'' [quoteArg ''bob'', quoteArg ''q'']"
    by (simp_all add: login_conn_def newConn_def zero_client_def)
  ultimately show ?thesis
    using login_end_to_end [of "''bob''" "''q''" login_conn example_options "(mem_NewSession, wire_world)" "mem_backend example_env" "Ret ()"
        "(bob, wire_world)" zero_client] by simp blast
qed

definition select_conn :: "(session \<times> world) conn" where
  "select_conn = (newConn (command_line (next_tag zero_client) ''SELECT'' [quoteArg ''INBOX'']) True)
     \<lparr>c_session := Some (bob, wire_world), c_machine := (New NotAuthenticated)\<lparr>cur := Authenticated\<rparr>\<rparr>"

theorem select_end_to_end_witness:
  "\<exists>s' lines out c'. readAndHandle (builtin example_options (mem_backend example_env)) select_conn = Finished None s' \<and>
     Client_Select ''INBOX'' False None lines zero_client = Some (Inr out, c') \<and> Conn_State s' = Selected \<and> cl_state c' = Selected \<and>
     sd_NumMessages out = 0 \<and> sd_UIDNext out = 1"
proof -
  have "sendable ''INBOX''" by (simp add: sendable_def quote_needed_def isAtomChar_def)
  moreover have inbox: "GetMailbox 1 ''INBOX'' wire_world = Some 1" "w_mailbox wire_world 1 = (NewMailbox ''INBOX'')\<lparr>mb_Subscribed := True\<rparr>"
    by (simp_all add: wire_world_def AddUser_def NewUserData_def alloc_mailbox_def mem_New_def Let_def GetMailbox_def getMailboxLocked_def)
  moreover let ?data = "Mailbox_SelectData ((NewMailbox ''INBOX'')\<lparr>mb_Subscribed := True\<rparr>) False"
  let ?bob = "bob\<lparr>ss_selected := Some 1, ss_readOnly := False\<rparr>"
  have "be_Select (mem_backend example_env) ''INBOX'' (zero_select_options False) (bob, wire_world) =
      (Ret ?data, [], (?bob, wire_world))"
    by (simp add: zero_select_options_def mem_backend_def Session_Select_def inbox [unfolded One_nat_def] outcome_ret_def bob_def)
  moreover have "sd_NumMessages ?data = 0" "sd_UIDNext ?data = 1"
    by (simp_all add: Mailbox_SelectData_def NewMailbox_def NumMessages_def)
  moreover have "select_fits ?data"
    by (simp add: select_fits_def fits_code_def Mailbox_SelectData_def NewMailbox_def NeedsLiteral_def FlagSeen_def FlagAnswered_def
        FlagFlagged_def FlagDeleted_def FlagDraft_def FlagWildcard_def)
  moreover have "c_machine select_conn = (New NotAuthenticated)\<lparr>cur := Authenticated\<rparr>" "c_session select_conn = Some (bob, wire_world)"
    "c_input select_conn = command_line (next_tag zero_client) (if False then ''EXAMINE'' else ''SELECT'') [quoteArg ''INBOX'']"
    by (simp_all add: select_conn_def newConn_def)
  ultimately show ?thesis
    using select_end_to_end [of "''INBOX''" select_conn "(bob, wire_world)" "mem_backend example_env" False ?data "(?bob, wire_world)" zero_client example_options]
    by simp blast
qed

section \<open>Where the two sides part\<close>

text \<open>The pattern of a LIST command.\<close>

lemma list_command_names:
  "ToUpper ''LIST'' = ''LIST''" "CommandAllowedStates ''LIST'' = Some [Authenticated, Selected]" "SP \<notin> set ''LIST''"
  by code_simp+

lemma list_no_prefix: "uid_prefix ''LIST'' rest = Some (NumKindSeq, ''LIST'', rest)"
  by (simp add: uid_prefix_def)

lemma list_handler: "Dispatcher_Get (builtin opts be) ''LIST'' = Some (List_cmd be)"
  by (simp add: Dispatcher_Get_def builtin_def RegisterAll_def builtin_handlers_def Dispatcher_Register_def ToUpper_def
      upper_char_def is_lower_def)

lemma wildcard_bare:
  assumes "p \<in> {''*'', ''%''}"
  shows "quoteArg p = p" "ReadAString p = (Inl ExpectedAtom, p)" "LF \<notin> set p"
proof -
  from assms have "p = ''*'' \<or> p = ''%''" by simp
  then show "quoteArg p = p" "ReadAString p = (Inl ExpectedAtom, p)" "LF \<notin> set p"
    by (elim disjE; simp add: quoteArg_def quote_needed_def ReadAString_def ReadString_def dbind_def PeekByte_def ReadAtom_def isAtomChar_def)+
qed

text \<open>The client cannot list mailboxes on this server: for the patterns \<open>*\<close> and \<open>%\<close>, whatever the
  reference, the client writes the pattern without quotes, the server reads it as an atom, which
  it is not, and answers BAD without asking the backend, and the call of the client fails.\<close>

theorem list_wildcard_rejected:
  assumes "sendable ref" "p \<in> {''*'', ''%''}" "c_machine s = (New NotAuthenticated)\<lparr>cur := Authenticated\<rparr>"
    and "c_input s = command_line (next_tag c) ''LIST'' [quoteArg ref, quoteArg p]"
  shows "\<exists>s' line c' msg. readAndHandle (builtin opts be) s = Finished None s' \<and> c_output s' = c_output s @ [line @ [CR, LF]] \<and>
    c_session s' = c_session s \<and> ListMailboxes ref p None [line] c = Some (Inl (StatusErr ''BAD'' [] msg), c')"
proof -
  let ?msg = "''invalid mailbox pattern''"
  let ?line = "status_text (next_tag c) ''BAD'' [] ?msg"
  note w = wildcard_bare [OF assms(2)]
  have lf: "LF \<notin> set (''LIST'' @ concat [quoteArg ref, quoteArg p])"
    using sendable_one_line [OF assms(1)] w by simp
  have "ReadAString (quoteArg ref @ SP # p) = (Inr ref, SP # p)" using ReadAString_quoteArg [OF assms(1), of "SP # p"] by simp
  then have run: "readAndHandle (builtin opts be) s = Finished None (s\<lparr>c_input := [], c_output := c_output s @ [?line @ [CR, LF]]\<rparr>)"
    using server_reads_command [where rest = "[]" and s = s and c = c, OF _ _ list_command_names(3) lf] assms(3,4) w
    by (simp add: dispatch_def list_command_names(1,2) list_no_prefix list_handler RequireState_def New_def List_cmd_def list_command_def
        with_args_def read_arg_def ReadSP_def dbind_def ReadByte_def fail_def respond_def ErrBad_def emit_def
        enc_StatusResponse_text)
  have "next_tag (clear_untagged c) = next_tag c" by (simp add: clear_untagged_def collectUntagged_def next_tag_def)
  with execute_answer [where ls = "[]" and status = "''BAD''" and code = "[]" and msg = ?msg and c = "clear_untagged c"
      and name = "''LIST''" and args = "[quoteArg ref, quoteArg p]"]
  obtain c' where "ListMailboxes ref p None [?line] c = Some (Inl (StatusErr ''BAD'' [] ?msg), c')"
    by (simp add: ListMailboxes_def executeOK_def with_untagged_def sequence_untagged_def)
  with run show ?thesis
    by (intro exI [of _ "s\<lparr>c_input := [], c_output := c_output s @ [?line @ [CR, LF]]\<rparr>"] exI [of _ ?line] exI [of _ c'] exI [of _ ?msg]) simp
qed

text \<open>C39. An argument can carry a command: when a user name holds a line end, the client writes it as it
  is, and the next line the server reads is the text of the caller's argument after it.\<close>

theorem quoteArg_injects:
  assumes "LF \<notin> set x" "\<forall>b \<in> set evil. b \<noteq> LF \<and> b \<noteq> DQ \<and> b \<noteq> BSL"
  shows "\<exists>l rest rest'. ReadLine (command_line (next_tag c) ''LOGIN'' [quoteArg (x @ [CR, LF] @ evil @ [CR, LF]), quoteArg p]) = (Inr l, rest) \<and>
    ReadLine rest = (Inr evil, rest')"
proof -
  let ?e = "\<lambda>s. concat (map (\<lambda>b. if b = DQ \<or> b = BSL then [BSL, b] else [b]) s)"
  have "quote_needed CR" by (simp add: quote_needed_def)
  then have q: "quoteArg (x @ [CR, LF] @ evil @ [CR, LF]) = [DQ] @ ?e (x @ [CR, LF] @ evil @ [CR, LF]) @ [DQ]"
    by (simp add: quoteArg_def)
  have e: "?e evil = evil" using assms(2) by (induction evil) auto
  have "LF \<notin> set (?e x)" using assms(1) by auto
  then have x: "LF \<notin> set (next_tag c @ '' LOGIN '' @ [DQ] @ ?e x)" by simp
  let ?rest = "evil @ [CR, LF] @ [DQ, SP] @ quoteArg p @ [CR, LF]"
  have "command_line (next_tag c) ''LOGIN'' [quoteArg (x @ [CR, LF] @ evil @ [CR, LF]), quoteArg p] =
      (next_tag c @ '' LOGIN '' @ [DQ] @ ?e x) @ [CR, LF] @ ?rest"
    unfolding command_line_def q using e by simp
  then have "ReadLine (command_line (next_tag c) ''LOGIN'' [quoteArg (x @ [CR, LF] @ evil @ [CR, LF]), quoteArg p]) =
      (Inr (next_tag c @ '' LOGIN '' @ [DQ] @ ?e x), ?rest)"
    using ReadLine_CRLF [OF x, of ?rest] by simp
  moreover have "LF \<notin> set evil" using assms(2) by auto
  then have "ReadLine ?rest = (Inr evil, [DQ, SP] @ quoteArg p @ [CR, LF])" using ReadLine_CRLF [of evil] by simp
  ultimately show ?thesis by blast
qed

text \<open>The loop over the items of an extended LIST response does not move past a parenthesis.\<close>

lemma extended_loop_stuck: "extended_loop (CHR ''('' # s) data = None"
proof (rule ccontr)
  have "inner \<noteq> CHR ''('' # s" if "extended_loop inner data = Some r" for inner data r
  proof (rule extended_loop.raw_induct [of "\<lambda>inner _ _. inner \<noteq> CHR ''('' # s", OF _ that], goal_cases)
    case (1 f inner data r)
    show ?case
    proof
      assume a: "inner = CHR ''('' # s"
      have "f (CHR ''('' # s) data = Some r"
        using 1(2) unfolding a by (simp add: TrimLeftSP_def readQuotedOrAtom_def Let_def ToUpper_def)
      then show False using 1(1) by blast
    qed
  qed
  moreover assume "extended_loop (CHR ''('' # s) data \<noteq> None"
  ultimately show False by blast
qed

text \<open>C40. A LIST response can stop the client for good: when the extended data of a mailbox begin with an item
  the client does not know whose value is a list, as extensions may add them, the parser of the
  client never returns.\<close>

theorem list_response_hangs:
  assumes "key \<noteq> []" "\<forall>c \<in> set key. c \<noteq> SP \<and> c \<noteq> DQ \<and> c \<noteq> CHR ''('' \<and> c \<noteq> CHR '')''"
    and "ToUpper key \<notin> {''CHILDINFO'', ''OLDNAME'', ''MYRIGHTS'', ''METADATA''}"
    and "\<forall>c \<in> set val. c \<noteq> CHR ''('' \<and> c \<noteq> CHR '')''"
  shows "parseExtendedData (''('' @ key @ '' ('' @ val @ ''))'') data = None"
proof -
  have plain: "close_paren n (s @ r) = map_option (\<lambda>(a, t). (s @ a, t)) (close_paren n r)"
    if "\<forall>c \<in> set s. c \<noteq> CHR ''('' \<and> c \<noteq> CHR '')''" for n s r
    using that by (induction s) (auto simp: option.map_comp o_def split_def option.map_ident)
  let ?inner = "key @ SP # CHR ''('' # val @ '')''"
  have "close_paren 1 (?inner @ '')'') = Some (?inner, [])"
    using plain [of "key @ [SP]" 1] plain [of val "Suc (Suc 0)" "''))''"] assms(2,4) by simp
  moreover have "extended_loop ?inner data = None"
  proof -
    have "hd key \<noteq> DQ" "hd key \<noteq> SP" using assms(1,2) by auto
    moreover have "takeWhile (\<lambda>c. c \<noteq> SP \<and> c \<noteq> CHR ''('' \<and> c \<noteq> CHR '')'') ?inner = key"
      "dropWhile (\<lambda>c. c \<noteq> SP \<and> c \<noteq> CHR ''('' \<and> c \<noteq> CHR '')'') ?inner = SP # CHR ''('' # val @ '')''"
      using assms(2) by (simp_all add: takeWhile_append2 dropWhile_append2)
    moreover have "TrimLeftSP ?inner = ?inner"
      using assms(1) \<open>hd key \<noteq> SP\<close> by (cases key) (auto simp: TrimLeftSP_def)
    ultimately show ?thesis
      using assms(1,3) by (subst extended_loop.simps) (simp add: readQuotedOrAtom_def TrimLeftSP_def extended_loop_stuck Let_def)
  qed
  ultimately show ?thesis by (simp add: parseExtendedData_def)
qed

theorem list_response_hangs_witness: "parseExtendedData ''(X-EXT (a))'' zero_list_data = None"
proof -
  have "ToUpper ''X-EXT'' = ''X-EXT''" by code_simp
  then show ?thesis using list_response_hangs [of "''X-EXT''" "''a''" zero_list_data] by simp
qed

theorem quoteArg_injects_witness:
  "\<exists>l rest rest'. ReadLine (command_line (next_tag zero_client) ''LOGIN'' [quoteArg (''bob'' @ [CR, LF] @ ''A2 LOGOUT'' @ [CR, LF]), quoteArg ''q'']) =
     (Inr l, rest) \<and> ReadLine rest = (Inr ''A2 LOGOUT'', rest')"
  using quoteArg_injects [of "''bob''" "''A2 LOGOUT''" zero_client "''q''"] by simp

definition list_conn :: "(session \<times> world) conn" where
  "list_conn = (newConn (command_line (next_tag zero_client) ''LIST'' [quoteArg [], quoteArg ''*'']) True)
     \<lparr>c_session := Some (bob, wire_world), c_machine := (New NotAuthenticated)\<lparr>cur := Authenticated\<rparr>\<rparr>"

theorem list_wildcard_rejected_witness:
  "\<exists>s' line c' msg. readAndHandle (builtin example_options (mem_backend example_env)) list_conn = Finished None s' \<and>
     c_output s' = [line @ [CR, LF]] \<and> ListMailboxes [] ''*'' None [line] zero_client = Some (Inl (StatusErr ''BAD'' [] msg), c')"
proof -
  have "sendable []" by (simp add: sendable_def)
  moreover have "c_machine list_conn = (New NotAuthenticated)\<lparr>cur := Authenticated\<rparr>" "c_output list_conn = []"
    "c_input list_conn = command_line (next_tag zero_client) ''LIST'' [quoteArg [], quoteArg ''*'']"
    by (simp_all add: list_conn_def newConn_def)
  ultimately show ?thesis
    using list_wildcard_rejected [of "[]" "''*''" list_conn zero_client example_options "mem_backend example_env"] by simp blast
qed

end
