(* ===== verification/Extensions.thy ===== *)
theory Extensions
  imports Commands
begin

text \<open>
  The extensions that add commands of their own (\<open>extensions/acl\<close>, \<open>quota\<close>, \<open>metadata\<close>,
  \<open>namespace\<close>, \<open>id\<close>, \<open>language\<close>, \<open>compress\<close>, \<open>unauthenticate\<close>, \<open>move\<close>, \<open>unselect\<close>, \<open>notify\<close>,
  \<open>convert\<close>, \<open>filters\<close>, \<open>sort\<close>, \<open>thread\<close> and \<open>urlauth\<close>).

  An extension looks for further methods of the session by a type assertion. The interface it
  asks for is a record of methods; \<open>None\<close> stands for a session type that does not have it.
  A method that returns no error returns its data, never a nil pointer. A map that a handler
  iterates over is the list of its entries in the order of the iteration.
\<close>

section \<open>Combinators\<close>

text \<open>These handlers write their own error responses instead of returning an error.\<close>

definition bad :: "command_context \<Rightarrow> string \<Rightarrow> 'b cont" where
  "bad ctx text c = Finished None (WriteBAD (cx_Tag ctx) text c)"

definition no :: "command_context \<Rightarrow> string \<Rightarrow> 'b cont" where
  "no ctx text c = Finished None (WriteNO (cx_Tag ctx) text c)"

definition in_states :: "conn_state list \<Rightarrow> command_context \<Rightarrow> string \<Rightarrow> 'b cont \<Rightarrow> 'b cont" where
  "in_states allowed ctx text k c = (if Conn_State c \<in> set allowed then k c else bad ctx text c)"

text \<open>The type assertion \<open>ctx.Session.(I)\<close>. It fails on a nil session too.\<close>

definition asserting :: "'i option \<Rightarrow> 'b cont \<Rightarrow> ('i \<Rightarrow> 'b cont) \<Rightarrow> 'b cont" where
  "asserting i otherwise k c =
     (case c_session c of None \<Rightarrow> otherwise c | Some _ \<Rightarrow> (case i of None \<Rightarrow> otherwise c | Some x \<Rightarrow> k x c))"

text \<open>A use of \<open>ctx.Decoder\<close> without a test for nil.\<close>

definition deref :: "command_context \<Rightarrow> 'b step \<Rightarrow> 'b cont" where
  "deref ctx k c = (case cx_Decoder ctx of None \<Rightarrow> Crashed NilDereference | Some inp \<Rightarrow> k inp c)"

definition has_args :: "command_context \<Rightarrow> string \<Rightarrow> 'b step \<Rightarrow> 'b cont" where
  "has_args ctx text k = (case cx_Decoder ctx of None \<Rightarrow> bad ctx text | Some inp \<Rightarrow> k inp)"

definition arg :: "command_context \<Rightarrow> 'a decoder \<Rightarrow> string \<Rightarrow> ('a \<Rightarrow> 'b step) \<Rightarrow> 'b step" where
  "arg ctx d text k inp = (case d inp of (Inl _, _) \<Rightarrow> bad ctx text | (Inr x, rest) \<Rightarrow> k x rest)"

definition arg_loop ::
  "command_context \<Rightarrow> (string \<Rightarrow> 'a reply option) \<Rightarrow> (wire_error \<Rightarrow> string) \<Rightarrow> ('a \<Rightarrow> 'b step) \<Rightarrow> 'b step" where
  "arg_loop ctx d text k inp =
     (case d inp of
        None \<Rightarrow> (\<lambda>_. Hangs)
      | Some (Inl e, _) \<Rightarrow> bad ctx (text e)
      | Some (Inr x, rest) \<Rightarrow> k x rest)"

text \<open>A call of a session method whose error is written as a NO response.\<close>

definition call :: "command_context \<Rightarrow> string \<Rightarrow> ('b, 'a) meth \<Rightarrow> ('a \<Rightarrow> 'b cont) \<Rightarrow> 'b cont" where
  "call ctx name m k c =
     (case c_session c of
        None \<Rightarrow> Crashed NilDereference
      | Some b \<Rightarrow>
          (case m b of
             (r, out, b') \<Rightarrow>
               (let c' = c\<lparr>c_session := Some b', c_output := c_output c @ out\<rparr>
                in case r of
                     Ret x \<Rightarrow> k x c'
                   | Err e \<Rightarrow> no ctx (name @ '' failed: '' @ go_error_text e) c'
                   | Die p \<Rightarrow> Crashed p)))"

text \<open>One untagged response, then the tagged one.\<close>

definition answer :: "command_context \<Rightarrow> string \<Rightarrow> string \<Rightarrow> 'b cont" where
  "answer ctx line text c = return_ok ctx text (emit line c)"

lemma shorter_after_SP:
  assumes "keeps_suffix d" "(r, rest) = d inp" "(Inr u, rest') = ReadSP rest"
  shows "length rest' < length inp"
proof -
  have "length rest \<le> length inp" using assms(1,2) by (metis keeps_suffix_length)
  moreover have "rest = SP # rest'" using assms(3) by (metis ReadSP_Inr)
  ultimately show ?thesis by simp
qed

subsection \<open>Parsers that return IMAP errors\<close>

type_synonym 'a gparser = "string \<Rightarrow> (go_error + 'a) \<times> string"

definition gbind :: "'a gparser \<Rightarrow> ('a \<Rightarrow> 'c gparser) \<Rightarrow> 'c gparser" where
  "gbind p f inp = (case p inp of (Inl e, rest) \<Rightarrow> (Inl e, rest) | (Inr x, rest) \<Rightarrow> f x rest)"

definition greturn :: "'a \<Rightarrow> 'a gparser" where
  "greturn x inp = (Inr x, inp)"

definition gfail :: "go_error \<Rightarrow> 'a gparser" where
  "gfail e inp = (Inl e, inp)"

definition expect :: "'a decoder \<Rightarrow> string \<Rightarrow> 'a gparser" where
  "expect d text inp = (case d inp of (Inl _, rest) \<Rightarrow> (Inl (ErrBad text), rest) | (Inr x, rest) \<Rightarrow> (Inr x, rest))"

definition parsing :: "'a gparser \<Rightarrow> ('a \<Rightarrow> 'b step) \<Rightarrow> 'b step" where
  "parsing p k inp = (case p inp of (Inl e, _) \<Rightarrow> fail e | (Inr x, rest) \<Rightarrow> k x rest)"

text \<open>Such a parser never leaves more to read than it was given.\<close>

definition shrinking :: "'a gparser \<Rightarrow> bool" where
  "shrinking p \<longleftrightarrow> (\<forall>inp. length (snd (p inp)) \<le> length inp)"

lemma shrinkingD: "shrinking p \<Longrightarrow> p inp = (r, rest) \<Longrightarrow> length rest \<le> length inp"
  unfolding shrinking_def by (metis snd_conv)

lemma shrinking_gbind:
  assumes "shrinking p" "\<And>x. shrinking (f x)"
  shows "shrinking (gbind p f)"
  unfolding shrinking_def
proof
  fix inp
  obtain r rest where p: "p inp = (r, rest)" by (cases "p inp")
  then have "length rest \<le> length inp" by (rule shrinkingD [OF assms(1)])
  moreover have "length (snd (f x rest)) \<le> length rest" for x
    using assms(2) [of x] by (simp add: shrinking_def)
  ultimately show "length (snd (gbind p f inp)) \<le> length inp"
    by (cases r) (auto simp: p gbind_def intro: order_trans)
qed

lemma shrinking_greturn: "shrinking (greturn x)"
  by (simp add: shrinking_def greturn_def)

lemma shrinking_gfail: "shrinking (gfail e)"
  by (simp add: shrinking_def gfail_def)

lemma shrinking_expect: "keeps_suffix d \<Longrightarrow> shrinking (expect d text)"
  unfolding shrinking_def expect_def by (auto split: prod.split sum.split dest: keeps_suffix_length)

lemma keeps_suffix_parse_number:
  "keeps_suffix (\<lambda>rest. case x of None \<Rightarrow> (Inl e, rest) | Some n \<Rightarrow> (Inr (g n), rest))"
  by (cases x) (simp_all add: keeps_suffix_def)

lemma keeps_suffix_ReadNumber: "keeps_suffix ReadNumber" "keeps_suffix ReadNumber64"
  unfolding ReadNumber_def ReadNumber64_def
  by (intro keeps_suffix_dbind keeps_suffix_ReadAtom keeps_suffix_parse_number)+

lemmas shrinking_rules =
  shrinking_gbind shrinking_greturn shrinking_gfail shrinking_expect keeps_suffix_ReadSP keeps_suffix_ReadAtom
  keeps_suffix_ReadAString keeps_suffix_ExpectByte keeps_suffix_PeekByte keeps_suffix_ReadNumber

lemma atom_shorter: "ReadAtom inp = (Inr atom, rest) \<Longrightarrow> length rest < length inp"
  by (cases inp) (auto simp: ReadAtom_def Let_def le_imp_less_Suc length_dropWhile_le split: if_splits)

section \<open>ACL\<close>

record acl_data =
  acl_Mailbox :: string
  acl_Rights :: "(string \<times> string) list"

record acl_list_rights_data =
  lr_Mailbox :: string
  lr_Identifier :: string
  lr_Required :: string
  lr_Optional :: "string list"

record acl_my_rights_data =
  mr_Mailbox :: string
  mr_Rights :: string

definition ACLRights_Contains :: "string \<Rightarrow> char \<Rightarrow> bool" where
  "ACLRights_Contains r right = list_ex (\<lambda>c. c = right) r"

record 'b session_acl =
  SetACL :: "string \<Rightarrow> string \<Rightarrow> string \<Rightarrow> string \<Rightarrow> ('b, unit) meth"
  DeleteACL :: "string \<Rightarrow> string \<Rightarrow> ('b, unit) meth"
  GetACL :: "string \<Rightarrow> ('b, acl_data) meth"
  ListRights :: "string \<Rightarrow> string \<Rightarrow> ('b, acl_list_rights_data) meth"
  MyRights :: "string \<Rightarrow> ('b, acl_my_rights_data) meth"

text \<open>A leading \<open>+\<close> or \<open>-\<close> is the modifier.\<close>

definition acl_modifier :: "string \<Rightarrow> string \<times> string" where
  "acl_modifier rightsStr =
     (case rightsStr of
        [] \<Rightarrow> ([], [])
      | b # rights \<Rightarrow> if b = CHR ''+'' \<or> b = CHR ''-'' then ([b], rights) else ([], rightsStr))"

definition handleSetACL :: "'b session_acl option \<Rightarrow> 'b handler" where
  "handleSetACL ses ctx =
     asserting ses (no ctx ''SETACL not supported'') (\<lambda>ses.
     deref ctx
       (arg ctx ReadAString ''Expected mailbox name'' (\<lambda>mailbox.
        arg ctx ReadSP ''Expected identifier'' (\<lambda>_.
        arg ctx ReadAString ''Expected identifier'' (\<lambda>identifier.
        arg ctx ReadSP ''Expected rights'' (\<lambda>_.
        arg ctx ReadAString ''Expected rights string'' (\<lambda>rightsStr _.
          (case acl_modifier rightsStr of
             (modifier, rights) \<Rightarrow>
               call ctx ''SETACL'' (SetACL ses mailbox identifier modifier rights) (\<lambda>_.
               return_ok ctx ''SETACL completed'')))))))))"

definition handleDeleteACL :: "'b session_acl option \<Rightarrow> 'b handler" where
  "handleDeleteACL ses ctx =
     asserting ses (no ctx ''DELETEACL not supported'') (\<lambda>ses.
     deref ctx
       (arg ctx ReadAString ''Expected mailbox name'' (\<lambda>mailbox.
        arg ctx ReadSP ''Expected identifier'' (\<lambda>_.
        arg ctx ReadAString ''Expected identifier'' (\<lambda>identifier _.
        call ctx ''DELETEACL'' (DeleteACL ses mailbox identifier) (\<lambda>_.
        return_ok ctx ''DELETEACL completed''))))))"

definition handleGetACL :: "'b session_acl option \<Rightarrow> 'b handler" where
  "handleGetACL ses ctx =
     asserting ses (no ctx ''GETACL not supported'') (\<lambda>ses.
     deref ctx
       (arg ctx ReadAString ''Expected mailbox name'' (\<lambda>mailbox _.
        call ctx ''GETACL'' (GetACL ses mailbox) (\<lambda>data.
        answer ctx
          (enc_Star @ enc_Atom ''ACL'' @ enc_SP @ enc_MailboxName (acl_Mailbox data) @
           concat (map (\<lambda>(id, rights). enc_SP @ enc_AString id @ enc_SP @ enc_AString rights) (acl_Rights data)) @ enc_CRLF)
          ''GETACL completed''))))"

definition handleListRights :: "'b session_acl option \<Rightarrow> 'b handler" where
  "handleListRights ses ctx =
     asserting ses (no ctx ''LISTRIGHTS not supported'') (\<lambda>ses.
     deref ctx
       (arg ctx ReadAString ''Expected mailbox name'' (\<lambda>mailbox.
        arg ctx ReadSP ''Expected identifier'' (\<lambda>_.
        arg ctx ReadAString ''Expected identifier'' (\<lambda>identifier _.
        call ctx ''LISTRIGHTS'' (ListRights ses mailbox identifier) (\<lambda>data.
        answer ctx
          (enc_Star @ enc_Atom ''LISTRIGHTS'' @ enc_SP @ enc_MailboxName (lr_Mailbox data) @ enc_SP @
           enc_AString (lr_Identifier data) @ enc_SP @ enc_AString (lr_Required data) @
           concat (map (\<lambda>opt. enc_SP @ enc_AString opt) (lr_Optional data)) @ enc_CRLF)
          ''LISTRIGHTS completed''))))))"

definition handleMyRights :: "'b session_acl option \<Rightarrow> 'b handler" where
  "handleMyRights ses ctx =
     asserting ses (no ctx ''MYRIGHTS not supported'') (\<lambda>ses.
     deref ctx
       (arg ctx ReadAString ''Expected mailbox name'' (\<lambda>mailbox _.
        call ctx ''MYRIGHTS'' (MyRights ses mailbox) (\<lambda>data.
        answer ctx
          (enc_Star @ enc_Atom ''MYRIGHTS'' @ enc_SP @ enc_MailboxName (mr_Mailbox data) @ enc_SP @
           enc_AString (mr_Rights data) @ enc_CRLF)
          ''MYRIGHTS completed''))))"

definition ACL_CommandHandlers :: "'b session_acl option \<Rightarrow> (string \<times> 'b handler) list" where
  "ACL_CommandHandlers ses =
     [(''SETACL'', handleSetACL ses), (''DELETEACL'', handleDeleteACL ses), (''GETACL'', handleGetACL ses),
      (''LISTRIGHTS'', handleListRights ses), (''MYRIGHTS'', handleMyRights ses)]"

section \<open>QUOTA\<close>

record quota_resource_data =
  qr_Name :: string
  qr_Usage :: int
  qr_Limit :: int

record quota_data =
  qd_Root :: string
  qd_Resources :: "quota_resource_data list"

record quota_root_data =
  qrd_Mailbox :: string
  qrd_Roots :: "string list"

record 'b session_quota =
  GetQuota :: "string \<Rightarrow> ('b, quota_data) meth"
  GetQuotaRoot :: "string \<Rightarrow> ('b, quota_root_data \<times> quota_data list) meth"
  SetQuota :: "string \<Rightarrow> quota_resource_data list \<Rightarrow> ('b, quota_data) meth"

text \<open>A negative number is printed as the unsigned one with the same bits.\<close>

definition writeQuotaResponse :: "quota_data \<Rightarrow> string" where
  "writeQuotaResponse data =
     enc_Star @ enc_Atom ''QUOTA'' @ enc_SP @ enc_AString (qd_Root data) @ enc_SP @ enc_BeginList @
     enc_items (\<lambda>res. enc_Atom (qr_Name res) @ enc_SP @ enc_Number64 (word_of_int (qr_Usage res)) @ enc_SP @
                      enc_Number64 (word_of_int (qr_Limit res))) (qd_Resources data) @
     enc_EndList @ enc_CRLF"

definition handleGetQuota :: "'b session_quota option \<Rightarrow> 'b handler" where
  "handleGetQuota ses ctx =
     asserting ses (no ctx ''GETQUOTA not supported'') (\<lambda>ses.
     deref ctx
       (arg ctx ReadAString ''Expected quota root name'' (\<lambda>root _.
        call ctx ''GETQUOTA'' (GetQuota ses root) (\<lambda>data.
        answer ctx (writeQuotaResponse data) ''GETQUOTA completed''))))"

definition handleGetQuotaRoot :: "'b session_quota option \<Rightarrow> 'b handler" where
  "handleGetQuotaRoot ses ctx =
     asserting ses (no ctx ''GETQUOTAROOT not supported'') (\<lambda>ses.
     deref ctx
       (arg ctx ReadAString ''Expected mailbox name'' (\<lambda>mailbox _.
        call ctx ''GETQUOTAROOT'' (GetQuotaRoot ses mailbox) (\<lambda>(rootData, quotas) c.
          (let c = emit (enc_Star @ enc_Atom ''QUOTAROOT'' @ enc_SP @ enc_MailboxName (qrd_Mailbox rootData) @
                         concat (map (\<lambda>root. enc_SP @ enc_AString root) (qrd_Roots rootData)) @ enc_CRLF) c
           in return_ok ctx ''GETQUOTAROOT completed'' (foldl (\<lambda>c q. emit (writeQuotaResponse q) c) c quotas))))))"

definition quota_resources :: "string \<Rightarrow> quota_resource_data list reply option" where
  "quota_resources inp =
     ReadList (\<lambda>resources inp. Some
       (dbind (ReadAtom inp) (\<lambda>resName inp.
        dbind (ReadSP inp) (\<lambda>_ inp.
        dbind (ReadNumber64 inp) (\<lambda>limit inp.
          (Inr (resources @ [\<lparr>qr_Name = resName, qr_Usage = 0, qr_Limit = sint limit\<rparr>]), inp)))))) [] inp"

definition handleSetQuota :: "'b session_quota option \<Rightarrow> 'b handler" where
  "handleSetQuota ses ctx =
     asserting ses (no ctx ''SETQUOTA not supported'') (\<lambda>ses.
     deref ctx
       (arg ctx ReadAString ''Expected quota root name'' (\<lambda>root.
        arg ctx ReadSP ''Expected resource list'' (\<lambda>_.
        arg_loop ctx quota_resources (\<lambda>_. ''Invalid resource list'') (\<lambda>resources _.
        call ctx ''SETQUOTA'' (SetQuota ses root resources) (\<lambda>data.
        answer ctx (writeQuotaResponse data) ''SETQUOTA completed''))))))"

definition Quota_CommandHandlers :: "'b session_quota option \<Rightarrow> (string \<times> 'b handler) list" where
  "Quota_CommandHandlers ses =
     [(''GETQUOTA'', handleGetQuota ses), (''GETQUOTAROOT'', handleGetQuotaRoot ses), (''SETQUOTA'', handleSetQuota ses)]"

section \<open>NAMESPACE\<close>

record namespace_descriptor =
  ns_Prefix :: string
  ns_Delim :: "char option"

record namespace_data =
  ns_Personal :: "namespace_descriptor list"
  ns_Other :: "namespace_descriptor list"
  ns_Shared :: "namespace_descriptor list"

definition writeNamespaceList :: "namespace_descriptor list \<Rightarrow> string" where
  "writeNamespaceList descriptors =
     (if descriptors = [] then enc_Nil
      else enc_BeginList @
           enc_items (\<lambda>ns. enc_BeginList @ enc_QuotedString (ns_Prefix ns) @ enc_SP @
                           (case ns_Delim ns of None \<Rightarrow> enc_Nil | Some d \<Rightarrow> enc_QuotedString [d]) @ enc_EndList) descriptors @
           enc_EndList)"

definition handleNamespace :: "('b, namespace_data) meth option \<Rightarrow> 'b handler" where
  "handleNamespace ses ctx =
     asserting ses (fail (ErrNo ''NAMESPACE not supported'')) (\<lambda>Namespace.
     ask Namespace (\<lambda>data.
     answer ctx
       (enc_Star @ enc_Atom ''NAMESPACE'' @ enc_SP @ writeNamespaceList (ns_Personal data) @ enc_SP @
        writeNamespaceList (ns_Other data) @ enc_SP @ writeNamespaceList (ns_Shared data) @ enc_CRLF)
       ''NAMESPACE completed''))"

section \<open>METADATA\<close>

record metadata_options =
  mo_MaxSize :: "int option"
  mo_Depth :: string

record metadata_data =
  md_Mailbox :: string
  md_Entries :: "(string \<times> string option) list"

record 'b session_metadata =
  GetMetadata :: "string \<Rightarrow> string list \<Rightarrow> metadata_options \<Rightarrow> ('b, metadata_data) meth"
  SetMetadata :: "string \<Rightarrow> (string \<times> string option) list \<Rightarrow> ('b, unit) meth"

definition metadata_option :: "metadata_options \<Rightarrow> string \<Rightarrow> metadata_options reply option" where
  "metadata_option options inp = Some
     (dbind (ReadAtom inp) (\<lambda>optName inp.
      dbind (ReadSP inp) (\<lambda>_ inp.
        if optName = ''MAXSIZE''
        then dbind (ReadNumber64 inp) (\<lambda>n inp. (Inr (options\<lparr>mo_MaxSize := Some (sint n)\<rparr>), inp))
        else if optName = ''DEPTH''
        then dbind (ReadAString inp) (\<lambda>depth inp. (Inr (options\<lparr>mo_Depth := depth\<rparr>), inp))
        else (Inl (CallbackError (''unknown GETMETADATA option: '' @ optName)), inp))))"

definition metadata_entries :: "command_context \<Rightarrow> (string list \<Rightarrow> 'b step) \<Rightarrow> 'b step" where
  "metadata_entries ctx k =
     arg ctx PeekByte ''Expected entry names'' (\<lambda>b.
       if b = CHR ''(''
       then arg_loop ctx (ReadList (collect ReadAString) []) (\<lambda>_. ''Invalid entry list'') k
       else arg ctx ReadAString ''Expected entry name'' (\<lambda>entry. k [entry]))"

definition metadata_response :: "metadata_data \<Rightarrow> string" where
  "metadata_response data =
     enc_Star @ enc_Atom ''METADATA'' @ enc_SP @
     (if md_Mailbox data = [] then enc_QuotedString [] else enc_MailboxName (md_Mailbox data)) @ enc_SP @ enc_BeginList @
     enc_items (\<lambda>(name, value). enc_AString name @ enc_SP @ (case value of None \<Rightarrow> enc_Nil | Some v \<Rightarrow> enc_String v))
       (md_Entries data) @
     enc_EndList @ enc_CRLF"

definition handleGetMetadata :: "options \<Rightarrow> 'b session_metadata option \<Rightarrow> 'b handler" where
  "handleGetMetadata opts ses ctx =
     asserting ses (no ctx ''GETMETADATA not supported'') (\<lambda>ses.
     deref ctx
       (arg ctx PeekByte ''Expected arguments'' (\<lambda>b.
        let rest = (\<lambda>options.
              arg ctx ReadAString ''Expected mailbox name'' (\<lambda>mailbox.
              arg ctx ReadSP ''Expected entry names'' (\<lambda>_.
              metadata_entries ctx (\<lambda>entries _.
              call ctx ''GETMETADATA'' (GetMetadata ses mailbox entries options) (\<lambda>data.
              answer ctx (metadata_response data) ''GETMETADATA completed'')))));
            options = \<lparr>mo_MaxSize = None, mo_Depth = []\<rparr>
        in if b = CHR ''(''
           then arg_loop ctx (ReadList metadata_option options)
                  (\<lambda>e. ''Invalid options: '' @ o_error_text opts (WireError e)) (\<lambda>options.
                arg ctx ReadSP ''Expected mailbox name'' (\<lambda>_. rest options))
           else rest options)))"

definition metadata_values :: "string \<Rightarrow> (string \<times> string option) list reply option" where
  "metadata_values inp =
     ReadList (\<lambda>entries inp. Some
       (dbind (ReadAString inp) (\<lambda>name inp.
        dbind (ReadSP inp) (\<lambda>_ inp.
        dbind (ReadNString inp) (\<lambda>value inp. (Inr (entries @ [(name, value)]), inp)))))) [] inp"

definition handleSetMetadata :: "'b session_metadata option \<Rightarrow> 'b handler" where
  "handleSetMetadata ses ctx =
     asserting ses (no ctx ''SETMETADATA not supported'') (\<lambda>ses.
     deref ctx
       (arg ctx ReadAString ''Expected mailbox name'' (\<lambda>mailbox.
        arg ctx ReadSP ''Expected entry list'' (\<lambda>_.
        arg_loop ctx metadata_values (\<lambda>_. ''Invalid entry list'') (\<lambda>entries _.
        call ctx ''SETMETADATA'' (SetMetadata ses mailbox entries) (\<lambda>_.
        return_ok ctx ''SETMETADATA completed''))))))"

definition Metadata_CommandHandlers :: "options \<Rightarrow> 'b session_metadata option \<Rightarrow> (string \<times> 'b handler) list" where
  "Metadata_CommandHandlers opts ses =
     [(''GETMETADATA'', handleGetMetadata opts ses), (''SETMETADATA'', handleSetMetadata ses)]"

section \<open>ID\<close>

text \<open>What the client sends: NIL or a list of pairs, collected in a map.\<close>

definition id_pairs :: "string \<Rightarrow> (string \<rightharpoonup> string option) reply option" where
  "id_pairs inp =
     ReadList (\<lambda>data inp. Some
       (dbind (ReadString inp) (\<lambda>key inp.
        dbind (ReadSP inp) (\<lambda>_ inp.
        dbind (ReadNString inp) (\<lambda>val inp. (Inr (data(key \<mapsto> val)), inp)))))) Map.empty inp"

definition readIDData :: "string option \<Rightarrow> (unit + (string \<rightharpoonup> string option) option) option" where
  "readIDData dec =
     (case dec of
        None \<Rightarrow> Some (Inr None)
      | Some inp \<Rightarrow>
          (case PeekByte inp of
             (Inl _, _) \<Rightarrow> Some (Inr None)
           | (Inr b, inp) \<Rightarrow>
               if b = CHR ''N'' \<or> b = CHR ''n''
               then (case ReadAtom inp of
                       (Inl _, _) \<Rightarrow> Some (Inl ())
                     | (Inr atom, _) \<Rightarrow>
                         if atom = ''NIL'' \<or> atom = ''nil'' \<or> atom = ''Nil'' then Some (Inr None) else Some (Inl ()))
               else (case id_pairs inp of
                       None \<Rightarrow> None
                     | Some (Inl _, _) \<Rightarrow> Some (Inl ())
                     | Some (Inr data, _) \<Rightarrow> Some (Inr (Some data)))))"

definition writeIDData :: "(string \<times> string option) list option \<Rightarrow> string" where
  "writeIDData data =
     (case data of
        None \<Rightarrow> enc_Nil
      | Some entries \<Rightarrow>
          if entries = [] then enc_Nil
          else enc_BeginList @ enc_items (\<lambda>(key, val). enc_QuotedString key @ enc_SP @ enc_NString val) entries @ enc_EndList)"

type_synonym 'b id_meth = "(string \<rightharpoonup> string option) option \<Rightarrow> ('b, (string \<times> string option) list option) meth"

definition handleID :: "'b id_meth option \<Rightarrow> 'b handler" where
  "handleID ses ctx =
     asserting ses (fail (ErrNo ''ID not supported'')) (\<lambda>ID.
       case readIDData (cx_Decoder ctx) of
         None \<Rightarrow> (\<lambda>_. Hangs)
       | Some (Inl _) \<Rightarrow> fail (ErrBad ''invalid ID arguments'')
       | Some (Inr clientID) \<Rightarrow>
           ask (ID clientID) (\<lambda>serverID.
           answer ctx (enc_Star @ enc_Atom ''ID'' @ enc_SP @ writeIDData serverID @ enc_CRLF) ''ID completed''))"

section \<open>LANGUAGE\<close>

function language_tags :: "string \<Rightarrow> string list" where
  "language_tags inp =
     (case ReadAtom inp of
        (Inl _, rest) \<Rightarrow> []
      | (Inr t, rest) \<Rightarrow> t # (case ReadSP rest of (Inl _, _) \<Rightarrow> [] | (Inr _, rest') \<Rightarrow> language_tags rest'))"
  by pat_completeness auto
termination by (relation "measure length") (auto dest: shorter_after_SP [OF keeps_suffix_ReadAtom])

declare language_tags.simps [simp del]

definition handleLanguage :: "(string list \<Rightarrow> ('b, string \<times> string list) meth) option \<Rightarrow> 'b handler" where
  "handleLanguage ses ctx =
     in_states [Authenticated, Selected] ctx ''LANGUAGE not allowed in current state''
       (asserting ses (no ctx ''LANGUAGE not supported'') (\<lambda>Language.
        call ctx ''LANGUAGE'' (Language (case cx_Decoder ctx of None \<Rightarrow> [] | Some inp \<Rightarrow> language_tags inp)) (\<lambda>(selected, available).
          if length available > 0
          then answer ctx
                 (enc_Star @ enc_Atom ''LANGUAGE'' @ enc_SP @ enc_BeginList @ enc_items enc_AString available @ enc_EndList @ enc_CRLF)
                 ''LANGUAGE completed''
          else return_ok ctx ''LANGUAGE completed'')))"

section \<open>COMPRESS and UNAUTHENTICATE\<close>

definition handleCompress :: "(string \<Rightarrow> ('b, unit) meth) option \<Rightarrow> 'b handler" where
  "handleCompress ses ctx =
     in_states [Authenticated, Selected] ctx ''COMPRESS not allowed in current state''
       (asserting ses (no ctx ''COMPRESS not supported'') (\<lambda>Compress.
        has_args ctx ''missing algorithm argument''
          (arg ctx ReadAtom ''invalid algorithm'' (\<lambda>algorithm _.
             if \<not> EqualFold algorithm ''DEFLATE'' then no ctx (''unsupported compression algorithm: '' @ algorithm)
             else call ctx ''COMPRESS'' (Compress algorithm) (\<lambda>_. return_ok ctx ''COMPRESS completed'')))))"

definition handleUnauthenticate :: "('b, unit) meth option \<Rightarrow> 'b handler" where
  "handleUnauthenticate ses ctx =
     in_states [Authenticated, Selected] ctx ''UNAUTHENTICATE not allowed in current state''
       (asserting ses (no ctx ''UNAUTHENTICATE not supported'') (\<lambda>Unauthenticate.
        call ctx ''UNAUTHENTICATE'' Unauthenticate (\<lambda>_ c.
          (case Conn_SetState NotAuthenticated c of
             (Some e, c) \<Rightarrow> no ctx (''UNAUTHENTICATE failed: '' @ transition_text e) c
           | (None, c) \<Rightarrow> return_ok ctx ''UNAUTHENTICATE completed'' c))))"

section \<open>MOVE and UNSELECT\<close>

definition handleMove :: "(num_set \<Rightarrow> string \<Rightarrow> ('b, unit) meth) option \<Rightarrow> 'b handler" where
  "handleMove ses ctx =
     with_args ctx ''missing arguments''
       (read_arg ReadAtom ''invalid message set'' (\<lambda>setStr.
        let rest = (\<lambda>numSet.
              read_arg ReadSP ''missing destination mailbox'' (\<lambda>_.
              read_arg ReadAString ''invalid destination mailbox'' (\<lambda>dest _.
              asserting ses (fail (ErrNo ''MOVE not supported'')) (\<lambda>Move.
              ask (Move numSet dest) (\<lambda>_. return_ok ctx ''MOVE completed'')))))
        in if cx_NumKind ctx = NumKindUID
           then (case ParseUIDSet setStr of
                   Inl _ \<Rightarrow> (\<lambda>_. fail (ErrBad ''invalid UID set''))
                 | Inr uidSet \<Rightarrow> rest (UIDSet uidSet))
           else (case ParseSeqSet setStr of
                   Inl _ \<Rightarrow> (\<lambda>_. fail (ErrBad ''invalid sequence set''))
                 | Inr seqSet \<Rightarrow> rest (SeqSet seqSet))))"

definition handleUnselect :: "'b backend \<Rightarrow> 'b handler" where
  "handleUnselect be ctx =
     ask (be_Unselect be) (\<lambda>_ c.
       set_state Authenticated (return_ok ctx ''UNSELECT completed'') (SetMailbox [] False c))"

section \<open>NOTIFY\<close>

record notify_spec =
  np_Mailbox :: string
  np_Events :: "string list"

record 'b session_notify =
  Notify :: "notify_spec list \<Rightarrow> ('b, unit) meth"
  CancelNotify :: "('b, unit) meth"

text \<open>The loop over the specifications; \<open>Inl\<close> is the text of the error it reports.\<close>

partial_function (option) notify_loop :: "notify_spec list \<Rightarrow> string \<Rightarrow> (string + notify_spec list) option" where
  "notify_loop specs inp =
     (case ReadSP inp of
        (Inl _, _) \<Rightarrow> Some (Inr specs)
      | (Inr _, inp) \<Rightarrow>
     (case ReadAString inp of
        (Inl _, _) \<Rightarrow> Some (Inr specs)
      | (Inr mailbox, inp) \<Rightarrow>
     (case ReadSP inp of
        (Inl _, inp) \<Rightarrow> notify_loop (specs @ [\<lparr>np_Mailbox = mailbox, np_Events = []\<rparr>]) inp
      | (Inr _, inp) \<Rightarrow>
          (if inp \<noteq> [] \<and> hd inp = CHR ''(''
           then Option.bind (ReadList (collect ReadAtom) [] inp) (\<lambda>r.
                  case r of
                    (Inl _, _) \<Rightarrow> Some (Inl ''invalid event list'')
                  | (Inr events, inp) \<Rightarrow> notify_loop (specs @ [\<lparr>np_Mailbox = mailbox, np_Events = events\<rparr>]) inp)
           else notify_loop (specs @ [\<lparr>np_Mailbox = mailbox, np_Events = []\<rparr>]) inp))))"

definition handleNotify :: "'b session_notify option \<Rightarrow> 'b handler" where
  "handleNotify ses ctx =
     in_states [Authenticated, Selected] ctx ''NOTIFY not allowed in current state''
       (asserting ses (no ctx ''NOTIFY not supported'') (\<lambda>ses.
        has_args ctx ''missing subcommand''
          (arg ctx ReadAtom ''invalid subcommand'' (\<lambda>subcommand inp.
             if ToUpper subcommand = ''NONE''
             then call ctx ''NOTIFY NONE'' (CancelNotify ses) (\<lambda>_. return_ok ctx ''NOTIFY completed'')
             else if ToUpper subcommand = ''SET''
             then (case notify_loop [] inp of
                     None \<Rightarrow> (\<lambda>_. Hangs)
                   | Some (Inl text) \<Rightarrow> bad ctx text
                   | Some (Inr specs) \<Rightarrow>
                       if length specs = 0 then bad ctx ''missing notification specifications''
                       else call ctx ''NOTIFY SET'' (Notify ses specs) (\<lambda>_. return_ok ctx ''NOTIFY completed''))
             else bad ctx (''unknown NOTIFY subcommand: '' @ subcommand)))))"

section \<open>CONVERT\<close>

type_synonym 'b convert_meth = "u32 \<Rightarrow> string \<Rightarrow> string \<Rightarrow> (string \<rightharpoonup> string) \<Rightarrow> ('b, string) meth"

text \<open>One parenthesised parameter; \<open>Inl\<close> is the text of the error.\<close>

definition convert_param :: "string \<Rightarrow> (string + string \<times> string) \<times> string" where
  "convert_param inp =
     (case ReadAtom inp of
        (Inl _, inp) \<Rightarrow> (Inl ''invalid parameter name'', inp)
      | (Inr paramName, inp) \<Rightarrow>
     (case ReadSP inp of
        (Inl _, inp) \<Rightarrow> (Inl ''missing parameter value'', inp)
      | (Inr _, inp) \<Rightarrow>
     (case ReadAString inp of
        (Inl _, inp) \<Rightarrow> (Inl ''invalid parameter value'', inp)
      | (Inr paramValue, inp) \<Rightarrow>
     (case ExpectByte (CHR '')'') inp of
        (Inl _, inp) \<Rightarrow> (Inl ''expected closing parenthesis'', inp)
      | (Inr _, inp) \<Rightarrow> (Inr (paramName, paramValue), inp)))))"

lemma convert_param_length: "convert_param inp = (r, rest) \<Longrightarrow> length rest \<le> length inp"
  unfolding convert_param_def
  by (auto split: prod.splits sum.splits dest!: keeps_suffix_length [OF keeps_suffix_ReadAtom]
      keeps_suffix_length [OF keeps_suffix_ReadSP] keeps_suffix_length [OF keeps_suffix_ReadAString]
      keeps_suffix_length [OF keeps_suffix_ExpectByte])

function convert_params :: "(string \<rightharpoonup> string) \<Rightarrow> string \<Rightarrow> string + (string \<rightharpoonup> string)" where
  "convert_params params inp =
     (case ReadSP inp of
        (Inl _, _) \<Rightarrow> Inr params
      | (Inr _, inp1) \<Rightarrow>
          (if inp1 = [] \<or> hd inp1 \<noteq> CHR ''('' then Inr params
           else case convert_param (tl inp1) of
                  (Inl text, _) \<Rightarrow> Inl text
                | (Inr (name, value), inp2) \<Rightarrow> convert_params (params(name \<mapsto> value)) inp2))"
  by pat_completeness auto
termination
proof (relation "measure (\<lambda>(_, inp). length inp)", simp)
  fix params :: "string \<rightharpoonup> string" and inp r inp1 u p inp2 q name val
  assume a: "(r, inp1) = ReadSP inp" "r = Inr u" "(p, inp2) = convert_param (tl inp1)"
  have "inp = SP # inp1" using a(1,2) by (metis ReadSP_Inr)
  moreover have "length inp2 \<le> length (tl inp1)" using a(3) by (metis convert_param_length)
  ultimately show "((params(name \<mapsto> val), inp2), params, inp) \<in> measure (\<lambda>(_, inp). length inp)" by simp
qed

declare convert_params.simps [simp del]

definition handleConvert :: "'b convert_meth option \<Rightarrow> 'b handler" where
  "handleConvert ses ctx =
     in_states [Selected] ctx ''CONVERT requires selected state''
       (asserting ses (no ctx ''CONVERT not supported'') (\<lambda>Convert.
        has_args ctx ''missing arguments''
          (arg ctx ReadNumber ''invalid sequence number'' (\<lambda>seqNum.
           arg ctx ReadSP ''missing section'' (\<lambda>_.
           arg ctx ReadAString ''invalid section'' (\<lambda>section.
           arg ctx ReadSP ''missing media type'' (\<lambda>_.
           arg ctx ReadAString ''invalid media type'' (\<lambda>mediaType inp.
             (case convert_params Map.empty inp of
                Inl text \<Rightarrow> bad ctx text
              | Inr params \<Rightarrow>
                  call ctx ''CONVERT'' (Convert seqNum section mediaType params) (\<lambda>data.
                  answer ctx
                    (enc_Star @ enc_Atom ''CONVERTED'' @ enc_SP @ enc_AString section @ enc_SP @ enc_Literal data @ enc_CRLF)
                    ''CONVERT completed'')))))))))) "

section \<open>FILTERS\<close>

record 'b session_filters =
  GetFilter :: "string \<Rightarrow> ('b, string) meth"
  SetFilter :: "string \<Rightarrow> string \<Rightarrow> ('b, unit) meth"

definition handleGetFilter :: "'b session_filters option \<Rightarrow> 'b handler" where
  "handleGetFilter ses ctx =
     in_states [Authenticated, Selected] ctx ''GETFILTER not allowed in current state''
       (asserting ses (no ctx ''GETFILTER not supported'') (\<lambda>ses.
        has_args ctx ''missing filter name''
          (arg ctx ReadAString ''invalid filter name'' (\<lambda>name _.
           call ctx ''GETFILTER'' (GetFilter ses name) (\<lambda>criteria.
           answer ctx
             (enc_Star @ enc_Atom ''FILTER'' @ enc_SP @ enc_AString name @ enc_SP @ enc_AString criteria @ enc_CRLF)
             ''GETFILTER completed'')))))"

definition handleSetFilter :: "'b session_filters option \<Rightarrow> 'b handler" where
  "handleSetFilter ses ctx =
     in_states [Authenticated, Selected] ctx ''SETFILTER not allowed in current state''
       (asserting ses (no ctx ''SETFILTER not supported'') (\<lambda>ses.
        has_args ctx ''missing arguments''
          (arg ctx ReadAString ''invalid filter name'' (\<lambda>name.
           arg ctx ReadSP ''missing filter criteria'' (\<lambda>_.
           arg ctx ReadAString ''invalid filter criteria'' (\<lambda>criteria _.
           call ctx ''SETFILTER'' (SetFilter ses name criteria) (\<lambda>_.
           return_ok ctx ''SETFILTER completed'')))))))"

definition Filters_CommandHandlers :: "'b session_filters option \<Rightarrow> (string \<times> 'b handler) list" where
  "Filters_CommandHandlers ses = [(''GETFILTER'', handleGetFilter ses), (''SETFILTER'', handleSetFilter ses)]"

section \<open>SORT and THREAD\<close>

record sort_criterion =
  sk_Key :: string
  sk_Reverse :: bool

type_synonym 'b sort_meth =
  "num_kind \<Rightarrow> sort_criterion list \<Rightarrow> search_criteria \<Rightarrow> search_options \<Rightarrow> ('b, u32 list) meth"

definition sort_criteria :: "string \<Rightarrow> sort_criterion list reply option" where
  "sort_criteria inp =
     ReadList (\<lambda>criteria inp. Some
       (dbind (ReadAtom inp) (\<lambda>atom inp.
          let upper = ToUpper atom in
          if upper = ''REVERSE''
          then dbind (ReadSP inp) (\<lambda>_ inp.
               dbind (ReadAtom inp) (\<lambda>keyAtom inp.
                 (Inr (criteria @ [\<lparr>sk_Key = ToUpper keyAtom, sk_Reverse = True\<rparr>]), inp)))
          else (Inr (criteria @ [\<lparr>sk_Key = upper, sk_Reverse = False\<rparr>]), inp)))) [] inp"

text \<open>The search criteria after the charset are not read.\<close>

definition handleSort :: "'b sort_meth option \<Rightarrow> 'b handler" where
  "handleSort ses ctx =
     asserting ses (no ctx ''SORT not supported'') (\<lambda>Sort.
     deref ctx
       (arg_loop ctx sort_criteria (\<lambda>_. ''Invalid sort criteria'') (\<lambda>criteria.
          if length criteria = 0 then (\<lambda>_. bad ctx ''Empty sort criteria'')
          else arg ctx ReadSP ''Expected charset'' (\<lambda>_.
               arg ctx ReadAtom ''Invalid charset'' (\<lambda>_ _.
               call ctx ''SORT'' (Sort (cx_NumKind ctx) criteria zero_criteria zero_search_options) (\<lambda>data.
               answer ctx (enc_Star @ enc_Atom ''SORT'' @ concat (map (\<lambda>num. enc_SP @ enc_Number num) data) @ enc_CRLF)
                 ''SORT completed''))))))"

datatype msg_thread = Thread u32 "msg_thread list"

type_synonym 'b thread_meth =
  "num_kind \<Rightarrow> string \<Rightarrow> search_criteria \<Rightarrow> search_options \<Rightarrow> ('b, msg_thread list) meth"

primrec writeThread :: "msg_thread \<Rightarrow> string" where
  "writeThread (Thread num children) =
     enc_BeginList @ enc_Number num @ concat (map (\<lambda>t. enc_SP @ t) (map writeThread children)) @ enc_EndList"

definition handleThread :: "'b thread_meth option \<Rightarrow> 'b handler" where
  "handleThread ses ctx =
     asserting ses (no ctx ''THREAD not supported'') (\<lambda>Thread.
     deref ctx
       (arg ctx ReadAtom ''Expected threading algorithm'' (\<lambda>algoStr.
          let algorithm = ToUpper algoStr in
          if algorithm \<noteq> ''ORDEREDSUBJECT'' \<and> algorithm \<noteq> ''REFERENCES''
          then (\<lambda>_. bad ctx (''Unknown threading algorithm: '' @ algoStr))
          else arg ctx ReadSP ''Expected charset'' (\<lambda>_.
               arg ctx ReadAtom ''Invalid charset'' (\<lambda>_ _.
               call ctx ''THREAD'' (Thread (cx_NumKind ctx) algorithm zero_criteria zero_search_options) (\<lambda>threads.
               answer ctx (enc_Star @ enc_Atom ''THREAD'' @ concat (map (\<lambda>t. enc_SP @ writeThread t) threads) @ enc_CRLF)
                 ''THREAD completed''))))))"

section \<open>URLAUTH\<close>

record 'b session_urlauth =
  GenURLAuth :: "(string \<times> string) list \<Rightarrow> ('b, string list) meth"
  ResetKey :: "string \<Rightarrow> string list \<Rightarrow> ('b, unit) meth"
  URLFetch :: "string list \<Rightarrow> ('b, (string \<times> string option) list) meth"

lemma shorter_after_SPs:
  assumes "keeps_suffix d" "(r, rest) = d inp" "(Inr u, rest1) = ReadSP rest" "keeps_suffix d'" "(r', rest2) = d' rest1"
    and "(Inr u', rest3) = ReadSP rest2"
  shows "length rest3 < length inp"
  using shorter_after_SP [OF assms(1,2,3)] shorter_after_SP [OF assms(4,5,6)] by simp

function url_requests :: "string \<Rightarrow> string + (string \<times> string) list" where
  "url_requests inp =
     (case ReadAString inp of
        (Inl _, _) \<Rightarrow> Inr []
      | (Inr url, inp1) \<Rightarrow>
     (case ReadSP inp1 of
        (Inl _, _) \<Rightarrow> Inl ''expected mechanism after URL''
      | (Inr _, inp2) \<Rightarrow>
     (case ReadAtom inp2 of
        (Inl _, _) \<Rightarrow> Inl ''invalid mechanism''
      | (Inr mechanism, inp3) \<Rightarrow>
     (case ReadSP inp3 of
        (Inl _, _) \<Rightarrow> Inr [(url, mechanism)]
      | (Inr _, inp4) \<Rightarrow> map_sum (\<lambda>e. e) ((#) (url, mechanism)) (url_requests inp4)))))"
  by pat_completeness auto
termination
  by (relation "measure length")
    (auto dest: shorter_after_SPs [OF keeps_suffix_ReadAString _ _ keeps_suffix_ReadAtom])

declare url_requests.simps [simp del]

definition handleGenURLAuth :: "'b session_urlauth option \<Rightarrow> 'b handler" where
  "handleGenURLAuth ses ctx =
     in_states [Authenticated, Selected] ctx ''GENURLAUTH not allowed in current state''
       (asserting ses (no ctx ''GENURLAUTH not supported'') (\<lambda>ses.
        has_args ctx ''missing arguments'' (\<lambda>inp.
          case url_requests inp of
            Inl text \<Rightarrow> bad ctx text
          | Inr requests \<Rightarrow>
              if length requests = 0 then bad ctx ''missing URL and mechanism arguments''
              else call ctx ''GENURLAUTH'' (GenURLAuth ses requests) (\<lambda>urls.
                   answer ctx (enc_Star @ enc_Atom ''GENURLAUTH'' @ concat (map (\<lambda>u. enc_SP @ enc_AString u) urls) @ enc_CRLF)
                     ''GENURLAUTH completed''))))"

function reset_mechanisms :: "string \<Rightarrow> string list" where
  "reset_mechanisms inp =
     (case ReadSP inp of
        (Inl _, _) \<Rightarrow> []
      | (Inr _, inp1) \<Rightarrow> (case ReadAtom inp1 of (Inl _, _) \<Rightarrow> [] | (Inr mech, inp2) \<Rightarrow> mech # reset_mechanisms inp2))"
  by pat_completeness auto
termination
proof (relation "measure length")
  fix inp r inp1 u r' inp2 mech
  assume a: "(r, inp1) = ReadSP inp" "r = Inr u" "(r', inp2) = ReadAtom inp1"
  then have "inp = SP # inp1" by (metis ReadSP_Inr)
  moreover have "length inp2 \<le> length inp1" using a(3) by (metis keeps_suffix_length keeps_suffix_ReadAtom)
  ultimately show "(inp2, inp) \<in> measure length" by simp
qed simp

declare reset_mechanisms.simps [simp del]

definition handleResetKey :: "'b session_urlauth option \<Rightarrow> 'b handler" where
  "handleResetKey ses ctx =
     in_states [Authenticated, Selected] ctx ''RESETKEY not allowed in current state''
       (asserting ses (no ctx ''RESETKEY not supported'') (\<lambda>ses.
        let (mailbox, mechanisms) =
          (case cx_Decoder ctx of
             None \<Rightarrow> ([], [])
           | Some inp \<Rightarrow>
               (case ReadAString inp of (Inl _, _) \<Rightarrow> ([], []) | (Inr mb, inp) \<Rightarrow> (mb, reset_mechanisms inp)))
        in call ctx ''RESETKEY'' (ResetKey ses mailbox mechanisms) (\<lambda>_. return_ok ctx ''RESETKEY completed'')))"

function fetch_urls :: "string \<Rightarrow> string list" where
  "fetch_urls inp =
     (case ReadAString inp of
        (Inl _, rest) \<Rightarrow> []
      | (Inr url, rest) \<Rightarrow> url # (case ReadSP rest of (Inl _, _) \<Rightarrow> [] | (Inr _, rest') \<Rightarrow> fetch_urls rest'))"
  by pat_completeness auto
termination by (relation "measure length") (auto dest: shorter_after_SP [OF keeps_suffix_ReadAString])

declare fetch_urls.simps [simp del]

definition url_response :: "string \<times> string option \<Rightarrow> string" where
  "url_response resp =
     enc_Star @ enc_Atom ''URLFETCH'' @ enc_SP @ enc_AString (fst resp) @ enc_SP @
     (case snd resp of Some data \<Rightarrow> enc_Literal data | None \<Rightarrow> enc_Nil) @ enc_CRLF"

definition handleURLFetch :: "'b session_urlauth option \<Rightarrow> 'b handler" where
  "handleURLFetch ses ctx =
     in_states [Authenticated, Selected] ctx ''URLFETCH not allowed in current state''
       (asserting ses (no ctx ''URLFETCH not supported'') (\<lambda>ses.
        has_args ctx ''missing URL arguments'' (\<lambda>inp.
          let urls = fetch_urls inp in
          if length urls = 0 then bad ctx ''missing URL arguments''
          else call ctx ''URLFETCH'' (URLFetch ses urls) (\<lambda>responses c.
               return_ok ctx ''URLFETCH completed'' (foldl (\<lambda>c resp. emit (url_response resp) c) c responses)))))"

definition URLAuth_CommandHandlers :: "'b session_urlauth option \<Rightarrow> (string \<times> 'b handler) list" where
  "URLAuth_CommandHandlers ses =
     [(''GENURLAUTH'', handleGenURLAuth ses), (''RESETKEY'', handleResetKey ses), (''URLFETCH'', handleURLFetch ses)]"

end
