(* ===== verification/ExtMessages.thy ===== *)
theory ExtMessages
  imports Extensions
begin

text \<open>
  The extensions that replace the handlers of SELECT, FETCH, STORE, COPY, EXPUNGE, CREATE and
  ENABLE by ones with more syntax (\<open>extensions/condstore\<close>, \<open>qresync\<close>, \<open>preview\<close>, \<open>uidplus\<close>,
  \<open>specialuse\<close>, \<open>uidonly\<close>). \<open>WrapHandler\<close> of an extension gives the new handler for a
  command, or \<open>None\<close> when it leaves the command alone.
\<close>

section \<open>CONDSTORE\<close>

type_synonym 'b store_meth = "num_set \<Rightarrow> store_flags \<Rightarrow> store_options \<Rightarrow> ('b, unit) meth"

text \<open>The parsers of the extension have the same text as the ones of \<open>server/commands/fetch.go\<close>.\<close>

definition Condstore_ParseFetchItems :: "string \<Rightarrow> fetch_options reply option" where
  "Condstore_ParseFetchItems = parseFetchItems"

definition Condstore_ParseSingleFetchItem :: "fetch_options \<Rightarrow> string \<Rightarrow> fetch_options reply option" where
  "Condstore_ParseSingleFetchItem = parseSingleFetchItem"

definition Condstore_parseFetchBodySectionFromAtom :: "string \<Rightarrow> bool \<Rightarrow> string \<Rightarrow> body_section reply option" where
  "Condstore_parseFetchBodySectionFromAtom = parseFetchBodySectionFromAtom"

definition Condstore_ParseFetchBodySection :: "bool \<Rightarrow> string \<Rightarrow> body_section reply option" where
  "Condstore_ParseFetchBodySection = parseFetchBodySection"

definition Condstore_ParseBinaryPart :: "string \<Rightarrow> int list" where
  "Condstore_ParseBinaryPart = parseBinaryPart"

definition Condstore_ConsumePartial :: "string \<Rightarrow> (int \<times> int) option \<times> string" where
  "Condstore_ConsumePartial = consumePartial"

definition Condstore_ReadFieldList :: "string \<Rightarrow> string list reply option" where
  "Condstore_ReadFieldList = readFieldList"

text \<open>The modifier \<open>(UNCHANGEDSINCE n)\<close> of STORE, if there is one.\<close>

definition store_modifier :: "(store_options \<Rightarrow> 'b step) \<Rightarrow> 'b step" where
  "store_modifier k =
     read_arg PeekByte ''unexpected end of command'' (\<lambda>b.
       if b = CHR ''(''
       then read_arg (ExpectByte (CHR ''('')) ''invalid modifier'' (\<lambda>_.
            read_arg ReadAtom ''invalid modifier name'' (\<lambda>atom.
              if \<not> EqualFold atom ''UNCHANGEDSINCE'' then (\<lambda>_. fail (ErrBad (''unknown store modifier: '' @ atom)))
              else read_arg ReadSP ''missing UNCHANGEDSINCE value'' (\<lambda>_.
                   read_arg ReadNumber64 ''invalid UNCHANGEDSINCE value'' (\<lambda>modseq.
                   read_arg (ExpectByte (CHR '')'')) ''missing closing paren for modifier'' (\<lambda>_.
                   read_arg ReadSP ''missing store action'' (\<lambda>_. k \<lparr>UnchangedSince = modseq\<rparr>))))))
       else k \<lparr>UnchangedSince = 0\<rparr>)"

text \<open>The action and the flags of STORE.\<close>

definition store_action_flags :: "(store_flags \<Rightarrow> 'b cont) \<Rightarrow> 'b step" where
  "store_action_flags k =
     read_arg ReadAtom ''invalid store action'' (\<lambda>actionStr inp.
       (let upper = ToUpper actionStr in
        case store_action_of upper of
          None \<Rightarrow> fail (ErrBad (''invalid store action: '' @ actionStr))
        | Some action \<Rightarrow>
            read_arg ReadSP ''missing flags'' (\<lambda>_.
            read_loop ReadFlags (\<lambda>_. ''invalid flags'') (\<lambda>flags _.
            k \<lparr>sf_Action = action, sf_Silent = HasSuffix upper ''.SILENT'', sf_Flags = flags\<rparr>)) inp))"

text \<open>When the session has no \<open>StoreConditional\<close> the handler returns the result of \<open>Store\<close>
  at once.\<close>

definition handleCondstoreStore :: "'b backend \<Rightarrow> 'b store_meth option \<Rightarrow> 'b handler" where
  "handleCondstoreStore be ses ctx =
     with_args ctx ''missing arguments''
       (read_numset ctx (\<lambda>numSet.
        read_arg ReadSP ''missing store action'' (\<lambda>_.
        store_modifier (\<lambda>options.
        store_action_flags (\<lambda>flags.
          if UnchangedSince options > 0
          then asserting ses
                 (ask (be_Store be numSet flags options) (\<lambda>_. Finished None))
                 (\<lambda>StoreConditional. ask (StoreConditional numSet flags options) (\<lambda>_. return_ok ctx ''STORE completed''))
          else ask (be_Store be numSet flags options) (\<lambda>_. return_ok ctx ''STORE completed''))))))"

text \<open>The modifier \<open>(CHANGEDSINCE n)\<close> of FETCH. What may follow the number depends on the
  extension.\<close>

definition fetch_modifier ::
  "(fetch_options \<Rightarrow> (fetch_options \<Rightarrow> 'b step) \<Rightarrow> 'b step) \<Rightarrow> fetch_options \<Rightarrow> (fetch_options \<Rightarrow> 'b step) \<Rightarrow> 'b step" where
  "fetch_modifier vanished options k inp =
     (case ReadSP inp of
        (Inl _, inp) \<Rightarrow> k options inp
      | (Inr _, inp) \<Rightarrow>
          if inp \<noteq> [] \<and> hd inp = CHR ''(''
          then read_arg (ExpectByte (CHR ''('')) ''invalid modifier'' (\<lambda>_.
               read_arg ReadAtom ''invalid modifier name'' (\<lambda>atom.
                 if \<not> EqualFold atom ''CHANGEDSINCE'' then (\<lambda>_. fail (ErrBad (''unknown fetch modifier: '' @ atom)))
                 else read_arg ReadSP ''missing CHANGEDSINCE value'' (\<lambda>_.
                      read_arg ReadNumber64 ''invalid CHANGEDSINCE value'' (\<lambda>modseq.
                      vanished (options\<lparr>fo_ChangedSince := modseq, fo_ModSeq := True\<rparr>) (\<lambda>options.
                      read_arg (ExpectByte (CHR '')'')) ''missing closing paren for modifier'' (\<lambda>_. k options)))))) inp
          else k options inp)"

definition no_vanished :: "fetch_options \<Rightarrow> (fetch_options \<Rightarrow> 'b step) \<Rightarrow> 'b step" where
  "no_vanished options k = k options"

text \<open>FETCH with a parser of the items and of what follows them.\<close>

definition fetch_with ::
  "options \<Rightarrow> (string \<Rightarrow> fetch_options reply option) \<Rightarrow> (fetch_options \<Rightarrow> (fetch_options \<Rightarrow> 'b step) \<Rightarrow> 'b step) \<Rightarrow>
   'b backend \<Rightarrow> 'b handler" where
  "fetch_with opts items modifiers be ctx =
     with_args ctx ''missing arguments''
       (read_numset ctx (\<lambda>numSet.
        read_arg ReadSP ''missing fetch items'' (\<lambda>_.
        read_loop items (\<lambda>e. ''invalid fetch items: '' @ o_error_text opts (WireError e)) (\<lambda>options.
        modifiers options (\<lambda>options _.
        (let options = (if cx_NumKind ctx = NumKindUID then options\<lparr>fo_UID := True\<rparr> else options)
         in ask (be_Fetch be numSet options) (\<lambda>_. return_ok ctx ''FETCH completed'')))))))"

definition handleCondstoreFetch :: "options \<Rightarrow> 'b backend \<Rightarrow> 'b handler" where
  "handleCondstoreFetch opts be = fetch_with opts Condstore_ParseFetchItems (fetch_modifier no_vanished) be"

text \<open>What SELECT does with the data of the session: the responses, the state, the tagged
  response.\<close>

definition select_done :: "command_context \<Rightarrow> string \<Rightarrow> string list \<Rightarrow> select_data \<Rightarrow> 'b cont" where
  "select_done ctx mailbox lines data c =
     (let c = SetMailbox mailbox (sd_ReadOnly data) (foldl (\<lambda>c s. emit s c) c lines);
          code = (if sd_ReadOnly data then ''READ-ONLY'' else ''READ-WRITE'')
      in set_state Selected (\<lambda>c. Finished None (WriteOKCode (cx_Tag ctx) code ''SELECT completed'' c)) c)"

definition condstore_param :: "select_options \<Rightarrow> string \<Rightarrow> select_options reply option" where
  "condstore_param options inp = Some
     (dbind (ReadAtom inp) (\<lambda>atom inp.
        (Inr (if EqualFold atom ''CONDSTORE'' then options\<lparr>sel_CondStore := True\<rparr> else options), inp)))"

definition handleCondstoreSelect :: "'b backend \<Rightarrow> bool \<Rightarrow> 'b handler" where
  "handleCondstoreSelect be readOnly ctx =
     with_args ctx ''missing mailbox name''
       (read_arg ReadAString ''invalid mailbox name'' (\<lambda>mailbox inp.
          let options = zero_select_options readOnly;
              rest = (\<lambda>options. ask (be_Select be mailbox options) (\<lambda>data. select_done ctx mailbox (select_responses data) data))
          in case ReadSP inp of
               (Inl _, _) \<Rightarrow> rest options
             | (Inr _, inp) \<Rightarrow>
                 if inp \<noteq> [] \<and> hd inp = CHR ''(''
                 then read_loop (ReadList condstore_param options) (\<lambda>_. ''invalid SELECT parameters'') (\<lambda>options _. rest options) inp
                 else rest options))"

definition Condstore_WrapHandler ::
  "options \<Rightarrow> 'b backend \<Rightarrow> 'b store_meth option \<Rightarrow> string \<Rightarrow> 'b handler \<Rightarrow> 'b handler option" where
  "Condstore_WrapHandler opts be ses name h =
     map_of
       [(''STORE'', handleCondstoreStore be ses), (''FETCH'', handleCondstoreFetch opts be),
        (''SELECT'', handleCondstoreSelect be False), (''EXAMINE'', handleCondstoreSelect be True)] name"

section \<open>QRESYNC\<close>

type_synonym 'b select_meth = "string \<Rightarrow> select_options \<Rightarrow> ('b, select_data) meth"

text \<open>The parameters of SELECT. The loop asks for no space between two parameters.\<close>

definition qresync_seq_args :: "options \<Rightarrow> select_qresync \<Rightarrow> select_qresync gparser" where
  "qresync_seq_args opts qr =
     gbind (expect PeekByte ''unexpected end of QRESYNC parameters'') (\<lambda>b.
     gbind (if b = CHR ''(''
            then gbind (expect (ExpectByte (CHR ''('')) ''invalid QRESYNC seq-match'') (\<lambda>_.
                 gbind (expect ReadAtom ''invalid QRESYNC seq-match seq-set'') (\<lambda>seqSetStr.
                   case ParseSeqSet seqSetStr of
                     Inl e \<Rightarrow> gfail (ErrBad (''invalid QRESYNC seq-match seq-set: '' @ o_error_text opts (NumSetError e)))
                   | Inr seqSet \<Rightarrow>
                 gbind (expect ReadSP ''missing QRESYNC seq-match uid-set'') (\<lambda>_.
                 gbind (expect ReadAtom ''invalid QRESYNC seq-match uid-set'') (\<lambda>uidSetStr.
                   case ParseUIDSet uidSetStr of
                     Inl e \<Rightarrow> gfail (ErrBad (''invalid QRESYNC seq-match uid-set: '' @ o_error_text opts (NumSetError e)))
                   | Inr uidSet \<Rightarrow>
                 gbind (expect (ExpectByte (CHR '')'')) ''missing closing paren for QRESYNC seq-match'') (\<lambda>_.
                   greturn (qr\<lparr>qr_SeqMatch := Some \<lparr>qm_SeqNums = seqSet, qm_UIDs = uidSet\<rparr>\<rparr>))))))
            else greturn qr) (\<lambda>qr.
     gbind (expect (ExpectByte (CHR '')'')) ''missing closing paren for QRESYNC parameters'') (\<lambda>_. greturn qr)))"

definition qresync_known_uids :: "options \<Rightarrow> select_qresync \<Rightarrow> select_qresync gparser" where
  "qresync_known_uids opts qr =
     gbind (expect PeekByte ''unexpected end of QRESYNC parameters'') (\<lambda>b.
       if b \<noteq> CHR ''(''
       then gbind (expect ReadAtom ''invalid QRESYNC known-uids'') (\<lambda>knownUIDsStr.
              case ParseUIDSet knownUIDsStr of
                Inl e \<Rightarrow> gfail (ErrBad (''invalid QRESYNC known-uids: '' @ o_error_text opts (NumSetError e)))
              | Inr knownUIDs \<Rightarrow>
                  (let qr = qr\<lparr>qr_KnownUIDs := Some knownUIDs\<rparr> in
                   gbind (expect PeekByte ''unexpected end of QRESYNC parameters'') (\<lambda>b.
                     if b = CHR '')''
                     then gbind (expect (ExpectByte (CHR '')'')) ''invalid QRESYNC parameters'') (\<lambda>_. greturn qr)
                     else gbind (expect ReadSP ''invalid QRESYNC parameters'') (\<lambda>_. qresync_seq_args opts qr))))
       else qresync_seq_args opts qr)"

definition parseQResyncParams :: "options \<Rightarrow> select_qresync gparser" where
  "parseQResyncParams opts =
     gbind (expect ReadSP ''missing QRESYNC parameters'') (\<lambda>_.
     gbind (expect (ExpectByte (CHR ''('')) ''expected '(' for QRESYNC parameters'') (\<lambda>_.
     gbind (expect ReadNumber ''invalid QRESYNC uidvalidity'') (\<lambda>uidvalidity.
     gbind (expect ReadSP ''missing QRESYNC modseq'') (\<lambda>_.
     gbind (expect ReadNumber64 ''invalid QRESYNC modseq'') (\<lambda>modseq.
     (let qr = \<lparr>qr_UIDValidity = uidvalidity, qr_ModSeq = modseq, qr_KnownUIDs = None, qr_SeqMatch = None\<rparr> in
      gbind (expect PeekByte ''unexpected end of QRESYNC parameters'') (\<lambda>b.
        if b = CHR '')'' then gbind (expect (ExpectByte (CHR '')'')) ''invalid QRESYNC parameters'') (\<lambda>_. greturn qr)
        else gbind (expect ReadSP ''invalid QRESYNC parameters'') (\<lambda>_. qresync_known_uids opts qr))))))))"

definition qresync_param :: "options \<Rightarrow> string \<Rightarrow> select_options \<Rightarrow> select_options gparser" where
  "qresync_param opts atom options =
     (if ToUpper atom = ''CONDSTORE'' then greturn (options\<lparr>sel_CondStore := True\<rparr>)
      else if ToUpper atom = ''QRESYNC''
      then gbind (parseQResyncParams opts) (\<lambda>qr. greturn (options\<lparr>sel_QResync := Some qr\<rparr>))
      else gfail (ErrBad (''unknown SELECT parameter: '' @ atom)))"

lemma shrinking_qresync_seq_match: "shrinking (qresync_seq_args opts qr)"
  unfolding qresync_seq_args_def by (auto intro!: shrinking_rules split: sum.split)

lemma shrinking_parseQResyncParams: "shrinking (parseQResyncParams opts)"
  unfolding parseQResyncParams_def qresync_known_uids_def Let_def
  by (auto intro!: shrinking_rules shrinking_qresync_seq_match split: sum.split)

lemma shrinking_qresync_param: "shrinking (qresync_param opts atom options)"
  unfolding qresync_param_def by (auto intro!: shrinking_rules shrinking_parseQResyncParams)

function qresync_params :: "options \<Rightarrow> select_options \<Rightarrow> select_options gparser" where
  "qresync_params opts options inp =
     (if inp = [] then (Inl (ErrBad ''unexpected end of SELECT parameters''), [])
      else if hd inp = CHR '')'' then (Inr options, tl inp)
      else case ReadAtom inp of
             (Inl _, inp1) \<Rightarrow> (Inl (ErrBad ''invalid SELECT parameter''), inp1)
           | (Inr atom, inp1) \<Rightarrow>
               (case qresync_param opts atom options inp1 of
                  (Inl e, inp2) \<Rightarrow> (Inl e, inp2)
                | (Inr options', inp2) \<Rightarrow>
                    if inp2 = [] then (Inl (ErrBad ''unexpected end of SELECT parameters''), [])
                    else qresync_params opts options' (if hd inp2 = SP then tl inp2 else inp2)))"
  by pat_completeness auto
termination
proof (relation "measure (\<lambda>(_, _, inp). length inp)", simp)
  fix opts options inp r inp1 atom p inp2 options'
  assume a: "(r, inp1) = ReadAtom inp" "r = Inr atom" "(p, inp2) = qresync_param opts atom options inp1"
  have "length inp1 < length inp" using a(1,2) by (metis atom_shorter)
  moreover have "length inp2 \<le> length inp1" using shrinkingD [OF shrinking_qresync_param] a(3) by metis
  ultimately show "((opts, options', if hd inp2 = SP then tl inp2 else inp2), opts, options, inp)
      \<in> measure (\<lambda>(_, _, inp). length inp)" by (auto simp: less_imp_diff_less)
qed

declare qresync_params.simps [simp del]

definition qresync_select_responses :: "select_data \<Rightarrow> string list" where
  "qresync_select_responses data =
     select_responses data @
     (case sd_Vanished data of
        Some us \<Rightarrow>
          if us \<noteq> []
          then [enc_Star @ enc_Atom ''VANISHED'' @ enc_SP @ enc_Atom ''(EARLIER)'' @ enc_SP @ enc_Atom (UIDSet_String us) @ enc_CRLF]
          else []
      | None \<Rightarrow> [])"

definition writeSelectResponse :: "command_context \<Rightarrow> string \<Rightarrow> select_data \<Rightarrow> 'b cont" where
  "writeSelectResponse ctx mailbox data = select_done ctx mailbox (qresync_select_responses data) data"

definition qresync_select ::
  "'b backend \<Rightarrow> 'b select_meth option \<Rightarrow> command_context \<Rightarrow> string \<Rightarrow> select_options \<Rightarrow> 'b cont" where
  "qresync_select be ses ctx mailbox options c =
     (let plain = (\<lambda>options. ask (be_Select be mailbox options) (writeSelectResponse ctx mailbox)) in
      if sel_QResync options \<noteq> None
      then (if \<not> Has (c_enabled c) ''QRESYNC'' then fail (ErrBad ''QRESYNC not enabled; use ENABLE QRESYNC first'') c
            else let options = options\<lparr>sel_CondStore := True\<rparr>
                 in asserting ses (plain options)
                      (\<lambda>SelectQResync. ask (SelectQResync mailbox options) (writeSelectResponse ctx mailbox)) c)
      else plain options c)"

definition handleQResyncSelect :: "options \<Rightarrow> 'b backend \<Rightarrow> 'b select_meth option \<Rightarrow> bool \<Rightarrow> 'b handler" where
  "handleQResyncSelect opts be ses readOnly ctx =
     with_args ctx ''missing mailbox name''
       (read_arg ReadAString ''invalid mailbox name'' (\<lambda>mailbox inp.
          let options = zero_select_options readOnly in
          case ReadSP inp of
            (Inl _, _) \<Rightarrow> qresync_select be ses ctx mailbox options
          | (Inr _, inp) \<Rightarrow>
              if inp \<noteq> [] \<and> hd inp = CHR ''(''
              then parsing (qresync_params opts options) (\<lambda>options _. qresync_select be ses ctx mailbox options) (tl inp)
              else qresync_select be ses ctx mailbox options))"

definition qresync_vanished :: "command_context \<Rightarrow> fetch_options \<Rightarrow> (fetch_options \<Rightarrow> 'b step) \<Rightarrow> 'b step" where
  "qresync_vanished ctx options k inp c =
     (if inp \<noteq> [] \<and> hd inp = SP
      then (case ReadAtom (tl inp) of
              (Inl _, inp) \<Rightarrow> k options inp c
            | (Inr vanAtom, inp) \<Rightarrow>
                if EqualFold vanAtom ''VANISHED''
                then (if \<not> Has (c_enabled c) ''QRESYNC'' then fail (ErrBad ''QRESYNC not enabled; use ENABLE QRESYNC first'') c
                      else if cx_NumKind ctx \<noteq> NumKindUID then fail (ErrBad ''VANISHED requires UID FETCH'') c
                      else k (options\<lparr>fo_Vanished := True\<rparr>) inp c)
                else k options inp c)
      else k options inp c)"

definition handleQResyncFetch :: "options \<Rightarrow> 'b backend \<Rightarrow> 'b handler" where
  "handleQResyncFetch opts be ctx =
     fetch_with opts Condstore_ParseFetchItems (fetch_modifier (qresync_vanished ctx)) be ctx"

definition QResync_WrapHandler ::
  "options \<Rightarrow> 'b backend \<Rightarrow> 'b select_meth option \<Rightarrow> string \<Rightarrow> 'b handler \<Rightarrow> 'b handler option" where
  "QResync_WrapHandler opts be ses name h =
     map_of
       [(''SELECT'', handleQResyncSelect opts be ses False), (''EXAMINE'', handleQResyncSelect opts be ses True),
        (''FETCH'', handleQResyncFetch opts be)] name"

section \<open>PREVIEW\<close>

text \<open>The modifiers in parentheses after PREVIEW.\<close>

definition preview_modifier :: "fetch_options \<Rightarrow> string \<Rightarrow> fetch_options reply option" where
  "preview_modifier options inp = Some
     (dbind (ReadAtom inp) (\<lambda>atom inp.
        if EqualFold atom ''LAZY'' then (Inr (options\<lparr>fo_PreviewLazy := True\<rparr>), inp)
        else (Inl (CallbackError (go_error_text (ErrBad (''unknown preview modifier: '' @ atom)))), inp)))"

text \<open>The loop of this parser is the one of \<open>ReadList\<close>.\<close>

definition parsePreviewModifier :: "fetch_options \<Rightarrow> string \<Rightarrow> fetch_options reply option" where
  "parsePreviewModifier options inp = ReadList preview_modifier options inp"

partial_function (option) preview_items :: "bool \<Rightarrow> fetch_options \<Rightarrow> string \<Rightarrow> fetch_options reply option" where
  "preview_items first options inp =
     (case PeekByte inp of
        (Inl e, inp) \<Rightarrow> Some (Inl e, inp)
      | (Inr b, inp) \<Rightarrow>
          if b = CHR '')'' then Some (Inr options, tl inp)
          else (case (if first then (Inr (), inp) else ReadSP inp) of
                  (Inl e, inp) \<Rightarrow> Some (Inl e, inp)
                | (Inr _, inp) \<Rightarrow>
                    if \<not> first \<and> inp = [] then Some (Inl EOF, [])
                    else Option.bind
                           (if \<not> first \<and> hd inp = CHR ''('' \<and> fo_Preview options then parsePreviewModifier options inp
                            else Condstore_ParseSingleFetchItem options inp)
                           (\<lambda>r. case r of
                                   (Inl e, inp) \<Rightarrow> Some (Inl e, inp)
                                 | (Inr options, inp) \<Rightarrow> preview_items False options inp)))"

definition parsePreviewFetchItems :: "string \<Rightarrow> fetch_options reply option" where
  "parsePreviewFetchItems inp =
     obind (Some (PeekByte inp)) (\<lambda>b inp.
       if b = CHR ''('' then preview_items True zero_fetch_options (tl inp)
       else Condstore_ParseSingleFetchItem zero_fetch_options inp)"

definition preview_post_modifier :: "string \<Rightarrow> fetch_options \<Rightarrow> fetch_options gparser" where
  "preview_post_modifier atom options =
     (if EqualFold atom ''LAZY'' \<and> fo_Preview options
      then gbind (expect (ExpectByte (CHR '')'')) ''missing closing paren for LAZY modifier'') (\<lambda>_.
             greturn (options\<lparr>fo_PreviewLazy := True\<rparr>))
      else if EqualFold atom ''CHANGEDSINCE''
      then gbind (expect ReadSP ''missing CHANGEDSINCE value'') (\<lambda>_.
           gbind (expect ReadNumber64 ''invalid CHANGEDSINCE value'') (\<lambda>modseq.
           gbind (expect (ExpectByte (CHR '')'')) ''missing closing paren for modifier'') (\<lambda>_.
             greturn (options\<lparr>fo_ChangedSince := modseq, fo_ModSeq := True\<rparr>))))
      else gfail (ErrBad (''unknown fetch modifier: '' @ atom)))"

lemma shrinking_preview_post_modifier: "shrinking (preview_post_modifier atom options)"
  unfolding preview_post_modifier_def by (auto intro!: shrinking_rules)

function parsePostItemModifiers :: "fetch_options \<Rightarrow> fetch_options gparser" where
  "parsePostItemModifiers options inp =
     (case ReadSP inp of
        (Inl _, inp1) \<Rightarrow> (Inr options, inp1)
      | (Inr _, inp1) \<Rightarrow>
          if inp1 = [] then (Inr options, [])
          else if hd inp1 \<noteq> CHR ''('' then (Inl (ErrBad ''expected modifier''), inp1)
          else (case ReadAtom (tl inp1) of
                  (Inl _, inp2) \<Rightarrow> (Inl (ErrBad ''invalid modifier name''), inp2)
                | (Inr atom, inp2) \<Rightarrow>
                    (case preview_post_modifier atom options inp2 of
                       (Inl e, inp3) \<Rightarrow> (Inl e, inp3)
                     | (Inr options', inp3) \<Rightarrow> parsePostItemModifiers options' inp3)))"
  by pat_completeness auto
termination
proof (relation "measure (\<lambda>(_, inp). length inp)", simp)
  fix options inp r inp1 u p inp2 atom q inp3 options'
  assume a: "(r, inp1) = ReadSP inp" "r = Inr u" "(p, inp2) = ReadAtom (tl inp1)" "p = Inr atom"
    "(q, inp3) = preview_post_modifier atom options inp2"
  have "inp = SP # inp1" using a(1,2) by (metis ReadSP_Inr)
  moreover have "length inp2 < length (tl inp1)" using a(3,4) by (metis atom_shorter)
  moreover have "length inp3 \<le> length inp2" using shrinkingD [OF shrinking_preview_post_modifier] a(5) by metis
  ultimately show "((options', inp3), options, inp) \<in> measure (\<lambda>(_, inp). length inp)" by simp
qed

declare parsePostItemModifiers.simps [simp del]

definition handlePreviewFetch :: "options \<Rightarrow> 'b backend \<Rightarrow> 'b handler" where
  "handlePreviewFetch opts be =
     fetch_with opts parsePreviewFetchItems (\<lambda>options. parsing (parsePostItemModifiers options)) be"

definition Preview_WrapHandler :: "options \<Rightarrow> 'b backend \<Rightarrow> string \<Rightarrow> 'b handler \<Rightarrow> 'b handler option" where
  "Preview_WrapHandler opts be name h = map_of [(''FETCH'', handlePreviewFetch opts be)] name"

section \<open>UIDPLUS\<close>

record 'b session_uidplus =
  CopyUIDs :: "num_set \<Rightarrow> string \<Rightarrow> ('b, copy_data option) meth"
  ExpungeUIDs :: "num_range list \<Rightarrow> ('b, unit) meth"

definition handleUIDPlusCopy :: "'b backend \<Rightarrow> 'b session_uidplus option \<Rightarrow> 'b handler" where
  "handleUIDPlusCopy be ses ctx =
     with_args ctx ''missing arguments''
       (read_numset ctx (\<lambda>numSet.
        read_arg ReadSP ''missing destination mailbox'' (\<lambda>_.
        read_arg ReadAString ''invalid destination mailbox'' (\<lambda>dest _.
        asserting ses (ask (be_Copy be numSet dest) (copy_ok ctx))
          (\<lambda>ses. ask (CopyUIDs ses numSet dest) (copy_ok ctx))))))"

text \<open>The set that UID EXPUNGE names, if any.\<close>

definition expunge_uids :: "command_context \<Rightarrow> (num_range list option \<Rightarrow> 'b cont) \<Rightarrow> 'b cont" where
  "expunge_uids ctx k =
     (case cx_Decoder ctx of
        Some inp \<Rightarrow>
          if cx_NumKind ctx = NumKindUID
          then read_arg ReadAtom ''invalid UID set'' (\<lambda>uidStr _.
                 case ParseUIDSet uidStr of Inl _ \<Rightarrow> fail (ErrBad ''invalid UID set'') | Inr uidSet \<Rightarrow> k (Some uidSet)) inp
          else k None
      | None \<Rightarrow> k None)"

definition handleUIDPlusExpunge :: "'b backend \<Rightarrow> 'b session_uidplus option \<Rightarrow> 'b handler" where
  "handleUIDPlusExpunge be ses ctx =
     expunge_uids ctx (\<lambda>uids.
       let done = (\<lambda>_. return_ok ctx ''EXPUNGE completed'') in
       case uids of
         Some us \<Rightarrow> asserting ses (ask (be_Expunge be (Some us)) done) (\<lambda>ses. ask (ExpungeUIDs ses us) done)
       | None \<Rightarrow> ask (be_Expunge be None) done)"

definition UIDPlus_WrapHandler ::
  "'b backend \<Rightarrow> 'b session_uidplus option \<Rightarrow> string \<Rightarrow> 'b handler \<Rightarrow> 'b handler option" where
  "UIDPlus_WrapHandler be ses name h =
     map_of [(''COPY'', handleUIDPlusCopy be ses), (''EXPUNGE'', handleUIDPlusExpunge be ses)] name"

section \<open>SPECIAL-USE\<close>

definition special_use :: "create_options gparser" where
  "special_use =
     gbind (expect (ExpectByte (CHR ''('')) ''expected '(' after SP'') (\<lambda>_.
     gbind (expect ReadAtom ''expected USE keyword'') (\<lambda>atom.
       if \<not> EqualFold atom ''USE'' then gfail (ErrBad ''expected USE keyword'')
       else
     gbind (expect ReadSP ''expected SP after USE'') (\<lambda>_.
     gbind (expect (ExpectByte (CHR ''('')) ''expected '(' before attribute'') (\<lambda>_.
     gbind (expect (ExpectByte BSL) (''expected '' @ [CHR 0x27, BSL, CHR 0x27] @ '' for special-use attribute'')) (\<lambda>_.
     gbind (expect ReadAtom ''invalid special-use attribute'') (\<lambda>attrName.
     gbind (expect (ExpectByte (CHR '')'')) ''expected ')' after attribute'') (\<lambda>_.
     gbind (expect (ExpectByte (CHR '')'')) ''expected ')' after USE list'') (\<lambda>_.
       greturn \<lparr>SpecialUse = BSL # attrName\<rparr>))))))))"

definition handleSpecialUseCreate ::
  "'b backend \<Rightarrow> (string \<Rightarrow> create_options \<Rightarrow> ('b, unit) meth) option \<Rightarrow> 'b handler" where
  "handleSpecialUseCreate be ses ctx =
     with_args ctx ''missing mailbox name''
       (read_arg ReadAString ''invalid mailbox name'' (\<lambda>mailbox inp.
          let done = (\<lambda>_. return_ok ctx ''CREATE completed'');
              create = (\<lambda>options.
                if SpecialUse options \<noteq> []
                then asserting ses (ask (be_Create be mailbox options) done)
                       (\<lambda>CreateSpecialUse. ask (CreateSpecialUse mailbox options) done)
                else ask (be_Create be mailbox options) done)
          in case ReadSP inp of
               (Inl _, _) \<Rightarrow> create \<lparr>SpecialUse = []\<rparr>
             | (Inr _, inp) \<Rightarrow> parsing special_use (\<lambda>options _. create options) inp))"

definition SpecialUse_WrapHandler ::
  "'b backend \<Rightarrow> (string \<Rightarrow> create_options \<Rightarrow> ('b, unit) meth) option \<Rightarrow> string \<Rightarrow> 'b handler \<Rightarrow> 'b handler option" where
  "SpecialUse_WrapHandler be ses name h = map_of [(''CREATE'', handleSpecialUseCreate be ses)] name"

section \<open>UIDONLY\<close>

text \<open>The methods of the session called with a writer that reports UIDs instead of sequence
  numbers (\<open>SetUIDOnly\<close>), and the optional interfaces of the extension and of the ones it uses.\<close>

record 'b session_uidonly =
  uo_Fetch :: "num_set \<Rightarrow> fetch_options \<Rightarrow> ('b, unit) meth"
  uo_Store :: "'b store_meth"
  uo_Expunge :: "num_range list option \<Rightarrow> ('b, unit) meth"
  uo_StoreConditional :: "'b store_meth option"
  uo_Move :: "(num_set \<Rightarrow> string \<Rightarrow> ('b, unit) meth) option"
  uo_EnableUIDOnly :: "('b, unit) meth option"

definition uidOnlyEnabled :: "'b conn \<Rightarrow> bool" where
  "uidOnlyEnabled c = Has (c_enabled c) ''UIDONLY''"

definition errUIDRequired :: go_error where
  "errUIDRequired = ErrBadWithCode ''UIDREQUIRED'' ''message sequence numbers are not allowed when UIDONLY is enabled''"

text \<open>The original handler has written its tagged response when \<open>EnableUIDOnly\<close> is called.\<close>

definition handleUIDOnlyEnable :: "'b session_uidonly \<Rightarrow> 'b handler \<Rightarrow> 'b handler" where
  "handleUIDOnlyEnable ses original ctx c =
     (case original ctx c of
        Finished None c \<Rightarrow>
          if \<not> Has (c_enabled c) ''UIDONLY'' then Finished None c
          else asserting (uo_EnableUIDOnly ses) (Finished None) (\<lambda>EnableUIDOnly. ask EnableUIDOnly (\<lambda>_. Finished None)) c
      | r \<Rightarrow> r)"

definition handleUIDOnlySeqReject :: "'b handler \<Rightarrow> 'b handler" where
  "handleUIDOnlySeqReject original ctx c =
     (if uidOnlyEnabled c \<and> cx_NumKind ctx = NumKindSeq then fail errUIDRequired c else original ctx c)"

text \<open>The guard of FETCH, STORE and MOVE.\<close>

definition uid_only :: "'b handler \<Rightarrow> 'b handler \<Rightarrow> 'b handler" where
  "uid_only original k ctx c =
     (if \<not> uidOnlyEnabled c then original ctx c
      else if cx_NumKind ctx = NumKindSeq then fail errUIDRequired c
      else k ctx c)"

definition read_uidset :: "string \<Rightarrow> (num_set \<Rightarrow> 'b step) \<Rightarrow> 'b step" where
  "read_uidset text k =
     read_arg ReadAtom text (\<lambda>uidSetStr inp.
       case ParseUIDSet uidSetStr of Inl _ \<Rightarrow> fail (ErrBad ''invalid UID set'') | Inr uidSet \<Rightarrow> k (UIDSet uidSet) inp)"

definition uidonly_vanished :: "fetch_options \<Rightarrow> (fetch_options \<Rightarrow> 'b step) \<Rightarrow> 'b step" where
  "uidonly_vanished options k inp c =
     (if inp \<noteq> [] \<and> hd inp = SP
      then (case ReadAtom (tl inp) of
              (Inl _, inp) \<Rightarrow> k options inp c
            | (Inr vanAtom, inp) \<Rightarrow>
                k (if EqualFold vanAtom ''VANISHED'' \<and> Has (c_enabled c) ''QRESYNC'' then options\<lparr>fo_Vanished := True\<rparr> else options) inp c)
      else k options inp c)"

definition handleUIDOnlyFetch :: "options \<Rightarrow> 'b session_uidonly \<Rightarrow> 'b handler \<Rightarrow> 'b handler" where
  "handleUIDOnlyFetch opts ses original =
     uid_only original (\<lambda>ctx.
       with_args ctx ''missing arguments''
         (read_uidset ''invalid UID set'' (\<lambda>uidSet.
          read_arg ReadSP ''missing fetch items'' (\<lambda>_.
          read_loop Condstore_ParseFetchItems (\<lambda>e. ''invalid fetch items: '' @ o_error_text opts (WireError e)) (\<lambda>options.
          fetch_modifier uidonly_vanished options (\<lambda>options _.
          ask (uo_Fetch ses uidSet (options\<lparr>fo_UID := True\<rparr>)) (\<lambda>_. return_ok ctx ''FETCH completed'')))))))"

definition handleUIDOnlyStore :: "'b session_uidonly \<Rightarrow> 'b handler \<Rightarrow> 'b handler" where
  "handleUIDOnlyStore ses original =
     uid_only original (\<lambda>ctx.
       with_args ctx ''missing arguments''
         (read_uidset ''invalid UID set'' (\<lambda>uidSet.
          read_arg ReadSP ''missing store action'' (\<lambda>_.
          store_modifier (\<lambda>options.
          store_action_flags (\<lambda>flags.
            let done = (\<lambda>_. return_ok ctx ''STORE completed'') in
            if UnchangedSince options > 0
            then asserting (uo_StoreConditional ses) (ask (uo_Store ses uidSet flags options) done)
                   (\<lambda>StoreConditional. ask (StoreConditional uidSet flags options) done)
            else ask (uo_Store ses uidSet flags options) done))))))"

definition handleUIDOnlyExpunge :: "'b session_uidonly \<Rightarrow> 'b handler \<Rightarrow> 'b handler" where
  "handleUIDOnlyExpunge ses original ctx c =
     (if \<not> uidOnlyEnabled c then original ctx c
      else expunge_uids ctx (\<lambda>uids. ask (uo_Expunge ses uids) (\<lambda>_. return_ok ctx ''EXPUNGE completed'')) c)"

definition handleUIDOnlyMove :: "'b session_uidonly \<Rightarrow> 'b handler \<Rightarrow> 'b handler" where
  "handleUIDOnlyMove ses original =
     uid_only original (\<lambda>ctx.
       with_args ctx ''missing arguments''
         (read_uidset ''invalid message set'' (\<lambda>uidSet.
          read_arg ReadSP ''missing destination mailbox'' (\<lambda>_.
          read_arg ReadAString ''invalid destination mailbox'' (\<lambda>dest _.
          asserting (uo_Move ses) (fail (ErrNo ''MOVE not supported''))
            (\<lambda>Move. ask (Move uidSet dest) (\<lambda>_. return_ok ctx ''MOVE completed'')))))))"

text \<open>Which of the two parentheses comes first.\<close>

primrec opens_first :: "string \<Rightarrow> bool" where
  "opens_first [] = False"
| "opens_first (b # inner) = (if b = CHR ''('' then True else if b = CHR '')'' then False else opens_first inner)"

definition hasQResyncSeqMatch :: "string \<Rightarrow> bool" where
  "hasQResyncSeqMatch raw =
     (case Index (ToUpper raw) ''QRESYNC'' of
        None \<Rightarrow> False
      | Some idx \<Rightarrow>
          (let rest = drop (idx + length ''QRESYNC'') raw in
           case IndexByte rest (CHR ''('') of None \<Rightarrow> False | Some parenStart \<Rightarrow> opens_first (drop (parenStart + 1) rest)))"

text \<open>The arguments are read as a whole and given to the original handler again.\<close>

definition handleUIDOnlySelect :: "'b handler \<Rightarrow> 'b handler" where
  "handleUIDOnlySelect original ctx c =
     (if \<not> uidOnlyEnabled c \<or> cx_Decoder ctx = None then original ctx c
      else if hasQResyncSeqMatch (the (cx_Decoder ctx))
      then fail (ErrBadWithCode ''UIDREQUIRED'' ''QRESYNC sequence-to-UID mapping not allowed when UIDONLY is enabled'') c
      else original ctx c)"

definition UIDOnly_WrapHandler :: "options \<Rightarrow> 'b session_uidonly \<Rightarrow> string \<Rightarrow> 'b handler \<Rightarrow> 'b handler option" where
  "UIDOnly_WrapHandler opts ses name h =
     map_of
       [(''ENABLE'', handleUIDOnlyEnable ses h), (''FETCH'', handleUIDOnlyFetch opts ses h),
        (''STORE'', handleUIDOnlyStore ses h), (''COPY'', handleUIDOnlySeqReject h), (''SEARCH'', handleUIDOnlySeqReject h),
        (''EXPUNGE'', handleUIDOnlyExpunge ses h), (''MOVE'', handleUIDOnlyMove ses h), (''SORT'', handleUIDOnlySeqReject h),
        (''THREAD'', handleUIDOnlySeqReject h), (''SELECT'', handleUIDOnlySelect h), (''EXAMINE'', handleUIDOnlySelect h)] name"

end
