(* ===== verification/ExtSearch.thy ===== *)
theory ExtSearch
  imports ExtMessages
begin

text \<open>
  The extensions of SEARCH and SORT (\<open>extensions/esearch\<close>, \<open>searchres\<close>, \<open>searchfuzzy\<close>,
  \<open>partial\<close>, \<open>esort\<close>, \<open>contextsearch\<close>, \<open>multisearch\<close>). Each has its own copy of the parser of
  the RETURN options and of the writer of the ESEARCH response; the copies that have the same
  text share a definition.
\<close>

section \<open>Shared parts\<close>

type_synonym 'b search_meth = "num_kind \<Rightarrow> search_criteria \<Rightarrow> search_options \<Rightarrow> ('b, search_data) meth"

text \<open>Which options beyond the five standard ones a copy knows.\<close>

datatype return_kind = Standard | WithPartial | WithContext

definition parsePartialRange :: "string \<Rightarrow> string + int \<times> u32" where
  "parsePartialRange s =
     (case IndexByte (rev s) (CHR '':'') of
        None \<Rightarrow> Inl ''missing ':' separator''
      | Some i \<Rightarrow>
          (let idx = length s - 1 - i;
               offsetStr = take idx s;
               countStr = drop (idx + 1) s
           in case ParseInt64 offsetStr of
                None \<Rightarrow> Inl (''invalid offset: '' @ offsetStr)
              | Some offset \<Rightarrow>
                  if offset < - (2 ^ 31) \<or> offset \<ge> 2 ^ 31 then Inl (''invalid offset: '' @ offsetStr)
                  else if offset = 0 then Inl ''offset must not be zero''
                  else (case ParseUint 32 countStr of
                          None \<Rightarrow> Inl (''invalid count: '' @ countStr)
                        | Some n \<Rightarrow> if n = 0 then Inl ''count must be positive'' else Inr (offset, of_nat n))))"

definition return_option :: "return_kind \<Rightarrow> string \<Rightarrow> search_options \<Rightarrow> search_options gparser" where
  "return_option kind atom options =
     (let upper = ToUpper atom in
      if upper = ''MIN'' then greturn (options\<lparr>sr_ReturnMin := True\<rparr>)
      else if upper = ''MAX'' then greturn (options\<lparr>sr_ReturnMax := True\<rparr>)
      else if upper = ''ALL'' then greturn (options\<lparr>sr_ReturnAll := True\<rparr>)
      else if upper = ''COUNT'' then greturn (options\<lparr>sr_ReturnCount := True\<rparr>)
      else if upper = ''SAVE'' then greturn (options\<lparr>sr_ReturnSave := True\<rparr>)
      else if upper = ''PARTIAL'' \<and> kind = WithPartial
      then gbind (expect ReadSP ''missing PARTIAL range'') (\<lambda>_.
           gbind (expect ReadAtom ''invalid PARTIAL range'') (\<lambda>rangeAtom.
             case parsePartialRange rangeAtom of
               Inl text \<Rightarrow> gfail (ErrBad (''invalid PARTIAL range: '' @ text))
             | Inr rng \<Rightarrow> greturn (options\<lparr>sr_ReturnPartial := Some rng\<rparr>)))
      else if upper = ''UPDATE'' \<and> kind = WithContext then greturn (options\<lparr>sr_ReturnUpdate := True\<rparr>)
      else if upper = ''CONTEXT'' \<and> kind = WithContext then greturn (options\<lparr>sr_ReturnContext := True\<rparr>)
      else gfail (ErrBad (''unknown RETURN option: '' @ atom)))"

lemma shrinking_if: "shrinking p \<Longrightarrow> shrinking q \<Longrightarrow> shrinking (if b then p else q)"
  by simp

lemma shrinking_return_option: "shrinking (return_option kind atom options)"
  unfolding return_option_def Let_def
  by (intro shrinking_if shrinking_rules) (auto intro!: shrinking_rules split: sum.split)

function return_loop :: "return_kind \<Rightarrow> search_options \<Rightarrow> search_options gparser" where
  "return_loop kind options inp =
     (case ReadAtom inp of
        (Inl _, inp1) \<Rightarrow> (Inl (ErrBad ''invalid RETURN option''), inp1)
      | (Inr atom, inp1) \<Rightarrow>
     (case return_option kind atom options inp1 of
        (Inl e, inp2) \<Rightarrow> (Inl e, inp2)
      | (Inr options', inp2) \<Rightarrow>
          if inp2 = [] then (Inl (ErrBad ''unexpected end in RETURN options''), [])
          else if hd inp2 = CHR '')'' then (Inr options', tl inp2)
          else case ReadSP inp2 of
                 (Inl _, inp3) \<Rightarrow> (Inl (ErrBad ''expected SP between RETURN options''), inp3)
               | (Inr _, inp3) \<Rightarrow> return_loop kind options' inp3))"
  by pat_completeness auto
termination
proof (relation "measure (\<lambda>(_, _, inp). length inp)", simp)
  fix kind options inp r inp1 atom p inp2 options' q inp3 u
  assume a: "(r, inp1) = ReadAtom inp" "r = Inr atom" "(p, inp2) = return_option kind atom options inp1"
    "(q, inp3) = ReadSP inp2"
  have "length inp1 < length inp" using a(1,2) by (metis atom_shorter)
  moreover have "length inp2 \<le> length inp1" using shrinkingD [OF shrinking_return_option] a(3) by metis
  moreover have "length inp3 \<le> length inp2" using keeps_suffix_length [OF keeps_suffix_ReadSP] a(4) by metis
  ultimately show "((kind, options', inp3), kind, options, inp) \<in> measure (\<lambda>(_, _, inp). length inp)" by simp
qed

declare return_loop.simps [simp del]

definition return_options :: "return_kind \<Rightarrow> search_options gparser" where
  "return_options kind =
     gbind (expect (ExpectByte (CHR ''('')) ''expected '(' for RETURN options'') (\<lambda>_.
     gbind (expect PeekByte ''unexpected end in RETURN options'') (\<lambda>b.
       if b = CHR '')''
       then gbind (expect (ExpectByte (CHR '')'')) ''expected ')' for RETURN options'') (\<lambda>_. greturn zero_search_options)
       else return_loop kind zero_search_options))"

text \<open>The copies of the extensions.\<close>

definition parseReturnOptions :: "search_options gparser" where
  "parseReturnOptions = return_options Standard"

definition Fuzzy_parseReturnOptions :: "search_options gparser" where
  "Fuzzy_parseReturnOptions = return_options Standard"

definition SearchRes_parseReturnOptions :: "search_options gparser" where
  "SearchRes_parseReturnOptions = return_options Standard"

definition ESort_parseReturnOptions :: "search_options gparser" where
  "ESort_parseReturnOptions = return_options Standard"

definition Multi_parseReturnOptions :: "search_options gparser" where
  "Multi_parseReturnOptions = return_options Standard"

definition Partial_parseReturnOptions :: "search_options gparser" where
  "Partial_parseReturnOptions = return_options WithPartial"

definition Context_parseReturnOptions :: "search_options gparser" where
  "Context_parseReturnOptions = return_options WithContext"

definition hasAnyReturnOption :: "search_options \<Rightarrow> bool" where
  "hasAnyReturnOption options \<longleftrightarrow>
     sr_ReturnMin options \<or> sr_ReturnMax options \<or> sr_ReturnAll options \<or> sr_ReturnCount options \<or> sr_ReturnSave options"

definition esearch_results :: "search_data \<Rightarrow> search_options \<Rightarrow> string" where
  "esearch_results data options =
     (if sd_Min data > 0 \<or> sd_Max data > 0 \<or> sd_All data \<noteq> None \<or> sd_Count data > 0
      then (if sr_ReturnMin options \<and> sd_Min data > 0 then enc_SP @ enc_Atom ''MIN'' @ enc_SP @ enc_Number (sd_Min data) else []) @
           (if sr_ReturnMax options \<and> sd_Max data > 0 then enc_SP @ enc_Atom ''MAX'' @ enc_SP @ enc_Number (sd_Max data) else []) @
           (case sd_All data of
              Some ss \<Rightarrow> if sr_ReturnAll options then enc_SP @ enc_Atom ''ALL'' @ enc_SP @ enc_Atom (SeqSet_String ss) else []
            | None \<Rightarrow> []) @
           (if sr_ReturnCount options then enc_SP @ enc_Atom ''COUNT'' @ enc_SP @ enc_Number (sd_Count data) else [])
      else [])"

definition esearch_modseq :: "search_data \<Rightarrow> string" where
  "esearch_modseq data =
     (if sd_ModSeq data > 0 then enc_SP @ enc_Atom ''MODSEQ'' @ enc_SP @ enc_Number64 (sd_ModSeq data) else [])"

definition esearch_head :: "command_context \<Rightarrow> string" where
  "esearch_head ctx =
     enc_Star @ enc_Atom ''ESEARCH'' @ enc_SP @
     enc_BeginList @ enc_Atom ''TAG'' @ enc_SP @ enc_QuotedString (cx_Tag ctx) @ enc_EndList @
     (if cx_NumKind ctx = NumKindUID then enc_SP @ enc_Atom ''UID'' else [])"

definition writeESearchResponse :: "command_context \<Rightarrow> search_data \<Rightarrow> search_options \<Rightarrow> string" where
  "writeESearchResponse ctx data options =
     esearch_head ctx @ esearch_results data options @ esearch_modseq data @ enc_CRLF"

definition Fuzzy_writeESearchResponse :: "command_context \<Rightarrow> search_data \<Rightarrow> search_options \<Rightarrow> string" where
  "Fuzzy_writeESearchResponse = writeESearchResponse"

definition SearchRes_writeESearchResponse :: "command_context \<Rightarrow> search_data \<Rightarrow> search_options \<Rightarrow> string" where
  "SearchRes_writeESearchResponse = writeESearchResponse"

definition ESort_writeESearchResponse :: "command_context \<Rightarrow> search_data \<Rightarrow> search_options \<Rightarrow> string" where
  "ESort_writeESearchResponse = writeESearchResponse"

section \<open>ESEARCH\<close>

text \<open>The switch over the keys has the same text as the one of \<open>server/commands/search.go\<close>, but
  the loop and the switch are two functions that call each other.\<close>

definition ParseSearchCriteria ::
  "(string \<Rightarrow> string \<Rightarrow> time option) \<Rightarrow> search_criteria \<Rightarrow> string \<Rightarrow> search_criteria parsed option" where
  "ParseSearchCriteria = parseSearchCriteria"

definition ParseSearchCriterion ::
  "(string \<Rightarrow> string \<Rightarrow> time option) \<Rightarrow> string \<Rightarrow> search_criteria \<Rightarrow> string \<Rightarrow> search_criteria parsed option" where
  "ParseSearchCriterion pt key crit inp =
     (if ToUpper key = ''NOT''
      then (case ReadSP inp of
              (Inl e, inp) \<Rightarrow> Some (Inl (WireError e), inp)
            | (Inr _, inp) \<Rightarrow>
                Option.bind (ParseSearchCriteria pt zero_criteria inp) (\<lambda>r.
                  Some (map_sum (\<lambda>e. e) (add_not crit) (fst r), snd r)))
      else Some (on_base (search_key pt key) crit inp))"

lemma ParseSearchCriteria_loop:
  "ParseSearchCriteria pt crit inp =
     (if inp = [] \<or> hd inp = CHR '')'' then Some (Inr crit, inp)
      else case ReadAtom inp of
             (Inl _, inp) \<Rightarrow> Some (Inr crit, inp)
           | (Inr key, inp) \<Rightarrow>
               Option.bind (ParseSearchCriterion pt key crit inp) (\<lambda>r.
                 case r of
                   (Inl e, inp) \<Rightarrow> Some (Inl e, inp)
                 | (Inr crit, inp) \<Rightarrow>
                     (case ReadSP inp of
                        (Inl _, inp) \<Rightarrow> Some (Inr crit, inp)
                      | (Inr _, inp) \<Rightarrow> ParseSearchCriteria pt crit inp)))"
  unfolding ParseSearchCriterion_def ParseSearchCriteria_def parseSearchCriteria.simps [of pt crit inp]
  by (auto split: prod.split sum.split intro!: arg_cong [where f = "Option.bind _"])

definition read_criteria ::
  "options \<Rightarrow> (string \<Rightarrow> search_criteria parsed option) \<Rightarrow> (search_criteria \<Rightarrow> 'b step) \<Rightarrow> 'b step" where
  "read_criteria opts p k inp =
     (case p inp of
        None \<Rightarrow> (\<lambda>_. Hangs)
      | Some (Inl e, _) \<Rightarrow> fail (ErrBad (''invalid search criteria: '' @ o_error_text opts e))
      | Some (Inr crit, rest) \<Rightarrow> k crit rest)"

text \<open>The arguments of SEARCH: the RETURN options if there are any, and the criteria.\<close>

definition search_args ::
  "options \<Rightarrow> search_options gparser \<Rightarrow>
   (string \<Rightarrow> search_criteria \<Rightarrow> string \<Rightarrow> search_criteria parsed option) \<Rightarrow>
   (search_criteria \<Rightarrow> string \<Rightarrow> search_criteria parsed option) \<Rightarrow>
   (search_options option \<Rightarrow> search_criteria \<Rightarrow> 'b cont) \<Rightarrow> 'b step" where
  "search_args opts ret criterion criteria k =
     read_arg ReadAtom ''missing search criteria'' (\<lambda>first.
       if EqualFold first ''RETURN''
       then read_arg ReadSP ''missing RETURN options'' (\<lambda>_.
            parsing ret (\<lambda>options.
            read_arg ReadSP ''missing search criteria after RETURN'' (\<lambda>_.
            read_criteria opts (criteria zero_criteria) (\<lambda>crit _. k (Some options) crit))))
       else read_criteria opts (criterion first zero_criteria) (\<lambda>crit inp.
              case ReadSP inp of
                (Inl _, _) \<Rightarrow> k None crit
              | (Inr _, inp) \<Rightarrow> read_criteria opts (criteria crit) (\<lambda>crit _. k None crit) inp))"

text \<open>SEARCH with RETURN goes to \<open>SearchExtended\<close> when the session has it.\<close>

definition search_extended ::
  "'b backend \<Rightarrow> 'b search_meth option \<Rightarrow> command_context \<Rightarrow> search_criteria \<Rightarrow> search_options \<Rightarrow> (search_data \<Rightarrow> 'b cont) \<Rightarrow> 'b cont" where
  "search_extended be ext ctx crit options k =
     asserting ext (ask (be_Search be (cx_NumKind ctx) crit options) k)
       (\<lambda>SearchExtended. ask (SearchExtended (cx_NumKind ctx) crit options) k)"

definition handleESearch :: "options \<Rightarrow> 'b backend \<Rightarrow> 'b search_meth option \<Rightarrow> 'b handler" where
  "handleESearch opts be ext ctx =
     with_args ctx ''missing search criteria''
       (search_args opts parseReturnOptions (ParseSearchCriterion (o_parse_time opts)) (ParseSearchCriteria (o_parse_time opts))
          (\<lambda>return crit.
             let reply = (\<lambda>line. answer ctx line ''SEARCH completed'') in
             case return of
               Some options \<Rightarrow>
                 search_extended be ext ctx crit options (\<lambda>data.
                   reply (if hasAnyReturnOption options then writeESearchResponse ctx data options
                          else search_response (cx_NumKind ctx) data))
             | None \<Rightarrow>
                 ask (be_Search be (cx_NumKind ctx) crit zero_search_options) (\<lambda>data.
                   reply (search_response (cx_NumKind ctx) data))))"

definition ESearch_WrapHandler ::
  "options \<Rightarrow> 'b backend \<Rightarrow> 'b search_meth option \<Rightarrow> string \<Rightarrow> 'b handler \<Rightarrow> 'b handler option" where
  "ESearch_WrapHandler opts be ext name h = map_of [(''SEARCH'', handleESearch opts be ext)] name"

section \<open>SEARCH=FUZZY\<close>

definition set_fuzzy :: "search_criteria \<Rightarrow> search_criteria" where
  "set_fuzzy crit = (case crit of Criteria c ors nots \<Rightarrow> Criteria (c\<lparr>sc_Fuzzy := True\<rparr>) ors nots)"

definition is_fuzzy :: "search_criteria \<Rightarrow> bool" where
  "is_fuzzy crit = (case crit of Criteria c ors nots \<Rightarrow> sc_Fuzzy c)"

definition parseFuzzySearchCriterion ::
  "(string \<Rightarrow> string \<Rightarrow> time option) \<Rightarrow> string \<Rightarrow> search_criteria \<Rightarrow> string \<Rightarrow> search_criteria parsed option" where
  "parseFuzzySearchCriterion pt key crit inp =
     (if EqualFold key ''FUZZY''
      then (case ReadSP inp of
              (Inl _, inp) \<Rightarrow> Some (Inl (WireError (CallbackError ''expected search key after FUZZY'')), inp)
            | (Inr _, inp) \<Rightarrow>
                (case ReadAtom inp of
                   (Inl _, inp) \<Rightarrow> Some (Inl (WireError (CallbackError ''expected search key after FUZZY'')), inp)
                 | (Inr next, inp) \<Rightarrow> ParseSearchCriterion pt next (set_fuzzy crit) inp))
      else ParseSearchCriterion pt key crit inp)"

partial_function (option) parseFuzzySearchCriteria ::
  "(string \<Rightarrow> string \<Rightarrow> time option) \<Rightarrow> search_criteria \<Rightarrow> string \<Rightarrow> search_criteria parsed option" where
  "parseFuzzySearchCriteria pt crit inp =
     (if inp = [] \<or> hd inp = CHR '')'' then Some (Inr crit, inp)
      else case ReadAtom inp of
             (Inl _, inp) \<Rightarrow> Some (Inr crit, inp)
           | (Inr key, inp) \<Rightarrow>
               Option.bind (parseFuzzySearchCriterion pt key crit inp) (\<lambda>r.
                 case r of
                   (Inl e, inp) \<Rightarrow> Some (Inl e, inp)
                 | (Inr crit, inp) \<Rightarrow>
                     (case ReadSP inp of
                        (Inl _, inp) \<Rightarrow> Some (Inr crit, inp)
                      | (Inr _, inp) \<Rightarrow> parseFuzzySearchCriteria pt crit inp)))"

definition handleFuzzySearch :: "options \<Rightarrow> 'b backend \<Rightarrow> 'b search_meth option \<Rightarrow> 'b search_meth option \<Rightarrow> 'b handler" where
  "handleFuzzySearch opts be fuzzy ext ctx =
     with_args ctx ''missing search criteria''
       (search_args opts Fuzzy_parseReturnOptions (parseFuzzySearchCriterion (o_parse_time opts)) (parseFuzzySearchCriteria (o_parse_time opts))
          (\<lambda>return crit.
             let options = (case return of Some options \<Rightarrow> options | None \<Rightarrow> zero_search_options);
                 reply = (\<lambda>data. answer ctx
                   (if return \<noteq> None \<and> hasAnyReturnOption options then Fuzzy_writeESearchResponse ctx data options
                    else search_response (cx_NumKind ctx) data) ''SEARCH completed'');
                 plain = (if return \<noteq> None then search_extended be ext ctx crit options reply
                          else ask (be_Search be (cx_NumKind ctx) crit options) reply)
             in if is_fuzzy crit
                then asserting fuzzy plain (\<lambda>SearchFuzzy. ask (SearchFuzzy (cx_NumKind ctx) crit options) reply)
                else plain))"

definition Fuzzy_WrapHandler ::
  "options \<Rightarrow> 'b backend \<Rightarrow> 'b search_meth option \<Rightarrow> 'b search_meth option \<Rightarrow> string \<Rightarrow> 'b handler \<Rightarrow> 'b handler option" where
  "Fuzzy_WrapHandler opts be fuzzy ext name h = map_of [(''SEARCH'', handleFuzzySearch opts be fuzzy ext)] name"

section \<open>SEARCHRES\<close>

record 'b session_searchres =
  SaveSearchResult :: "search_data \<Rightarrow> ('b, unit) meth"
  GetSearchResult :: "('b, num_range list option) meth"

text \<open>The parser asks the session for the saved result, so it works on the connection.\<close>

datatype 'b crit_parse = Parsed search_criteria string "'b conn" | ParseFailed string "'b conn" | ParseCrashed panic

definition set_seqnum :: "search_criteria \<Rightarrow> num_range list \<Rightarrow> search_criteria" where
  "set_seqnum crit ss = (case crit of Criteria c ors nots \<Rightarrow> Criteria (c\<lparr>sc_SeqNum := Some ss\<rparr>) ors nots)"

definition parseSearchCriterionWithDollar ::
  "options \<Rightarrow> 'b session_searchres option \<Rightarrow> string \<Rightarrow> search_criteria \<Rightarrow> string \<Rightarrow> 'b conn \<Rightarrow> 'b crit_parse option" where
  "parseSearchCriterionWithDollar opts ses key crit inp c =
     (if key = ''$''
      then (case (c_session c, ses) of
              (Some b, Some s) \<Rightarrow>
                (case GetSearchResult s b of
                   (r, out, b') \<Rightarrow>
                     (let c = c\<lparr>c_session := Some b', c_output := c_output c @ out\<rparr>
                      in Some (case r of
                                 Ret None \<Rightarrow> Parsed crit inp c
                               | Ret (Some savedSet) \<Rightarrow> Parsed (set_seqnum crit savedSet) inp c
                               | Err e \<Rightarrow> ParseFailed (go_error_text e) c
                               | Die p \<Rightarrow> ParseCrashed p)))
            | _ \<Rightarrow> Some (ParseFailed ''no saved search result'' c))
      else (case ParseSearchCriterion (o_parse_time opts) key crit inp of
              None \<Rightarrow> None
            | Some (Inl e, _) \<Rightarrow> Some (ParseFailed (o_error_text opts e) c)
            | Some (Inr crit, inp) \<Rightarrow> Some (Parsed crit inp c)))"

partial_function (option) parseSearchCriteriaWithDollar ::
  "options \<Rightarrow> 'b session_searchres option \<Rightarrow> search_criteria \<Rightarrow> string \<Rightarrow> 'b conn \<Rightarrow> 'b crit_parse option" where
  "parseSearchCriteriaWithDollar opts ses crit inp c =
     (if inp = [] \<or> hd inp = CHR '')'' then Some (Parsed crit inp c)
      else case ReadAtom inp of
             (Inl _, inp) \<Rightarrow> Some (Parsed crit inp c)
           | (Inr key, inp) \<Rightarrow>
               Option.bind (parseSearchCriterionWithDollar opts ses key crit inp c) (\<lambda>r.
                 case r of
                   Parsed crit inp c \<Rightarrow>
                     (case ReadSP inp of
                        (Inl _, inp) \<Rightarrow> Some (Parsed crit inp c)
                      | (Inr _, inp) \<Rightarrow> parseSearchCriteriaWithDollar opts ses crit inp c)
                 | ParseFailed e c \<Rightarrow> Some (ParseFailed e c)
                 | ParseCrashed p \<Rightarrow> Some (ParseCrashed p)))"

definition with_criteria :: "'b crit_parse option \<Rightarrow> (search_criteria \<Rightarrow> 'b step) \<Rightarrow> 'b result" where
  "with_criteria r k =
     (case r of
        None \<Rightarrow> Hangs
      | Some (Parsed crit inp c) \<Rightarrow> k crit inp c
      | Some (ParseFailed text c) \<Rightarrow> fail (ErrBad (''invalid search criteria: '' @ text)) c
      | Some (ParseCrashed p) \<Rightarrow> Crashed p)"

definition searchres_run ::
  "'b backend \<Rightarrow> 'b search_meth option \<Rightarrow> 'b session_searchres option \<Rightarrow> command_context \<Rightarrow> search_options option \<Rightarrow>
   search_criteria \<Rightarrow> 'b cont" where
  "searchres_run be ext ses ctx return crit =
     (let options = (case return of Some options \<Rightarrow> options | None \<Rightarrow> zero_search_options);
          reply = (\<lambda>data. answer ctx
            (if return \<noteq> None \<and> hasAnyReturnOption options then SearchRes_writeESearchResponse ctx data options
             else search_response (cx_NumKind ctx) data) ''SEARCH completed'');
          save = (\<lambda>data.
            if sr_ReturnSave options
            then asserting ses (reply data) (\<lambda>s. ask (SaveSearchResult s data) (\<lambda>_. reply data))
            else reply data)
      in if return \<noteq> None then search_extended be ext ctx crit options save
         else ask (be_Search be (cx_NumKind ctx) crit options) save)"

definition handleSearchRes ::
  "options \<Rightarrow> 'b backend \<Rightarrow> 'b search_meth option \<Rightarrow> 'b session_searchres option \<Rightarrow> 'b handler" where
  "handleSearchRes opts be ext ses ctx =
     (let run = searchres_run be ext ses ctx in
      with_args ctx ''missing search criteria''
        (read_arg ReadAtom ''missing search criteria'' (\<lambda>first.
           if EqualFold first ''RETURN''
           then read_arg ReadSP ''missing RETURN options'' (\<lambda>_.
                parsing SearchRes_parseReturnOptions (\<lambda>options.
                read_arg ReadSP ''missing search criteria after RETURN'' (\<lambda>_ inp c.
                with_criteria (parseSearchCriteriaWithDollar opts ses zero_criteria inp c) (\<lambda>crit _. run (Some options) crit))))
           else (\<lambda>inp c.
                with_criteria (parseSearchCriterionWithDollar opts ses first zero_criteria inp c) (\<lambda>crit inp c.
                  case ReadSP inp of
                    (Inl _, _) \<Rightarrow> run None crit c
                  | (Inr _, inp) \<Rightarrow>
                      with_criteria (parseSearchCriteriaWithDollar opts ses crit inp c) (\<lambda>crit _. run None crit))))))"

definition resolveDollar :: "'b session_searchres option \<Rightarrow> command_context \<Rightarrow> (num_set \<Rightarrow> 'b cont) \<Rightarrow> 'b cont" where
  "resolveDollar ses ctx k =
     (let missing = fail (ErrBad ''no saved search result'') in
      asserting ses missing (\<lambda>s.
      ask (GetSearchResult s) (\<lambda>saved.
        case saved of
          None \<Rightarrow> missing
        | Some ss \<Rightarrow>
            if ss = [] then missing
            else if cx_NumKind ctx = NumKindUID then k (UIDSet ss) else k (SeqSet ss))))"

definition isDollarCommand :: "string option \<Rightarrow> bool" where
  "isDollarCommand dec = (case dec of None \<Rightarrow> False | Some inp \<Rightarrow> inp \<noteq> [] \<and> hd inp = CHR ''$'')"

text \<open>The handlers of FETCH, STORE, COPY and MOVE begin alike. An argument that begins with a
  dollar sign and is longer is gone when the original handler runs.\<close>

definition dollar_command ::
  "'b session_searchres option \<Rightarrow> (num_set \<Rightarrow> 'b step) \<Rightarrow> 'b handler \<Rightarrow> 'b handler" where
  "dollar_command ses k original ctx =
     (if \<not> isDollarCommand (cx_Decoder ctx) then original ctx
      else case ReadAtom (the (cx_Decoder ctx)) of
             (Inl _, inp) \<Rightarrow> original (ctx\<lparr>cx_Decoder := Some inp\<rparr>)
           | (Inr atom, inp) \<Rightarrow>
               if atom \<noteq> ''$'' then original (ctx\<lparr>cx_Decoder := Some inp\<rparr>)
               else resolveDollar ses ctx (\<lambda>numSet. k numSet inp))"

definition handleDollarFetch :: "options \<Rightarrow> 'b backend \<Rightarrow> 'b session_searchres option \<Rightarrow> 'b handler \<Rightarrow> 'b handler" where
  "handleDollarFetch opts be ses original ctx =
     dollar_command ses (\<lambda>numSet.
       read_arg ReadSP ''missing fetch items'' (\<lambda>_.
       read_loop Condstore_ParseFetchItems (\<lambda>e. ''invalid fetch items: '' @ o_error_text opts (WireError e)) (\<lambda>options.
       fetch_modifier no_vanished options (\<lambda>options _.
       (let options = (if cx_NumKind ctx = NumKindUID then options\<lparr>fo_UID := True\<rparr> else options)
        in ask (be_Fetch be numSet options) (\<lambda>_. return_ok ctx ''FETCH completed'')))))) original ctx"

definition handleDollarStore :: "'b backend \<Rightarrow> 'b session_searchres option \<Rightarrow> 'b handler \<Rightarrow> 'b handler" where
  "handleDollarStore be ses original ctx =
     dollar_command ses (\<lambda>numSet.
       read_arg ReadSP ''missing store action'' (\<lambda>_.
       store_modifier (\<lambda>options.
       store_action_flags (\<lambda>flags.
       ask (be_Store be numSet flags options) (\<lambda>_. return_ok ctx ''STORE completed''))))) original ctx"

definition handleDollarCopy :: "'b backend \<Rightarrow> 'b session_searchres option \<Rightarrow> 'b handler \<Rightarrow> 'b handler" where
  "handleDollarCopy be ses original ctx =
     dollar_command ses (\<lambda>numSet.
       read_arg ReadSP ''missing destination mailbox'' (\<lambda>_.
       read_arg ReadAString ''invalid destination mailbox'' (\<lambda>dest _.
       ask (be_Copy be numSet dest) (copy_ok ctx)))) original ctx"

definition handleDollarMove ::
  "(num_set \<Rightarrow> string \<Rightarrow> ('b, unit) meth) option \<Rightarrow> 'b session_searchres option \<Rightarrow> 'b handler \<Rightarrow> 'b handler" where
  "handleDollarMove move ses original ctx =
     dollar_command ses (\<lambda>numSet.
       read_arg ReadSP ''missing destination mailbox'' (\<lambda>_.
       read_arg ReadAString ''invalid destination mailbox'' (\<lambda>dest _.
       asserting move (fail (ErrNo ''MOVE not supported''))
         (\<lambda>Move. ask (Move numSet dest) (\<lambda>_. return_ok ctx ''MOVE completed''))))) original ctx"

definition SearchRes_WrapHandler ::
  "options \<Rightarrow> 'b backend \<Rightarrow> 'b search_meth option \<Rightarrow> 'b session_searchres option \<Rightarrow>
   (num_set \<Rightarrow> string \<Rightarrow> ('b, unit) meth) option \<Rightarrow> string \<Rightarrow> 'b handler \<Rightarrow> 'b handler option" where
  "SearchRes_WrapHandler opts be ext ses move name h =
     map_of
       [(''SEARCH'', handleSearchRes opts be ext ses), (''FETCH'', handleDollarFetch opts be ses h),
        (''STORE'', handleDollarStore be ses h), (''COPY'', handleDollarCopy be ses h),
        (''MOVE'', handleDollarMove move ses h)] name"

section \<open>PARTIAL\<close>

definition Partial_hasAnyReturnOption :: "search_options \<Rightarrow> bool" where
  "Partial_hasAnyReturnOption options \<longleftrightarrow> hasAnyReturnOption options \<or> sr_ReturnPartial options \<noteq> None"

definition partial_results :: "search_data \<Rightarrow> search_options \<Rightarrow> string" where
  "partial_results data options =
     (case sr_ReturnPartial options of
        None \<Rightarrow> []
      | Some (offset, cnt) \<Rightarrow>
          enc_SP @ enc_Atom ''PARTIAL'' @ enc_SP @ enc_BeginList @
          enc_Atom (FormatInt offset @ '':'' @ FormatUint (unat cnt)) @
          (case sd_Partial data of
             Some part \<Rightarrow>
               enc_SP @ enc_Number (sp_Total part) @
               (if length (sp_UIDs part) > 0 then enc_SP @ enc_Atom (UIDSet_String (UIDSet_AddNum [] (sp_UIDs part))) else [])
           | None \<Rightarrow> enc_SP @ enc_Number 0) @
          enc_EndList)"

definition Partial_writeESearchResponse :: "command_context \<Rightarrow> search_data \<Rightarrow> search_options \<Rightarrow> string" where
  "Partial_writeESearchResponse ctx data options =
     esearch_head ctx @ esearch_results data options @ partial_results data options @ esearch_modseq data @ enc_CRLF"

definition handlePartialSearch :: "options \<Rightarrow> 'b backend \<Rightarrow> 'b search_meth option \<Rightarrow> 'b search_meth option \<Rightarrow> 'b handler" where
  "handlePartialSearch opts be partial ext ctx =
     with_args ctx ''missing search criteria''
       (search_args opts Partial_parseReturnOptions (ParseSearchCriterion (o_parse_time opts)) (ParseSearchCriteria (o_parse_time opts))
          (\<lambda>return crit.
             case return of
               None \<Rightarrow>
                 ask (be_Search be (cx_NumKind ctx) crit zero_search_options) (\<lambda>data.
                   answer ctx (search_response (cx_NumKind ctx) data) ''SEARCH completed'')
             | Some options \<Rightarrow>
                 (let reply = (\<lambda>data. answer ctx
                        (if Partial_hasAnyReturnOption options then Partial_writeESearchResponse ctx data options
                         else search_response (cx_NumKind ctx) data) ''SEARCH completed'');
                      extended = search_extended be ext ctx crit options reply
                  in if sr_ReturnPartial options \<noteq> None
                     then asserting partial extended (\<lambda>SearchPartial. ask (SearchPartial (cx_NumKind ctx) crit options) reply)
                     else extended)))"

type_synonym 'b esort_meth =
  "num_kind \<Rightarrow> sort_criterion list \<Rightarrow> search_criteria \<Rightarrow> search_options \<Rightarrow> ('b, search_data) meth"

text \<open>What follows the RETURN options of SORT: the keys, the charset, the criteria.\<close>

definition sort_args ::
  "options \<Rightarrow> (search_criteria \<Rightarrow> string \<Rightarrow> search_criteria parsed option) \<Rightarrow> (wire_error \<Rightarrow> string) \<Rightarrow>
   (sort_criterion list \<Rightarrow> search_criteria \<Rightarrow> 'b cont) \<Rightarrow> 'b step" where
  "sort_args opts criteria_parser text k =
     read_loop sort_criteria text (\<lambda>criteria.
       if length criteria = 0 then (\<lambda>_. fail (ErrBad ''empty sort criteria''))
       else read_arg ReadSP ''expected charset'' (\<lambda>_.
            read_arg ReadAtom ''invalid charset'' (\<lambda>_ inp.
              case ReadSP inp of
                (Inl _, _) \<Rightarrow> k criteria zero_criteria
              | (Inr _, inp) \<Rightarrow>
                  read_criteria opts (criteria_parser zero_criteria) (\<lambda>crit _. k criteria crit) inp)))"

definition handlePartialSort :: "options \<Rightarrow> 'b esort_meth option \<Rightarrow> 'b handler \<Rightarrow> 'b handler" where
  "handlePartialSort opts ses original ctx =
     (case cx_Decoder ctx of
        None \<Rightarrow> original ctx
      | Some inp \<Rightarrow>
          if inp = [] \<or> hd inp = CHR ''('' then original ctx
          else case ReadAtom inp of
                 (Inl _, inp) \<Rightarrow> original (ctx\<lparr>cx_Decoder := Some inp\<rparr>)
               | (Inr atom, inp) \<Rightarrow>
                   if \<not> EqualFold atom ''RETURN'' then fail (ErrBad ''expected RETURN or sort criteria list'')
                   else read_arg ReadSP ''missing RETURN options'' (\<lambda>_.
                        parsing Partial_parseReturnOptions (\<lambda>options.
                        read_arg ReadSP ''missing sort criteria'' (\<lambda>_.
                        sort_args opts (ParseSearchCriteria (o_parse_time opts)) (\<lambda>e. ''invalid sort criteria: '' @ o_error_text opts (WireError e)) (\<lambda>criteria crit.
                        asserting ses (fail (ErrNo ''SORT with RETURN not supported'')) (\<lambda>SortExtended.
                        ask (SortExtended (cx_NumKind ctx) criteria crit options) (\<lambda>data.
                        answer ctx (Partial_writeESearchResponse ctx data options) ''SORT completed'')))))) inp)"

definition Partial_WrapHandler ::
  "options \<Rightarrow> 'b backend \<Rightarrow> 'b search_meth option \<Rightarrow> 'b search_meth option \<Rightarrow> 'b esort_meth option \<Rightarrow> string \<Rightarrow>
   'b handler \<Rightarrow> 'b handler option" where
  "Partial_WrapHandler opts be partial ext srt name h =
     map_of [(''SEARCH'', handlePartialSearch opts be partial ext), (''SORT'', handlePartialSort opts srt h)] name"

section \<open>ESORT\<close>

definition ESort_parseSearchCriteria ::
  "(string \<Rightarrow> string \<Rightarrow> time option) \<Rightarrow> search_criteria \<Rightarrow> string \<Rightarrow> search_criteria parsed option" where
  "ESort_parseSearchCriteria = ParseSearchCriteria"

definition ESort_parseSearchCriterion ::
  "(string \<Rightarrow> string \<Rightarrow> time option) \<Rightarrow> string \<Rightarrow> search_criteria \<Rightarrow> string \<Rightarrow> search_criteria parsed option" where
  "ESort_parseSearchCriterion = ParseSearchCriterion"

lemmas ESort_parseSearchCriteria_loop =
  ParseSearchCriteria_loop [folded ESort_parseSearchCriteria_def ESort_parseSearchCriterion_def]

definition zero_search_data :: search_data where
  "zero_search_data =
     \<lparr>sd_AllSeqNums = [], sd_AllUIDs = [], sd_Min = 0, sd_Max = 0, sd_All = None, sd_Count = 0, sd_ModSeq = 0,
      sd_Partial = None, sd_AddTo = [], sd_RemoveFrom = []\<rparr>"

definition sortDataToSearchData :: "u32 list \<Rightarrow> search_data" where
  "sortDataToSearchData nums =
     (case nums of
        [] \<Rightarrow> zero_search_data
      | n # ns \<Rightarrow>
          zero_search_data\<lparr>
            sd_AllSeqNums := nums, sd_Count := of_nat (length nums), sd_Min := foldl min n ns, sd_Max := foldl max n ns,
            sd_All := (case ParseSeqSet (FormatUint (unat n) @ concat (map (\<lambda>n. CHR '','' # FormatUint (unat n)) ns)) of
                         Inl _ \<Rightarrow> None
                       | Inr seqSet \<Rightarrow> Some seqSet)\<rparr>)"

definition handleESort :: "options \<Rightarrow> 'b esort_meth option \<Rightarrow> 'b sort_meth option \<Rightarrow> 'b handler \<Rightarrow> 'b handler" where
  "handleESort opts ses srt original ctx =
     with_args ctx ''missing sort arguments'' (\<lambda>inp.
       if inp = [] then fail (ErrBad ''missing sort arguments'')
       else if hd inp = CHR ''('' then original ctx
       else read_arg ReadAtom ''missing sort arguments'' (\<lambda>first.
              if \<not> EqualFold first ''RETURN'' then (\<lambda>_. fail (ErrBad ''expected RETURN or sort criteria list''))
              else read_arg ReadSP ''missing RETURN options'' (\<lambda>_.
                   parsing ESort_parseReturnOptions (\<lambda>options.
                   read_arg ReadSP ''missing sort criteria after RETURN'' (\<lambda>_.
                   sort_args opts (ESort_parseSearchCriteria (o_parse_time opts)) (\<lambda>_. ''invalid sort criteria'') (\<lambda>criteria crit.
                   let reply = (\<lambda>data. answer ctx
                         (if hasAnyReturnOption options then ESort_writeESearchResponse ctx data options
                          else enc_Star @ enc_Atom ''SORT'' @
                               concat (map (\<lambda>num. enc_SP @ enc_Number num) (sd_AllSeqNums data)) @ enc_CRLF) ''SORT completed'')
                   in asserting ses
                        (asserting srt (no ctx ''SORT not supported'') (\<lambda>Sort.
                         ask (Sort (cx_NumKind ctx) criteria crit options) (\<lambda>sortData. reply (sortDataToSearchData sortData))))
                        (\<lambda>SortExtended. ask (SortExtended (cx_NumKind ctx) criteria crit options) reply)))))) inp)"

definition ESort_WrapHandler ::
  "options \<Rightarrow> 'b esort_meth option \<Rightarrow> 'b sort_meth option \<Rightarrow> string \<Rightarrow> 'b handler \<Rightarrow> 'b handler option" where
  "ESort_WrapHandler opts ses srt name h = map_of [(''SORT'', handleESort opts ses srt h)] name"

section \<open>CONTEXT=SEARCH\<close>

record 'b session_context =
  SearchContext :: "string \<Rightarrow> 'b search_meth"
  CancelSearchContext :: "string list \<Rightarrow> ('b, unit) meth"

function cancel_tags :: "string \<Rightarrow> string list" where
  "cancel_tags inp =
     (case ReadQuotedString inp of
        (Inl _, _) \<Rightarrow> []
      | (Inr t, rest) \<Rightarrow> t # (case ReadSP rest of (Inl _, _) \<Rightarrow> [] | (Inr _, rest') \<Rightarrow> cancel_tags rest'))"
  by pat_completeness auto
termination by (relation "measure length") (auto dest: shorter_after_SP [OF keeps_suffix_ReadQuotedString])

declare cancel_tags.simps [simp del]

definition handleCancelUpdate :: "'b session_context option \<Rightarrow> 'b handler" where
  "handleCancelUpdate ses ctx c =
     (if Conn_State c \<noteq> Selected then fail (ErrBad ''CANCELUPDATE requires selected state'') c
      else with_args ctx ''missing CANCELUPDATE arguments'' (\<lambda>inp.
             let tags = cancel_tags inp in
             if length tags = 0 then fail (ErrBad ''missing search context tag'')
             else asserting ses (fail (ErrNo ''CANCELUPDATE not supported'')) (\<lambda>s.
                  ask (CancelSearchContext s tags) (\<lambda>_. return_ok ctx ''CANCELUPDATE completed''))) c)"

definition Context_hasAnyReturnOption :: "search_options \<Rightarrow> bool" where
  "Context_hasAnyReturnOption options \<longleftrightarrow> hasAnyReturnOption options \<or> sr_ReturnContext options \<or> sr_ReturnUpdate options"

definition writeNoUpdateResponse :: "command_context \<Rightarrow> 'b conn \<Rightarrow> 'b conn" where
  "writeNoUpdateResponse ctx =
     emit (enc_StatusResponse ''*'' ''NO'' (''NOUPDATE '' @ [DQ] @ cx_Tag ctx @ [DQ]) ''search context not supported'')"

text \<open>One ADDTO or REMOVEFROM response; a nil set panics.\<close>

definition context_update :: "command_context \<Rightarrow> string \<Rightarrow> search_context_update \<Rightarrow> string option" where
  "context_update ctx name update =
     map_option (\<lambda>ss.
       esearch_head ctx @ enc_SP @ enc_Atom name @ enc_SP @
       enc_BeginList @ enc_Number (cu_Position update) @ enc_SP @ enc_Atom (SeqSet_String ss) @ enc_EndList @ enc_CRLF)
       (cu_SeqSet update)"

definition context_updates :: "command_context \<Rightarrow> search_data \<Rightarrow> string list option" where
  "context_updates ctx data =
     those (map (context_update ctx ''ADDTO'') (sd_AddTo data) @ map (context_update ctx ''REMOVEFROM'') (sd_RemoveFrom data))"

definition writeContextESearchResponse :: "command_context \<Rightarrow> search_data \<Rightarrow> search_options \<Rightarrow> 'b cont \<Rightarrow> 'b cont" where
  "writeContextESearchResponse ctx data options k c =
     (case context_updates ctx data of
        None \<Rightarrow> Crashed NilDereference
      | Some updates \<Rightarrow> k (emit (writeESearchResponse ctx data options) (foldl (\<lambda>c s. emit s c) c updates)))"

definition handleContextSearch :: "options \<Rightarrow> 'b backend \<Rightarrow> 'b session_context option \<Rightarrow> 'b search_meth option \<Rightarrow> 'b handler" where
  "handleContextSearch opts be ses ext ctx =
     with_args ctx ''missing search criteria''
       (search_args opts Context_parseReturnOptions (ParseSearchCriterion (o_parse_time opts)) (ParseSearchCriteria (o_parse_time opts))
          (\<lambda>return crit.
             let traditional = (\<lambda>data. answer ctx (search_response (cx_NumKind ctx) data) ''SEARCH completed'');
                 reply = (\<lambda>options data.
                   if Context_hasAnyReturnOption options
                   then writeContextESearchResponse ctx data options (return_ok ctx ''SEARCH completed'')
                   else traditional data);
                 standard = (\<lambda>options.
                   if hasAnyReturnOption options then search_extended be ext ctx crit options (reply options)
                   else ask (be_Search be (cx_NumKind ctx) crit options) (reply options))
             in case return of
                  None \<Rightarrow> ask (be_Search be (cx_NumKind ctx) crit zero_search_options) traditional
                | Some options \<Rightarrow>
                    if sr_ReturnContext options \<or> sr_ReturnUpdate options
                    then asserting ses
                           (\<lambda>c. standard (options\<lparr>sr_ReturnContext := False, sr_ReturnUpdate := False\<rparr>) (writeNoUpdateResponse ctx c))
                           (\<lambda>s. ask (SearchContext s (cx_Tag ctx) (cx_NumKind ctx) crit options) (reply options))
                    else standard options))"

definition Context_WrapHandler ::
  "options \<Rightarrow> 'b backend \<Rightarrow> 'b session_context option \<Rightarrow> 'b search_meth option \<Rightarrow> string \<Rightarrow> 'b handler \<Rightarrow> 'b handler option" where
  "Context_WrapHandler opts be ses ext name h = map_of [(''SEARCH'', handleContextSearch opts be ses ext)] name"

section \<open>MULTISEARCH\<close>

record multi_search_source =
  ms_Filter :: string
  ms_Mailboxes :: "string list"

record multi_search_result =
  msr_Mailbox :: string
  msr_UIDValidity :: u32
  msr_Data :: "search_data option"

type_synonym 'b multi_meth =
  "num_kind \<Rightarrow> multi_search_source \<Rightarrow> search_criteria \<Rightarrow> search_options \<Rightarrow> ('b, multi_search_result list) meth"

text \<open>The mailboxes of the source: a list in parentheses or a single name.\<close>

definition multi_mailboxes :: "options \<Rightarrow> (string list \<Rightarrow> 'b step) \<Rightarrow> 'b step" where
  "multi_mailboxes opts k =
     read_arg PeekByte ''unexpected end in source specification'' (\<lambda>b inp.
       if b = CHR ''(''
       then read_loop (ReadList (collect ReadAString) []) (\<lambda>e. ''invalid mailbox list: '' @ o_error_text opts (WireError e)) k inp
       else (case ReadAString inp of
               (Inl e, _) \<Rightarrow> fail (ErrBad (''invalid mailbox name: '' @ o_error_text opts (WireError e)))
             | (Inr mbox, inp) \<Rightarrow> k [mbox] inp))"

definition multi_source :: "options \<Rightarrow> (multi_search_source \<Rightarrow> 'b step) \<Rightarrow> 'b step" where
  "multi_source opts k =
     read_arg ReadAtom ''missing IN keyword'' (\<lambda>inKeyword.
       if \<not> EqualFold inKeyword ''IN'' then (\<lambda>_. fail (ErrBad (''expected IN keyword, got '' @ inKeyword)))
       else
     read_arg ReadSP ''missing source specification after IN'' (\<lambda>_.
     read_arg (ExpectByte (CHR ''('')) ''expected '(' for source specification'' (\<lambda>_.
     read_arg ReadAtom ''missing filter type'' (\<lambda>filterType.
       let filterLower = ToLower filterType in
       if filterLower \<noteq> ''mailboxes'' \<and> filterLower \<noteq> ''subtree'' \<and> filterLower \<noteq> ''subtree-one''
       then (\<lambda>_. fail (ErrBad (''unknown filter type: '' @ filterType)))
       else
     read_arg ReadSP ''missing mailbox after filter type'' (\<lambda>_.
     multi_mailboxes opts (\<lambda>mailboxes.
     read_arg (ExpectByte (CHR '')'')) ''expected ')' for source specification'' (\<lambda>_.
     read_arg ReadSP ''missing search criteria'' (\<lambda>_.
     k \<lparr>ms_Filter = filterLower, ms_Mailboxes = mailboxes\<rparr>))))))))"

text \<open>The RETURN options and the charset before the first search key, which is passed on.\<close>

definition multi_return :: "(search_options \<Rightarrow> string \<Rightarrow> 'b step) \<Rightarrow> 'b step" where
  "multi_return k =
     read_arg ReadAtom ''missing search arguments'' (\<lambda>atom.
       if EqualFold atom ''RETURN''
       then read_arg ReadSP ''missing RETURN options'' (\<lambda>_.
            parsing Multi_parseReturnOptions (\<lambda>options.
            read_arg ReadSP ''missing search criteria after RETURN'' (\<lambda>_.
            read_arg ReadAtom ''missing search criteria'' (\<lambda>atom. k options atom))))
       else k zero_search_options atom)"

definition multi_charset :: "string \<Rightarrow> (string \<Rightarrow> 'b step) \<Rightarrow> 'b step" where
  "multi_charset atom k =
     (if EqualFold atom ''CHARSET''
      then read_arg ReadSP ''missing charset name'' (\<lambda>_.
           read_arg ReadAString ''invalid charset name'' (\<lambda>_.
           read_arg ReadSP ''missing search criteria after CHARSET'' (\<lambda>_.
           read_arg ReadAtom ''missing search criteria'' (\<lambda>atom. k atom))))
      else k atom)"

definition multi_response :: "command_context \<Rightarrow> search_options \<Rightarrow> multi_search_result \<Rightarrow> string" where
  "multi_response ctx options result =
     enc_Star @ enc_Atom ''ESEARCH'' @ enc_SP @
     enc_BeginList @ enc_Atom ''TAG'' @ enc_SP @ enc_QuotedString (cx_Tag ctx) @ enc_EndList @
     enc_SP @ enc_Atom ''MAILBOX'' @ enc_SP @ enc_MailboxName (msr_Mailbox result) @
     enc_SP @ enc_Atom ''UIDVALIDITY'' @ enc_SP @ enc_Number (msr_UIDValidity result) @
     enc_SP @ enc_Atom ''UID'' @
     (case msr_Data result of None \<Rightarrow> [] | Some data \<Rightarrow> esearch_results data options @ esearch_modseq data) @ enc_CRLF"

definition writeMultiSearchResponse ::
  "command_context \<Rightarrow> multi_search_result list \<Rightarrow> search_options \<Rightarrow> 'b conn \<Rightarrow> 'b conn" where
  "writeMultiSearchResponse ctx results options c = foldl (\<lambda>c result. emit (multi_response ctx options result) c) c results"

definition handleMultiSearch :: "options \<Rightarrow> 'b multi_meth option \<Rightarrow> 'b handler" where
  "handleMultiSearch opts ses ctx c =
     (if Conn_State c \<noteq> Authenticated \<and> Conn_State c \<noteq> Selected
      then fail (ErrBad ''ESEARCH requires authenticated or selected state'') c
      else with_args ctx ''missing ESEARCH arguments''
        (multi_source opts (\<lambda>source.
         multi_return (\<lambda>options atom.
         multi_charset atom (\<lambda>atom.
         read_criteria opts (ParseSearchCriterion (o_parse_time opts) atom zero_criteria) (\<lambda>crit inp.
           let run = (\<lambda>crit.
             asserting ses (fail (ErrNo ''MULTISEARCH not supported'')) (\<lambda>MultiSearch.
             ask (MultiSearch (cx_NumKind ctx) source crit options) (\<lambda>results c.
             return_ok ctx ''ESEARCH completed'' (writeMultiSearchResponse ctx results options c))))
           in case ReadSP inp of
                (Inl _, _) \<Rightarrow> run crit
              | (Inr _, inp) \<Rightarrow> read_criteria opts (ParseSearchCriteria (o_parse_time opts) crit) (\<lambda>crit _. run crit) inp))))) c)"

end
