(* ===== verification/ExtMailboxes.thy ===== *)
theory ExtMailboxes
  imports ExtSearch
begin

text \<open>
  The extensions of APPEND and LIST (\<open>extensions/binary\<close>, \<open>catenate\<close>, \<open>multiappend\<close>,
  \<open>utf8accept\<close>, \<open>replace\<close>, \<open>listextended\<close>). A literal is read from the connection, while its
  size stands at the end of the command line.
\<close>

section \<open>Shared parts\<close>

type_synonym 'b append_meth = "string \<Rightarrow> string \<Rightarrow> append_options \<Rightarrow> ('b, append_data option) meth"

text \<open>The loop over the layouts: the first one that the date parses with.\<close>

definition parseDate :: "options \<Rightarrow> string list \<Rightarrow> string \<Rightarrow> time option" where
  "parseDate opts layouts s =
     (case List.map_filter (\<lambda>layout. o_parse_time opts layout s) layouts of [] \<Rightarrow> None | t # _ \<Rightarrow> Some t)"

definition append_date_with :: "(string \<Rightarrow> time option) \<Rightarrow> char \<Rightarrow> (time \<Rightarrow> 'b step) \<Rightarrow> 'b step" where
  "append_date_with parse b k =
     (if b = DQ
      then read_arg ReadQuotedString ''invalid date-time'' (\<lambda>dateStr inp.
             case parse dateStr of
               None \<Rightarrow> fail (ErrBad ''invalid date-time format'')
             | Some t \<Rightarrow> read_arg ReadSP ''missing message data'' (\<lambda>_. k t) inp)
      else k 0)"

text \<open>The mailbox, the flags and the date of APPEND.\<close>

definition append_args ::
  "(string \<Rightarrow> time option) \<Rightarrow> (string \<Rightarrow> flag list \<Rightarrow> time \<Rightarrow> 'b step) \<Rightarrow> 'b step" where
  "append_args parse k =
     read_arg ReadAString ''invalid mailbox name'' (\<lambda>mailbox.
     read_arg ReadSP ''missing message data'' (\<lambda>_.
     append_flags (\<lambda>flags b.
     append_date_with parse b (\<lambda>t. k mailbox flags t))))"

text \<open>Every extension has its own copy; UTF8=ACCEPT and CATENATE do not know the last layout.\<close>

definition Binary_parseDate :: "options \<Rightarrow> string \<Rightarrow> time option" where
  "Binary_parseDate opts s = parseDate opts [''02-Jan-2006 15:04:05 -0700'', ''2-Jan-2006 15:04:05 -0700'', ''02 Jan 06 15:04 -0700''] s"

definition MultiAppend_parseDate :: "options \<Rightarrow> string \<Rightarrow> time option" where
  "MultiAppend_parseDate opts s = parseDate opts [''02-Jan-2006 15:04:05 -0700'', ''2-Jan-2006 15:04:05 -0700'', ''02 Jan 06 15:04 -0700''] s"

definition UTF8_parseDate :: "options \<Rightarrow> string \<Rightarrow> time option" where
  "UTF8_parseDate opts s = parseDate opts [''02-Jan-2006 15:04:05 -0700'', ''2-Jan-2006 15:04:05 -0700''] s"

definition Catenate_parseDate :: "options \<Rightarrow> string \<Rightarrow> time option" where
  "Catenate_parseDate opts s = parseDate opts [''02-Jan-2006 15:04:05 -0700'', ''2-Jan-2006 15:04:05 -0700''] s"

text \<open>The literal that the session reads; what it leaves is drained.\<close>

definition with_literal :: "int \<Rightarrow> (string \<Rightarrow> 'b cont) \<Rightarrow> 'b cont" where
  "with_literal litSize k c = k (take (nat litSize) (c_input c)) (c\<lparr>c_input := drop (nat litSize) (c_input c)\<rparr>)"

definition literal_size :: "options \<Rightarrow> (string \<Rightarrow> parse_error + int \<times> bool) \<Rightarrow> string \<Rightarrow> (int \<Rightarrow> bool \<Rightarrow> 'b cont) \<Rightarrow> 'b step" where
  "literal_size opts read text k inp =
     (case read inp of
        Inl e \<Rightarrow> fail (ErrBad (text @ o_error_text opts e))
      | Inr (litSize, isBinary) \<Rightarrow> k litSize isBinary)"

text \<open>\<open>readLiteralSize\<close> of each extension, which takes what is left of the arguments.\<close>

definition Binary_readLiteralSize :: "string \<Rightarrow> parse_error + int \<times> bool" where
  "Binary_readLiteralSize inp =
     (let s = TrimSpace inp;
          binary = HasPrefix s ''~'';
          s = (if binary then drop 1 s else s)
      in if \<not> HasPrefix s ''{'' \<or> \<not> HasSuffix s ''}'' then Inl (LiteralExpected s)
         else let inner = TrimSuffix (butlast (drop 1 s)) ''+''
              in case ParseInt64 inner of
                   None \<Rightarrow> Inl (LiteralSize inner)
                 | Some n \<Rightarrow> Inr (n, binary))"

definition UTF8_readLiteralSize :: "string \<Rightarrow> parse_error + int \<times> bool" where
  "UTF8_readLiteralSize inp =
     (let s = TrimSpace inp;
          binary = HasPrefix s ''~'';
          s = (if binary then drop 1 s else s)
      in if \<not> HasPrefix s ''{'' \<or> \<not> HasSuffix s ''}'' then Inl (LiteralExpected s)
         else let inner = TrimSuffix (butlast (drop 1 s)) ''+''
              in case ParseInt64 inner of
                   None \<Rightarrow> Inl (LiteralSize inner)
                 | Some n \<Rightarrow> Inr (n, binary))"

definition Catenate_readLiteralSizeBinary :: "string \<Rightarrow> parse_error + int \<times> bool" where
  "Catenate_readLiteralSizeBinary inp =
     (let s = TrimSpace inp;
          binary = HasPrefix s ''~'';
          s = (if binary then drop 1 s else s)
      in if \<not> HasPrefix s ''{'' \<or> \<not> HasSuffix s ''}'' then Inl (LiteralExpected s)
         else let inner = TrimSuffix (butlast (drop 1 s)) ''+''
              in case ParseInt64 inner of
                   None \<Rightarrow> Inl (LiteralSize inner)
                 | Some n \<Rightarrow> Inr (n, binary))"

text \<open>The variants that know no binary literals.\<close>

definition Catenate_readLiteralSize :: "string \<Rightarrow> parse_error + int" where
  "Catenate_readLiteralSize inp =
     (let s = TrimSpace inp
      in if \<not> HasPrefix s ''{'' \<or> \<not> HasSuffix s ''}'' then Inl (LiteralExpected s)
         else let inner = TrimSuffix (butlast (drop 1 s)) ''+''
              in case ParseInt64 inner of
                   None \<Rightarrow> Inl (LiteralSize inner)
                 | Some n \<Rightarrow> Inr n)"

definition MultiAppend_readLiteralSize :: "string \<Rightarrow> parse_error + int" where
  "MultiAppend_readLiteralSize inp =
     (let s = TrimSpace inp
      in if \<not> HasPrefix s ''{'' \<or> \<not> HasSuffix s ''}'' then Inl (LiteralExpected s)
         else let inner = TrimSuffix (butlast (drop 1 s)) ''+''
              in case ParseInt64 inner of
                   None \<Rightarrow> Inl (LiteralSize inner)
                 | Some n \<Rightarrow> Inr n)"

definition Replace_readLiteralSize :: "string \<Rightarrow> parse_error + int" where
  "Replace_readLiteralSize inp =
     (let s = TrimSpace inp
      in if \<not> HasPrefix s ''{'' \<or> \<not> HasSuffix s ''}'' then Inl (LiteralExpected s)
         else let inner = TrimSuffix (butlast (drop 1 s)) ''+''
              in case ParseInt64 inner of
                   None \<Rightarrow> Inl (LiteralSize inner)
                 | Some n \<Rightarrow> Inr n)"

text \<open>\<open>writeAppendOK\<close> of BINARY writes with the encoder, that of the two others with \<open>WriteOKCode\<close>.\<close>

definition writeAppendOK :: "command_context \<Rightarrow> append_data option \<Rightarrow> 'b cont" where
  "writeAppendOK ctx data c =
     Finished None
       (case data of
          None \<Rightarrow> WriteOK (cx_Tag ctx) ''APPEND completed'' c
        | Some d \<Rightarrow>
            (if ad_UIDValidity d > 0 \<and> ad_UID d > 0
             then (let code = ''APPENDUID '' @ FormatUint (unat (ad_UIDValidity d)) @ '' '' @ FormatUint (unat (ad_UID d))
                   in emit (enc_StatusResponse (cx_Tag ctx) ''OK'' code ''APPEND completed'') c)
             else WriteOK (cx_Tag ctx) ''APPEND completed'' c))"

definition UTF8_writeAppendOK :: "command_context \<Rightarrow> append_data option \<Rightarrow> 'b cont" where
  "UTF8_writeAppendOK ctx data c =
     Finished None
       (case data of
          None \<Rightarrow> WriteOK (cx_Tag ctx) ''APPEND completed'' c
        | Some d \<Rightarrow>
            (if ad_UIDValidity d > 0 \<and> ad_UID d > 0
             then (let code = ''APPENDUID '' @ FormatUint (unat (ad_UIDValidity d)) @ '' '' @ FormatUint (unat (ad_UID d))
                   in WriteOKCode (cx_Tag ctx) code ''APPEND completed'' c)
             else WriteOK (cx_Tag ctx) ''APPEND completed'' c))"

definition MultiAppend_writeAppendOK :: "command_context \<Rightarrow> append_data option \<Rightarrow> 'b cont" where
  "MultiAppend_writeAppendOK ctx data c =
     Finished None
       (case data of
          None \<Rightarrow> WriteOK (cx_Tag ctx) ''APPEND completed'' c
        | Some d \<Rightarrow>
            (if ad_UIDValidity d > 0 \<and> ad_UID d > 0
             then (let code = ''APPENDUID '' @ FormatUint (unat (ad_UIDValidity d)) @ '' '' @ FormatUint (unat (ad_UID d))
                   in WriteOKCode (cx_Tag ctx) code ''APPEND completed'' c)
             else WriteOK (cx_Tag ctx) ''APPEND completed'' c))"

text \<open>The copies agree with the code of the built-in APPEND.\<close>

lemma readLiteralSize_copies:
  "Binary_readLiteralSize = readLiteralSize" "UTF8_readLiteralSize = readLiteralSize" "Catenate_readLiteralSizeBinary = readLiteralSize"
  by (rule ext, simp only: Binary_readLiteralSize_def UTF8_readLiteralSize_def Catenate_readLiteralSizeBinary_def readLiteralSize_def)+

lemma writeAppendOK_copies:
  "writeAppendOK = append_ok" "UTF8_writeAppendOK = append_ok" "MultiAppend_writeAppendOK = append_ok"
  by (intro ext, simp add: writeAppendOK_def UTF8_writeAppendOK_def MultiAppend_writeAppendOK_def append_ok_def return_ok_def
      WriteOKCode_def Let_def split: option.split)+

lemma Binary_parseDate_append_time: "Binary_parseDate opts = append_time opts"
  by (rule ext) (simp only: Binary_parseDate_def parseDate_def append_time_def append_layouts_def)

section \<open>BINARY\<close>

definition handleBinaryAppend :: "options \<Rightarrow> 'b backend \<Rightarrow> 'b append_meth option \<Rightarrow> 'b handler \<Rightarrow> 'b handler" where
  "handleBinaryAppend opts be ses original ctx =
     (case cx_Decoder ctx of
        None \<Rightarrow> original ctx
      | Some inp \<Rightarrow>
          append_args (Binary_parseDate opts) (\<lambda>mailbox flags t.
          literal_size opts Binary_readLiteralSize ''invalid literal: '' (\<lambda>litSize isBinary.
          with_literal litSize (\<lambda>literal.
            let options = \<lparr>ao_Flags = flags, ao_InternalDate = t, ao_Binary = isBinary, ao_UTF8 = False\<rparr>;
                plain = ask (be_Append be mailbox literal options) (writeAppendOK ctx)
            in if isBinary
               then asserting ses plain (\<lambda>AppendBinary. ask (AppendBinary mailbox literal options) (writeAppendOK ctx))
               else plain))) inp)"

definition Binary_WrapHandler ::
  "options \<Rightarrow> 'b backend \<Rightarrow> 'b append_meth option \<Rightarrow> string \<Rightarrow> 'b handler \<Rightarrow> 'b handler option" where
  "Binary_WrapHandler opts be ses name h = map_of [(''APPEND'', handleBinaryAppend opts be ses h)] name"

section \<open>UTF8=ACCEPT\<close>

text \<open>As with UIDONLY, the tagged response of ENABLE is written before \<open>EnableUTF8\<close> is called.\<close>

definition handleUTF8Enable :: "('b, unit) meth option \<Rightarrow> 'b handler \<Rightarrow> 'b handler" where
  "handleUTF8Enable ses original ctx c =
     (case original ctx c of
        Finished None c \<Rightarrow>
          if \<not> Has (c_enabled c) ''UTF8=ACCEPT'' then Finished None c
          else asserting ses (Finished None) (\<lambda>EnableUTF8. ask EnableUTF8 (\<lambda>_. Finished None)) c
      | r \<Rightarrow> r)"

definition standard_append ::
  "options \<Rightarrow> (string \<Rightarrow> parse_error + int \<times> bool) \<Rightarrow> 'b backend \<Rightarrow> command_context \<Rightarrow> string \<Rightarrow> flag list \<Rightarrow> time \<Rightarrow> 'b step" where
  "standard_append opts read be ctx mailbox flags t =
     literal_size opts read ''invalid literal: '' (\<lambda>litSize isBinary.
     with_literal litSize (\<lambda>literal.
     ask (be_Append be mailbox literal \<lparr>ao_Flags = flags, ao_InternalDate = t, ao_Binary = isBinary, ao_UTF8 = False\<rparr>)
       (append_ok ctx)))"

definition UTF8_handleStandardAppend ::
  "options \<Rightarrow> 'b backend \<Rightarrow> command_context \<Rightarrow> string \<Rightarrow> flag list \<Rightarrow> time \<Rightarrow> 'b step" where
  "UTF8_handleStandardAppend opts = standard_append opts UTF8_readLiteralSize"

definition Catenate_handleStandardAppend ::
  "options \<Rightarrow> 'b backend \<Rightarrow> command_context \<Rightarrow> string \<Rightarrow> flag list \<Rightarrow> time \<Rightarrow> 'b step" where
  "Catenate_handleStandardAppend opts = standard_append opts Catenate_readLiteralSizeBinary"

text \<open>The closing parenthesis stands on the connection, after the literal.\<close>

definition utf8_literal ::
  "options \<Rightarrow> 'b backend \<Rightarrow> command_context \<Rightarrow> string \<Rightarrow> flag list \<Rightarrow> time \<Rightarrow> 'b step" where
  "utf8_literal opts be ctx mailbox flags t =
     literal_size opts UTF8_readLiteralSize ''invalid UTF8 literal: '' (\<lambda>litSize _.
     with_literal litSize (\<lambda>literal.
     ask (be_Append be mailbox literal \<lparr>ao_Flags = flags, ao_InternalDate = t, ao_Binary = False, ao_UTF8 = True\<rparr>) (\<lambda>data c.
       case ExpectByte (CHR '')'') (c_input c) of
         (Inl _, rest) \<Rightarrow> fail (ErrBad ''expected ')' after UTF8 literal'') (c\<lparr>c_input := rest\<rparr>)
       | (Inr _, rest) \<Rightarrow> UTF8_writeAppendOK ctx data (c\<lparr>c_input := rest\<rparr>))))"

definition handleUTF8Append :: "options \<Rightarrow> 'b backend \<Rightarrow> 'b handler \<Rightarrow> 'b handler" where
  "handleUTF8Append opts be original ctx =
     (case cx_Decoder ctx of
        None \<Rightarrow> original ctx
      | Some inp \<Rightarrow>
          append_args (UTF8_parseDate opts) (\<lambda>mailbox flags t.
          read_arg PeekByte ''unexpected end of command'' (\<lambda>b.
            if b = CHR ''{'' \<or> b = CHR ''~'' then UTF8_handleStandardAppend opts be ctx mailbox flags t
            else read_arg ReadAtom ''invalid APPEND arguments'' (\<lambda>atom inp c.
                   if \<not> EqualFold atom ''UTF8'' then fail (ErrBad ''expected literal or UTF8'') c
                   else if \<not> Has (c_enabled c) ''UTF8=ACCEPT'' then fail (ErrBad ''UTF8=ACCEPT not enabled'') c
                   else read_arg ReadSP ''missing UTF8 literal'' (\<lambda>_.
                        read_arg (ExpectByte (CHR ''('')) ''expected '(' after UTF8'' (\<lambda>_.
                        utf8_literal opts be ctx mailbox flags t)) inp c))) inp)"

definition UTF8_WrapHandler ::
  "options \<Rightarrow> 'b backend \<Rightarrow> ('b, unit) meth option \<Rightarrow> string \<Rightarrow> 'b handler \<Rightarrow> 'b handler option" where
  "UTF8_WrapHandler opts be ses name h =
     map_of [(''ENABLE'', handleUTF8Enable ses h), (''APPEND'', handleUTF8Append opts be h)] name"

section \<open>CATENATE\<close>

datatype catenate_part = URLPart string | TextPart string

type_synonym 'b catenate_meth = "string \<Rightarrow> catenate_part list \<Rightarrow> append_options \<Rightarrow> ('b, append_data option) meth"

text \<open>The parser reads the command line until a text literal sends it to the connection. Its
  state is what is left of the command line, of the connection, and which of the two it reads.
  \<open>Inl\<close> is the text of the error.\<close>

record cat_state =
  cs_arg :: string
  cs_conn :: string
  cs_onConn :: bool

type_synonym 'a cat_parser = "cat_state \<Rightarrow> (string + 'a) \<times> cat_state"

definition cat_bind :: "'a cat_parser \<Rightarrow> ('a \<Rightarrow> 'c cat_parser) \<Rightarrow> 'c cat_parser" where
  "cat_bind p f s = (case p s of (Inl e, s) \<Rightarrow> (Inl e, s) | (Inr x, s) \<Rightarrow> f x s)"

definition cat_return :: "'a \<Rightarrow> 'a cat_parser" where
  "cat_return x s = (Inr x, s)"

definition cat_fail :: "string \<Rightarrow> 'a cat_parser" where
  "cat_fail e s = (Inl e, s)"

definition cat_read :: "options \<Rightarrow> 'a decoder \<Rightarrow> string \<Rightarrow> 'a cat_parser" where
  "cat_read opts d text s =
     (if cs_onConn s
      then (case d (cs_conn s) of
              (Inl e, rest) \<Rightarrow> (Inl (text @ o_error_text opts (WireError e)), s\<lparr>cs_conn := rest\<rparr>)
            | (Inr x, rest) \<Rightarrow> (Inr x, s\<lparr>cs_conn := rest\<rparr>))
      else (case d (cs_arg s) of
              (Inl e, rest) \<Rightarrow> (Inl (text @ o_error_text opts (WireError e)), s\<lparr>cs_arg := rest\<rparr>)
            | (Inr x, rest) \<Rightarrow> (Inr x, s\<lparr>cs_arg := rest\<rparr>)))"

text \<open>At the end of the command line the parser goes on with the connection.\<close>

definition cat_peek :: "options \<Rightarrow> char cat_parser" where
  "cat_peek opts s =
     cat_read opts PeekByte ''unexpected end of CATENATE parts: ''
       (if \<not> cs_onConn s \<and> cs_arg s = [] then s\<lparr>cs_onConn := True\<rparr> else s)"

text \<open>The size of a text literal: the whole rest of the command line, or a literal header.\<close>

definition cat_literal_size :: "options \<Rightarrow> int cat_parser" where
  "cat_literal_size opts s =
     (if cs_onConn s
      then cat_bind (cat_read opts ReadLiteralInfo ''invalid TEXT literal: '') (\<lambda>info. cat_return (int (Size info))) s
      else case Catenate_readLiteralSize (cs_arg s) of
             Inl e \<Rightarrow> (Inl (''invalid TEXT literal: '' @ o_error_text opts e), s\<lparr>cs_arg := []\<rparr>)
           | Inr n \<Rightarrow> (Inr n, s\<lparr>cs_arg := []\<rparr>))"

definition cat_literal :: "int \<Rightarrow> string cat_parser" where
  "cat_literal n s =
     (Inr (take (nat n) (cs_conn s)), s\<lparr>cs_conn := drop (nat n) (cs_conn s), cs_onConn := True\<rparr>)"

definition catenate_item :: "options \<Rightarrow> string \<Rightarrow> catenate_part cat_parser" where
  "catenate_item opts atom =
     (if ToUpper atom = ''URL''
      then cat_bind (cat_read opts ReadSP ''expected SP after URL: '') (\<lambda>_.
           cat_bind (cat_read opts ReadAString ''invalid URL: '') (\<lambda>url. cat_return (URLPart url)))
      else if ToUpper atom = ''TEXT''
      then cat_bind (cat_read opts ReadSP ''expected SP after TEXT: '') (\<lambda>_.
           cat_bind (cat_literal_size opts) (\<lambda>n.
           cat_bind (cat_literal n) (\<lambda>data. cat_return (TextPart data))))
      else cat_fail (''unknown CATENATE part type: '' @ atom))"

definition cat_left :: "cat_state \<Rightarrow> nat" where
  "cat_left s = length (cs_arg s) + length (cs_conn s)"

definition cat_shrinking :: "'a cat_parser \<Rightarrow> bool" where
  "cat_shrinking p \<longleftrightarrow> (\<forall>s. cat_left (snd (p s)) \<le> cat_left s)"

lemma cat_shrinkingD: "cat_shrinking p \<Longrightarrow> p s = (r, s') \<Longrightarrow> cat_left s' \<le> cat_left s"
  unfolding cat_shrinking_def by (metis snd_conv)

lemma cat_shrinking_bind:
  assumes "cat_shrinking p" "\<And>x. cat_shrinking (f x)"
  shows "cat_shrinking (cat_bind p f)"
  unfolding cat_shrinking_def
proof
  fix s
  obtain r s' where p: "p s = (r, s')" by (cases "p s")
  then have "cat_left s' \<le> cat_left s" by (rule cat_shrinkingD [OF assms(1)])
  moreover have "cat_left (snd (f x s')) \<le> cat_left s'" for x
    using assms(2) [of x] by (simp add: cat_shrinking_def)
  ultimately show "cat_left (snd (cat_bind p f s)) \<le> cat_left s"
    by (cases r) (auto simp: p cat_bind_def intro: order_trans)
qed

lemma cat_shrinking_return: "cat_shrinking (cat_return x)" "cat_shrinking (cat_fail e)"
  by (simp_all add: cat_shrinking_def cat_return_def cat_fail_def)

lemma cat_shrinking_read: "keeps_suffix d \<Longrightarrow> cat_shrinking (cat_read opts d text)"
  unfolding cat_shrinking_def cat_read_def cat_left_def
  by (auto split: prod.split sum.split dest: keeps_suffix_length)

lemma cat_shrinking_literal: "cat_shrinking (cat_literal n)" "cat_shrinking (cat_literal_size opts)"
proof -
  show "cat_shrinking (cat_literal n)" by (simp add: cat_shrinking_def cat_literal_def cat_left_def)
  have "cat_shrinking (cat_bind (cat_read opts ReadLiteralInfo ''invalid TEXT literal: '') (\<lambda>info. cat_return (int (Size info))))"
    by (intro cat_shrinking_bind cat_shrinking_read cat_shrinking_return keeps_suffix_ReadLiteralInfo)
  then show "cat_shrinking (cat_literal_size opts)"
    by (auto simp: cat_shrinking_def cat_literal_size_def cat_left_def split: sum.split)
qed

lemma cat_shrinking_part: "cat_shrinking (catenate_item opts atom)"
  unfolding catenate_item_def
  by (auto intro!: cat_shrinking_bind cat_shrinking_read cat_shrinking_return cat_shrinking_literal
      keeps_suffix_ReadSP keeps_suffix_ReadAString)

lemma cat_peek_left: "cat_peek opts s = (r, s') \<Longrightarrow> cat_left s' \<le> cat_left s"
  unfolding cat_peek_def
  by (auto simp: cat_left_def dest!: cat_shrinkingD [OF cat_shrinking_read [OF keeps_suffix_PeekByte]] split: if_splits)

lemma cat_atom_left: "cat_read opts ReadAtom text s = (Inr atom, s') \<Longrightarrow> cat_left s' < cat_left s"
  by (auto simp: cat_read_def cat_left_def dest: atom_shorter split: if_splits prod.splits sum.splits)

function catenate_loop :: "options \<Rightarrow> bool \<Rightarrow> catenate_part list \<Rightarrow> catenate_part list cat_parser" where
  "catenate_loop opts first parts s =
     (case cat_peek opts s of
        (Inl e, s1) \<Rightarrow> (Inl e, s1)
      | (Inr b, s1) \<Rightarrow>
          if b = CHR '')'' then cat_bind (cat_read opts (ExpectByte (CHR '')'')) []) (\<lambda>_. cat_return parts) s1
          else (case (if first then (Inr (), s1) else cat_read opts ReadSP ''expected SP between CATENATE parts: '' s1) of
                  (Inl e, s2) \<Rightarrow> (Inl e, s2)
                | (Inr _, s2) \<Rightarrow>
                    (case cat_read opts ReadAtom ''expected URL or TEXT: '' s2 of
                       (Inl e, s3) \<Rightarrow> (Inl e, s3)
                     | (Inr atom, s3) \<Rightarrow>
                         (case catenate_item opts atom s3 of
                            (Inl e, s4) \<Rightarrow> (Inl e, s4)
                          | (Inr part, s4) \<Rightarrow> catenate_loop opts False (parts @ [part]) s4))))"
  by pat_completeness auto
termination
proof (relation "measure (\<lambda>(_, _, _, s). cat_left s)", simp)
  fix opts first parts s r s1 b q s2 u a s3 atom p s4 part
  assume a: "(r, s1) = cat_peek opts s"
    "(q, s2) = (if first then (Inr (), s1) else cat_read opts ReadSP ''expected SP between CATENATE parts: '' s1)"
    "(a, s3) = cat_read opts ReadAtom ''expected URL or TEXT: '' s2" "a = Inr atom" "(p, s4) = catenate_item opts atom s3"
  have "cat_left s1 \<le> cat_left s" using a(1) by (metis cat_peek_left)
  moreover have "cat_left s2 \<le> cat_left s1"
    using a(2) cat_shrinkingD [OF cat_shrinking_read [OF keeps_suffix_ReadSP]] by (metis eq_refl snd_conv)
  moreover have "cat_left s3 < cat_left s2" using a(3,4) by (metis cat_atom_left)
  moreover have "cat_left s4 \<le> cat_left s3" using a(5) cat_shrinkingD [OF cat_shrinking_part] by metis
  ultimately show "((opts, False, parts @ [part], s4), opts, first, parts, s) \<in> measure (\<lambda>(_, _, _, s). cat_left s)" by simp
qed

declare catenate_loop.simps [simp del]

definition parseCatenateParts :: "options \<Rightarrow> catenate_part list cat_parser" where
  "parseCatenateParts opts =
     cat_bind (cat_read opts (ExpectByte (CHR ''('')) ''expected opening paren: '') (\<lambda>_.
     cat_bind (catenate_loop opts True []) (\<lambda>parts.
       if length parts = 0 then cat_fail ''empty CATENATE parts list'' else cat_return parts))"

definition handleCatenateAppend :: "options \<Rightarrow> 'b backend \<Rightarrow> 'b catenate_meth option \<Rightarrow> 'b handler \<Rightarrow> 'b handler" where
  "handleCatenateAppend opts be ses original ctx =
     (case cx_Decoder ctx of
        None \<Rightarrow> original ctx
      | Some inp \<Rightarrow>
          append_args (Catenate_parseDate opts) (\<lambda>mailbox flags t.
          read_arg PeekByte ''unexpected end of command'' (\<lambda>b.
            if b = CHR ''{'' \<or> b = CHR ''~'' then Catenate_handleStandardAppend opts be ctx mailbox flags t
            else read_arg ReadAtom ''invalid APPEND arguments'' (\<lambda>atom.
                   if \<not> EqualFold atom ''CATENATE'' then (\<lambda>_. fail (ErrBad ''expected literal or CATENATE''))
                   else (\<lambda>inp. asserting ses (no ctx ''CATENATE not supported'') (\<lambda>AppendCatenate.
                        read_arg ReadSP ''missing CATENATE parts'' (\<lambda>_ inp c.
                          case parseCatenateParts opts \<lparr>cs_arg = inp, cs_conn = c_input c, cs_onConn = False\<rparr> of
                            (Inl text, s) \<Rightarrow> fail (ErrBad (''invalid CATENATE parts: '' @ text)) (c\<lparr>c_input := cs_conn s\<rparr>)
                          | (Inr parts, s) \<Rightarrow>
                              ask (AppendCatenate mailbox parts
                                     \<lparr>ao_Flags = flags, ao_InternalDate = t, ao_Binary = False, ao_UTF8 = False\<rparr>)
                                (append_ok ctx) (c\<lparr>c_input := cs_conn s\<rparr>)) inp))))) inp)"

definition Catenate_WrapHandler ::
  "options \<Rightarrow> 'b backend \<Rightarrow> 'b catenate_meth option \<Rightarrow> string \<Rightarrow> 'b handler \<Rightarrow> 'b handler option" where
  "Catenate_WrapHandler opts be ses name h = map_of [(''APPEND'', handleCatenateAppend opts be ses h)] name"

section \<open>MULTIAPPEND\<close>

record multi_append_message =
  ma_Flags :: "flag list"
  ma_InternalDate :: time
  ma_Literal :: string

type_synonym 'b multiappend_meth = "string \<Rightarrow> multi_append_message list \<Rightarrow> ('b, append_data option list) meth"

definition message_date :: "options \<Rightarrow> flag list \<Rightarrow> char \<Rightarrow> (flag list \<times> time) gparser" where
  "message_date opts flags b =
     (if b = DQ
      then gbind (expect ReadQuotedString ''invalid date-time'') (\<lambda>dateStr.
             case MultiAppend_parseDate opts dateStr of
               None \<Rightarrow> gfail (ErrBad ''invalid date-time format'')
             | Some t \<Rightarrow> gbind (expect ReadSP ''missing message data'') (\<lambda>_. greturn (flags, t)))
      else greturn (flags, 0))"

definition readMessageMeta :: "options \<Rightarrow> string \<Rightarrow> ((go_error + flag list \<times> time) \<times> string) option" where
  "readMessageMeta opts inp =
     (case PeekByte inp of
        (Inl _, inp) \<Rightarrow> Some (Inl (ErrBad ''unexpected end of command''), inp)
      | (Inr b, inp) \<Rightarrow>
          if b = CHR ''(''
          then (case ReadFlags inp of
                  None \<Rightarrow> None
                | Some (Inl _, inp) \<Rightarrow> Some (Inl (ErrBad ''invalid flags''), inp)
                | Some (Inr flags, inp) \<Rightarrow>
                    Some (gbind (expect ReadSP ''missing message data'') (\<lambda>_.
                          gbind (expect PeekByte ''unexpected end of command'') (message_date opts flags)) inp))
          else Some (message_date opts [] b inp))"

text \<open>The messages after the first one, read from the connection while a space follows.\<close>

partial_function (option) multiappend_loop ::
  "options \<Rightarrow> multi_append_message list \<Rightarrow> string \<Rightarrow> ((go_error + multi_append_message list) \<times> string) option" where
  "multiappend_loop opts messages inp =
     (if inp = [] \<or> hd inp \<noteq> SP then Some (Inr messages, inp)
      else Option.bind (readMessageMeta opts (tl inp)) (\<lambda>r.
             case r of
               (Inl e, inp) \<Rightarrow> Some (Inl e, inp)
             | (Inr (flags, t), inp) \<Rightarrow>
                 (case ReadLiteralInfo inp of
                    (Inl e, inp) \<Rightarrow> Some (Inl (ErrBad (''invalid literal: '' @ o_error_text opts (WireError e))), inp)
                  | (Inr info, inp) \<Rightarrow>
                      multiappend_loop opts
                        (messages @ [\<lparr>ma_Flags = flags, ma_InternalDate = t, ma_Literal = take (Size info) inp\<rparr>])
                        (drop (Size info) inp))))"

text \<open>The UIDs are reported only when every result has one.\<close>

definition writeMultiAppendOK :: "command_context \<Rightarrow> append_data option list \<Rightarrow> 'b cont" where
  "writeMultiAppendOK ctx results =
     (case results of
        Some r # _ \<Rightarrow>
          if ad_UIDValidity r > 0 \<and> list_all (\<lambda>r. case r of None \<Rightarrow> False | Some r \<Rightarrow> ad_UID r \<noteq> 0) results
          then (\<lambda>c. Finished None (WriteOKCode (cx_Tag ctx)
                  (''APPENDUID '' @ FormatUint (unat (ad_UIDValidity r)) @ '' '' @
                   join '','' (map (\<lambda>r. FormatUint (unat (ad_UID (the r)))) results))
                  ''APPEND completed'' c))
          else return_ok ctx ''APPEND completed''
      | _ \<Rightarrow> return_ok ctx ''APPEND completed'')"

definition multiappend_run ::
  "options \<Rightarrow> 'b backend \<Rightarrow> 'b multiappend_meth option \<Rightarrow> command_context \<Rightarrow> string \<Rightarrow> flag list \<Rightarrow> time \<Rightarrow> string \<Rightarrow> 'b cont" where
  "multiappend_run opts be ses ctx mailbox flags t body c =
     (if c_input c \<noteq> [] \<and> hd (c_input c) = SP
      then (case multiappend_loop opts [\<lparr>ma_Flags = flags, ma_InternalDate = t, ma_Literal = body\<rparr>] (c_input c) of
              None \<Rightarrow> Hangs
            | Some (Inl e, inp) \<Rightarrow> fail e (c\<lparr>c_input := inp\<rparr>)
            | Some (Inr messages, inp) \<Rightarrow>
                asserting ses (no ctx ''MULTIAPPEND not supported by backend'')
                  (\<lambda>AppendMulti. ask (AppendMulti mailbox messages) (writeMultiAppendOK ctx)) (c\<lparr>c_input := inp\<rparr>))
      else ask (be_Append be mailbox body \<lparr>ao_Flags = flags, ao_InternalDate = t, ao_Binary = False, ao_UTF8 = False\<rparr>)
             (MultiAppend_writeAppendOK ctx) c)"

definition handleMultiAppend :: "options \<Rightarrow> 'b backend \<Rightarrow> 'b multiappend_meth option \<Rightarrow> 'b handler \<Rightarrow> 'b handler" where
  "handleMultiAppend opts be ses original ctx =
     (case cx_Decoder ctx of
        None \<Rightarrow> original ctx
      | Some inp \<Rightarrow>
          read_arg ReadAString ''invalid mailbox name'' (\<lambda>mailbox.
          read_arg ReadSP ''missing message data'' (\<lambda>_ inp.
            case readMessageMeta opts inp of
              None \<Rightarrow> (\<lambda>_. Hangs)
            | Some (Inl e, _) \<Rightarrow> fail e
            | Some (Inr (flags, t), inp) \<Rightarrow>
                (case MultiAppend_readLiteralSize inp of
                   Inl e \<Rightarrow> fail (ErrBad (''invalid literal: '' @ o_error_text opts e))
                 | Inr litSize \<Rightarrow> with_literal litSize (multiappend_run opts be ses ctx mailbox flags t)))) inp)"

definition MultiAppend_WrapHandler ::
  "options \<Rightarrow> 'b backend \<Rightarrow> 'b multiappend_meth option \<Rightarrow> string \<Rightarrow> 'b handler \<Rightarrow> 'b handler option" where
  "MultiAppend_WrapHandler opts be ses name h = map_of [(''APPEND'', handleMultiAppend opts be ses h)] name"

section \<open>REPLACE\<close>

type_synonym 'b replace_meth = "num_set \<Rightarrow> string \<Rightarrow> string \<Rightarrow> append_options \<Rightarrow> ('b, append_data option) meth"

definition replace_numset :: "command_context \<Rightarrow> (num_set \<Rightarrow> 'b step) \<Rightarrow> 'b step" where
  "replace_numset ctx k =
     arg ctx ReadAtom ''invalid message set'' (\<lambda>setStr inp.
       if cx_NumKind ctx = NumKindUID
       then (case ParseUIDSet setStr of Inl _ \<Rightarrow> bad ctx ''invalid UID set'' | Inr us \<Rightarrow> k (UIDSet us) inp)
       else (case ParseSeqSet setStr of Inl _ \<Rightarrow> bad ctx ''invalid sequence set'' | Inr ss \<Rightarrow> k (SeqSet ss) inp))"

definition replace_flags :: "command_context \<Rightarrow> (flag list \<Rightarrow> char \<Rightarrow> 'b step) \<Rightarrow> 'b step" where
  "replace_flags ctx k =
     arg ctx PeekByte ''unexpected end of command'' (\<lambda>b.
       if b = CHR ''(''
       then arg_loop ctx ReadFlags (\<lambda>_. ''invalid flags'') (\<lambda>flags.
            arg ctx ReadSP ''missing message data'' (\<lambda>_.
            arg ctx PeekByte ''unexpected end of command'' (\<lambda>b. k flags b)))
       else k [] b)"

definition replace_date :: "options \<Rightarrow> command_context \<Rightarrow> char \<Rightarrow> (time \<Rightarrow> 'b step) \<Rightarrow> 'b step" where
  "replace_date opts ctx b k =
     (if b = DQ
      then arg ctx ReadQuotedString ''invalid date-time'' (\<lambda>dateStr inp.
             case parseDate opts [''02-Jan-2006 15:04:05 -0700'', ''2-Jan-2006 15:04:05 -0700'', ''02 Jan 06 15:04 -0700''] dateStr of
               None \<Rightarrow> bad ctx ''invalid date-time format''
             | Some t \<Rightarrow> arg ctx ReadSP ''missing message data'' (\<lambda>_. k t) inp)
      else k 0)"

definition replace_ok :: "command_context \<Rightarrow> append_data option \<Rightarrow> 'b cont" where
  "replace_ok ctx data =
     (case data of
        None \<Rightarrow> return_ok ctx ''REPLACE completed''
      | Some d \<Rightarrow>
          if ad_UIDValidity d > 0 \<and> ad_UID d > 0
          then (\<lambda>c. Finished None (WriteOKCode (cx_Tag ctx)
                  (''APPENDUID '' @ FormatUint (unat (ad_UIDValidity d)) @ '' '' @ FormatUint (unat (ad_UID d)))
                  ''REPLACE completed'' c))
          else return_ok ctx ''REPLACE completed'')"

definition handleReplace :: "options \<Rightarrow> 'b replace_meth option \<Rightarrow> 'b handler" where
  "handleReplace opts ses ctx =
     has_args ctx ''missing arguments'' (\<lambda>inp.
     asserting ses (no ctx ''REPLACE not supported'') (\<lambda>Replace.
       replace_numset ctx (\<lambda>numSet.
       arg ctx ReadSP ''missing destination mailbox'' (\<lambda>_.
       arg ctx ReadAString ''invalid mailbox name'' (\<lambda>mailbox.
       arg ctx ReadSP ''missing message data'' (\<lambda>_.
       replace_flags ctx (\<lambda>flags b.
       replace_date opts ctx b (\<lambda>t inp.
         case Replace_readLiteralSize inp of
           Inl e \<Rightarrow> bad ctx (''invalid literal: '' @ o_error_text opts e)
         | Inr litSize \<Rightarrow>
             with_literal litSize (\<lambda>literal.
             call ctx ''REPLACE''
               (Replace numSet mailbox literal \<lparr>ao_Flags = flags, ao_InternalDate = t, ao_Binary = False, ao_UTF8 = False\<rparr>)
               (replace_ok ctx)))))))) inp))"

section \<open>LIST-EXTENDED\<close>

text \<open>A list of patterns in parentheses, or a single one. A loop over the decoder that stops at
  the closing parenthesis; \<open>None\<close> means that it never stops.\<close>

partial_function (option) patterns_loop :: "string list \<Rightarrow> string \<Rightarrow> ((go_error + string list) \<times> string) option" where
  "patterns_loop patterns inp =
     (if inp = [] then Some (Inl (ErrBad ''unexpected end in pattern list''), [])
      else if hd inp = CHR '')'' then Some (Inr patterns, tl inp)
      else case (if length patterns > 0 then ReadSP inp else (Inr (), inp)) of
             (Inl _, inp) \<Rightarrow> Some (Inl (ErrBad ''expected SP between patterns''), inp)
           | (Inr _, inp) \<Rightarrow>
               (case ReadAString inp of
                  (Inl _, inp) \<Rightarrow> Some (Inl (ErrBad ''invalid pattern''), inp)
                | (Inr p, inp) \<Rightarrow> patterns_loop (patterns @ [p]) inp))"

definition readPatterns :: "string \<Rightarrow> ((go_error + string list) \<times> string) option" where
  "readPatterns inp =
     (case PeekByte inp of
        (Inl _, inp) \<Rightarrow> Some (Inl (ErrBad ''missing mailbox pattern''), inp)
      | (Inr b, inp) \<Rightarrow>
          if b = CHR ''(''
          then Option.bind (patterns_loop [] (tl inp)) (\<lambda>r.
                 case r of
                   (Inl e, inp) \<Rightarrow> Some (Inl e, inp)
                 | (Inr patterns, inp) \<Rightarrow>
                     Some (if length patterns = 0 then Inl (ErrBad ''empty pattern list'') else Inr patterns, inp))
          else (case ReadAString inp of
                  (Inl _, inp) \<Rightarrow> Some (Inl (ErrBad ''invalid mailbox pattern''), inp)
                | (Inr p, inp) \<Rightarrow> Some (Inr [p], inp)))"

definition selection_option :: "string \<Rightarrow> list_options \<Rightarrow> list_options option" where
  "selection_option atom options =
     (let upper = ToUpper atom in
      if upper = ''SUBSCRIBED'' then Some (options\<lparr>lo_SelectSubscribed := True\<rparr>)
      else if upper = ''REMOTE'' then Some (options\<lparr>lo_SelectRemote := True\<rparr>)
      else if upper = ''RECURSIVEMATCH'' then Some (options\<lparr>lo_SelectRecursiveMatch := True\<rparr>)
      else if upper = ''SPECIAL-USE'' then Some (options\<lparr>lo_SelectSpecialUse := True\<rparr>)
      else None)"

function selection_loop :: "list_options \<Rightarrow> list_options gparser" where
  "selection_loop options inp =
     (case ReadAtom inp of
        (Inl _, inp1) \<Rightarrow> (Inl (ErrBad ''invalid selection option''), inp1)
      | (Inr atom, inp1) \<Rightarrow>
          (case selection_option atom options of
             None \<Rightarrow> (Inl (ErrBad (''unknown selection option: '' @ atom)), inp1)
           | Some options' \<Rightarrow>
               if inp1 = [] then (Inl (ErrBad ''unexpected end in selection options''), [])
               else if hd inp1 = CHR '')'' then (Inr options', tl inp1)
               else case ReadSP inp1 of
                      (Inl _, inp2) \<Rightarrow> (Inl (ErrBad ''expected SP between selection options''), inp2)
                    | (Inr _, inp2) \<Rightarrow> selection_loop options' inp2))"
  by pat_completeness auto
termination
proof (relation "measure (\<lambda>(_, inp). length inp)", simp)
  fix options inp r inp1 atom options' q inp2 u
  assume a: "(r, inp1) = ReadAtom inp" "(q, inp2) = ReadSP inp1" "q = Inr u"
  then have "length inp2 < length inp" by (metis shorter_after_SP keeps_suffix_ReadAtom)
  then show "((options', inp2), options, inp) \<in> measure (\<lambda>(_, inp). length inp)" by simp
qed

declare selection_loop.simps [simp del]

definition parseSelectionOptions :: "list_options \<Rightarrow> list_options gparser" where
  "parseSelectionOptions options =
     gbind (expect (ExpectByte (CHR ''('')) ''expected '(' for selection options'') (\<lambda>_.
     gbind (expect PeekByte ''unexpected end in selection options'') (\<lambda>b.
       if b = CHR '')'' then (\<lambda>inp. (Inr options, tl inp)) else selection_loop options))"

definition list_status_item :: "string \<Rightarrow> status_options \<Rightarrow> status_options" where
  "list_status_item item p =
     (let upper = ToUpper item in
      if upper = ''MESSAGES'' then p\<lparr>so_NumMessages := True\<rparr>
      else if upper = ''UIDNEXT'' then p\<lparr>so_UIDNext := True\<rparr>
      else if upper = ''UIDVALIDITY'' then p\<lparr>so_UIDValidity := True\<rparr>
      else if upper = ''UNSEEN'' then p\<lparr>so_NumUnseen := True\<rparr>
      else if upper = ''RECENT'' then p\<lparr>so_NumRecent := True\<rparr>
      else if upper = ''SIZE'' then p\<lparr>so_Size := True\<rparr>
      else if upper = ''HIGHESTMODSEQ'' then p\<lparr>so_HighestModSeq := True\<rparr>
      else p)"

definition list_status :: "string \<Rightarrow> status_options reply option" where
  "list_status inp =
     ReadList (\<lambda>p inp. Some (dbind (ReadAtom inp) (\<lambda>item rest. (Inr (list_status_item item p), rest)))) zero_status_options inp"

definition list_metadata :: "string \<Rightarrow> list_return_metadata reply option" where
  "list_metadata inp =
     ReadList (\<lambda>p inp. Some
       (dbind (ReadAString inp) (\<lambda>item inp.
          if ToUpper item = ''MAXSIZE''
          then dbind (ReadSP inp) (\<lambda>_ inp. dbind (ReadNumber64 inp) (\<lambda>n inp. (Inr (p\<lparr>lm_MaxSize := sint n\<rparr>), inp)))
          else if ToUpper item = ''DEPTH''
          then dbind (ReadSP inp) (\<lambda>_ inp. dbind (ReadAtom inp) (\<lambda>d inp. (Inr (p\<lparr>lm_Depth := d\<rparr>), inp)))
          else (Inr (p\<lparr>lm_Options := lm_Options p @ [item]\<rparr>), inp))))
       \<lparr>lm_Options = [], lm_MaxSize = 0, lm_Depth = []\<rparr> inp"

text \<open>An option with a list of its own; the errors of the list are reported as one.\<close>

definition list_sub_option ::
  "string \<Rightarrow> (string \<Rightarrow> 'a reply option) \<Rightarrow> string \<Rightarrow> ('a \<Rightarrow> list_options) \<Rightarrow> string \<Rightarrow> ((go_error + list_options) \<times> string) option" where
  "list_sub_option missing d invalid put inp =
     (case ReadSP inp of
        (Inl _, inp) \<Rightarrow> Some (Inl (ErrBad missing), inp)
      | (Inr _, inp) \<Rightarrow>
          map_option (\<lambda>r. case r of (Inl _, inp) \<Rightarrow> (Inl (ErrBad invalid), inp) | (Inr x, inp) \<Rightarrow> (Inr (put x), inp)) (d inp))"

definition list_return_option :: "string \<Rightarrow> list_options \<Rightarrow> string \<Rightarrow> ((go_error + list_options) \<times> string) option" where
  "list_return_option atom options inp =
     (let upper = ToUpper atom in
      if upper = ''SUBSCRIBED'' then Some (Inr (options\<lparr>lo_ReturnSubscribed := True\<rparr>), inp)
      else if upper = ''CHILDREN'' then Some (Inr (options\<lparr>lo_ReturnChildren := True\<rparr>), inp)
      else if upper = ''SPECIAL-USE'' then Some (Inr (options\<lparr>lo_ReturnSpecialUse := True\<rparr>), inp)
      else if upper = ''MYRIGHTS'' then Some (Inr (options\<lparr>lo_ReturnMyRights := True\<rparr>), inp)
      else if upper = ''STATUS''
      then list_sub_option ''missing STATUS items'' list_status ''invalid STATUS items list''
             (\<lambda>p. options\<lparr>lo_ReturnStatus := Some p\<rparr>) inp
      else if upper = ''METADATA''
      then list_sub_option ''missing METADATA options'' list_metadata ''invalid METADATA options list''
             (\<lambda>p. options\<lparr>lo_ReturnMetadata := Some p\<rparr>) inp
      else Some (Inl (ErrBad (''unknown RETURN option: '' @ atom)), inp))"

partial_function (option) list_return_loop :: "list_options \<Rightarrow> string \<Rightarrow> ((go_error + list_options) \<times> string) option" where
  "list_return_loop options inp =
     (case ReadAtom inp of
        (Inl _, inp) \<Rightarrow> Some (Inl (ErrBad ''invalid RETURN option''), inp)
      | (Inr atom, inp) \<Rightarrow>
          Option.bind (list_return_option atom options inp) (\<lambda>r.
            case r of
              (Inl e, inp) \<Rightarrow> Some (Inl e, inp)
            | (Inr options, inp) \<Rightarrow>
                if inp = [] then Some (Inl (ErrBad ''unexpected end in RETURN options''), [])
                else if hd inp = CHR '')'' then Some (Inr options, tl inp)
                else case ReadSP inp of
                       (Inl _, inp) \<Rightarrow> Some (Inl (ErrBad ''expected SP between RETURN options''), inp)
                     | (Inr _, inp) \<Rightarrow> list_return_loop options inp))"

definition List_parseReturnOptions :: "list_options \<Rightarrow> string \<Rightarrow> ((go_error + list_options) \<times> string) option" where
  "List_parseReturnOptions options inp =
     (case gbind (expect (ExpectByte (CHR ''('')) ''expected '(' for RETURN options'') (\<lambda>_.
                  expect PeekByte ''unexpected end in RETURN options'') inp of
        (Inl e, inp) \<Rightarrow> Some (Inl e, inp)
      | (Inr b, inp) \<Rightarrow> if b = CHR '')'' then Some (Inr options, tl inp) else list_return_loop options inp)"

definition parsing_loop :: "(string \<Rightarrow> ((go_error + 'a) \<times> string) option) \<Rightarrow> ('a \<Rightarrow> 'b step) \<Rightarrow> 'b step" where
  "parsing_loop p k inp =
     (case p inp of None \<Rightarrow> (\<lambda>_. Hangs) | Some (Inl e, _) \<Rightarrow> fail e | Some (Inr x, rest) \<Rightarrow> k x rest)"

definition list_run ::
  "'b backend \<Rightarrow> (string \<Rightarrow> string list \<Rightarrow> list_options \<Rightarrow> ('b, unit) meth) option \<Rightarrow> command_context \<Rightarrow>
   bool \<Rightarrow> string \<Rightarrow> string list \<Rightarrow> list_options \<Rightarrow> 'b cont" where
  "list_run be ses ctx isExtended ref patterns options =
     (let done = (\<lambda>_. return_ok ctx ''LIST completed'');
          plain = ask (be_List be ref patterns options) done
      in if isExtended then asserting ses plain (\<lambda>ListExtended. ask (ListExtended ref patterns options) done) else plain)"

text \<open>The reference and the patterns, then the RETURN options if there are any.\<close>

definition list_extended_args ::
  "'b backend \<Rightarrow> (string \<Rightarrow> string list \<Rightarrow> list_options \<Rightarrow> ('b, unit) meth) option \<Rightarrow> command_context \<Rightarrow>
   bool \<Rightarrow> list_options \<Rightarrow> 'b step" where
  "list_extended_args be ses ctx isExtended options =
     read_arg ReadAString ''invalid reference name'' (\<lambda>ref.
     read_arg ReadSP ''missing mailbox pattern'' (\<lambda>_.
     parsing_loop readPatterns (\<lambda>patterns inp.
       case ReadSP inp of
         (Inl _, _) \<Rightarrow> list_run be ses ctx isExtended ref patterns options
       | (Inr _, inp) \<Rightarrow>
           read_arg ReadAtom ''invalid argument after pattern'' (\<lambda>atom.
             if \<not> EqualFold atom ''RETURN'' then (\<lambda>_. fail (ErrBad (''expected RETURN, got '' @ atom)))
             else read_arg ReadSP ''missing RETURN options'' (\<lambda>_.
                  parsing_loop (List_parseReturnOptions options) (\<lambda>options _.
                  list_run be ses ctx True ref patterns options))) inp)))"

definition handleListExtended ::
  "'b backend \<Rightarrow> (string \<Rightarrow> string list \<Rightarrow> list_options \<Rightarrow> ('b, unit) meth) option \<Rightarrow> 'b handler" where
  "handleListExtended be ses ctx =
     with_args ctx ''missing arguments''
       (read_arg PeekByte ''missing arguments'' (\<lambda>b.
          if b = CHR ''(''
          then parsing (parseSelectionOptions zero_list_options) (\<lambda>options.
                 if lo_SelectRecursiveMatch options \<and> \<not> lo_SelectSubscribed options \<and> \<not> lo_SelectRemote options \<and>
                    \<not> lo_SelectSpecialUse options
                 then (\<lambda>_. fail (ErrBad ''RECURSIVEMATCH requires another selection option''))
                 else read_arg ReadSP ''missing reference name'' (\<lambda>_. list_extended_args be ses ctx True options))
          else list_extended_args be ses ctx False zero_list_options))"

definition ListExtended_WrapHandler ::
  "'b backend \<Rightarrow> (string \<Rightarrow> string list \<Rightarrow> list_options \<Rightarrow> ('b, unit) meth) option \<Rightarrow> string \<Rightarrow> 'b handler \<Rightarrow> 'b handler option" where
  "ListExtended_WrapHandler be ses name h = map_of [(''LIST'', handleListExtended be ses)] name"

end
