(* ===== verification/ExtLaws.thy ===== *)
theory ExtLaws
  imports ExtMailboxes MemBackend
begin

text \<open>
  What holds of the extensions together. A dispatcher is extended by registering the commands of
  extensions and by wrapping the handlers it has, in any order; every dispatcher that arises in
  this way from the built-in one still answers each command exactly once.
\<close>

section \<open>The optional interfaces of a session\<close>

text \<open>What the type assertions of the extensions find on a session.\<close>

record 'b ext_session =
  xs_acl :: "'b session_acl option"
  xs_quota :: "'b session_quota option"
  xs_namespace :: "('b, namespace_data) meth option"
  xs_metadata :: "'b session_metadata option"
  xs_id :: "'b id_meth option"
  xs_language :: "(string list \<Rightarrow> ('b, string \<times> string list) meth) option"
  xs_compress :: "(string \<Rightarrow> ('b, unit) meth) option"
  xs_unauthenticate :: "('b, unit) meth option"
  xs_move :: "(num_set \<Rightarrow> string \<Rightarrow> ('b, unit) meth) option"
  xs_notify :: "'b session_notify option"
  xs_convert :: "'b convert_meth option"
  xs_filters :: "'b session_filters option"
  xs_sort :: "'b sort_meth option"
  xs_thread :: "'b thread_meth option"
  xs_urlauth :: "'b session_urlauth option"
  xs_context :: "'b session_context option"
  xs_multisearch :: "'b multi_meth option"
  xs_replace :: "'b replace_meth option"
  xs_conditional :: "'b store_meth option"
  xs_qresync :: "'b select_meth option"
  xs_uidplus :: "'b session_uidplus option"
  xs_specialuse :: "(string \<Rightarrow> create_options \<Rightarrow> ('b, unit) meth) option"
  xs_uidonly :: "'b session_uidonly"
  xs_extended :: "'b search_meth option"
  xs_fuzzy :: "'b search_meth option"
  xs_searchres :: "'b session_searchres option"
  xs_partial :: "'b search_meth option"
  xs_esort :: "'b esort_meth option"
  xs_binary :: "'b append_meth option"
  xs_utf8 :: "('b, unit) meth option"
  xs_catenate :: "'b catenate_meth option"
  xs_multiappend :: "'b multiappend_meth option"
  xs_listextended :: "(string \<Rightarrow> string list \<Rightarrow> list_options \<Rightarrow> ('b, unit) meth) option"

text \<open>The commands that the extensions add, and the handlers that they replace.\<close>

definition extension_handlers :: "options \<Rightarrow> 'b backend \<Rightarrow> 'b ext_session \<Rightarrow> (string \<times> 'b handler) list" where
  "extension_handlers opts be xs =
     ACL_CommandHandlers (xs_acl xs) @ Quota_CommandHandlers (xs_quota xs) @ Metadata_CommandHandlers opts (xs_metadata xs) @
     Filters_CommandHandlers (xs_filters xs) @ URLAuth_CommandHandlers (xs_urlauth xs) @
     [(''NAMESPACE'', handleNamespace (xs_namespace xs)), (''ID'', handleID (xs_id xs)),
      (''LANGUAGE'', handleLanguage (xs_language xs)), (''COMPRESS'', handleCompress (xs_compress xs)),
      (''UNAUTHENTICATE'', handleUnauthenticate (xs_unauthenticate xs)), (''MOVE'', handleMove (xs_move xs)),
      (''UNSELECT'', handleUnselect be), (''NOTIFY'', handleNotify (xs_notify xs)), (''CONVERT'', handleConvert (xs_convert xs)),
      (''SORT'', handleSort (xs_sort xs)), (''THREAD'', handleThread (xs_thread xs)),
      (''CANCELUPDATE'', handleCancelUpdate (xs_context xs)), (''ESEARCH'', handleMultiSearch opts (xs_multisearch xs)),
      (''REPLACE'', handleReplace opts (xs_replace xs))]"

definition extension_wrappers ::
  "options \<Rightarrow> 'b backend \<Rightarrow> 'b ext_session \<Rightarrow> (string \<times> (string \<Rightarrow> 'b handler \<Rightarrow> 'b handler option)) list" where
  "extension_wrappers opts be xs =
     [(''CONDSTORE'', Condstore_WrapHandler opts be (xs_conditional xs)), (''QRESYNC'', QResync_WrapHandler opts be (xs_qresync xs)),
      (''PREVIEW'', Preview_WrapHandler opts be), (''UIDPLUS'', UIDPlus_WrapHandler be (xs_uidplus xs)),
      (''SPECIAL-USE'', SpecialUse_WrapHandler be (xs_specialuse xs)), (''UIDONLY'', UIDOnly_WrapHandler opts (xs_uidonly xs)),
      (''ESEARCH'', ESearch_WrapHandler opts be (xs_extended xs)),
      (''SEARCH=FUZZY'', Fuzzy_WrapHandler opts be (xs_fuzzy xs) (xs_extended xs)),
      (''SEARCHRES'', SearchRes_WrapHandler opts be (xs_extended xs) (xs_searchres xs) (xs_move xs)),
      (''PARTIAL'', Partial_WrapHandler opts be (xs_partial xs) (xs_extended xs) (xs_esort xs)),
      (''ESORT'', ESort_WrapHandler opts (xs_esort xs) (xs_sort xs)),
      (''CONTEXT=SEARCH'', Context_WrapHandler opts be (xs_context xs) (xs_extended xs)),
      (''BINARY'', Binary_WrapHandler opts be (xs_binary xs)), (''UTF8=ACCEPT'', UTF8_WrapHandler opts be (xs_utf8 xs)),
      (''CATENATE'', Catenate_WrapHandler opts be (xs_catenate xs)),
      (''MULTIAPPEND'', MultiAppend_WrapHandler opts be (xs_multiappend xs)),
      (''LIST-EXTENDED'', ListExtended_WrapHandler be (xs_listextended xs))]"

text \<open>The dispatchers that extensions can build, with the wrapped handlers: which extension has wrapped
  which command.\<close>

inductive installed :: "options \<Rightarrow> 'b backend \<Rightarrow> 'b ext_session \<Rightarrow> (string \<times> string) list \<Rightarrow> 'b dispatcher \<Rightarrow> bool"
  for opts be xs where
  start: "installed opts be xs [] (builtin opts be)"
| register: "installed opts be xs ws d \<Longrightarrow> (name, h) \<in> set (extension_handlers opts be xs) \<Longrightarrow>
    installed opts be xs ws (Dispatcher_Register name h d)"
| wrap: "installed opts be xs ws d \<Longrightarrow> (ext, w) \<in> set (extension_wrappers opts be xs) \<Longrightarrow>
    installed opts be xs ((ext, name) # ws) (Wrap name (\<lambda>h. case w name h of Some h' \<Rightarrow> h' | None \<Rightarrow> h) d)"

text \<open>Three wrapped handlers answer once under a condition only: the STORE of CONDSTORE does not answer
  without \<open>StoreConditional\<close>, and the two for ENABLE answer again when the session, which they tell
  after the tagged response, returns an error.\<close>

definition never_fails :: "('b, 'a) meth \<Rightarrow> bool" where
  "never_fails m \<longleftrightarrow> (\<forall>b e. fst (m b) \<noteq> Err e)"

definition sound_wrap :: "'b ext_session \<Rightarrow> string \<times> string \<Rightarrow> bool" where
  "sound_wrap xs p \<longleftrightarrow>
     (p = (''CONDSTORE'', ''STORE'') \<longrightarrow> xs_conditional xs \<noteq> None) \<and>
     (p = (''UIDONLY'', ''ENABLE'') \<longrightarrow> (\<forall>m. uo_EnableUIDOnly (xs_uidonly xs) = Some m \<longrightarrow> never_fails m)) \<and>
     (p = (''UTF8=ACCEPT'', ''ENABLE'') \<longrightarrow> (\<forall>m. xs_utf8 xs = Some m \<longrightarrow> never_fails m))"

section \<open>Rules for the combinators\<close>

named_theorems good_rules

lemma good_bad [good_rules]: "valid_tag (cx_Tag ctx) \<Longrightarrow> good (cx_Tag ctx) (bad ctx msg)"
  by (simp add: good_def bad_def WriteBAD_def emit_def tagged_status)

lemma good_no [good_rules]: "valid_tag (cx_Tag ctx) \<Longrightarrow> good (cx_Tag ctx) (no ctx msg)"
  by (simp add: good_def no_def WriteNO_def emit_def tagged_status)

lemma good_cond:
  assumes "\<And>c. good tag (p c)" "\<And>c. k c = p c c"
  shows "good tag k"
  using assms unfolding good_def by metis

lemma good_if_conn [good_rules]: "good tag p \<Longrightarrow> good tag q \<Longrightarrow> good tag (\<lambda>c. if P c then p c else q c)"
  unfolding good_def by metis

lemma good_in_states [good_rules]:
  "valid_tag (cx_Tag ctx) \<Longrightarrow> good (cx_Tag ctx) k \<Longrightarrow> good (cx_Tag ctx) (in_states ss ctx msg k)"
  unfolding in_states_def [abs_def] by (intro good_rules)

lemma good_asserting [good_rules]:
  assumes "good tag p" "\<And>x. i = Some x \<Longrightarrow> good tag (k x)"
  shows "good tag (asserting i p k)"
  using assms unfolding asserting_def [abs_def] good_def
  by (auto split: option.splits)

lemma good_deref [good_rules]: "(\<And>inp. good tag (k inp)) \<Longrightarrow> good tag (deref ctx k)"
  unfolding deref_def [abs_def] by (cases "cx_Decoder ctx") (simp_all add: good_def)

lemma good_has_args [good_rules]:
  "valid_tag (cx_Tag ctx) \<Longrightarrow> (\<And>inp. good (cx_Tag ctx) (k inp)) \<Longrightarrow> good (cx_Tag ctx) (has_args ctx msg k)"
  by (auto simp: has_args_def intro: good_bad split: option.split)

lemma good_arg [good_rules]:
  "valid_tag (cx_Tag ctx) \<Longrightarrow> (\<And>x inp. good (cx_Tag ctx) (k x inp)) \<Longrightarrow> good (cx_Tag ctx) (arg ctx d msg k inp)"
  by (auto simp: arg_def intro: good_bad split: prod.split sum.split)

lemma good_arg_loop [good_rules]:
  "valid_tag (cx_Tag ctx) \<Longrightarrow> (\<And>x inp. good (cx_Tag ctx) (k x inp)) \<Longrightarrow> good (cx_Tag ctx) (arg_loop ctx d msg k inp)"
  by (auto simp: arg_loop_def intro: good_bad good_hangs split: prod.split sum.split option.split)

lemma good_call [good_rules]:
  assumes vt: "valid_tag (cx_Tag ctx)" and "\<And>b. polite (m b)" and "\<And>x. good (cx_Tag ctx) (k x)"
  shows "good (cx_Tag ctx) (call ctx name m k)"
  unfolding good_def
proof (intro allI impI)
  fix c e c'
  assume a: "call ctx name m k c = Finished e c'"
  obtain b where b: "c_session c = Some b" using a by (cases "c_session c") (auto simp: call_def)
  obtain r out b' where m: "m b = (r, out, b')" by (cases "m b")
  let ?c = "c\<lparr>c_session := Some b', c_output := c_output c @ out\<rparr>"
  have out: "tagged (cx_Tag ctx) out = 0"
    using assms(2) [of b] tagged_polite [OF vt, of out] by (simp add: m polite_def)
  have "\<exists>p. good (cx_Tag ctx) p \<and> p ?c = Finished e c'"
    using a assms(3) good_no [OF vt] by (cases r) (auto simp: call_def b m)
  then obtain outs where o: "c_output c' = c_output ?c @ outs"
      "case e of None \<Rightarrow> tagged (cx_Tag ctx) outs = 1 | Some e \<Rightarrow> tagged (cx_Tag ctx) outs = 0 \<and> \<not> is_bye e"
    unfolding good_def by blast
  show "\<exists>outs. c_output c' = c_output c @ outs \<and>
      (case e of None \<Rightarrow> tagged (cx_Tag ctx) outs = 1 | Some e \<Rightarrow> tagged (cx_Tag ctx) outs = 0 \<and> \<not> is_bye e)"
    by (rule exI [of _ "out @ outs"]) (use o out in \<open>cases e; simp\<close>)
qed

lemma good_answer [good_rules]:
  assumes "valid_tag (cx_Tag ctx)" "HasPrefix line ''* ''"
  shows "good (cx_Tag ctx) (answer ctx line msg)"
  unfolding answer_def [abs_def]
  by (rule good_pre [OF good_return_ok [OF assms(1)]])
    (use assms tagged_polite [of "cx_Tag ctx" "[line]"] in \<open>simp add: emit_def\<close>)

lemma good_foldl_emit:
  assumes "valid_tag tag" "good tag k" "\<And>x. HasPrefix (f x) ''* ''"
  shows "good tag (\<lambda>c. k (foldl (\<lambda>c x. emit (f x) c) c xs))"
proof (rule good_pre [OF assms(2)], intro allI)
  fix c :: "'a conn"
  have "c_output (foldl (\<lambda>c x. emit (f x) c) c xs) = c_output c @ map f xs"
    by (induction xs arbitrary: c) (simp_all add: emit_def)
  moreover have "tagged tag (map f xs) = 0" by (rule tagged_polite [OF assms(1)]) (simp add: assms(3))
  ultimately show "\<exists>outs. c_output (foldl (\<lambda>c x. emit (f x) c) c xs) = c_output c @ outs \<and> tagged tag outs = 0" by blast
qed

lemma good_ask_all [good_rules]:
  "valid_tag tag \<Longrightarrow> (\<And>b. polite (m b)) \<Longrightarrow> (\<And>x. good tag (k x)) \<Longrightarrow> good tag (ask m k)"
  by (rule good_ask) simp_all

lemmas [good_rules] = good_fail good_hangs good_ok good_return_ok good_with_args good_read_arg good_read_loop
  good_read_numset good_set_state HasPrefix_star not_bye

subsection \<open>Parsers never ask to end the connection\<close>

definition clean :: "(go_error + 'a) \<times> string \<Rightarrow> bool" where
  "clean r \<longleftrightarrow> (case fst r of Inl e \<Rightarrow> \<not> is_bye e | Inr _ \<Rightarrow> True)"

lemma clean_simps [simp]: "clean (Inl e, rest) \<longleftrightarrow> \<not> is_bye e" "clean (Inr x, rest)"
  by (simp_all add: clean_def)

lemma clean_gbind: "(\<And>inp. clean (p inp)) \<Longrightarrow> (\<And>x inp. clean (f x inp)) \<Longrightarrow> clean (gbind p f inp)"
  unfolding gbind_def by (auto split: prod.split sum.split) (metis clean_simps(1))

lemma clean_gparsers: "clean (greturn x inp)" "\<not> is_bye e \<Longrightarrow> clean (gfail e inp)" "clean (expect d msg inp)"
  by (auto simp: greturn_def gfail_def expect_def split: prod.split sum.split)

lemmas clean_rules = clean_gbind clean_gparsers not_bye

lemma clean_return_option: "clean (return_option kind atom options inp)"
  unfolding return_option_def Let_def by (auto intro!: clean_rules split: sum.split)

lemma clean_return_loop: "clean (return_loop kind options inp)"
proof (induction kind options inp rule: return_loop.induct)
  case (1 kind options inp)
  show ?case
    using clean_return_option [of kind _ options]
    by (subst return_loop.simps) (auto split: prod.split sum.split intro!: 1, metis clean_simps(1))
qed

lemma clean_return_options: "clean (return_options kind inp)"
  unfolding return_options_def by (auto intro!: clean_rules clean_return_loop)

lemma clean_special_use: "clean (special_use inp)"
  unfolding special_use_def by (auto intro!: clean_rules)

lemma clean_qresync_param: "clean (qresync_param opts atom options inp)"
  unfolding qresync_param_def parseQResyncParams_def qresync_known_uids_def qresync_seq_args_def Let_def
  by (auto intro!: clean_rules split: sum.split)

lemma clean_qresync_params: "clean (qresync_params opts options inp)"
proof (induction opts options inp rule: qresync_params.induct)
  case (1 opts options inp)
  have IH: "clean (qresync_params opts options' (if hd inp2 = SP then tl inp2 else inp2))"
    if "inp \<noteq> []" "hd inp \<noteq> CHR '')''" "ReadAtom inp = (Inr atom, inp1)" "inp2 \<noteq> []"
      "qresync_param opts atom options inp1 = (Inr options', inp2)" for atom inp1 options' inp2
    by (rule 1 [OF that(1,2) that(3) [symmetric] refl that(5) [symmetric] refl that(4)])
  obtain r inp1 where r: "ReadAtom inp = (r, inp1)" by (cases "ReadAtom inp")
  show ?case
  proof (cases r)
    case (Inr atom)
    obtain p inp2 where p: "qresync_param opts atom options inp1 = (p, inp2)"
      by (cases "qresync_param opts atom options inp1")
    then have "clean (p, inp2)" using clean_qresync_param by metis
    with r Inr p IH show ?thesis by (subst qresync_params.simps) (cases p; simp)
  qed (subst qresync_params.simps, simp add: r)
qed

lemma clean_parsePostItemModifiers: "clean (parsePostItemModifiers options inp)"
proof (induction options inp rule: parsePostItemModifiers.induct)
  case (1 options inp)
  have "clean (preview_post_modifier atom options rest)" for atom rest
    unfolding preview_post_modifier_def by (auto intro!: clean_rules)
  then show ?case
    by (subst parsePostItemModifiers.simps) (auto split: prod.split sum.split intro!: 1, metis clean_simps(1))
qed

lemma clean_parseSelectionOptions: "clean (parseSelectionOptions options inp)"
proof -
  have "clean (selection_loop options inp)" for options inp
  proof (induction options inp rule: selection_loop.induct)
    case (1 options inp)
    show ?case by (subst selection_loop.simps) (auto split: prod.split sum.split option.split intro!: 1)
  qed
  then show ?thesis unfolding parseSelectionOptions_def by (auto intro!: clean_rules)
qed

lemma bind_parsedE:
  assumes "Option.bind p f = Some r"
  obtains e inp where "p = Some (Inl e, inp)" "f (Inl e, inp) = Some r"
  | x inp where "p = Some (Inr x, inp)" "f (Inr x, inp) = Some r"
proof -
  obtain y inp where y: "p = Some (y, inp)" "f (y, inp) = Some r" using assms by (cases p) auto
  then show ?thesis using that by (cases y) simp_all
qed

lemma clean_patterns_loop:
  assumes "patterns_loop patterns inp = Some r"
  shows "clean r"
proof (rule patterns_loop.raw_induct [of "\<lambda>_ _ r. clean r", OF _ assms], goal_cases)
  case (1 loop patterns inp r)
  from 1(2) show ?case by (auto split: if_splits prod.splits sum.splits dest: 1(1))
qed

lemma clean_readPatterns: "readPatterns inp = Some r \<Longrightarrow> clean r"
  unfolding readPatterns_def
  by (auto split: if_splits prod.splits sum.splits elim!: bind_parsedE dest: clean_patterns_loop)

lemma clean_list_sub_option: "list_sub_option missing d invalid put inp = Some r \<Longrightarrow> clean r"
  unfolding list_sub_option_def by (auto simp: map_option_case split: option.splits prod.splits sum.splits)

lemma clean_list_return_option: "list_return_option atom options inp = Some r \<Longrightarrow> clean r"
  unfolding list_return_option_def Let_def by (auto split: if_splits dest: clean_list_sub_option)

lemma clean_list_return_loop:
  assumes "list_return_loop options inp = Some r"
  shows "clean r"
proof (rule list_return_loop.raw_induct [of "\<lambda>_ _ r. clean r", OF _ assms], goal_cases)
  case (1 loop options inp r)
  from 1(2) show ?case
    by (auto split: if_splits prod.splits sum.splits elim!: bind_parsedE dest: 1(1) dest!: clean_list_return_option)
qed

lemma clean_List_parseReturnOptions: "List_parseReturnOptions options inp = Some r \<Longrightarrow> clean r"
proof -
  let ?p = "gbind (expect (ExpectByte (CHR ''('')) ''expected '(' for RETURN options'') (\<lambda>_.
    expect PeekByte ''unexpected end in RETURN options'')"
  have "clean (?p inp)" by (intro clean_rules)
  then show "List_parseReturnOptions options inp = Some r \<Longrightarrow> clean r"
    unfolding List_parseReturnOptions_def
    by (auto split: if_splits prod.splits sum.splits dest: clean_list_return_loop)
qed

lemma clean_readMessageMeta: "readMessageMeta opts inp = Some r \<Longrightarrow> clean r"
proof -
  have "clean (message_date opts flags b inp)" for flags b inp
    unfolding message_date_def by (auto intro!: clean_rules split: option.split)
  then show "readMessageMeta opts inp = Some r \<Longrightarrow> clean r"
    unfolding readMessageMeta_def
    by (auto split: if_splits prod.splits sum.splits option.splits intro!: clean_rules)
qed

lemma clean_multiappend_loop:
  assumes "multiappend_loop opts messages inp = Some r"
  shows "clean r"
proof (rule multiappend_loop.raw_induct [of "\<lambda>_ _ _ r. clean r", OF _ assms], goal_cases)
  case (1 loop opts messages inp r)
  from 1(2) show ?case
    by (auto split: if_splits prod.splits sum.splits elim!: bind_parsedE dest: 1(1) dest!: clean_readMessageMeta)
qed

lemma good_parsing [good_rules]:
  assumes "\<And>inp. clean (p inp)" "\<And>x inp. good tag (k x inp)"
  shows "good tag (parsing p k inp)"
  using assms(1) [of inp] by (auto simp: parsing_def good_fail assms(2) split: prod.split sum.split)

lemma good_parsing_loop [good_rules]:
  assumes "\<And>r. p inp = Some r \<Longrightarrow> clean r" "\<And>x inp. good tag (k x inp)"
  shows "good tag (parsing_loop p k inp)"
  using assms(1) by (auto simp: parsing_loop_def good_fail good_hangs assms(2) split: prod.split sum.split option.split)

lemma good_read_criteria [good_rules]:
  "(\<And>x inp. good tag (k x inp)) \<Longrightarrow> good tag (read_criteria opts p k inp)"
  by (auto simp: read_criteria_def good_fail good_hangs split: prod.split sum.split option.split)

lemma return_options_clean [good_rules]:
  "clean (parseReturnOptions inp)" "clean (Fuzzy_parseReturnOptions inp)" "clean (SearchRes_parseReturnOptions inp)"
  "clean (ESort_parseReturnOptions inp)" "clean (Multi_parseReturnOptions inp)" "clean (Partial_parseReturnOptions inp)"
  "clean (Context_parseReturnOptions inp)"
  unfolding parseReturnOptions_def Fuzzy_parseReturnOptions_def SearchRes_parseReturnOptions_def ESort_parseReturnOptions_def
    Multi_parseReturnOptions_def Partial_parseReturnOptions_def Context_parseReturnOptions_def
  by (rule clean_return_options)+

lemmas [good_rules] = clean_special_use clean_qresync_params clean_parsePostItemModifiers clean_parseSelectionOptions

lemma good_with_literal [good_rules]: "(\<And>lit. good tag (k lit)) \<Longrightarrow> good tag (with_literal n k)"
proof -
  assume "\<And>lit. good tag (k lit)"
  then have "good tag (\<lambda>c. k lit (c\<lparr>c_input := drop (nat n) (c_input c)\<rparr>))" for lit by (rule good_pre) simp
  then show ?thesis unfolding with_literal_def [abs_def] by (rule good_cond) simp
qed

lemma good_literal_size [good_rules]:
  "(\<And>n bin. good tag (k n bin)) \<Longrightarrow> good tag (literal_size opts r msg k inp)"
  by (auto simp: literal_size_def good_fail split: sum.split)

subsection \<open>Shared parts of handlers\<close>

lemma good_replace_numset [good_rules]:
  "valid_tag (cx_Tag ctx) \<Longrightarrow> (\<And>x inp. good (cx_Tag ctx) (k x inp)) \<Longrightarrow> good (cx_Tag ctx) (replace_numset ctx k inp)"
  unfolding replace_numset_def by (auto intro!: good_rules split: sum.split)

lemma good_replace_flags [good_rules]:
  "valid_tag (cx_Tag ctx) \<Longrightarrow> (\<And>x b inp. good (cx_Tag ctx) (k x b inp)) \<Longrightarrow> good (cx_Tag ctx) (replace_flags ctx k inp)"
  unfolding replace_flags_def by (auto intro!: good_rules)

lemma good_replace_date [good_rules]:
  "valid_tag (cx_Tag ctx) \<Longrightarrow> (\<And>x inp. good (cx_Tag ctx) (k x inp)) \<Longrightarrow> good (cx_Tag ctx) (replace_date opts ctx b k inp)"
  unfolding replace_date_def by (auto intro!: good_rules split: option.split)

lemma good_ok_codes [good_rules]:
  assumes "valid_tag (cx_Tag ctx)"
  shows "good (cx_Tag ctx) (replace_ok ctx data)" "good (cx_Tag ctx) (append_ok ctx data)" "good (cx_Tag ctx) (copy_ok ctx cdata)"
    "good (cx_Tag ctx) (writeAppendOK ctx data)" "good (cx_Tag ctx) (UTF8_writeAppendOK ctx data)"
    "good (cx_Tag ctx) (MultiAppend_writeAppendOK ctx data)" "good (cx_Tag ctx) (writeMultiAppendOK ctx results)"
  unfolding writeAppendOK_copies replace_ok_def append_ok_def copy_ok_def writeMultiAppendOK_def
  by (auto intro!: good_rules assms split: option.split list.split)

lemma good_store_modifier [good_rules]: "(\<And>x inp. good tag (k x inp)) \<Longrightarrow> good tag (store_modifier k inp)"
  unfolding store_modifier_def by (auto intro!: good_rules)

lemma good_store_action_flags [good_rules]: "(\<And>x. good tag (k x)) \<Longrightarrow> good tag (store_action_flags k inp)"
  unfolding store_action_flags_def Let_def by (auto intro!: good_rules split: option.split)

lemma good_fetch_modifier [good_rules]:
  assumes "\<And>x k inp. (\<And>x inp. good tag (k x inp)) \<Longrightarrow> good tag (vanished x k inp)" "\<And>x inp. good tag (k x inp)"
  shows "good tag (fetch_modifier vanished options k inp)"
  unfolding fetch_modifier_def by (auto intro!: good_rules assms split: prod.split sum.split)

lemma good_vanished [good_rules]:
  assumes "\<And>x inp. good tag (k x inp)"
  shows "good tag (no_vanished x k inp)" "good tag (qresync_vanished ctx x k inp)" "good tag (uidonly_vanished x k inp)"
proof -
  show "good tag (no_vanished x k inp)" using assms by (simp add: no_vanished_def)
  show "good tag (qresync_vanished ctx x k inp)"
    using assms unfolding qresync_vanished_def [abs_def] good_def fail_def
    by (auto split: if_splits prod.splits sum.splits)
  show "good tag (uidonly_vanished x k inp)"
    using assms unfolding uidonly_vanished_def [abs_def] good_def by (auto split: if_splits prod.splits sum.splits)
qed

lemma good_select_done [good_rules]:
  assumes vt: "valid_tag (cx_Tag ctx)" and "\<forall>s \<in> set lines. HasPrefix s ''* ''"
  shows "good (cx_Tag ctx) (select_done ctx mailbox lines data)"
  unfolding select_done_def [abs_def] Let_def
  by (rule good_pre [OF good_set_state [OF good_ok [OF vt]]])
    (use tagged_polite [OF vt assms(2)] in \<open>simp add: SetMailbox_def output_foldl_emit\<close>)

lemma good_writeSelectResponse [good_rules]:
  "valid_tag (cx_Tag ctx) \<Longrightarrow> good (cx_Tag ctx) (writeSelectResponse ctx mailbox data)"
  unfolding writeSelectResponse_def qresync_select_responses_def
  by (rule good_select_done) (use select_responses_star [of data] in \<open>auto simp: HasPrefix_star split: option.splits\<close>)

lemma good_expunge_uids [good_rules]: "(\<And>x. good tag (k x)) \<Longrightarrow> good tag (expunge_uids ctx k)"
  unfolding expunge_uids_def by (auto intro!: good_rules split: option.split sum.split)

lemma good_read_uidset [good_rules]: "(\<And>x inp. good tag (k x inp)) \<Longrightarrow> good tag (read_uidset msg k inp)"
  unfolding read_uidset_def by (auto intro!: good_rules split: sum.split)

lemma good_search_args [good_rules]:
  assumes "\<And>inp. clean (ret inp)" "\<And>x y. good tag (k x y)"
  shows "good tag (search_args opts ret criterion criteria k inp)"
  unfolding search_args_def using assms by (auto intro!: good_rules split: prod.split sum.split)

lemma good_search_extended [good_rules]:
  assumes "valid_tag tag" "\<And>crit sopts b. polite (be_Search be (cx_NumKind ctx) crit sopts b)"
    "\<And>m crit sopts b. ext = Some m \<Longrightarrow> polite (m (cx_NumKind ctx) crit sopts b)" "\<And>x. good tag (k x)"
  shows "good tag (search_extended be ext ctx crit options k)"
  unfolding search_extended_def by (intro good_rules assms)

lemma good_sort_args [good_rules]:
  "(\<And>x y. good tag (k x y)) \<Longrightarrow> good tag (sort_args opts p msg k inp)"
  unfolding sort_args_def by (auto intro!: good_rules split: prod.split sum.split)

lemma good_append_flags [good_rules]: "(\<And>x b inp. good tag (k x b inp)) \<Longrightarrow> good tag (append_flags k inp)"
  unfolding append_flags_def by (auto intro!: good_rules)

lemma good_append_date_with [good_rules]: "(\<And>x inp. good tag (k x inp)) \<Longrightarrow> good tag (append_date_with p b k inp)"
  unfolding append_date_with_def by (auto intro!: good_rules split: option.split)

lemma good_append_args [good_rules]:
  "(\<And>x y z inp. good tag (k x y z inp)) \<Longrightarrow> good tag (append_args p k inp)"
  unfolding append_args_def by (intro good_rules)

lemma search_lines_star [good_rules]:
  "HasPrefix (search_response kind data) ''* ''" "HasPrefix (writeESearchResponse ctx data options) ''* ''"
  "HasPrefix (Fuzzy_writeESearchResponse ctx data options) ''* ''" "HasPrefix (SearchRes_writeESearchResponse ctx data options) ''* ''"
  "HasPrefix (ESort_writeESearchResponse ctx data options) ''* ''" "HasPrefix (Partial_writeESearchResponse ctx data options) ''* ''"
  by (simp_all add: search_response_def writeESearchResponse_def Fuzzy_writeESearchResponse_def SearchRes_writeESearchResponse_def
      ESort_writeESearchResponse_def Partial_writeESearchResponse_def esearch_head_def HasPrefix_star)

lemma good_multi_mailboxes [good_rules]: "(\<And>x inp. good tag (k x inp)) \<Longrightarrow> good tag (multi_mailboxes opts k inp)"
  unfolding multi_mailboxes_def by (auto intro!: good_rules split: prod.split sum.split)

lemma good_multi_source [good_rules]: "(\<And>x inp. good tag (k x inp)) \<Longrightarrow> good tag (multi_source opts k inp)"
  unfolding multi_source_def Let_def by (auto intro!: good_rules)

lemma good_multi_return [good_rules]: "(\<And>x y inp. good tag (k x y inp)) \<Longrightarrow> good tag (multi_return k inp)"
  unfolding multi_return_def by (auto intro!: good_rules)

lemma good_multi_charset [good_rules]: "(\<And>x inp. good tag (k x inp)) \<Longrightarrow> good tag (multi_charset atom k inp)"
  unfolding multi_charset_def by (auto intro!: good_rules)

lemma output_emit: "c_output (emit s c) = c_output c @ [s]"
  by (simp add: emit_def)

lemma those_set: "those xs = Some ys \<Longrightarrow> y \<in> set ys \<Longrightarrow> Some y \<in> set xs"
  by (induction xs arbitrary: ys) (auto split: option.splits)

section \<open>The contract of a session with extensions\<close>

text \<open>The optional methods keep to the same contract as the others: they write untagged responses only
  and do not end the connection.\<close>

locale extension_contract = backend_contract be for be :: "'b backend" +
  fixes xs :: "'b ext_session"
  assumes polite_acl:
      "xs_acl xs = Some s1 \<Longrightarrow> polite (SetACL s1 mb who md rights b)" "xs_acl xs = Some s1 \<Longrightarrow> polite (DeleteACL s1 mb who b)"
      "xs_acl xs = Some s1 \<Longrightarrow> polite (GetACL s1 mb b)" "xs_acl xs = Some s1 \<Longrightarrow> polite (ListRights s1 mb who b)"
      "xs_acl xs = Some s1 \<Longrightarrow> polite (MyRights s1 mb b)"
    and polite_quota:
      "xs_quota xs = Some s2 \<Longrightarrow> polite (GetQuota s2 mb b)" "xs_quota xs = Some s2 \<Longrightarrow> polite (GetQuotaRoot s2 mb b)"
      "xs_quota xs = Some s2 \<Longrightarrow> polite (SetQuota s2 mb res b)"
    and polite_namespace: "xs_namespace xs = Some m3 \<Longrightarrow> polite (m3 b)"
    and polite_metadata:
      "xs_metadata xs = Some s4 \<Longrightarrow> polite (GetMetadata s4 mb names mo b)"
      "xs_metadata xs = Some s4 \<Longrightarrow> polite (SetMetadata s4 mb entries b)"
    and polite_id: "xs_id xs = Some m5 \<Longrightarrow> polite (m5 client b)"
    and polite_language: "xs_language xs = Some m6 \<Longrightarrow> polite (m6 tags b)"
    and polite_compress: "xs_compress xs = Some m7 \<Longrightarrow> polite (m7 alg b)"
    and polite_unauthenticate: "xs_unauthenticate xs = Some m8 \<Longrightarrow> polite (m8 b)"
    and polite_move: "xs_move xs = Some m9 \<Longrightarrow> polite (m9 ns dest b)"
    and polite_notify:
      "xs_notify xs = Some s10 \<Longrightarrow> polite (Notify s10 specs b)" "xs_notify xs = Some s10 \<Longrightarrow> polite (CancelNotify s10 b)"
    and polite_convert: "xs_convert xs = Some m11 \<Longrightarrow> polite (m11 n sec media params b)"
    and polite_filters:
      "xs_filters xs = Some s12 \<Longrightarrow> polite (GetFilter s12 name b)" "xs_filters xs = Some s12 \<Longrightarrow> polite (SetFilter s12 name crt b)"
    and polite_sort: "xs_sort xs = Some m13 \<Longrightarrow> polite (m13 kind keys crit sopts b)"
    and polite_thread: "xs_thread xs = Some m14 \<Longrightarrow> polite (m14 kind alg crit sopts b)"
    and polite_urlauth:
      "xs_urlauth xs = Some s15 \<Longrightarrow> polite (GenURLAuth s15 reqs b)" "xs_urlauth xs = Some s15 \<Longrightarrow> polite (ResetKey s15 mb mechs b)"
      "xs_urlauth xs = Some s15 \<Longrightarrow> polite (URLFetch s15 urls b)"
    and polite_context:
      "xs_context xs = Some s16 \<Longrightarrow> polite (SearchContext s16 t kind crit sopts b)"
      "xs_context xs = Some s16 \<Longrightarrow> polite (CancelSearchContext s16 tags b)"
    and polite_multisearch: "xs_multisearch xs = Some m17 \<Longrightarrow> polite (m17 kind src crit sopts b)"
    and polite_replace: "xs_replace xs = Some m18 \<Longrightarrow> polite (m18 ns mb lit ao b)"
    and polite_conditional: "xs_conditional xs = Some m19 \<Longrightarrow> polite (m19 ns sf stopts b)"
    and polite_qresync: "xs_qresync xs = Some m20 \<Longrightarrow> polite (m20 mb so b)"
    and polite_uidplus:
      "xs_uidplus xs = Some s21 \<Longrightarrow> polite (CopyUIDs s21 ns dest b)" "xs_uidplus xs = Some s21 \<Longrightarrow> polite (ExpungeUIDs s21 us b)"
    and polite_specialuse: "xs_specialuse xs = Some m22 \<Longrightarrow> polite (m22 mb co b)"
    and polite_uidonly:
      "polite (uo_Fetch (xs_uidonly xs) ns fopts b)" "polite (uo_Store (xs_uidonly xs) ns sf stopts b)"
      "polite (uo_Expunge (xs_uidonly xs) ous b)"
      "uo_StoreConditional (xs_uidonly xs) = Some m23 \<Longrightarrow> polite (m23 ns sf stopts b)"
      "uo_Move (xs_uidonly xs) = Some m24 \<Longrightarrow> polite (m24 ns dest b)"
    and polite_enable:
      "uo_EnableUIDOnly (xs_uidonly xs) = Some m25 \<Longrightarrow> polite (m25 b)" "xs_utf8 xs = Some m25 \<Longrightarrow> polite (m25 b)"
    and polite_searches:
      "xs_extended xs = Some m26 \<Longrightarrow> polite (m26 kind crit sopts b)" "xs_fuzzy xs = Some m26 \<Longrightarrow> polite (m26 kind crit sopts b)"
      "xs_partial xs = Some m26 \<Longrightarrow> polite (m26 kind crit sopts b)"
    and polite_searchres:
      "xs_searchres xs = Some s27 \<Longrightarrow> polite (SaveSearchResult s27 data b)" "xs_searchres xs = Some s27 \<Longrightarrow> polite (GetSearchResult s27 b)"
    and polite_esort: "xs_esort xs = Some m28 \<Longrightarrow> polite (m28 kind keys crit sopts b)"
    and polite_binary: "xs_binary xs = Some m29 \<Longrightarrow> polite (m29 mb lit ao b)"
    and polite_catenate: "xs_catenate xs = Some m30 \<Longrightarrow> polite (m30 mb parts ao b)"
    and polite_multiappend: "xs_multiappend xs = Some m31 \<Longrightarrow> polite (m31 mb msgs b)"
    and polite_listextended: "xs_listextended xs = Some m32 \<Longrightarrow> polite (m32 ref ps lopts b)"
begin

lemma good_acl:
  assumes vt: "valid_tag (cx_Tag ctx)"
  shows "good (cx_Tag ctx) (handleSetACL (xs_acl xs) ctx)" "good (cx_Tag ctx) (handleDeleteACL (xs_acl xs) ctx)"
    "good (cx_Tag ctx) (handleGetACL (xs_acl xs) ctx)" "good (cx_Tag ctx) (handleListRights (xs_acl xs) ctx)"
    "good (cx_Tag ctx) (handleMyRights (xs_acl xs) ctx)"
  unfolding handleSetACL_def handleDeleteACL_def handleGetACL_def handleListRights_def handleMyRights_def
  by (auto intro!: good_rules vt polite_acl split: prod.split)

lemma good_quota_setters:
  assumes vt: "valid_tag (cx_Tag ctx)"
  shows "good (cx_Tag ctx) (handleGetQuota (xs_quota xs) ctx)"
    "good (cx_Tag ctx) (handleSetQuota (xs_quota xs) ctx)"
  unfolding handleGetQuota_def handleSetQuota_def writeQuotaResponse_def
  by (auto intro!: good_rules vt polite_quota)

lemma good_handleGetQuotaRoot:
  assumes vt: "valid_tag (cx_Tag ctx)"
  shows "good (cx_Tag ctx) (handleGetQuotaRoot (xs_quota xs) ctx)"
  unfolding handleGetQuotaRoot_def Let_def writeQuotaResponse_def
  by (auto intro!: good_rules good_emit_star good_foldl_emit vt polite_quota)

lemma good_namespace:
  assumes vt: "valid_tag (cx_Tag ctx)"
  shows "good (cx_Tag ctx) (handleNamespace (xs_namespace xs) ctx)"
  unfolding handleNamespace_def
  by (auto intro!: good_rules vt polite_namespace)

lemma good_metadata:
  assumes vt: "valid_tag (cx_Tag ctx)"
  shows "good (cx_Tag ctx) (handleGetMetadata opts (xs_metadata xs) ctx)"
    "good (cx_Tag ctx) (handleSetMetadata (xs_metadata xs) ctx)"
  unfolding handleGetMetadata_def handleSetMetadata_def metadata_entries_def metadata_response_def Let_def
  by (auto intro!: good_rules vt polite_metadata)

lemma good_handleID:
  assumes vt: "valid_tag (cx_Tag ctx)"
  shows "good (cx_Tag ctx) (handleID (xs_id xs) ctx)"
  unfolding handleID_def
  by (auto intro!: good_rules vt polite_id split: option.split sum.split)

lemma good_handleLanguage:
  assumes vt: "valid_tag (cx_Tag ctx)"
  shows "good (cx_Tag ctx) (handleLanguage (xs_language xs) ctx)"
  unfolding handleLanguage_def
  by (auto intro!: good_rules vt polite_language)

lemma good_handleCompress:
  assumes vt: "valid_tag (cx_Tag ctx)"
  shows "good (cx_Tag ctx) (handleCompress (xs_compress xs) ctx)"
  unfolding handleCompress_def
  by (auto intro!: good_rules vt polite_compress)

lemma good_handleMove:
  assumes vt: "valid_tag (cx_Tag ctx)"
  shows "good (cx_Tag ctx) (handleMove (xs_move xs) ctx)"
  unfolding handleMove_def Let_def
  by (auto intro!: good_rules vt polite_move split: sum.split)

lemma good_handleNotify:
  assumes vt: "valid_tag (cx_Tag ctx)"
  shows "good (cx_Tag ctx) (handleNotify (xs_notify xs) ctx)"
  unfolding handleNotify_def
  by (auto intro!: good_rules vt polite_notify split: option.split sum.split)

lemma good_handleConvert:
  assumes vt: "valid_tag (cx_Tag ctx)"
  shows "good (cx_Tag ctx) (handleConvert (xs_convert xs) ctx)"
  unfolding handleConvert_def
  by (auto intro!: good_rules vt polite_convert split: sum.split)

lemma good_filters:
  assumes vt: "valid_tag (cx_Tag ctx)"
  shows "good (cx_Tag ctx) (handleGetFilter (xs_filters xs) ctx)"
    "good (cx_Tag ctx) (handleSetFilter (xs_filters xs) ctx)"
  unfolding handleGetFilter_def handleSetFilter_def
  by (auto intro!: good_rules vt polite_filters)

lemma good_handleSort:
  assumes vt: "valid_tag (cx_Tag ctx)"
  shows "good (cx_Tag ctx) (handleSort (xs_sort xs) ctx)"
  unfolding handleSort_def
  by (auto intro!: good_rules vt polite_sort)

lemma good_handleThread:
  assumes vt: "valid_tag (cx_Tag ctx)"
  shows "good (cx_Tag ctx) (handleThread (xs_thread xs) ctx)"
  unfolding handleThread_def Let_def
  by (auto intro!: good_rules vt polite_thread)

lemma good_handleUnauthenticate:
  assumes vt: "valid_tag (cx_Tag ctx)"
  shows "good (cx_Tag ctx) (handleUnauthenticate (xs_unauthenticate xs) ctx)"
proof -
  have "good (cx_Tag ctx) (\<lambda>c. case Conn_SetState NotAuthenticated c of
      (Some e, c) \<Rightarrow> no ctx (''UNAUTHENTICATE failed: '' @ transition_text e) c
    | (None, c) \<Rightarrow> return_ok ctx ''UNAUTHENTICATE completed'' c)"
    unfolding good_def Conn_SetState_def no_def return_ok_def WriteNO_def WriteOK_def
    by (auto simp: emit_def tagged_status [OF vt] split: prod.splits option.splits)
  then show ?thesis unfolding handleUnauthenticate_def by (intro good_rules vt polite_unauthenticate)
qed

lemma good_handleUnselect:
  assumes vt: "valid_tag (cx_Tag ctx)"
  shows "good (cx_Tag ctx) (handleUnselect be ctx)"
  unfolding handleUnselect_def
  by (intro good_rules vt polite_Unselect good_pre [OF good_set_state [OF good_return_ok [OF vt]]]) (simp add: SetMailbox_def)

lemma good_urlauth_keys:
  assumes vt: "valid_tag (cx_Tag ctx)"
  shows "good (cx_Tag ctx) (handleGenURLAuth (xs_urlauth xs) ctx)"
    "good (cx_Tag ctx) (handleResetKey (xs_urlauth xs) ctx)"
  unfolding handleGenURLAuth_def handleResetKey_def
  by (auto intro!: good_rules vt polite_urlauth split: sum.split prod.split)

lemma good_handleURLFetch:
  assumes vt: "valid_tag (cx_Tag ctx)"
  shows "good (cx_Tag ctx) (handleURLFetch (xs_urlauth xs) ctx)"
  unfolding handleURLFetch_def Let_def url_response_def
  by (auto intro!: good_rules good_foldl_emit vt polite_urlauth)

lemma good_handleCancelUpdate:
  assumes vt: "valid_tag (cx_Tag ctx)"
  shows "good (cx_Tag ctx) (handleCancelUpdate (xs_context xs) ctx)"
  unfolding handleCancelUpdate_def [abs_def] Let_def
  by (auto intro!: good_rules vt polite_context)

lemma good_handleMultiSearch:
  assumes vt: "valid_tag (cx_Tag ctx)"
  shows "good (cx_Tag ctx) (handleMultiSearch opts (xs_multisearch xs) ctx)"
  unfolding handleMultiSearch_def [abs_def] Let_def writeMultiSearchResponse_def multi_response_def
  by (auto intro!: good_rules good_foldl_emit vt polite_multisearch split: prod.split sum.split)

lemma good_handleReplace:
  assumes vt: "valid_tag (cx_Tag ctx)"
  shows "good (cx_Tag ctx) (handleReplace opts (xs_replace xs) ctx)"
  unfolding handleReplace_def by (auto intro!: good_rules vt polite_replace split: sum.split)

lemma good_condstore:
  assumes vt: "valid_tag (cx_Tag ctx)"
  shows "xs_conditional xs \<noteq> None \<Longrightarrow> good (cx_Tag ctx) (handleCondstoreStore be (xs_conditional xs) ctx)"
    "good (cx_Tag ctx) (handleCondstoreFetch opts be ctx)" "good (cx_Tag ctx) (handleCondstoreSelect be ro ctx)"
proof -
  have dead: "good (cx_Tag ctx) (asserting (Some m) (ask (be_Store be ns sf stopts) (\<lambda>_. Finished None)) k)"
    if "good (cx_Tag ctx) (k m)" for m :: "'b store_meth" and ns sf stopts k
    using that unfolding good_def asserting_def [abs_def] by (auto simp: ask_def split: option.splits)
  show "good (cx_Tag ctx) (handleCondstoreStore be (xs_conditional xs) ctx)" if s: "xs_conditional xs \<noteq> None"
  proof -
    obtain m where m: "xs_conditional xs = Some m" using s by (cases "xs_conditional xs") auto
    show ?thesis
      unfolding handleCondstoreStore_def m
      by (intro good_with_args good_read_numset good_read_arg good_store_modifier good_store_action_flags)
        (auto intro!: dead good_ask_all good_return_ok vt polite_Store polite_conditional [OF m])
  qed
  show "good (cx_Tag ctx) (handleCondstoreFetch opts be ctx)"
    unfolding handleCondstoreFetch_def fetch_with_def Let_def by (auto intro!: good_rules vt polite_Fetch)
  show "good (cx_Tag ctx) (handleCondstoreSelect be ro ctx)"
    unfolding handleCondstoreSelect_def Let_def
    by (auto intro!: good_rules vt polite_Select select_responses_star split: prod.split sum.split)
qed

lemma good_qresync_select:
  assumes vt: "valid_tag (cx_Tag ctx)"
  shows "good (cx_Tag ctx) (qresync_select be (xs_qresync xs) ctx mailbox options)"
  unfolding qresync_select_def [abs_def] Let_def by (auto intro!: good_rules vt polite_Select polite_qresync)

lemma good_qresync:
  assumes vt: "valid_tag (cx_Tag ctx)"
  shows "good (cx_Tag ctx) (handleQResyncSelect opts be (xs_qresync xs) ro ctx)"
    "good (cx_Tag ctx) (handleQResyncFetch opts be ctx)" "good (cx_Tag ctx) (handlePreviewFetch opts be ctx)"
  unfolding handleQResyncSelect_def handleQResyncFetch_def handlePreviewFetch_def fetch_with_def Let_def
  by (auto intro!: good_rules vt polite_Fetch good_qresync_select split: prod.split sum.split)

lemma good_uidplus:
  assumes vt: "valid_tag (cx_Tag ctx)"
  shows "good (cx_Tag ctx) (handleUIDPlusCopy be (xs_uidplus xs) ctx)" "good (cx_Tag ctx) (handleUIDPlusExpunge be (xs_uidplus xs) ctx)"
  unfolding handleUIDPlusCopy_def handleUIDPlusExpunge_def Let_def
  by (auto intro!: good_rules vt polite_Copy polite_Expunge polite_uidplus split: option.split)

lemma good_specialuse:
  assumes vt: "valid_tag (cx_Tag ctx)"
  shows "good (cx_Tag ctx) (handleSpecialUseCreate be (xs_specialuse xs) ctx)"
  unfolding handleSpecialUseCreate_def Let_def
  by (auto intro!: good_rules vt polite_Create polite_specialuse split: prod.split sum.split)

text \<open>The handlers that call the one they replace.\<close>

lemma errUIDRequired_not_bye [good_rules]: "\<not> is_bye errUIDRequired"
  by (simp add: errUIDRequired_def)

lemma good_uid_only:
  assumes "good tag (h ctx)" "good tag (k ctx)"
  shows "good tag (uid_only h k ctx)"
  unfolding uid_only_def [abs_def] by (intro good_rules assms)

lemma polite_enabled:
  assumes vt: "valid_tag tag" and m: "\<And>m b. em = Some m \<Longrightarrow> polite (m b)" "\<And>m. em = Some m \<Longrightarrow> never_fails m"
    and run: "asserting em (Finished None) (\<lambda>m. ask m (\<lambda>_. Finished None)) c = Finished e d"
  shows "e = None \<and> (\<exists>outs. c_output d = c_output c @ outs \<and> tagged tag outs = 0)"
proof (cases "em = None \<or> c_session c = None")
  case True
  then have "e = None \<and> d = c" using run by (auto simp: asserting_def split: option.splits)
  then show ?thesis by (auto intro: exI [of _ "[]"])
next
  case False
  then obtain mm b where Some: "em = Some mm" and b: "c_session c = Some b" by (cases em; cases "c_session c") auto
  obtain r outs b' where call: "mm b = (r, outs, b')" by (cases "mm b") auto
  have "r \<noteq> Err e'" for e' using m(2) [OF Some] call unfolding never_fails_def by (metis fst_conv)
  moreover have "tagged tag outs = 0" using m(1) [OF Some, of b] tagged_polite [OF vt] by (simp add: polite_def call)
  ultimately show ?thesis using run Some b call by (cases r) (auto simp: asserting_def ask_def)
qed

lemma good_enable:
  assumes vt: "valid_tag tag" and h: "good tag (h ctx)"
    and m: "\<And>m b. em = Some m \<Longrightarrow> polite (m b)" "\<And>m. em = Some m \<Longrightarrow> never_fails m"
  shows "good tag (\<lambda>c. case h ctx c of
      Finished None c \<Rightarrow> if \<not> P c then Finished None c else asserting em (Finished None) (\<lambda>m. ask m (\<lambda>_. Finished None)) c
    | r \<Rightarrow> r)" (is "good tag ?k")
  unfolding good_def
proof (intro allI impI)
  fix c e c'
  assume a: "?k c = Finished e c'"
  show "\<exists>outs. c_output c' = c_output c @ outs \<and>
      (case e of None \<Rightarrow> tagged tag outs = 1 | Some e \<Rightarrow> tagged tag outs = 0 \<and> \<not> is_bye e)"
  proof (cases "\<exists>d. h ctx c = Finished None d \<and> P d")
    case True
    then obtain d where d: "h ctx c = Finished None d" "P d" by blast
    then obtain outs where outs: "c_output d = c_output c @ outs" "tagged tag outs = 1" using h unfolding good_def by fastforce
    have "asserting em (Finished None) (\<lambda>m. ask m (\<lambda>_. Finished None)) d = Finished e c'" using a d by simp
    from polite_enabled [where em = em, OF vt _ _ this] m outs show ?thesis by auto
  next
    case False
    then have "h ctx c = Finished e c'" using a by (auto split: result.splits option.splits if_splits)
    then show ?thesis using h unfolding good_def by blast
  qed
qed

lemma good_uidonly:
  assumes vt: "valid_tag (cx_Tag ctx)" and h: "good (cx_Tag ctx) (h ctx)"
  shows "(\<And>m. uo_EnableUIDOnly (xs_uidonly xs) = Some m \<Longrightarrow> never_fails m) \<Longrightarrow> good (cx_Tag ctx) (handleUIDOnlyEnable (xs_uidonly xs) h ctx)"
    "good (cx_Tag ctx) (handleUIDOnlyFetch opts (xs_uidonly xs) h ctx)" "good (cx_Tag ctx) (handleUIDOnlyStore (xs_uidonly xs) h ctx)"
    "good (cx_Tag ctx) (handleUIDOnlyExpunge (xs_uidonly xs) h ctx)" "good (cx_Tag ctx) (handleUIDOnlyMove (xs_uidonly xs) h ctx)"
    "good (cx_Tag ctx) (handleUIDOnlySeqReject h ctx)" "good (cx_Tag ctx) (handleUIDOnlySelect h ctx)"
proof -
  show "good (cx_Tag ctx) (handleUIDOnlyEnable (xs_uidonly xs) h ctx)"
    if "\<And>m. uo_EnableUIDOnly (xs_uidonly xs) = Some m \<Longrightarrow> never_fails m"
    unfolding handleUIDOnlyEnable_def [abs_def]
    by (rule good_enable [where h = h and ctx = ctx and em = "uo_EnableUIDOnly (xs_uidonly xs)", OF vt h])
      (rule polite_enable(1), assumption, rule that)
  show "good (cx_Tag ctx) (handleUIDOnlyFetch opts (xs_uidonly xs) h ctx)"
    unfolding handleUIDOnlyFetch_def by (auto intro!: good_uid_only good_rules vt h polite_uidonly(1))
  show "good (cx_Tag ctx) (handleUIDOnlyStore (xs_uidonly xs) h ctx)"
    unfolding handleUIDOnlyStore_def Let_def by (auto intro!: good_uid_only good_rules vt h polite_uidonly(2,4))
  show "good (cx_Tag ctx) (handleUIDOnlyMove (xs_uidonly xs) h ctx)"
    unfolding handleUIDOnlyMove_def by (auto intro!: good_uid_only good_rules vt h polite_uidonly(5))
  show "good (cx_Tag ctx) (handleUIDOnlyExpunge (xs_uidonly xs) h ctx)"
    unfolding handleUIDOnlyExpunge_def [abs_def] by (auto intro!: good_rules vt h polite_uidonly(3))
  show "good (cx_Tag ctx) (handleUIDOnlySeqReject h ctx)" "good (cx_Tag ctx) (handleUIDOnlySelect h ctx)"
    unfolding handleUIDOnlySeqReject_def [abs_def] handleUIDOnlySelect_def [abs_def]
    by (auto intro!: good_rules h)
qed

lemma good_esearch:
  assumes vt: "valid_tag (cx_Tag ctx)"
  shows "good (cx_Tag ctx) (handleESearch opts be (xs_extended xs) ctx)"
  unfolding handleESearch_def Let_def
  by (auto intro!: good_rules vt polite_Search polite_searches(1) split: option.split)

lemma good_fuzzy:
  assumes vt: "valid_tag (cx_Tag ctx)"
  shows "good (cx_Tag ctx) (handleFuzzySearch opts be (xs_fuzzy xs) (xs_extended xs) ctx)"
  unfolding handleFuzzySearch_def Let_def
  by (auto intro!: good_rules vt polite_Search intro: polite_searches split: option.split)

lemma good_partial:
  assumes vt: "valid_tag (cx_Tag ctx)" and h: "\<And>ctx. valid_tag (cx_Tag ctx) \<Longrightarrow> good (cx_Tag ctx) (h ctx)"
  shows "good (cx_Tag ctx) (handlePartialSearch opts be (xs_partial xs) (xs_extended xs) ctx)"
    "good (cx_Tag ctx) (handlePartialSort opts (xs_esort xs) h ctx)"
proof -
  show "good (cx_Tag ctx) (handlePartialSearch opts be (xs_partial xs) (xs_extended xs) ctx)"
    unfolding handlePartialSearch_def Let_def
    by (auto intro!: good_rules vt polite_Search intro: polite_searches split: option.split)
  show "good (cx_Tag ctx) (handlePartialSort opts (xs_esort xs) h ctx)"
    unfolding handlePartialSort_def using h [of ctx] h [of "ctx\<lparr>cx_Decoder := _\<rparr>"]
    by (auto intro!: good_rules vt polite_esort split: option.split prod.split sum.split)
qed

lemma good_esort:
  assumes vt: "valid_tag (cx_Tag ctx)" and h: "good (cx_Tag ctx) (h ctx)"
  shows "good (cx_Tag ctx) (handleESort opts (xs_esort xs) (xs_sort xs) h ctx)"
  unfolding handleESort_def Let_def
  by (auto intro!: good_rules vt h polite_esort polite_sort)

lemma good_writeContextESearchResponse:
  assumes vt: "valid_tag (cx_Tag ctx)" and k: "good (cx_Tag ctx) k"
  shows "good (cx_Tag ctx) (writeContextESearchResponse ctx data options k)"
proof (cases "context_updates ctx data")
  case (Some updates)
  have star: "HasPrefix s ''* ''" if "context_update ctx name u = Some s" for name u s
    using that by (auto simp: context_update_def esearch_head_def HasPrefix_star)
  have "HasPrefix s ''* ''" if s: "s \<in> set updates" for s
  proof -
    obtain name u where "Some s = context_update ctx name u"
      using those_set [OF Some [unfolded context_updates_def] s] unfolding set_append set_map by blast
    then show ?thesis by (intro star) (rule sym)
  qed
  then have "\<forall>s \<in> set updates. HasPrefix s ''* ''" by simp
  then have "tagged (cx_Tag ctx) updates = 0" by (rule tagged_polite [OF vt])
  moreover have "tagged (cx_Tag ctx) [writeESearchResponse ctx data options] = 0"
    by (rule tagged_polite [OF vt]) (simp add: search_lines_star)
  ultimately show ?thesis
    unfolding writeContextESearchResponse_def [abs_def] Some option.case
    by (intro good_pre [OF k]) (simp add: output_foldl_emit output_emit)
qed (simp add: good_def writeContextESearchResponse_def)

lemma good_context:
  assumes vt: "valid_tag (cx_Tag ctx)"
  shows "good (cx_Tag ctx) (handleContextSearch opts be (xs_context xs) (xs_extended xs) ctx)"
proof -
  have pre: "good (cx_Tag ctx) (\<lambda>c. k (writeNoUpdateResponse ctx c))" if "good (cx_Tag ctx) k" for k :: "'b cont"
    by (rule good_pre [OF that]) (simp add: writeNoUpdateResponse_def emit_def tagged_bye [OF vt])
  show ?thesis
    unfolding handleContextSearch_def Let_def
    by (auto intro!: pre good_rules good_writeContextESearchResponse vt polite_Search polite_context
        intro: polite_searches(1) split: option.split)
qed

text \<open>SEARCHRES parses on the connection: the parser writes untagged responses only.\<close>

definition quiet_parse :: "string \<Rightarrow> 'b conn \<Rightarrow> 'b crit_parse option \<Rightarrow> bool" where
  "quiet_parse tag c r \<longleftrightarrow>
     (\<forall>c'. (\<exists>crit inp. r = Some (Parsed crit inp c')) \<or> (\<exists>e. r = Some (ParseFailed e c')) \<longrightarrow>
       (\<exists>outs. c_output c' = c_output c @ outs \<and> tagged tag outs = 0))"

lemma quiet_parse_criterion:
  assumes vt: "valid_tag tag"
  shows "quiet_parse tag c (parseSearchCriterionWithDollar opts (xs_searchres xs) key crit inp c)"
proof -
  have "tagged tag out = 0" if "xs_searchres xs = Some s" "GetSearchResult s b = (r, out, b')" for s b r out b'
    using polite_searchres(2) [OF that(1), of b] tagged_polite [OF vt, of out] by (simp add: that(2) polite_def)
  then show ?thesis
    unfolding quiet_parse_def parseSearchCriterionWithDollar_def
    by (auto simp: Let_def split: if_splits option.splits prod.splits sum.splits ret.splits)
qed

lemma quiet_parse_trans:
  assumes "quiet_parse tag c (Some (Parsed crit inp c1))" "quiet_parse tag c1 r"
  shows "quiet_parse tag c r"
proof -
  obtain outs where outs: "c_output c1 = c_output c @ outs" "tagged tag outs = 0"
    using assms(1) unfolding quiet_parse_def by blast
  have "\<exists>outs. c_output c' = c_output c @ outs \<and> tagged tag outs = 0"
    if "\<exists>outs. c_output c' = c_output c1 @ outs \<and> tagged tag outs = 0" for c'
    using that outs by (auto intro: exI [of _ "outs @ _"])
  then show ?thesis using assms(2) unfolding quiet_parse_def by blast
qed

lemma quiet_parse_criteria:
  assumes vt: "valid_tag tag" and "parseSearchCriteriaWithDollar opts (xs_searchres xs) crit inp c = Some r"
  shows "quiet_parse tag c (Some r)"
proof (rule parseSearchCriteriaWithDollar.raw_induct
    [of "\<lambda>opts ses _ _ c r. ses = xs_searchres xs \<longrightarrow> quiet_parse tag c (Some r)", OF _ assms(2), THEN mp, OF _ refl], goal_cases)
  case (1 loop opts ses crit inp c r)
  show ?case
  proof
    assume ses: "ses = xs_searchres xs"
    have refl: "quiet_parse tag c (Some (Parsed crit inp c))" for crit inp by (simp add: quiet_parse_def)
    show "quiet_parse tag c (Some r)"
    proof (cases "inp = [] \<or> hd inp = CHR '')'' \<or> (\<exists>e rest. ReadAtom inp = (Inl e, rest))")
      case True
      then show ?thesis using 1(2) refl by (auto split: if_splits)
    next
      case False
      then obtain key rest where key: "inp \<noteq> []" "hd inp \<noteq> CHR '')''" "ReadAtom inp = (Inr key, rest)"
        by (cases "ReadAtom inp"; cases "fst (ReadAtom inp)") auto
      obtain p where p: "parseSearchCriterionWithDollar opts ses key crit rest c = Some p"
        and r: "(case p of
            Parsed crit inp c \<Rightarrow>
              (case ReadSP inp of (Inl _, inp) \<Rightarrow> Some (Parsed crit inp c) | (Inr _, inp) \<Rightarrow> loop opts ses crit inp c)
          | ParseFailed e c \<Rightarrow> Some (ParseFailed e c)
          | ParseCrashed p \<Rightarrow> Some (ParseCrashed p)) = Some r"
        using 1(2) key by (auto simp: bind_eq_Some_conv)
      have q: "quiet_parse tag c (Some p)" using quiet_parse_criterion [OF vt] p ses by metis
      show ?thesis
      proof (cases p)
        case (Parsed crit1 inp1 c1)
        have "quiet_parse tag c1 (Some r)"
          using r 1(1) ses by (auto simp: Parsed quiet_parse_def split: prod.splits sum.splits)
        then show ?thesis using quiet_parse_trans q [unfolded Parsed] by blast
      qed (use q r in auto)
    qed
  qed
qed

lemma good_with_criteria:
  assumes p: "\<And>c. quiet_parse tag c (p c)" and k: "\<And>crit inp. good tag (k crit inp)"
  shows "good tag (\<lambda>c. with_criteria (p c) k)"
  unfolding good_def
proof (intro allI impI)
  fix c e c'
  assume a: "with_criteria (p c) k = Finished e c'"
  then consider crit inp c1 where "p c = Some (Parsed crit inp c1)" "k crit inp c1 = Finished e c'"
    | msg where "p c = Some (ParseFailed msg c')" "e = Some (ErrBad (''invalid search criteria: '' @ msg))"
    by (auto simp: with_criteria_def fail_def split: option.splits crit_parse.splits)
  then show "\<exists>outs. c_output c' = c_output c @ outs \<and>
      (case e of None \<Rightarrow> tagged tag outs = 1 | Some e \<Rightarrow> tagged tag outs = 0 \<and> \<not> is_bye e)"
  proof cases
    case (1 crit inp c1)
    obtain o1 where o1: "c_output c1 = c_output c @ o1" "tagged tag o1 = 0"
      using p [of c] 1(1) unfolding quiet_parse_def by blast
    obtain o2 where o2: "c_output c' = c_output c1 @ o2"
        "case e of None \<Rightarrow> tagged tag o2 = 1 | Some e \<Rightarrow> tagged tag o2 = 0 \<and> \<not> is_bye e"
      using k 1(2) unfolding good_def by blast
    show ?thesis by (rule exI [of _ "o1 @ o2"]) (use o1 o2 in \<open>cases e; simp\<close>)
  next
    case (2 msg)
    then show ?thesis using p [of c] unfolding quiet_parse_def by auto
  qed
qed

lemma good_searchres_run:
  assumes vt: "valid_tag (cx_Tag ctx)"
  shows "good (cx_Tag ctx) (searchres_run be (xs_extended xs) (xs_searchres xs) ctx ret crit)"
  unfolding searchres_run_def Let_def
  by (auto intro!: good_rules vt polite_Search polite_searchres intro: polite_searches(1) split: option.split)

lemma quiet_parses:
  assumes "valid_tag tag"
  shows "quiet_parse tag c (parseSearchCriterionWithDollar opts (xs_searchres xs) key crit inp c)"
    "quiet_parse tag c (parseSearchCriteriaWithDollar opts (xs_searchres xs) crit inp c)"
proof -
  show "quiet_parse tag c (parseSearchCriterionWithDollar opts (xs_searchres xs) key crit inp c)"
    by (rule quiet_parse_criterion [OF assms])
  show "quiet_parse tag c (parseSearchCriteriaWithDollar opts (xs_searchres xs) crit inp c)"
    using quiet_parse_criteria [OF assms, of opts crit inp c]
    by (cases "parseSearchCriteriaWithDollar opts (xs_searchres xs) crit inp c") (simp_all add: quiet_parse_def)
qed

lemma good_case_SP:
  assumes "good tag p" "\<And>rest. good tag (q rest)"
  shows "good tag (\<lambda>c. case ReadSP inp of (Inl _, _) \<Rightarrow> p c | (Inr _, rest) \<Rightarrow> q rest c)"
  using assms by (cases "ReadSP inp"; cases "fst (ReadSP inp)") auto

lemma good_searchres:
  assumes vt: "valid_tag (cx_Tag ctx)"
  shows "good (cx_Tag ctx) (handleSearchRes opts be (xs_extended xs) (xs_searchres xs) ctx)"
  unfolding handleSearchRes_def Let_def
  by (auto intro!: good_rules good_case_SP good_with_criteria quiet_parses good_searchres_run vt)

lemma good_dollar_command:
  assumes vt: "valid_tag (cx_Tag ctx)" and h: "\<And>ctx. valid_tag (cx_Tag ctx) \<Longrightarrow> good (cx_Tag ctx) (h ctx)"
    and k: "\<And>ns inp. good (cx_Tag ctx) (k ns inp)"
  shows "good (cx_Tag ctx) (dollar_command (xs_searchres xs) k h ctx)"
proof -
  have h': "good (cx_Tag ctx) (h (ctx\<lparr>cx_Decoder := d\<rparr>))" for d using h [of "ctx\<lparr>cx_Decoder := d\<rparr>"] vt by simp
  have "good (cx_Tag ctx) (resolveDollar (xs_searchres xs) ctx (\<lambda>ns. k ns inp))" for inp
    unfolding resolveDollar_def Let_def
    by (auto intro!: good_rules vt k polite_searchres split: option.split)
  then show ?thesis
    unfolding dollar_command_def by (auto intro!: h vt h' split: prod.split sum.split)
qed

lemma good_dollar:
  assumes vt: "valid_tag (cx_Tag ctx)" and h: "\<And>ctx. valid_tag (cx_Tag ctx) \<Longrightarrow> good (cx_Tag ctx) (h ctx)"
  shows "good (cx_Tag ctx) (handleDollarFetch opts be (xs_searchres xs) h ctx)"
    "good (cx_Tag ctx) (handleDollarStore be (xs_searchres xs) h ctx)"
    "good (cx_Tag ctx) (handleDollarCopy be (xs_searchres xs) h ctx)"
    "good (cx_Tag ctx) (handleDollarMove (xs_move xs) (xs_searchres xs) h ctx)"
proof -
  show "good (cx_Tag ctx) (handleDollarFetch opts be (xs_searchres xs) h ctx)"
    unfolding handleDollarFetch_def Let_def
    by (rule good_dollar_command [OF vt h]) (auto intro!: good_rules vt polite_Fetch)
  show "good (cx_Tag ctx) (handleDollarStore be (xs_searchres xs) h ctx)"
    unfolding handleDollarStore_def by (rule good_dollar_command [OF vt h]) (auto intro!: good_rules vt polite_Store)
  show "good (cx_Tag ctx) (handleDollarCopy be (xs_searchres xs) h ctx)"
    unfolding handleDollarCopy_def by (rule good_dollar_command [OF vt h]) (auto intro!: good_rules vt polite_Copy)
  show "good (cx_Tag ctx) (handleDollarMove (xs_move xs) (xs_searchres xs) h ctx)"
    unfolding handleDollarMove_def by (rule good_dollar_command [OF vt h]) (auto intro!: good_rules vt polite_move)
qed

lemma good_case_input:
  assumes "\<And>x. good tag (p x)" "\<And>x. good tag (q x)"
  shows "good tag (\<lambda>c. case d c of (Inl x, s) \<Rightarrow> p x (c\<lparr>c_input := g s\<rparr>) | (Inr x, s) \<Rightarrow> q x (c\<lparr>c_input := g s\<rparr>))"
proof -
  let ?p = "\<lambda>c0 c. (case fst (d c0) of Inl x \<Rightarrow> p x | Inr x \<Rightarrow> q x) (c\<lparr>c_input := g (snd (d c0))\<rparr>)"
  have "good tag (?p c0)" for c0 by (rule good_pre) (auto simp: assms split: sum.split)
  then show ?thesis by (rule good_cond [where p = ?p]) (simp split: prod.split sum.split)
qed

lemma good_binary:
  assumes vt: "valid_tag (cx_Tag ctx)" and h: "good (cx_Tag ctx) (h ctx)"
  shows "good (cx_Tag ctx) (handleBinaryAppend opts be (xs_binary xs) h ctx)"
  unfolding handleBinaryAppend_def Let_def
  by (auto intro!: good_rules vt h polite_Append polite_binary split: option.split)

lemma good_standard_append:
  assumes vt: "valid_tag (cx_Tag ctx)"
  shows "good (cx_Tag ctx) (standard_append opts r be ctx mailbox flags t inp)"
  unfolding standard_append_def by (intro good_rules vt polite_Append)

lemma good_utf8_literal:
  assumes vt: "valid_tag (cx_Tag ctx)"
  shows "good (cx_Tag ctx) (utf8_literal opts be ctx mailbox flags t inp)"
proof -
  have "good (cx_Tag ctx) (\<lambda>c. case ExpectByte (CHR '')'') (c_input c) of
        (Inl _, rest) \<Rightarrow> fail (ErrBad ''expected ')' after UTF8 literal'') (c\<lparr>c_input := rest\<rparr>)
      | (Inr _, rest) \<Rightarrow> UTF8_writeAppendOK ctx data (c\<lparr>c_input := rest\<rparr>))" for data
    by (intro good_case_input [where g = "\<lambda>s. s"] good_rules vt)
  then show ?thesis unfolding utf8_literal_def by (intro good_rules vt polite_Append)
qed

lemma good_utf8:
  assumes vt: "valid_tag (cx_Tag ctx)" and h: "good (cx_Tag ctx) (h ctx)"
  shows "(\<And>m. xs_utf8 xs = Some m \<Longrightarrow> never_fails m) \<Longrightarrow> good (cx_Tag ctx) (handleUTF8Enable (xs_utf8 xs) h ctx)"
    "good (cx_Tag ctx) (handleUTF8Append opts be h ctx)"
proof -
  show "good (cx_Tag ctx) (handleUTF8Enable (xs_utf8 xs) h ctx)" if "\<And>m. xs_utf8 xs = Some m \<Longrightarrow> never_fails m"
    unfolding handleUTF8Enable_def [abs_def]
    by (rule good_enable [where h = h and ctx = ctx and em = "xs_utf8 xs", OF vt h]) (rule polite_enable(2), assumption, rule that)
  show "good (cx_Tag ctx) (handleUTF8Append opts be h ctx)"
    unfolding handleUTF8Append_def UTF8_handleStandardAppend_def
    by (auto intro!: good_rules good_standard_append good_utf8_literal vt h split: option.split)
qed

lemma good_catenate:
  assumes vt: "valid_tag (cx_Tag ctx)" and h: "good (cx_Tag ctx) (h ctx)"
  shows "good (cx_Tag ctx) (handleCatenateAppend opts be (xs_catenate xs) h ctx)"
proof -
  have "good (cx_Tag ctx) (\<lambda>c. case parseCatenateParts opts \<lparr>cs_arg = inp, cs_conn = c_input c, cs_onConn = False\<rparr> of
        (Inl msg, s) \<Rightarrow> fail (ErrBad (''invalid CATENATE parts: '' @ msg)) (c\<lparr>c_input := cs_conn s\<rparr>)
      | (Inr parts, s) \<Rightarrow> ask (m mailbox parts ao) (append_ok ctx) (c\<lparr>c_input := cs_conn s\<rparr>))"
    if m: "xs_catenate xs = Some m" for m inp mailbox ao
  proof -
    show ?thesis by (intro good_case_input good_rules vt polite_catenate [OF m])
  qed
  then show ?thesis
    unfolding handleCatenateAppend_def Catenate_handleStandardAppend_def
    by (auto intro!: good_rules good_standard_append vt h split: option.split)
qed

lemma good_multiappend:
  assumes vt: "valid_tag (cx_Tag ctx)" and h: "good (cx_Tag ctx) (h ctx)"
  shows "good (cx_Tag ctx) (handleMultiAppend opts be (xs_multiappend xs) h ctx)"
proof -
  have "good (cx_Tag ctx) (multiappend_run opts be (xs_multiappend xs) ctx mailbox flags t body)" for mailbox flags t body
  proof (rule good_cond)
    fix c0
    let ?msgs = "[\<lparr>ma_Flags = flags, ma_InternalDate = t, ma_Literal = body\<rparr>]"
    let ?loop = "multiappend_loop opts ?msgs (c_input c0)"
    let ?multi = "\<lambda>messages. asserting (xs_multiappend xs) (no ctx ''MULTIAPPEND not supported by backend'')
      (\<lambda>m. ask (m mailbox messages) (writeMultiAppendOK ctx))"
    have "good (cx_Tag ctx) (\<lambda>c. ?multi messages (c\<lparr>c_input := inp\<rparr>))" for messages inp
      by (rule good_pre) (auto intro!: good_rules vt polite_multiappend)
    moreover have "good (cx_Tag ctx) (\<lambda>c. fail e (c\<lparr>c_input := inp\<rparr>))" if "?loop = Some (Inl e, inp)" for e inp
      using clean_multiappend_loop [OF that] by (intro good_pre [OF good_fail]) simp_all
    moreover have "good (cx_Tag ctx) (ask (be_Append be mailbox body ao) (MultiAppend_writeAppendOK ctx))" for ao
      by (intro good_rules vt polite_Append)
    ultimately show "good (cx_Tag ctx)
        (if c_input c0 \<noteq> [] \<and> hd (c_input c0) = SP
         then (case ?loop of
                 None \<Rightarrow> (\<lambda>_. Hangs)
               | Some (Inl e, inp) \<Rightarrow> (\<lambda>c. fail e (c\<lparr>c_input := inp\<rparr>))
               | Some (Inr messages, inp) \<Rightarrow> (\<lambda>c. ?multi messages (c\<lparr>c_input := inp\<rparr>)))
         else ask (be_Append be mailbox body \<lparr>ao_Flags = flags, ao_InternalDate = t, ao_Binary = False, ao_UTF8 = False\<rparr>)
                (MultiAppend_writeAppendOK ctx))"
      by (auto simp: good_hangs split: option.split prod.split sum.split)
  qed (auto simp: multiappend_run_def split: option.split prod.split sum.split)
  moreover have "\<not> is_bye e" if "readMessageMeta opts inp = Some (Inl e, rest)" for e inp rest
    using clean_readMessageMeta [OF that] by simp
  ultimately show ?thesis
    unfolding handleMultiAppend_def
    by (auto intro!: good_rules vt h split: option.split prod.split sum.split)
qed

lemma good_listextended:
  assumes vt: "valid_tag (cx_Tag ctx)"
  shows "good (cx_Tag ctx) (handleListExtended be (xs_listextended xs) ctx)"
proof -
  have run: "good (cx_Tag ctx) (list_run be (xs_listextended xs) ctx ext ref patterns lopts)" for ext ref patterns lopts
    unfolding list_run_def Let_def by (auto intro!: good_rules vt polite_List polite_listextended)
  have "good (cx_Tag ctx) (list_extended_args be (xs_listextended xs) ctx ext lopts inp)" for ext lopts inp
    unfolding list_extended_args_def
    by (auto intro!: good_rules run clean_readPatterns clean_List_parseReturnOptions split: prod.split sum.split)
  then show ?thesis unfolding handleListExtended_def by (auto intro!: good_rules)
qed

lemma good_extension_handlers:
  assumes "(name, h) \<in> set (extension_handlers opts be xs)" and vt: "valid_tag (cx_Tag ctx)"
  shows "good (cx_Tag ctx) (h ctx)"
  using assms(1) unfolding extension_handlers_def ACL_CommandHandlers_def Quota_CommandHandlers_def Metadata_CommandHandlers_def
    Filters_CommandHandlers_def URLAuth_CommandHandlers_def
  by (auto simp: good_acl [OF vt] good_quota_setters [OF vt] good_handleGetQuotaRoot [OF vt] good_namespace [OF vt] good_metadata [OF vt]
      good_handleID [OF vt] good_handleLanguage [OF vt] good_handleCompress [OF vt] good_handleUnauthenticate [OF vt]
      good_handleMove [OF vt] good_handleUnselect [OF vt] good_handleNotify [OF vt] good_handleConvert [OF vt] good_filters [OF vt]
      good_handleSort [OF vt] good_handleThread [OF vt] good_urlauth_keys [OF vt] good_handleURLFetch [OF vt]
      good_handleCancelUpdate [OF vt] good_handleMultiSearch [OF vt] good_handleReplace [OF vt])

lemma good_extension_wrappers:
  assumes "(ext, w) \<in> set (extension_wrappers opts be xs)" "w name h = Some h'"
    and "sound_wrap xs (ext, name)"
    and h: "\<And>ctx. valid_tag (cx_Tag ctx) \<Longrightarrow> good (cx_Tag ctx) (h ctx)" and vt: "valid_tag (cx_Tag ctx)"
  shows "good (cx_Tag ctx) (h' ctx)"
proof -
  have vts: "good (cx_Tag ctx) (h ctx)" by (rule h [OF vt])
  note wraps = Condstore_WrapHandler_def QResync_WrapHandler_def Preview_WrapHandler_def UIDPlus_WrapHandler_def
    SpecialUse_WrapHandler_def UIDOnly_WrapHandler_def ESearch_WrapHandler_def Fuzzy_WrapHandler_def SearchRes_WrapHandler_def
    Partial_WrapHandler_def ESort_WrapHandler_def Context_WrapHandler_def Binary_WrapHandler_def UTF8_WrapHandler_def
    Catenate_WrapHandler_def MultiAppend_WrapHandler_def ListExtended_WrapHandler_def
  note goods = good_condstore [OF vt] good_qresync [OF vt] good_uidplus [OF vt] good_specialuse [OF vt] good_uidonly [where h = h and ctx = ctx, OF vt vts]
    good_esearch [OF vt] good_fuzzy [OF vt] good_partial [where h = h and ctx = ctx, OF vt h] good_esort [where h = h and ctx = ctx, OF vt vts] good_context [OF vt] good_searchres [OF vt]
    good_dollar [where h = h and ctx = ctx, OF vt h] good_binary [where h = h and ctx = ctx, OF vt vts] good_utf8 [where h = h and ctx = ctx, OF vt vts] good_catenate [where h = h and ctx = ctx, OF vt vts] good_multiappend [where h = h and ctx = ctx, OF vt vts]
    good_listextended [OF vt]
  have cond: "good (cx_Tag ctx) (handleCondstoreStore be (Some m) ctx)" if "xs_conditional xs = Some m" for m
    using good_condstore(1) [OF vt] by (simp add: that)
  show ?thesis
    using assms(1) unfolding extension_wrappers_def set_simps insert_iff empty_iff prod.inject simp_thms
    by (elim disjE conjE; use assms(2) assms(3) [unfolded sound_wrap_def] in \<open>auto simp: wraps goods cond split: if_splits\<close>)
qed

lemma answering_installed:
  assumes "installed opts be xs ws d" "\<forall>inp. o_handshake opts inp \<noteq> None" "list_all (sound_wrap xs) ws"
  shows "answering d"
  using assms(1,3)
proof induction
  case start
  show ?case by (rule answering_builtin [OF assms(2)])
next
  case (register ws d name h)
  then show ?case
    unfolding answering_def Dispatcher_Get_def Dispatcher_Register_def
    by (auto split: if_splits intro: good_extension_handlers)
next
  case (wrap ws d ext w name)
  then have IH: "answering d" and sound: "sound_wrap xs (ext, name)" by simp_all
  have old: "good (cx_Tag ctx) (h ctx)" if "d upper = Some h" "ToUpper upper = upper" "valid_tag (cx_Tag ctx)" for upper h ctx
    using IH that unfolding answering_def Dispatcher_Get_def by metis
  show ?case
  proof (cases "d (ToUpper name)")
    case (Some h0)
    have h0: "good (cx_Tag ctx) (h0 ctx)" if "valid_tag (cx_Tag ctx)" for ctx
      using old [OF Some _ that] by simp
    have "good (cx_Tag ctx) ((case w name h0 of Some h' \<Rightarrow> h' | None \<Rightarrow> h0) ctx)" if "valid_tag (cx_Tag ctx)" for ctx
      using good_extension_wrappers [OF wrap.hyps(2) _ sound h0] h0 that by (auto split: option.split)
    then show ?thesis
      using IH Some unfolding answering_def Dispatcher_Get_def Wrap_def by auto
  qed (use IH in \<open>simp add: Wrap_def\<close>)
qed

end

section \<open>The in-memory server with extensions\<close>

text \<open>A session of \<open>server/memserver\<close> has none of the optional interfaces. UIDONLY calls its
  methods with writers that report UIDs.\<close>

definition mem_uidonly :: "mem_env \<Rightarrow> (session \<times> world) session_uidonly" where
  "mem_uidonly env =
     \<lparr>uo_Fetch = (\<lambda>ns fopts (s, w). case Session_Fetch (me_header env) (me_parse env) ns fopts s w of
        (r, ds, w') \<Rightarrow> (outcome_ret id r, map (WriteFetchData (me_format env) True) ds, s, w')),
      uo_Store = (\<lambda>ns sf so (s, w). case Session_Store ns sf s w of
        (r, w') \<Rightarrow> (sum_ret (\<lambda>_. ()) r, written (\<lambda>(n, fs). FetchWriter_WriteFlags True n fs) r, s, w')),
      uo_Expunge = (\<lambda>us (s, w). case Session_Expunge us s w of
        (r, w') \<Rightarrow> (sum_ret (\<lambda>_. ()) r, written (ExpungeWriter_WriteExpunge True) r, s, w')),
      uo_StoreConditional = None, uo_Move = None, uo_EnableUIDOnly = None\<rparr>"

definition mem_ext :: "mem_env \<Rightarrow> (session \<times> world) ext_session" where
  "mem_ext env =
     \<lparr>xs_acl = None, xs_quota = None, xs_namespace = None, xs_metadata = None, xs_id = None, xs_language = None,
      xs_compress = None, xs_unauthenticate = None, xs_move = None, xs_notify = None, xs_convert = None, xs_filters = None,
      xs_sort = None, xs_thread = None, xs_urlauth = None, xs_context = None, xs_multisearch = None, xs_replace = None,
      xs_conditional = None, xs_qresync = None, xs_uidplus = None, xs_specialuse = None, xs_uidonly = mem_uidonly env,
      xs_extended = None, xs_fuzzy = None, xs_searchres = None, xs_partial = None, xs_esort = None, xs_binary = None,
      xs_utf8 = None, xs_catenate = None, xs_multiappend = None, xs_listextended = None\<rparr>"

lemma uidonly_writers_star:
  "HasPrefix (ExpungeWriter_WriteExpunge True n) ''* ''" "HasPrefix (WriteFetchData fmt True fd) ''* ''"
  "HasPrefix (FetchWriter_WriteFlags True n fs) ''* ''"
  by (simp_all only: ExpungeWriter_WriteExpunge_def WriteFetchData_def FetchWriter_WriteFlags_def Let_def
      enc_NumResponse_def HasPrefix_star if_True)

lemma polite_mem_uidonly:
  "polite (uo_Fetch (mem_uidonly env) ns fopts b)" "polite (uo_Store (mem_uidonly env) ns sf so b)"
  "polite (uo_Expunge (mem_uidonly env) us b)"
  by (cases b; simp add: mem_uidonly_def polite_written uidonly_writers_star split: prod.split)+

lemma mem_ext_contract:
  assumes "\<And>tags b. polite (m tags b)"
  shows "extension_contract (mem_backend env) ((mem_ext env)\<lparr>xs_language := Some m\<rparr>)"
  by unfold_locales (simp_all add: mem_ext_def polite_mem_uidonly, auto simp: mem_uidonly_def assms)

interpretation memx: extension_contract "mem_backend env" "mem_ext env" for env
  by unfold_locales (simp_all add: mem_ext_def polite_mem_uidonly, simp_all add: mem_uidonly_def)

end
