(* ===== verification/ExtProps.thy ===== *)
theory ExtProps
  imports ExtLaws WireCodec
begin

text \<open>
  The properties of the extensions: what holds of every dispatcher they can build, of single
  handlers, and where the code does not do what it means to.
\<close>

section \<open>Every command is answered\<close>

text \<open>C5. Extensions keep the promise of the protocol: whichever extension commands are registered and
  whichever handlers are wrapped, in any order, a command is followed by exactly one tagged
  response, unless it panics or never returns, and the connection stays open. The session must
  keep to the contract of its interfaces, which is to write untagged responses only and not to end
  the connection, and three wrapped handlers need more: the STORE of CONDSTORE a session with
  \<open>StoreConditional\<close>, and the ENABLE of UIDONLY and of UTF8=ACCEPT a session whose
  \<open>EnableUIDOnly\<close> and \<open>EnableUTF8\<close> return no error.\<close>

theorem extensions_answer_once:
  assumes "extension_contract be xs" "installed opts be xs ws d"
    and "(''CONDSTORE'', ''STORE'') \<in> set ws \<longrightarrow> xs_conditional xs \<noteq> None"
    and "(''UIDONLY'', ''ENABLE'') \<in> set ws \<longrightarrow> (\<forall>m. uo_EnableUIDOnly (xs_uidonly xs) = Some m \<longrightarrow> never_fails m)"
    and "(''UTF8=ACCEPT'', ''ENABLE'') \<in> set ws \<longrightarrow> (\<forall>m. xs_utf8 xs = Some m \<longrightarrow> never_fails m)"
    and "valid_tag tag" "\<forall>inp. o_handshake opts inp \<noteq> None"
    and "dispatch d tag name rest c = Finished e c'"
  shows "e = None \<and> (\<exists>outs. c_output c' = c_output c @ outs \<and> tagged tag outs = 1)"
proof -
  have "list_all (sound_wrap xs) ws" using assms(3-5) by (auto simp: list_all_iff sound_wrap_def)
  then show ?thesis
    by (rule answering_one_reply [OF extension_contract.answering_installed [OF assms(1,2,7)] assms(6,8)])
qed

definition speaks :: "string list \<Rightarrow> (session \<times> world, string \<times> string list) meth" where
  "speaks tags b = (Ret (''de'', [''de'', ''en'']), [], b)"

definition speaking :: "(session \<times> world) ext_session" where
  "speaking = (mem_ext example_env)\<lparr>xs_language := Some speaks\<rparr>"

definition extended :: "(session \<times> world) dispatcher" where
  "extended =
     Wrap ''COPY'' (\<lambda>h. case UIDPlus_WrapHandler (mem_backend example_env) (xs_uidplus speaking) ''COPY'' h of Some h' \<Rightarrow> h' | None \<Rightarrow> h)
       (Dispatcher_Register ''LANGUAGE'' (handleLanguage (xs_language speaking))
         (builtin example_options (mem_backend example_env)))"

definition logged_in :: "(session \<times> world) conn" where
  "logged_in = (newConn [] True)\<lparr>c_session := Some (mem_NewSession, mem_New), c_machine := New Authenticated\<rparr>"

theorem extensions_answer_once_witness:
  "\<exists>c'. dispatch extended ''a1'' ''language'' ''de'' logged_in = Finished None c' \<and> tagged ''a1'' (c_output c') = 1"
proof -
  have names: "ToUpper ''language'' = ''LANGUAGE''" "uid_prefix ''LANGUAGE'' ''de'' = Some (NumKindSeq, ''LANGUAGE'', ''de'')"
    "CommandAllowedStates ''LANGUAGE'' = None" "ToUpper ''LANGUAGE'' = ''LANGUAGE''" "ToUpper ''COPY'' = ''COPY''"
    by code_simp+
  have "Dispatcher_Get extended ''LANGUAGE'' = Some (handleLanguage (Some speaks))"
    unfolding extended_def Wrap_def Dispatcher_Get_def Dispatcher_Register_def names speaking_def
    by (simp split: option.split)
  then have "\<exists>c'. dispatch extended ''a1'' ''language'' ''de'' logged_in = Finished None c'"
    by (simp add: dispatch_def names handleLanguage_def in_states_def Conn_State_def State_def logged_in_def New_def asserting_def
        call_def speaks_def answer_def return_ok_def respond_def)
  then obtain c' where run: "dispatch extended ''a1'' ''language'' ''de'' logged_in = Finished None c'" ..
  have contract: "extension_contract (mem_backend example_env) speaking"
    unfolding speaking_def by (rule mem_ext_contract) (simp add: speaks_def polite_def)
  have "installed example_options (mem_backend example_env) speaking [(''UIDPLUS'', ''COPY'')] extended"
    unfolding extended_def
    by (intro installed.wrap [of _ _ _ "[]" _ "''UIDPLUS''"] installed.register installed.start)
      (simp_all add: extension_wrappers_def extension_handlers_def)
  from extensions_answer_once [OF contract this _ _ _ _ _ run] run show ?thesis
    by (auto simp: valid_tag_def example_options_def logged_in_def newConn_def)
qed

lemma ParseSeqSet_one: "ParseSeqSet ''1'' = Inr [NumRange 1 1]"
proof -
  have "digit_char (Suc 0) = CHR ''1''" by code_simp
  then show ?thesis
    using parseNumSet_formatNumSet [of "[NumRange 1 1]"]
    by (simp add: ParseSeqSet_def formatNumSet_def NumRange_String_def FormatUint_small)
qed

text \<open>C36. A flaw of CONDSTORE: when the session has no \<open>StoreConditional\<close>, a STORE with UNCHANGEDSINCE
  is carried out and not answered. The client gets no tagged response.\<close>

theorem condstore_store_unanswered:
  assumes "c_session c = Some b" "valid_tag tag"
    and "be_Store be (SeqSet [NumRange 1 1]) \<lparr>sf_Action = StoreFlagsAdd, sf_Silent = False, sf_Flags = [''x'']\<rparr> \<lparr>UnchangedSince = 5\<rparr> b =
      (Ret (), outs, b')" "\<forall>s \<in> set outs. HasPrefix s ''* ''"
  shows "\<exists>c'. respond tag (handleCondstoreStore be None
      \<lparr>cx_Tag = tag, cx_Name = ''STORE'', cx_NumKind = NumKindSeq, cx_Decoder = Some ''1 (UNCHANGEDSINCE 5) +FLAGS (x)''\<rparr> c) =
        Finished None c' \<and> c_session c' = Some b' \<and> c_output c' = c_output c @ outs \<and> tagged tag outs = 0"
proof -
  have parse: "ReadAtom ''1 (UNCHANGEDSINCE 5) +FLAGS (x)'' = (Inr ''1'', '' (UNCHANGEDSINCE 5) +FLAGS (x)'')"
    "ReadSP '' (UNCHANGEDSINCE 5) +FLAGS (x)'' = (Inr (), ''(UNCHANGEDSINCE 5) +FLAGS (x)'')"
    "PeekByte ''(UNCHANGEDSINCE 5) +FLAGS (x)'' = (Inr (CHR ''(''), ''(UNCHANGEDSINCE 5) +FLAGS (x)'')"
    "ExpectByte (CHR ''('') ''(UNCHANGEDSINCE 5) +FLAGS (x)'' = (Inr (), ''UNCHANGEDSINCE 5) +FLAGS (x)'')"
    "ReadAtom ''UNCHANGEDSINCE 5) +FLAGS (x)'' = (Inr ''UNCHANGEDSINCE'', '' 5) +FLAGS (x)'')"
    "EqualFold ''UNCHANGEDSINCE'' ''UNCHANGEDSINCE''" "ReadSP '' 5) +FLAGS (x)'' = (Inr (), ''5) +FLAGS (x)'')"
    "ExpectByte (CHR '')'') '') +FLAGS (x)'' = (Inr (), '' +FLAGS (x)'')" "ReadSP '' +FLAGS (x)'' = (Inr (), ''+FLAGS (x)'')"
    "ReadAtom ''+FLAGS (x)'' = (Inr ''+FLAGS'', '' (x)'')" "ToUpper ''+FLAGS'' = ''+FLAGS''"
    "store_action_of ''+FLAGS'' = Some StoreFlagsAdd" "ReadSP '' (x)'' = (Inr (), ''(x)'')" "HasSuffix ''+FLAGS'' ''.SILENT'' = False"
    by code_simp+
  have "digit_char 5 = CHR ''5''" by code_simp
  then have "ParseUint 64 ''5'' = Some 5" using ParseUint_FormatUint [of 64 5] by (simp add: FormatUint_small)
  moreover have "ReadAtom ''5) +FLAGS (x)'' = (Inr ''5'', '') +FLAGS (x)'')" by code_simp
  ultimately have num: "ReadNumber64 ''5) +FLAGS (x)'' = (Inr 5, '') +FLAGS (x)'')" by (simp add: ReadNumber64_def dbind_def)
  have "list_all atom_text [''x'']" by code_simp
  from atom_codec.ReadList_enc [OF this, of "[]"] have flags: "ReadFlags ''(x)'' = Some (Inr [''x''], [])"
    by (simp add: ReadFlags_def enc_Atom_def)
  have "tagged tag outs = 0" by (rule tagged_polite [OF assms(2,4)])
  then show ?thesis
    by (simp add: handleCondstoreStore_def with_args_def read_numset_def read_arg_def parse ParseSeqSet_one store_modifier_def num
        store_action_flags_def read_loop_def flags asserting_def ask_def assms respond_def)
qed

definition storing :: "unit backend" where
  "storing = example_backend\<lparr>be_Store := (\<lambda>_ _ _ b. (Ret (), [], b))\<rparr>"

theorem condstore_store_unanswered_witness:
  "\<exists>c'. respond ''a1'' (handleCondstoreStore storing None
      \<lparr>cx_Tag = ''a1'', cx_Name = ''STORE'', cx_NumKind = NumKindSeq, cx_Decoder = Some ''1 (UNCHANGEDSINCE 5) +FLAGS (x)''\<rparr>
      ((newConn [] True)\<lparr>c_session := Some ()\<rparr>)) = Finished None c' \<and> c_output c' = []"
  using condstore_store_unanswered [of "(newConn [] True)\<lparr>c_session := Some ()\<rparr>" "()" "''a1''" storing "[]" "()"]
  by (auto simp: valid_tag_def storing_def newConn_def)

text \<open>A flaw of UIDONLY: the answer to ENABLE is sent before the session is told, so when
  \<open>EnableUIDOnly\<close> fails the client gets a second tagged response to the same command.\<close>

theorem enable_answered_twice:
  assumes "h ctx c = Finished None c1" "c_output c1 = c_output c @ outs" "tagged (cx_Tag ctx) outs = 1"
    and "Has (c_enabled c1) ''UIDONLY''" "c_session c1 = Some b" "uo_EnableUIDOnly ses = Some m" "m b = (Err (OtherErr text), [], b')"
    and "valid_tag (cx_Tag ctx)"
  shows "\<exists>c' outs. respond (cx_Tag ctx) (handleUIDOnlyEnable ses h ctx c) = Finished None c' \<and>
    c_output c' = c_output c @ outs \<and> tagged (cx_Tag ctx) outs = 2"
proof -
  have "tagged (cx_Tag ctx) (outs @ [enc_StatusResponse (cx_Tag ctx) ''NO'' [] ''internal server error'']) = 2"
    by (simp add: assms(3) tagged_status [OF assms(8)])
  then show ?thesis
    by (simp add: handleUIDOnlyEnable_def assms asserting_def ask_def fail_def respond_def WriteNO_def emit_def)
qed

definition failing_uidonly :: "unit session_uidonly" where
  "failing_uidonly =
     \<lparr>uo_Fetch = (\<lambda>_ _ b. (Ret (), [], b)), uo_Store = (\<lambda>_ _ _ b. (Ret (), [], b)), uo_Expunge = (\<lambda>_ b. (Ret (), [], b)),
      uo_StoreConditional = None, uo_Move = None, uo_EnableUIDOnly = Some (\<lambda>b. (Err (OtherErr ''disk full''), [], b))\<rparr>"

theorem enable_answered_twice_witness:
  "let ctx = \<lparr>cx_Tag = ''a1'', cx_Name = ''ENABLE'', cx_NumKind = NumKindSeq, cx_Decoder = Some ''UIDONLY''\<rparr>;
       enabled = (\<lambda>ctx c. return_ok ctx ''ENABLE completed'' (c\<lparr>c_enabled := NewCapSet [''UIDONLY'']\<rparr>));
       c = (newConn [] True)\<lparr>c_session := Some ()\<rparr>
   in \<exists>c'. respond ''a1'' (handleUIDOnlyEnable failing_uidonly enabled ctx c) = Finished None c' \<and> tagged ''a1'' (c_output c') = 2"
proof -
  let ?ctx = "\<lparr>cx_Tag = ''a1'', cx_Name = ''ENABLE'', cx_NumKind = NumKindSeq, cx_Decoder = Some ''UIDONLY''\<rparr>"
  let ?h = "\<lambda>ctx c. return_ok ctx ''ENABLE completed'' (c\<lparr>c_enabled := NewCapSet [''UIDONLY'']\<rparr>)"
  let ?c = "(newConn [] True)\<lparr>c_session := Some ()\<rparr> :: unit conn"
  let ?c1 = "WriteOK ''a1'' ''ENABLE completed'' (?c\<lparr>c_enabled := NewCapSet [''UIDONLY'']\<rparr>)"
  have vt: "valid_tag ''a1''" by (simp add: valid_tag_def)
  have "Has (c_enabled ?c1) ''UIDONLY''" by (simp add: WriteOK_def emit_def NewCapSet_def Has_def Add_def)
  then show ?thesis
    using enable_answered_twice [of ?h ?ctx ?c ?c1 "[enc_StatusResponse ''a1'' ''OK'' [] ''ENABLE completed'']" "()" failing_uidonly
        "\<lambda>b. (Err (OtherErr ''disk full''), [], b)" "''disk full''" "()"] vt tagged_status [OF vt]
    by (auto simp: return_ok_def WriteOK_def emit_def newConn_def failing_uidonly_def Let_def)
qed

text \<open>A flaw of UNAUTHENTICATE: in the selected state the session is told to forget the user before
  the state machine refuses the change. The connection stays selected and the client reads NO,
  but the session is not authenticated any more.\<close>

theorem unauthenticate_disagrees:
  assumes "c_session c = Some b" "c_machine c = New NotAuthenticated \<lparr>cur := Selected\<rparr>"
    and "m b = (Ret (), outs, b')"
  shows "\<exists>c' msg. handleUnauthenticate (Some m) ctx c = Finished None c' \<and> c_session c' = Some b' \<and> Conn_State c' = Selected \<and>
    c_output c' = c_output c @ outs @ [enc_StatusResponse (cx_Tag ctx) ''NO'' [] msg]"
  by (simp add: handleUnauthenticate_def in_states_def Conn_State_def State_def assms asserting_def call_def Conn_SetState_def
      Transition_def canTransition_def New_def DefaultTransitions_def no_def WriteNO_def emit_def) blast

theorem unauthenticate_disagrees_witness:
  "\<exists>c'. handleUnauthenticate (Some (\<lambda>b. (Ret (), [], b + 1)))
      \<lparr>cx_Tag = ''a1'', cx_Name = ''UNAUTHENTICATE'', cx_NumKind = NumKindSeq, cx_Decoder = None\<rparr>
      ((newConn [] True)\<lparr>c_session := Some (0 :: nat), c_machine := New NotAuthenticated\<lparr>cur := Selected\<rparr>\<rparr>) = Finished None c' \<and>
    c_session c' = Some 1 \<and> Conn_State c' = Selected"
  using unauthenticate_disagrees [of "(newConn [] True)\<lparr>c_session := Some (0 :: nat), c_machine := New NotAuthenticated\<lparr>cur := Selected\<rparr>\<rparr>"
      0 "\<lambda>b. (Ret (), [], b + 1)" "[]" 1 "\<lparr>cx_Tag = ''a1'', cx_Name = ''UNAUTHENTICATE'', cx_NumKind = NumKindSeq, cx_Decoder = None\<rparr>"]
  by auto

text \<open>A handler that does not look at the state of the connection: with another state machine it does
  the same and leaves that machine in place.\<close>

definition with_machine :: "(unit, unit) machine \<Rightarrow> 'b result \<Rightarrow> 'b result" where
  "with_machine m r = (case r of Finished e c \<Rightarrow> Finished e (c\<lparr>c_machine := m\<rparr>) | _ \<Rightarrow> r)"

definition any_state :: "'b cont \<Rightarrow> bool" where
  "any_state k \<longleftrightarrow> (\<forall>c m. k (c\<lparr>c_machine := m\<rparr>) = with_machine m (k c))"

lemma with_machine_simps [simp]:
  "with_machine m (Finished e c) = Finished e (c\<lparr>c_machine := m\<rparr>)" "with_machine m (Crashed p) = Crashed p" "with_machine m Hangs = Hangs"
  by (simp_all add: with_machine_def)

lemma emit_machine: "emit s (c\<lparr>c_machine := m\<rparr>) = (emit s c)\<lparr>c_machine := m\<rparr>"
  by (simp add: emit_def)

named_theorems any_state_rules

lemma any_state_replies [any_state_rules]:
  "any_state (bad ctx msg)" "any_state (no ctx msg)" "any_state (return_ok ctx msg)" "any_state (answer ctx line msg)" "any_state (\<lambda>_. Hangs)"
  by (simp_all add: any_state_def with_machine_def bad_def no_def return_ok_def answer_def WriteBAD_def WriteNO_def WriteOK_def emit_machine)

lemma any_state_asserting [any_state_rules]: "any_state j \<Longrightarrow> (\<And>x. any_state (k x)) \<Longrightarrow> any_state (asserting i j k)"
  by (auto simp: any_state_def asserting_def split: option.split)

lemma any_state_deref [any_state_rules]: "(\<And>inp. any_state (k inp)) \<Longrightarrow> any_state (deref ctx k)"
  by (auto simp: any_state_def deref_def with_machine_def split: option.split)

lemma any_state_arg [any_state_rules]: "(\<And>x inp. any_state (k x inp)) \<Longrightarrow> any_state (arg ctx d msg k inp)"
  by (auto simp: arg_def any_state_rules split: prod.split sum.split)

lemma any_state_arg_loop [any_state_rules]: "(\<And>x inp. any_state (k x inp)) \<Longrightarrow> any_state (arg_loop ctx d msg k inp)"
  by (auto simp: arg_loop_def any_state_rules split: option.split prod.split sum.split)

lemma any_state_if [any_state_rules]: "any_state k \<Longrightarrow> any_state j \<Longrightarrow> any_state (if P then k else j)"
  by simp

lemma any_state_metadata_entries [any_state_rules]:
  "(\<And>x inp. any_state (k x inp)) \<Longrightarrow> any_state (metadata_entries ctx k inp)"
  unfolding metadata_entries_def by (auto intro!: any_state_rules)

lemma any_state_call [any_state_rules]:
  assumes "\<And>x. any_state (k x)"
  shows "any_state (call ctx name m k)"
  unfolding any_state_def
proof (intro allI)
  fix c mach
  have k: "k x (c\<lparr>c_session := b, c_output := out, c_machine := mach\<rparr>) = with_machine mach (k x (c\<lparr>c_session := b, c_output := out\<rparr>))"
    for x b out using assms [of x] by (simp add: any_state_def)
  have n: "no ctx msg (c\<lparr>c_session := b, c_output := out, c_machine := mach\<rparr>) = with_machine mach (no ctx msg (c\<lparr>c_session := b, c_output := out\<rparr>))"
    for msg b out by (simp add: any_state_replies(2) [unfolded any_state_def])
  have swap: "c\<lparr>c_machine := mach, c_session := b, c_output := out\<rparr> = c\<lparr>c_session := b, c_output := out, c_machine := mach\<rparr>" for b out
    by simp
  show "call ctx name m k (c\<lparr>c_machine := mach\<rparr>) = with_machine mach (call ctx name m k c)"
    by (cases "c_session c") (auto simp: call_def Let_def swap k n split: prod.split ret.split)
qed

lemma any_state_quotas: "any_state (\<lambda>c. return_ok ctx msg (foldl (\<lambda>c q. emit (f q) c) (emit s c) qs) :: 'b result)"
proof -
  have "foldl (\<lambda>c q. emit (f q) c) (c\<lparr>c_machine := m\<rparr>) qs = (foldl (\<lambda>c q. emit (f q) c) c qs)\<lparr>c_machine := m\<rparr>" for c :: "'b conn" and m
    by (induction qs arbitrary: c) (simp_all add: emit_machine)
  then show ?thesis by (simp add: any_state_def with_machine_def return_ok_def WriteOK_def emit_machine)
qed

text \<open>The commands of the three extensions.\<close>

definition account_handlers :: "options \<Rightarrow> 'b session_acl \<Rightarrow> 'b session_quota \<Rightarrow> 'b session_metadata \<Rightarrow> (string \<times> 'b handler) list" where
  "account_handlers opts acl quota metadata =
     ACL_CommandHandlers (Some acl) @ Quota_CommandHandlers (Some quota) @ Metadata_CommandHandlers opts (Some metadata)"

lemmas account_defs = account_handlers_def ACL_CommandHandlers_def Quota_CommandHandlers_def Metadata_CommandHandlers_def

lemma account_names:
  assumes "(name, h) \<in> set (account_handlers opts acl quota metadata)"
  shows "ToUpper name = name" "name \<noteq> ''UID''" "CommandAllowedStates name = None"
proof -
  have "list_all (\<lambda>n. ToUpper n = n \<and> n \<noteq> ''UID'' \<and> CommandAllowedStates n = None)
      [''SETACL'', ''DELETEACL'', ''GETACL'', ''LISTRIGHTS'', ''MYRIGHTS'', ''GETQUOTA'', ''GETQUOTAROOT'', ''SETQUOTA'', ''GETMETADATA'', ''SETMETADATA'']"
    by code_simp
  moreover have "name \<in> set [''SETACL'', ''DELETEACL'', ''GETACL'', ''LISTRIGHTS'', ''MYRIGHTS'', ''GETQUOTA'', ''GETQUOTAROOT'', ''SETQUOTA'', ''GETMETADATA'', ''SETMETADATA'']"
    using assms by (auto simp: account_defs)
  ultimately have "ToUpper name = name \<and> name \<noteq> ''UID'' \<and> CommandAllowedStates name = None" unfolding list_all_iff by blast
  then show "ToUpper name = name" "name \<noteq> ''UID''" "CommandAllowedStates name = None" by blast+
qed

lemma any_state_account:
  assumes "(name, h) \<in> set (account_handlers opts acl quota metadata)"
  shows "any_state (h ctx)"
proof -
  have "any_state (handleGetMetadata opts (Some metadata) ctx)" "any_state (handleSetMetadata (Some metadata) ctx)"
    unfolding handleGetMetadata_def handleSetMetadata_def Let_def by (auto intro!: any_state_rules)
  moreover have "any_state (handleGetQuota (Some quota) ctx)" "any_state (handleGetQuotaRoot (Some quota) ctx)"
    "any_state (handleSetQuota (Some quota) ctx)"
    unfolding handleGetQuota_def handleGetQuotaRoot_def handleSetQuota_def Let_def
    by (auto intro!: any_state_rules any_state_quotas split: prod.split)
  moreover have "any_state (handleSetACL (Some acl) ctx)" "any_state (handleDeleteACL (Some acl) ctx)"
    "any_state (handleGetACL (Some acl) ctx)" "any_state (handleListRights (Some acl) ctx)" "any_state (handleMyRights (Some acl) ctx)"
    unfolding handleSetACL_def handleDeleteACL_def handleGetACL_def handleListRights_def handleMyRights_def
    by (auto intro!: any_state_rules split: prod.split)
  ultimately show ?thesis using assms by (auto simp: account_defs)
qed

lemma account_crashes:
  assumes "(name, h) \<in> set (account_handlers opts acl quota metadata)" "cx_Decoder ctx = None" "c_session c = Some b"
  shows "h ctx c = Crashed NilDereference"
  using assms by (auto simp: account_defs handleGetMetadata_def handleSetMetadata_def handleGetQuota_def handleGetQuotaRoot_def
      handleSetQuota_def handleSetACL_def handleDeleteACL_def handleGetACL_def handleListRights_def handleMyRights_def asserting_def deref_def)

lemma respond_machine: "respond tag (with_machine m r) = with_machine m (respond tag r)"
  by (auto simp: respond_def with_machine_def WriteNO_def WriteBYE_def emit_machine
      split: result.splits option.splits go_error.splits status_type.splits)

text \<open>C37. A flaw of ACL, QUOTA and METADATA: none of their ten commands is in the table of allowed states
  and no handler looks at the state, so each of them does before LOGIN, or in any other state,
  exactly what it does after it, \<open>SetACL\<close>, \<open>SetQuota\<close> and \<open>SetMetadata\<close> included. Without arguments
  each of them panics.\<close>

theorem acl_before_login:
  assumes "(name, h) \<in> set (account_handlers opts acl quota metadata)" "c_session c = Some b"
  shows "dispatch (Dispatcher_Register name h d) tag name rest (c\<lparr>c_machine := m\<rparr>) =
      with_machine m (dispatch (Dispatcher_Register name h d) tag name rest c) \<and>
    dispatch (Dispatcher_Register name h d) tag name [] c = Crashed NilDereference"
proof -
  note names = account_names [OF assms(1)]
  have run: "dispatch (Dispatcher_Register name h d) tag name args c = respond tag (h \<lparr>cx_Tag = tag, cx_Name = name, cx_NumKind = NumKindSeq,
      cx_Decoder = (if args \<noteq> [] then Some args else None)\<rparr> c)" for args and c :: "'a conn"
    using names by (simp add: dispatch_def uid_prefix_def Dispatcher_Get_def Dispatcher_Register_def)
  show ?thesis
    unfolding run using any_state_account [OF assms(1)] account_crashes [OF assms(1) _ assms(2)]
    by (simp add: any_state_def respond_machine respond_def [of tag "Crashed _"])
qed

definition granting :: "nat session_acl" where
  "granting =
     \<lparr>SetACL = (\<lambda>mb who md rights b. (Ret (), [], b + 1)), DeleteACL = (\<lambda>mb who b. (Ret (), [], b)),
      GetACL = (\<lambda>mb b. (Ret \<lparr>acl_Mailbox = mb, acl_Rights = []\<rparr>, [], b)),
      ListRights = (\<lambda>mb who b. (Ret \<lparr>lr_Mailbox = mb, lr_Identifier = who, lr_Required = [], lr_Optional = []\<rparr>, [], b)),
      MyRights = (\<lambda>mb b. (Ret \<lparr>mr_Mailbox = mb, mr_Rights = []\<rparr>, [], b))\<rparr>"

definition unlimited :: "nat session_quota" where
  "unlimited =
     \<lparr>GetQuota = (\<lambda>root b. (Ret \<lparr>qd_Root = root, qd_Resources = []\<rparr>, [], b)),
      GetQuotaRoot = (\<lambda>mb b. (Ret (\<lparr>qrd_Mailbox = mb, qrd_Roots = []\<rparr>, []), [], b)),
      SetQuota = (\<lambda>root res b. (Ret \<lparr>qd_Root = root, qd_Resources = res\<rparr>, [], b))\<rparr>"

definition annotated :: "nat session_metadata" where
  "annotated =
     \<lparr>GetMetadata = (\<lambda>mb names mo b. (Ret \<lparr>md_Mailbox = mb, md_Entries = []\<rparr>, [], b)), SetMetadata = (\<lambda>mb entries b. (Ret (), [], b))\<rparr>"

theorem acl_before_login_witness:
  "let c = (newConn [] True)\<lparr>c_session := Some 0\<rparr> in
   Conn_State c = NotAuthenticated \<and>
   (\<exists>c'. dispatch (Dispatcher_Register ''SETACL'' (handleSetACL (Some granting)) NewDispatcher) ''a1'' ''SETACL'' ''INBOX eve lr'' c =
      Finished None c' \<and> c_session c' = Some 1)"
proof -
  let ?d = "Dispatcher_Register ''SETACL'' (handleSetACL (Some granting)) NewDispatcher"
  let ?later = "(newConn [] True)\<lparr>c_session := Some 0, c_machine := New Authenticated\<rparr> :: nat conn"
  have names: "ToUpper ''SETACL'' = ''SETACL''" "uid_prefix ''SETACL'' ''INBOX eve lr'' = Some (NumKindSeq, ''SETACL'', ''INBOX eve lr'')"
    "CommandAllowedStates ''SETACL'' = None"
    "ReadAString ''INBOX eve lr'' = (Inr ''INBOX'', '' eve lr'')" "ReadSP '' eve lr'' = (Inr (), ''eve lr'')"
    "ReadAString ''eve lr'' = (Inr ''eve'', '' lr'')" "ReadSP '' lr'' = (Inr (), ''lr'')" "ReadAString ''lr'' = (Inr ''lr'', [])"
    "acl_modifier ''lr'' = ([], ''lr'')"
    by code_simp+
  have "\<exists>c'. dispatch ?d ''a1'' ''SETACL'' ''INBOX eve lr'' ?later = Finished None c' \<and> c_session c' = Some 1"
    by (simp add: dispatch_def names Dispatcher_Get_def Dispatcher_Register_def handleSetACL_def asserting_def granting_def
        deref_def arg_def call_def return_ok_def respond_def WriteOK_def emit_def)
  then obtain c' where later: "dispatch ?d ''a1'' ''SETACL'' ''INBOX eve lr'' ?later = Finished None c'" "c_session c' = Some 1" by blast
  have "(''SETACL'', handleSetACL (Some granting)) \<in> set (account_handlers example_options granting unlimited annotated)"
    by (simp add: account_defs)
  from acl_before_login [OF this, of ?later 0 NewDispatcher "''a1''" "''INBOX eve lr''" "New NotAuthenticated"] later
  show ?thesis by (simp add: Let_def with_machine_def Conn_State_def State_def newConn_def New_def)
qed

section \<open>UIDONLY\<close>



section \<open>PARTIAL\<close>

lemma ParseInt64_FormatInt: "ParseInt64 (FormatInt n) = (if - (2 ^ 63) \<le> n \<and> n < 2 ^ 63 then Some n else None)"
proof (cases "n < 0")
  case True
  then show ?thesis
    by (auto simp: FormatInt_def ParseInt64_def ParseUint_FormatUint Let_def)
next
  case False
  have "hd (FormatUint (nat n)) \<noteq> CHR ''-''" "hd (FormatUint (nat n)) \<noteq> CHR ''+''"
    using hd_FormatUint_digit [of "nat n"] by (auto simp: is_digit_def)
  then show ?thesis
    using False by (auto simp: FormatInt_def ParseInt64_def ParseUint_FormatUint Let_def)
qed

text \<open>The range of PARTIAL: the parser gives back what is printed exactly when the offset is not zero
  and fits in 32 bits with its sign, and the count is not zero.\<close>

theorem partial_range_exact:
  "parsePartialRange (FormatInt offset @ '':'' @ FormatUint (unat cnt)) = Inr (offset, cnt) \<longleftrightarrow>
     offset \<noteq> 0 \<and> - (2 ^ 31) \<le> offset \<and> offset < 2 ^ 31 \<and> cnt \<noteq> 0"
proof -
  let ?s = "FormatInt offset @ '':'' @ FormatUint (unat cnt)"
  have "CHR '':'' \<notin> set (rev (FormatUint (unat cnt)))" using FormatUint_no_colon by simp
  then have "IndexByte (rev (FormatUint (unat cnt)) @ CHR '':'' # rev (FormatInt offset)) (CHR '':'') = Some (length (FormatUint (unat cnt)))"
    using IndexByte_append by (metis length_rev)
  then have i: "IndexByte (rev ?s) (CHR '':'') = Some (length (FormatUint (unat cnt)))" by simp
  have "length ?s - 1 - length (FormatUint (unat cnt)) = length (FormatInt offset)" by simp
  then have parts: "take (length ?s - 1 - length (FormatUint (unat cnt))) ?s = FormatInt offset"
      "drop (length ?s - 1 - length (FormatUint (unat cnt)) + 1) ?s = FormatUint (unat cnt)"
    by (simp_all only: append_eq_conv_conj) simp_all
  have "unat cnt < 2 ^ 32" using unsigned_less [of cnt] by simp
  then have "ParseUint 32 (FormatUint (unat cnt)) = Some (unat cnt)" by (simp add: ParseUint_FormatUint)
  then show ?thesis
    unfolding parsePartialRange_def i option.case Let_def parts
    by (auto simp: ParseInt64_FormatInt unat_eq_zero)
qed

section \<open>ESORT\<close>

lemma foldl_Min: "foldl min n ns = Min (set (n # ns))" for n :: "'a :: linorder"
proof -
  have "(\<lambda>x s. min s x) = (min :: 'a \<Rightarrow> 'a \<Rightarrow> 'a)" by (intro ext) (rule min.commute)
  then show ?thesis unfolding Min.set_eq_fold foldl_conv_fold by simp
qed

lemma foldl_Max: "foldl max n ns = Max (set (n # ns))" for n :: "'a :: linorder"
proof -
  have "(\<lambda>x s. max s x) = (max :: 'a \<Rightarrow> 'a \<Rightarrow> 'a)" by (intro ext) (rule max.commute)
  then show ?thesis unfolding Max.set_eq_fold foldl_conv_fold by simp
qed

lemma SeqSet_AddNum_map: "SeqSet_AddNum ss ns = ss @ map (\<lambda>n. NumRange n n) ns"
  unfolding SeqSet_AddNum_def by (induction ns arbitrary: ss) simp_all

lemma comma_separated:
  "0 \<notin> set (n # ns) \<Longrightarrow>
   FormatUint (unat n) @ concat (map (\<lambda>n. CHR '','' # FormatUint (unat n)) ns) = formatNumSet (map (\<lambda>n. NumRange n n) (n # ns))"
  by (induction ns arbitrary: n) (simp_all add: formatNumSet_def NumRange_String_def)

text \<open>C29. The sorted numbers as search data: the count, the least, the greatest and the whole result are
  those of the list, and the set of ALL contains exactly its numbers.\<close>

theorem sort_data_exact:
  assumes "nums \<noteq> []" "0 \<notin> set nums" "length nums < 2 ^ 32"
  shows "unat (sd_Count (sortDataToSearchData nums)) = length nums \<and>
    sd_Min (sortDataToSearchData nums) = Min (set nums) \<and> sd_Max (sortDataToSearchData nums) = Max (set nums) \<and>
    sd_AllSeqNums (sortDataToSearchData nums) = nums \<and>
    (\<exists>ss. sd_All (sortDataToSearchData nums) = Some ss \<and> (\<forall>n. SeqSet_Contains ss n \<longleftrightarrow> n \<in> set nums))"
proof -
  obtain n ns where nums: "nums = n # ns" using assms(1) by (cases nums) auto
  let ?rs = "map (\<lambda>n. NumRange n n) nums"
  have "\<not> (\<exists>r \<in> set ?rs. Start r = 0)" using assms(2) by auto
  then have "ParseSeqSet (formatNumSet ?rs) = Inr ?rs"
    using assms(1) by (simp add: ParseSeqSet_def parseNumSet_formatNumSet)
  then have all: "sd_All (sortDataToSearchData nums) = Some ?rs"
    using comma_separated [of n ns] assms(2) by (simp add: sortDataToSearchData_def nums)
  have "SeqSet_Contains ?rs m \<longleftrightarrow> m \<in> set nums" for m
    using seq.contains_of_nums [OF assms(2), of m] by (simp add: SeqSet_AddNum_map)
  with all have "\<exists>ss. sd_All (sortDataToSearchData nums) = Some ss \<and> (\<forall>n. SeqSet_Contains ss n \<longleftrightarrow> n \<in> set nums)" by blast
  moreover have "unat (of_nat (length nums) :: u32) = length nums" using assms(3) by (simp add: unat_of_nat take_bit_nat_eq_self)
  ultimately show ?thesis
    unfolding sortDataToSearchData_def nums list.case by (simp add: foldl_Min foldl_Max)
qed

theorem sort_data_exact_witness:
  "sd_Min (sortDataToSearchData [7, 3, 9]) = 3 \<and> sd_Max (sortDataToSearchData [7, 3, 9]) = 9 \<and>
   (\<exists>ss. sd_All (sortDataToSearchData [7, 3, 9]) = Some ss \<and> SeqSet_Contains ss 9 \<and> \<not> SeqSet_Contains ss 8)"
  using sort_data_exact [of "[7, 3, 9]"] by auto

section \<open>ID\<close>

text \<open>A callback that folds the elements of a list reads what the collecting callback reads.\<close>

lemma list_loop_fold:
  assumes "list_loop (collect dec) first xs inp = Some (Inr ys, rest)"
  shows "list_loop (\<lambda>a inp. Some (dbind (dec inp) (\<lambda>x inp. (Inr (f a x), inp)))) first (foldl f a xs) inp =
    Some (Inr (foldl f a ys), rest)"
proof -
  have "fst r = Inr ys \<longrightarrow> list_loop (\<lambda>a inp. Some (dbind (dec inp) (\<lambda>x inp. (Inr (f a x), inp)))) first (foldl f a xs) inp =
      Some (Inr (foldl f a ys), snd r)" if loop: "list_loop (collect dec) first xs inp = Some r" for r
  proof (rule list_loop.raw_induct [of "\<lambda>fn first xs inp r. fn = collect dec \<longrightarrow> fst r = Inr ys \<longrightarrow>
      list_loop (\<lambda>a inp. Some (dbind (dec inp) (\<lambda>x inp. (Inr (f a x), inp)))) first (foldl f a xs) inp =
      Some (Inr (foldl f a ys), snd r)", OF _ loop, THEN mp, OF _ refl], goal_cases)
    case (1 loop fn first xs inp r)
    show ?case
    proof (intro impI)
      assume fn: "fn = collect dec" and r: "fst r = Inr ys"
      note step = 1(2) [unfolded fn collect_def dbind_def]
      obtain b inp1 where p: "PeekByte inp = (Inr b, inp1)" using step r by (auto split: prod.splits sum.splits)
      show "list_loop (\<lambda>a inp. Some (dbind (dec inp) (\<lambda>x inp. (Inr (f a x), inp)))) first (foldl f a xs) inp =
        Some (Inr (foldl f a ys), snd r)"
      proof (cases "b = CHR '')''")
        case True
        then show ?thesis using step r p by (subst list_loop.simps) auto
      next
        case False
        obtain u inp2 where sp: "(if first then (Inr (), inp1) else ReadSP inp1) = (Inr u, inp2)"
          using step r p False by (auto split: prod.splits sum.splits)
        obtain x inp3 where d: "dec inp2 = (Inr x, inp3)" "loop (collect dec) False (xs @ [x]) inp3 = Some r"
          using step r p False sp fn by (auto simp: collect_def [abs_def] dbind_def split: prod.splits sum.splits)
        show ?thesis
          using 1(1) [OF d(2)] r p False sp d(1) by (subst list_loop.simps) (simp add: dbind_def)
      qed
    qed
  qed
  from this [OF assms] show ?thesis by simp
qed

lemma ReadList_fold:
  assumes "ReadList (collect dec) [] inp = Some (Inr ys, rest)"
  shows "ReadList (\<lambda>a inp. Some (dbind (dec inp) (\<lambda>x inp. (Inr (f a x), inp)))) a inp = Some (Inr (foldl f a ys), rest)"
  using assms list_loop_fold [of dec True "[]" _ ys rest f a] by (auto simp: ReadList_def split: prod.splits sum.splits)

definition read_id_pair :: "(string \<times> string option) decoder" where
  "read_id_pair inp =
     dbind (ReadString inp) (\<lambda>key inp. dbind (ReadSP inp) (\<lambda>_ inp. dbind (ReadNString inp) (\<lambda>val inp. (Inr (key, val), inp))))"

text \<open>A value that the encoder of nullable strings can carry.\<close>

definition id_value :: "string option \<Rightarrow> bool" where
  "id_value v = (case v of None \<Rightarrow> True | Some s \<Rightarrow> readable s \<and> \<not> EqualFold s ''NIL'')"

interpretation id_codec: item_codec "\<lambda>(key, val). enc_QuotedString key @ enc_SP @ enc_NString val" read_id_pair
  "\<lambda>(key, val). id_value val" stops
proof unfold_locales
  fix x :: "string \<times> string option" and rest
  assume ok: "(\<lambda>(key, val). id_value val) x" and st: "stops rest"
  obtain key val where x: "x = (key, val)" by (cases x)
  have "ReadNString (enc_NString val @ rest) = (Inr val, rest)"
    using ok ReadNString_enc_None [OF st] ReadNString_enc_Some [OF _ st] by (auto simp: x id_value_def split: option.splits)
  then show "read_id_pair ((\<lambda>(key, val). enc_QuotedString key @ enc_SP @ enc_NString val) x @ rest) = (Inr x, rest)"
    using ReadString_Quoted [of key "SP # enc_NString val @ rest"]
    by (simp add: read_id_pair_def x dbind_def enc_SP_def ReadSP_def ReadByte_def)
qed (auto simp: enc_QuotedString_def)

lemma dbind_dbind: "dbind (dbind r k) j = dbind r (\<lambda>x inp. dbind (k x inp) j)"
  by (simp add: dbind_def split: prod.splits sum.splits)

lemma dbind_Inr: "dbind (Inr x, inp) k = k x inp"
  by (simp add: dbind_def)

lemma id_pairs_fold:
  "id_pairs = ReadList (\<lambda>a inp. Some (dbind (read_id_pair inp) (\<lambda>x inp. (Inr (a(fst x \<mapsto> snd x)), inp)))) Map.empty"
  by (rule ext) (simp add: id_pairs_def read_id_pair_def dbind_dbind dbind_Inr)

lemma foldl_upd: "distinct (map fst kvs) \<Longrightarrow> foldl (\<lambda>a x. a(fst x \<mapsto> snd x)) m kvs = m ++ map_of kvs"
proof (induction kvs arbitrary: m)
  case (Cons kv kvs)
  then have "map_of kvs (fst kv) = None" by (simp add: map_of_eq_None_iff)
  with Cons show ?case by (auto simp: map_add_def fun_eq_iff split: option.splits)
qed simp

text \<open>C30. The ID data survives the wire: reading what the server writes for a map of fields, whose values
  may be absent, gives the map back, and what it writes for no map is read as none.  The values are
  those that the encoder can carry: the word NIL and atoms beginning with a tilde are not among them.\<close>

theorem id_roundtrip:
  assumes "distinct (map fst entries)" "entries \<noteq> []" "\<forall>(key, val) \<in> set entries. id_value val"
  shows "readIDData (Some (writeIDData (Some entries) @ rest)) = Some (Inr (Some (map_of entries))) \<and>
    readIDData (Some (writeIDData None @ [CR, LF])) = Some (Inr None)"
proof
  have "list_all (\<lambda>(key, val). id_value val) entries" using assms(3) by (auto simp: list_all_iff)
  from ReadList_fold [OF id_codec.ReadList_enc [OF this, of rest], of "\<lambda>a x. a(fst x \<mapsto> snd x)" Map.empty]
  have "id_pairs (writeIDData (Some entries) @ rest) = Some (Inr (map_of entries), rest)"
    using assms(1,2) by (simp add: id_pairs_fold writeIDData_def enc_BeginList_def enc_EndList_def foldl_upd)
  moreover have "PeekByte (writeIDData (Some entries) @ rest) = (Inr (CHR ''(''), writeIDData (Some entries) @ rest)"
    using assms(2) by (simp add: writeIDData_def PeekByte_def enc_BeginList_def)
  ultimately show "readIDData (Some (writeIDData (Some entries) @ rest)) = Some (Inr (Some (map_of entries)))"
    by (simp add: readIDData_def)
  have "ReadAtom (''NIL'' @ [CR, LF]) = (Inr ''NIL'', [CR, LF])" by code_simp
  then show "readIDData (Some (writeIDData None @ [CR, LF])) = Some (Inr None)"
    by (simp add: readIDData_def writeIDData_def enc_Nil_def PeekByte_def)
qed

theorem id_roundtrip_witness:
  "readIDData (Some (writeIDData (Some [(''name'', Some ''imap-go''), (''version'', None)]))) =
     Some (Inr (Some [''name'' \<mapsto> Some ''imap-go'', ''version'' \<mapsto> None]))"
proof -
  have "\<not> EqualFold ''imap-go'' ''NIL''" by code_simp
  then have "id_value (Some ''imap-go'')" "id_value None" by (simp_all add: id_value_def readable_def)
  then show ?thesis
    using id_roundtrip [of "[(''name'', Some ''imap-go''), (''version'', None)]" "[]"] by (simp add: fun_upd_twist)
qed

end
