(* ===== verification/Shipped.thy ===== *)
theory Shipped
  imports Registry
begin

text \<open>
  What the packages under \<open>extensions\<close> register: the name, the capabilities and the dependencies
  that each package's \<open>New\<close> puts into its \<open>BaseExtension\<close>. The handlers of the extensions that
  have any are in the theories \<open>Extensions\<close>, \<open>ExtMessages\<close>, \<open>ExtSearch\<close> and \<open>ExtMailboxes\<close>; in
  the other packages \<open>CommandHandlers\<close> and \<open>WrapHandler\<close> return nil.
\<close>

section \<open>The descriptors\<close>

definition ACL_New :: extension where
  "ACL_New = \<lparr>ext_Name = ''ACL'', ext_Capabilities = [''ACL''], ext_Dependencies = []\<rparr>"

definition AppendLimit_New :: extension where
  "AppendLimit_New = \<lparr>ext_Name = ''APPENDLIMIT'', ext_Capabilities = [''APPENDLIMIT''], ext_Dependencies = []\<rparr>"

definition Binary_New :: extension where
  "Binary_New = \<lparr>ext_Name = ''BINARY'', ext_Capabilities = [''BINARY''], ext_Dependencies = []\<rparr>"

definition Catenate_New :: extension where
  "Catenate_New = \<lparr>ext_Name = ''CATENATE'', ext_Capabilities = [''CATENATE''], ext_Dependencies = []\<rparr>"

definition Children_New :: extension where
  "Children_New = \<lparr>ext_Name = ''CHILDREN'', ext_Capabilities = [''CHILDREN''], ext_Dependencies = []\<rparr>"

definition Compress_New :: extension where
  "Compress_New = \<lparr>ext_Name = ''COMPRESS'', ext_Capabilities = [''COMPRESS=DEFLATE''], ext_Dependencies = []\<rparr>"

definition Condstore_New :: extension where
  "Condstore_New = \<lparr>ext_Name = ''CONDSTORE'', ext_Capabilities = [''CONDSTORE''], ext_Dependencies = []\<rparr>"

definition ContextSearch_New :: extension where
  "ContextSearch_New = \<lparr>ext_Name = ''CONTEXT=SEARCH'', ext_Capabilities = [''CONTEXT=SEARCH''], ext_Dependencies = [''ESEARCH'']\<rparr>"

definition Convert_New :: extension where
  "Convert_New = \<lparr>ext_Name = ''CONVERT'', ext_Capabilities = [''CONVERT''], ext_Dependencies = []\<rparr>"

definition Enable_New :: extension where
  "Enable_New = \<lparr>ext_Name = ''ENABLE'', ext_Capabilities = [''ENABLE''], ext_Dependencies = []\<rparr>"

definition ESearch_New :: extension where
  "ESearch_New = \<lparr>ext_Name = ''ESEARCH'', ext_Capabilities = [''ESEARCH''], ext_Dependencies = []\<rparr>"

definition ESort_New :: extension where
  "ESort_New = \<lparr>ext_Name = ''ESORT'', ext_Capabilities = [''ESORT'', ''CONTEXT=SORT''], ext_Dependencies = []\<rparr>"

definition Filters_New :: extension where
  "Filters_New = \<lparr>ext_Name = ''FILTERS'', ext_Capabilities = [''FILTERS''], ext_Dependencies = []\<rparr>"

definition ID_New :: extension where
  "ID_New = \<lparr>ext_Name = ''ID'', ext_Capabilities = [''ID''], ext_Dependencies = []\<rparr>"

definition Idle_New :: extension where
  "Idle_New = \<lparr>ext_Name = ''IDLE'', ext_Capabilities = [''IDLE''], ext_Dependencies = []\<rparr>"

definition InProgress_New :: extension where
  "InProgress_New = \<lparr>ext_Name = ''INPROGRESS'', ext_Capabilities = [''INPROGRESS''], ext_Dependencies = []\<rparr>"

definition JMAPAccess_New :: extension where
  "JMAPAccess_New = \<lparr>ext_Name = ''JMAPACCESS'', ext_Capabilities = [''JMAPACCESS''], ext_Dependencies = []\<rparr>"

definition Language_New :: extension where
  "Language_New = \<lparr>ext_Name = ''LANGUAGE'', ext_Capabilities = [''LANGUAGE''], ext_Dependencies = []\<rparr>"

definition ListExtended_New :: extension where
  "ListExtended_New = \<lparr>ext_Name = ''LIST-EXTENDED'', ext_Capabilities = [''LIST-EXTENDED''], ext_Dependencies = []\<rparr>"

definition ListMetadata_New :: extension where
  "ListMetadata_New = \<lparr>ext_Name = ''LIST-METADATA'', ext_Capabilities = [''LIST-METADATA''], ext_Dependencies = []\<rparr>"

definition ListMyRights_New :: extension where
  "ListMyRights_New = \<lparr>ext_Name = ''LIST-MYRIGHTS'', ext_Capabilities = [''LIST-MYRIGHTS''], ext_Dependencies = []\<rparr>"

definition ListStatus_New :: extension where
  "ListStatus_New = \<lparr>ext_Name = ''LIST-STATUS'', ext_Capabilities = [''LIST-STATUS''], ext_Dependencies = [''LIST-EXTENDED'']\<rparr>"

definition LiteralPlus_New :: extension where
  "LiteralPlus_New = \<lparr>ext_Name = ''LITERAL+'', ext_Capabilities = [''LITERAL+''], ext_Dependencies = []\<rparr>"

definition MessageLimit_New :: extension where
  "MessageLimit_New = \<lparr>ext_Name = ''MESSAGELIMIT'', ext_Capabilities = [''MESSAGELIMIT''], ext_Dependencies = []\<rparr>"

definition Metadata_New :: extension where
  "Metadata_New = \<lparr>ext_Name = ''METADATA'', ext_Capabilities = [''METADATA'', ''METADATA-SERVER''], ext_Dependencies = []\<rparr>"

definition Move_New :: extension where
  "Move_New = \<lparr>ext_Name = ''MOVE'', ext_Capabilities = [''MOVE''], ext_Dependencies = []\<rparr>"

definition MultiAppend_New :: extension where
  "MultiAppend_New = \<lparr>ext_Name = ''MULTIAPPEND'', ext_Capabilities = [''MULTIAPPEND''], ext_Dependencies = []\<rparr>"

definition MultiSearch_New :: extension where
  "MultiSearch_New = \<lparr>ext_Name = ''MULTISEARCH'', ext_Capabilities = [''MULTISEARCH''], ext_Dependencies = [''ESEARCH'']\<rparr>"

definition Namespace_New :: extension where
  "Namespace_New = \<lparr>ext_Name = ''NAMESPACE'', ext_Capabilities = [''NAMESPACE''], ext_Dependencies = []\<rparr>"

definition Notify_New :: extension where
  "Notify_New = \<lparr>ext_Name = ''NOTIFY'', ext_Capabilities = [''NOTIFY''], ext_Dependencies = []\<rparr>"

definition ObjectID_New :: extension where
  "ObjectID_New = \<lparr>ext_Name = ''OBJECTID'', ext_Capabilities = [''OBJECTID''], ext_Dependencies = []\<rparr>"

definition Partial_New :: extension where
  "Partial_New = \<lparr>ext_Name = ''PARTIAL'', ext_Capabilities = [''PARTIAL''], ext_Dependencies = [''ESEARCH'']\<rparr>"

definition Preview_New :: extension where
  "Preview_New = \<lparr>ext_Name = ''PREVIEW'', ext_Capabilities = [''PREVIEW''], ext_Dependencies = [''CONDSTORE'']\<rparr>"

definition QResync_New :: extension where
  "QResync_New = \<lparr>ext_Name = ''QRESYNC'', ext_Capabilities = [''QRESYNC''], ext_Dependencies = [''CONDSTORE'']\<rparr>"

definition Quota_New :: extension where
  "Quota_New = \<lparr>ext_Name = ''QUOTA'', ext_Capabilities = [''QUOTA'', ''QUOTA=RES-STORAGE'', ''QUOTA=RES-MESSAGE''], ext_Dependencies = []\<rparr>"

definition Replace_New :: extension where
  "Replace_New = \<lparr>ext_Name = ''REPLACE'', ext_Capabilities = [''REPLACE''], ext_Dependencies = []\<rparr>"

definition SASLIR_New :: extension where
  "SASLIR_New = \<lparr>ext_Name = ''SASL-IR'', ext_Capabilities = [''SASL-IR''], ext_Dependencies = []\<rparr>"

definition SaveDate_New :: extension where
  "SaveDate_New = \<lparr>ext_Name = ''SAVEDATE'', ext_Capabilities = [''SAVEDATE''], ext_Dependencies = []\<rparr>"

definition Fuzzy_New :: extension where
  "Fuzzy_New = \<lparr>ext_Name = ''SEARCH=FUZZY'', ext_Capabilities = [''SEARCH=FUZZY''], ext_Dependencies = []\<rparr>"

definition SearchRes_New :: extension where
  "SearchRes_New = \<lparr>ext_Name = ''SEARCHRES'', ext_Capabilities = [''SEARCHRES''], ext_Dependencies = [''ESEARCH'']\<rparr>"

definition Sort_New :: extension where
  "Sort_New = \<lparr>ext_Name = ''SORT'', ext_Capabilities = [''SORT''], ext_Dependencies = []\<rparr>"

definition SortDisplay_New :: extension where
  "SortDisplay_New = \<lparr>ext_Name = ''SORT=DISPLAY'', ext_Capabilities = [''SORT=DISPLAY''], ext_Dependencies = [''SORT'']\<rparr>"

definition SpecialUse_New :: extension where
  "SpecialUse_New = \<lparr>ext_Name = ''SPECIAL-USE'', ext_Capabilities = [''SPECIAL-USE'', ''CREATE-SPECIAL-USE''], ext_Dependencies = []\<rparr>"

definition StatusSize_New :: extension where
  "StatusSize_New = \<lparr>ext_Name = ''STATUS=SIZE'', ext_Capabilities = [''STATUS=SIZE''], ext_Dependencies = []\<rparr>"

definition Thread_New :: extension where
  "Thread_New = \<lparr>ext_Name = ''THREAD'', ext_Capabilities = [''THREAD=ORDEREDSUBJECT'', ''THREAD=REFERENCES''], ext_Dependencies = []\<rparr>"

definition UIDOnly_New :: extension where
  "UIDOnly_New = \<lparr>ext_Name = ''UIDONLY'', ext_Capabilities = [''UIDONLY''], ext_Dependencies = [''CONDSTORE'']\<rparr>"

definition UIDPlus_New :: extension where
  "UIDPlus_New = \<lparr>ext_Name = ''UIDPLUS'', ext_Capabilities = [''UIDPLUS''], ext_Dependencies = []\<rparr>"

definition Unauthenticate_New :: extension where
  "Unauthenticate_New = \<lparr>ext_Name = ''UNAUTHENTICATE'', ext_Capabilities = [''UNAUTHENTICATE''], ext_Dependencies = []\<rparr>"

definition Unselect_New :: extension where
  "Unselect_New = \<lparr>ext_Name = ''UNSELECT'', ext_Capabilities = [''UNSELECT''], ext_Dependencies = []\<rparr>"

definition URLAuth_New :: extension where
  "URLAuth_New = \<lparr>ext_Name = ''URLAUTH'', ext_Capabilities = [''URLAUTH''], ext_Dependencies = []\<rparr>"

definition UTF8_New :: extension where
  "UTF8_New = \<lparr>ext_Name = ''UTF8=ACCEPT'', ext_Capabilities = [''UTF8=ACCEPT''], ext_Dependencies = []\<rparr>"

definition Within_New :: extension where
  "Within_New = \<lparr>ext_Name = ''WITHIN'', ext_Capabilities = [''WITHIN''], ext_Dependencies = []\<rparr>"

text \<open>The packages under \<open>extensions\<close>, in the order of their names.\<close>

definition shipped :: "extension list" where
  "shipped =
     [ACL_New, AppendLimit_New, Binary_New, Catenate_New, Children_New, Compress_New, Condstore_New,
      ContextSearch_New, Convert_New, Enable_New, ESearch_New, ESort_New, Filters_New, ID_New, Idle_New,
      InProgress_New, JMAPAccess_New, Language_New, ListExtended_New, ListMetadata_New, ListMyRights_New,
      ListStatus_New, LiteralPlus_New, MessageLimit_New, Metadata_New, Move_New, MultiAppend_New, MultiSearch_New,
      Namespace_New, Notify_New, ObjectID_New, Partial_New, Preview_New, QResync_New, Quota_New, Replace_New,
      SASLIR_New, SaveDate_New, Fuzzy_New, SearchRes_New, Sort_New, SortDisplay_New, SpecialUse_New, StatusSize_New,
      Thread_New, UIDOnly_New, UIDPlus_New, Unauthenticate_New, Unselect_New, URLAuth_New, UTF8_New, Within_New]"

section \<open>Registering them\<close>

definition register_all :: "extension list \<Rightarrow> registry" where
  "register_all exts = foldl (\<lambda>r e. snd (Register e r)) NewRegistry exts"

lemma register_all_map:
  assumes "distinct (map ext_Name exts)"
  shows "reg_extensions (register_all exts) = map_of (map (\<lambda>e. (ext_Name e, e)) exts) \<and> registry_ok (register_all exts)"
  using assms
proof (induction exts rule: rev_induct)
  case Nil
  then show ?case by (simp add: register_all_def registry_ok_New) (simp add: NewRegistry_def)
next
  case (snoc e exts)
  let ?r = "register_all exts"
  have r: "reg_extensions ?r = map_of (map (\<lambda>e. (ext_Name e, e)) exts)" "registry_ok ?r" using snoc by simp_all
  have "ext_Name e \<notin> fst ` set (map (\<lambda>e. (ext_Name e, e)) exts)" using snoc.prems by (auto simp: image_image)
  then have "reg_extensions ?r (ext_Name e) = None" unfolding r(1) by (simp only: map_of_eq_None_iff not_False_eq_True)
  moreover from this have "map_of (map (\<lambda>e. (ext_Name e, e)) exts) (ext_Name e) = None" by (simp add: r(1))
  moreover have "register_all (exts @ [e]) = snd (Register e ?r)" by (simp add: register_all_def)
  ultimately show ?case
    using registry_ok_Register [OF r(2), of e] by (auto simp: Register_def r(1) map_add_def fun_eq_iff split: option.split)
qed

lemma shipped_names: "distinct (map ext_Name shipped)"
  by code_simp

lemma shipped_dependencies:
  "list_all (\<lambda>e. list_all (\<lambda>d. list_all (\<lambda>f. ext_Name f = d \<longrightarrow> ext_Dependencies f = []) shipped) (ext_Dependencies e)) shipped"
  by code_simp

lemma shipped_closed:
  assumes "e \<in> set shipped" "f \<in> set shipped" "ext_Name f \<in> set (ext_Dependencies e)"
  shows "ext_Dependencies f = []"
  using shipped_dependencies assms unfolding list_all_iff by blast

lemma deps_first_map:
  assumes "deps_first (reg_deps r) out" "\<forall>n \<in> set out. reg_extensions r n = Some (f n) \<and> ext_Name (f n) = n"
  shows "\<forall>i < length out. set (ext_Dependencies (f (out ! i))) \<subseteq> ext_Name ` set (take i (map f out))"
proof (intro allI impI)
  fix i assume i: "i < length out"
  have "reg_deps r (out ! i) = ext_Dependencies (f (out ! i))" using assms(2) i by (simp add: reg_deps_def)
  moreover have "map ext_Name (map f out) = out" using assms(2) by (simp add: map_idI)
  then have "map ext_Name (take i (map f out)) = take i out" by (metis take_map)
  then have "ext_Name ` set (take i (map f out)) = set (take i out)" by (metis set_map)
  moreover have "set (reg_deps r (out ! i)) \<subseteq> set (take i out)" using assms(1) i by (simp add: deps_first_def)
  ultimately show "set (ext_Dependencies (f (out ! i))) \<subseteq> ext_Name ` set (take i (map f out))" by simp
qed

text \<open>C20. Any choice of the shipped extensions, registered in any order, resolves whatever the order of
  the map iterations: to a list of exactly the chosen extensions, each after the ones it depends on,
  when the choice contains the dependencies of its members, and to a missing dependency
  otherwise.  No choice is refused as circular.\<close>

theorem shipped_resolve:
  assumes "distinct exts" "set exts \<subseteq> set shipped" "iterations it (ext_Name ` set exts)"
  shows "if \<forall>e \<in> set exts. set (ext_Dependencies e) \<subseteq> ext_Name ` set exts
    then \<exists>out. Resolve it (register_all exts) = Some (Inr out) \<and> distinct out \<and> set out = set exts \<and>
      (\<forall>i < length out. set (ext_Dependencies (out ! i)) \<subseteq> ext_Name ` set (take i out))
    else \<exists>n d. Resolve it (register_all exts) = Some (Inl (MissingDependency n d))"
proof -
  let ?r = "register_all exts" and ?f = "\<lambda>n. the (reg_extensions (register_all exts) n)"
  have inj: "inj_on ext_Name (set exts)"
    by (rule inj_on_subset [OF _ assms(2)]) (use shipped_names in \<open>simp add: distinct_map\<close>)
  then have names: "distinct (map ext_Name exts)" using assms(1) by (simp add: distinct_map)
  have get: "reg_extensions ?r (ext_Name e) = Some e" if "e \<in> set exts" for e
    using register_all_map [OF names] names that by (simp add: map_of_eq_Some_iff comp_def)
  have dom: "dom (reg_extensions ?r) = ext_Name ` set exts"
    using register_all_map [OF names] by (simp add: dom_map_of_conv_image_fst image_image)
  have deps: "reg_deps ?r (ext_Name e) = ext_Dependencies e" if "e \<in> set exts" for e
    using get [OF that] by (simp add: reg_deps_def)
  have it: "iterations it (dom (reg_extensions ?r))" using assms(3) dom by simp
  show ?thesis
  proof (cases "\<forall>e \<in> set exts. set (ext_Dependencies e) \<subseteq> ext_Name ` set exts")
    case True
    then have closed: "\<forall>n \<in> dom (reg_extensions ?r). set (reg_deps ?r n) \<subseteq> dom (reg_extensions ?r)"
      unfolding dom by (simp add: deps)
    have ok: "registry_ok ?r" using register_all_map [OF names] by simp
    obtain out where out: "Resolve it ?r = (if set out = dom (reg_extensions ?r)
        then Some (Inr (map ?f out)) else Some (Inl CircularDependency))"
      "distinct out" "set out \<subseteq> dom (reg_extensions ?r)" "deps_first (reg_deps ?r) out"
      "\<forall>n \<in> dom (reg_extensions ?r). set (reg_deps ?r n) \<subseteq> set out \<longrightarrow> n \<in> set out"
      using resolve_list [OF ok it closed] by blast
    have leaf: "ext_Name e \<in> set out" if "e \<in> set exts" "ext_Dependencies e = []" for e
      using out(5) that deps [OF that(1)] unfolding dom by simp
    have "ext_Name e \<in> set out" if e: "e \<in> set exts" for e
    proof -
      have "d \<in> set out" if d: "d \<in> set (ext_Dependencies e)" for d
      proof -
        obtain f where f: "f \<in> set exts" "d = ext_Name f" using True e d by blast
        then show ?thesis using shipped_closed [of e f] leaf [OF f(1)] assms(2) e d by blast
      qed
      then show ?thesis using out(5) e deps [OF e] unfolding dom by auto
    qed
    then have all: "set out = ext_Name ` set exts" using out(3) dom by auto
    have f: "\<forall>n \<in> set out. reg_extensions ?r n = Some (?f n) \<and> ext_Name (?f n) = n"
      unfolding all by (simp add: get)
    have "(\<lambda>e. ?f (ext_Name e)) ` set exts = id ` set exts" by (rule image_cong) (simp_all add: get)
    then have "set (map ?f out) = set exts" by (simp add: all image_image)
    moreover have "map ext_Name (map ?f out) = out" using f by (simp add: map_idI)
    then have "distinct (map ?f out)" using out(2) by (metis distinct_map)
    moreover have "Resolve it ?r = Some (Inr (map ?f out))" using out(1) all dom by simp
    moreover have "\<forall>i < length (map ?f out). set (ext_Dependencies (map ?f out ! i)) \<subseteq> ext_Name ` set (take i (map ?f out))"
      using deps_first_map [OF out(4) f] by simp
    ultimately show ?thesis unfolding if_P [OF True] by blast
  next
    case False
    then have "\<not> (\<forall>n \<in> dom (reg_extensions ?r). set (reg_deps ?r n) \<subseteq> dom (reg_extensions ?r))"
      unfolding dom by (auto simp: deps)
    from resolve_missing [OF it this] show ?thesis unfolding if_not_P [OF False] by blast
  qed
qed

theorem shipped_resolve_witness:
  "\<exists>out. Resolve (\<lambda>_. [''SORT=DISPLAY'', ''SORT'']) (register_all [SortDisplay_New, Sort_New]) = Some (Inr out) \<and>
     distinct out \<and> set out = {SortDisplay_New, Sort_New}"
proof -
  let ?exts = "[SortDisplay_New, Sort_New]" and ?it = "\<lambda>_ :: nat. [''SORT=DISPLAY'', ''SORT'']"
  have n: "SortDisplay_New \<noteq> Sort_New" "ext_Name SortDisplay_New = ''SORT=DISPLAY''" "ext_Name Sort_New = ''SORT''"
    "ext_Dependencies SortDisplay_New = [''SORT'']" "ext_Dependencies Sort_New = []"
    by (simp_all add: SortDisplay_New_def Sort_New_def)
  have "SortDisplay_New \<in> set shipped" "Sort_New \<in> set shipped"
    unfolding shipped_def list.set by (rule insertI1 | rule insertI2)+
  then have shp: "set ?exts \<subseteq> set shipped" by (simp only: list.set insert_subset empty_subsetI)
  have dst: "distinct ?exts" using n(1) by simp
  have it: "iterations ?it (ext_Name ` set ?exts)" by (simp add: iterations_def n)
  have closed: "\<forall>e \<in> set ?exts. set (ext_Dependencies e) \<subseteq> ext_Name ` set ?exts" by (simp add: n)
  obtain out where "Resolve ?it (register_all ?exts) = Some (Inr out)" "distinct out" "set out = set ?exts"
    using shipped_resolve [OF dst shp it] unfolding if_P [OF closed] by blast
  then show ?thesis by (intro exI [of _ out]) simp
qed

end
