(* ===== verification/Middleware.thy ===== *)
theory Middleware
  imports Complex_Main Server
begin

text \<open>
  The middleware (\<open>middleware/*.go\<close>): wrappers around command handlers that log, count, limit,
  recover from panics and time out. Here a handler works on a \<open>mw_world\<close>: the connection, the clock,
  the log, and the objects that middleware shares between handlers, \<open>Metrics\<close> and the limiters of
  \<open>RateLimit\<close>, which are pointers and live at addresses. A handler that panics leaves the world as it
  was at that moment. \<open>float64\<close> is \<^typ>\<open>real\<close> with the rounding \<open>rnd\<close> after every operation.
\<close>

section \<open>Handlers\<close>

text \<open>\<open>Exits\<close>: the process ends, as it does when a goroutine panics that has no recover of its own.\<close>

datatype outcome = Returns "go_error option" | Panics panic | Exits | Never

datatype log_entry =
    CommandStart string string conn_state
  | CommandError string string int go_error
  | CommandDone string string int
  | PanicInHandler string panic

record metrics =
  CommandsTotal :: "64 word"
  CommandErrors :: "64 word"
  ActiveCommands :: "64 word"
  commandCounts :: "string \<rightharpoonup> 64 word"
  commandDuration :: "string \<rightharpoonup> 64 word"

text \<open>A value of type \<open>float64\<close>. The sign of zero makes no difference here.\<close>

datatype float64 = Fin real | PInf | NInf | NaN

record limiterState =
  tokens :: float64
  lastCheck :: int

text \<open>The k-th call of \<open>time.Now\<close> reads \<open>mw_clock k\<close>, in nanoseconds.\<close>

record 'c mw_world =
  mw_conn :: 'c
  mw_clock :: "nat \<Rightarrow> int"
  mw_reads :: nat
  mw_log :: "log_entry list"
  mw_metrics :: "nat \<Rightarrow> metrics"
  mw_limiters :: "nat \<Rightarrow> string \<rightharpoonup> limiterState"

type_synonym 'w action = "command_context \<Rightarrow> 'w \<Rightarrow> outcome \<times> 'w"
type_synonym 'w middleware = "'w action \<Rightarrow> 'w action"

definition Now :: "'c mw_world \<Rightarrow> int \<times> 'c mw_world" where
  "Now w = (mw_clock w (mw_reads w), w\<lparr>mw_reads := mw_reads w + 1\<rparr>)"

definition log_line :: "log_entry \<Rightarrow> 'c mw_world \<Rightarrow> 'c mw_world" where
  "log_line e w = w\<lparr>mw_log := mw_log w @ [e]\<rparr>"

section \<open>Chains\<close>

definition Chain :: "'w middleware list \<Rightarrow> 'w middleware" where
  "Chain middlewares next = foldr (\<lambda>mw next. mw next) middlewares next"

text \<open>\<open>names\<close> is what \<open>Names\<close> of the dispatcher returns.\<close>

definition Apply :: "string list \<Rightarrow> 'w middleware \<Rightarrow> (string \<rightharpoonup> 'w action) \<Rightarrow> (string \<rightharpoonup> 'w action)" where
  "Apply names mw d = foldl (\<lambda>d name. Wrap name (\<lambda>h. mw h) d) d names"

definition ApplyChain :: "string list \<Rightarrow> 'w middleware list \<Rightarrow> (string \<rightharpoonup> 'w action) \<Rightarrow> (string \<rightharpoonup> 'w action)" where
  "ApplyChain names middlewares d = Apply names (Chain middlewares) d"

section \<open>The middlewares\<close>

definition Logging :: "('c \<Rightarrow> conn_state) \<Rightarrow> 'c mw_world middleware" where
  "Logging state next ctx w =
     (let (start, w) = Now w;
          w = log_line (CommandStart (cx_Tag ctx) (cx_Name ctx) (state (mw_conn w))) w
      in case next ctx w of
           (Returns err, w) \<Rightarrow>
             (let (now, w) = Now w; duration = now - start
              in (Returns err, log_line (case err of
                                           Some e \<Rightarrow> CommandError (cx_Tag ctx) (cx_Name ctx) duration e
                                         | None \<Rightarrow> CommandDone (cx_Tag ctx) (cx_Name ctx) duration) w))
         | r \<Rightarrow> r)"

definition NewMetrics :: metrics where
  "NewMetrics = \<lparr>CommandsTotal = 0, CommandErrors = 0, ActiveCommands = 0, commandCounts = Map.empty, commandDuration = Map.empty\<rparr>"

definition CommandCount :: "metrics \<Rightarrow> string \<Rightarrow> 64 word" where
  "CommandCount m name = (case commandCounts m name of Some c \<Rightarrow> c | None \<Rightarrow> 0)"

definition CommandDuration :: "metrics \<Rightarrow> string \<Rightarrow> 64 word" where
  "CommandDuration m name = (case commandDuration m name of Some d \<Rightarrow> d | None \<Rightarrow> 0)"

text \<open>The counter of a command, made on its first use.\<close>

definition getCounter :: "string \<Rightarrow> metrics \<Rightarrow> 64 word \<times> metrics" where
  "getCounter name m =
     (case commandCounts m name of
        Some c \<Rightarrow> (c, m)
      | None \<Rightarrow> (0, m\<lparr>commandCounts := (commandCounts m)(name \<mapsto> 0)\<rparr>))"

definition getDuration :: "string \<Rightarrow> metrics \<Rightarrow> 64 word \<times> metrics" where
  "getDuration name m =
     (case commandDuration m name of
        Some d \<Rightarrow> (d, m)
      | None \<Rightarrow> (0, m\<lparr>commandDuration := (commandDuration m)(name \<mapsto> 0)\<rparr>))"

definition with_metrics :: "nat \<Rightarrow> (metrics \<Rightarrow> metrics) \<Rightarrow> 'c mw_world \<Rightarrow> 'c mw_world" where
  "with_metrics a f w = w\<lparr>mw_metrics := (mw_metrics w)(a := f (mw_metrics w a))\<rparr>"

definition count_start :: "string \<Rightarrow> metrics \<Rightarrow> metrics" where
  "count_start name m =
     (let m = m\<lparr>CommandsTotal := CommandsTotal m + 1\<rparr>;
          m = m\<lparr>ActiveCommands := ActiveCommands m + 1\<rparr>;
          (c, m) = getCounter name m
      in m\<lparr>commandCounts := (commandCounts m)(name \<mapsto> c + 1)\<rparr>)"

definition count_end :: "string \<Rightarrow> int \<Rightarrow> go_error option \<Rightarrow> metrics \<Rightarrow> metrics" where
  "count_end name duration err m =
     (let m = m\<lparr>ActiveCommands := ActiveCommands m - 1\<rparr>;
          (d, m) = getDuration name m;
          m = m\<lparr>commandDuration := (commandDuration m)(name \<mapsto> d + of_int duration)\<rparr>
      in if err \<noteq> None then m\<lparr>CommandErrors := CommandErrors m + 1\<rparr> else m)"

definition MetricsMiddleware :: "nat \<Rightarrow> 'c mw_world middleware" where
  "MetricsMiddleware a next ctx w =
     (let (start, w) = Now (with_metrics a (count_start (cx_Name ctx)) w)
      in case next ctx w of
           (Returns err, w) \<Rightarrow>
             (let (now, w) = Now w
              in (Returns err, with_metrics a (count_end (cx_Name ctx) (now - start) err) w))
         | r \<Rightarrow> r)"

definition Recovery :: "'c mw_world middleware" where
  "Recovery next ctx w =
     (case next ctx w of
        (Panics p, w) \<Rightarrow> (Returns (Some (ErrNo ''internal server error'')), log_line (PanicInHandler (cx_Name ctx) p) w)
      | r \<Rightarrow> r)"

text \<open>\<open>deadline\<close> is the world when the deadline passes, if it passes before the handler returns; the
  goroutine of the handler goes on in it.\<close>

definition Timeout :: "'c mw_world option \<Rightarrow> 'c mw_world middleware" where
  "Timeout deadline next ctx w =
     (case deadline of
        Some w \<Rightarrow> (Returns (Some (ErrNo ''command timed out'')), w)
      | None \<Rightarrow> (case next ctx w of (Panics _, w) \<Rightarrow> (Exits, w) | r \<Rightarrow> r))"

section \<open>The rate limit\<close>

text \<open>Addition, multiplication and comparison of \<open>float64\<close>. A real result is rounded by \<open>rnd\<close>, which gives an
  infinity when it is out of range.\<close>

fun fl_add :: "(real \<Rightarrow> float64) \<Rightarrow> float64 \<Rightarrow> float64 \<Rightarrow> float64" where
  "fl_add rnd (Fin x) (Fin y) = rnd (x + y)"
| "fl_add rnd NaN y = NaN"
| "fl_add rnd x NaN = NaN"
| "fl_add rnd PInf NInf = NaN"
| "fl_add rnd NInf PInf = NaN"
| "fl_add rnd PInf y = PInf"
| "fl_add rnd x PInf = PInf"
| "fl_add rnd NInf y = NInf"
| "fl_add rnd x NInf = NInf"

definition fl_inf :: "real \<Rightarrow> float64" where
  "fl_inf x = (if x > 0 then PInf else if x < 0 then NInf else NaN)"

fun fl_mul :: "(real \<Rightarrow> float64) \<Rightarrow> float64 \<Rightarrow> float64 \<Rightarrow> float64" where
  "fl_mul rnd (Fin x) (Fin y) = rnd (x * y)"
| "fl_mul rnd NaN y = NaN"
| "fl_mul rnd x NaN = NaN"
| "fl_mul rnd (Fin x) PInf = fl_inf x"
| "fl_mul rnd (Fin x) NInf = fl_inf (- x)"
| "fl_mul rnd PInf (Fin y) = fl_inf y"
| "fl_mul rnd NInf (Fin y) = fl_inf (- y)"
| "fl_mul rnd PInf PInf = PInf"
| "fl_mul rnd NInf NInf = PInf"
| "fl_mul rnd PInf NInf = NInf"
| "fl_mul rnd NInf PInf = NInf"

fun fl_less :: "float64 \<Rightarrow> float64 \<Rightarrow> bool" where
  "fl_less (Fin x) (Fin y) \<longleftrightarrow> x < y"
| "fl_less NaN y \<longleftrightarrow> False"
| "fl_less x NaN \<longleftrightarrow> False"
| "fl_less NInf y \<longleftrightarrow> y \<noteq> NInf"
| "fl_less x NInf \<longleftrightarrow> False"
| "fl_less x PInf \<longleftrightarrow> x \<noteq> PInf"
| "fl_less PInf y \<longleftrightarrow> False"

definition fl_le :: "float64 \<Rightarrow> float64 \<Rightarrow> bool" where
  "fl_le x y \<longleftrightarrow> fl_less x y \<or> (x = y \<and> x \<noteq> NaN)"

record rate_config =
  MaxCommandsPerSecond :: float64
  BurstSize :: int

definition rate_defaults :: "rate_config \<Rightarrow> rate_config" where
  "rate_defaults cfg =
     (let cfg = (if fl_le (MaxCommandsPerSecond cfg) (Fin 0) then cfg\<lparr>MaxCommandsPerSecond := Fin 100\<rparr> else cfg)
      in if BurstSize cfg \<le> 0 then cfg\<lparr>BurstSize := 10\<rparr> else cfg)"

text \<open>\<open>Time.Sub\<close>, which stops at the ends of 64 bits, and \<open>Duration.Seconds\<close>.\<close>

definition Sub :: "int \<Rightarrow> int \<Rightarrow> int" where
  "Sub t u = max (- (2 ^ 63)) (min (2 ^ 63 - 1) (t - u))"

definition Seconds :: "(real \<Rightarrow> float64) \<Rightarrow> int \<Rightarrow> float64" where
  "Seconds rnd d =
     (let sec = sgn d * (\<bar>d\<bar> div 10 ^ 9); nsec = d - sec * 10 ^ 9
      in fl_add rnd (rnd (of_int sec)) (rnd (of_int nsec / 10 ^ 9)))"

text \<open>The limiter of a connection when a command comes at \<open>now\<close>: whether the command may run, and the
  new limiter.\<close>

definition take_token :: "(real \<Rightarrow> float64) \<Rightarrow> rate_config \<Rightarrow> int \<Rightarrow> limiterState \<Rightarrow> bool \<times> limiterState" where
  "take_token rnd cfg now st =
     (let elapsed = Seconds rnd (Sub now (lastCheck st));
          st = st\<lparr>lastCheck := now\<rparr>;
          st = st\<lparr>tokens := fl_add rnd (tokens st) (fl_mul rnd elapsed (MaxCommandsPerSecond cfg))\<rparr>;
          burst = rnd (of_int (BurstSize cfg));
          st = (if fl_less burst (tokens st) then st\<lparr>tokens := burst\<rparr> else st)
      in if fl_less (tokens st) (Fin 1) then (False, st) else (True, st\<lparr>tokens := fl_add rnd (tokens st) (Fin (- 1))\<rparr>))"

definition with_limiters :: "nat \<Rightarrow> string \<Rightarrow> limiterState \<Rightarrow> 'c mw_world \<Rightarrow> 'c mw_world" where
  "with_limiters a key st w = w\<lparr>mw_limiters := (mw_limiters w)(a := (mw_limiters w a)(key \<mapsto> st))\<rparr>"

definition RateLimit :: "(real \<Rightarrow> float64) \<Rightarrow> ('c \<Rightarrow> string) \<Rightarrow> nat \<Rightarrow> rate_config \<Rightarrow> 'c mw_world middleware" where
  "RateLimit rnd addr a config next ctx w =
     (let cfg = rate_defaults config; key = addr (mw_conn w);
          (st, w) = (case mw_limiters w a key of
                       Some st \<Rightarrow> (st, w)
                     | None \<Rightarrow> (let (t, w) = Now w in (\<lparr>tokens = rnd (of_int (BurstSize cfg)), lastCheck = t\<rparr>, w)));
          (now, w) = Now w;
          (allowed, st) = take_token rnd cfg now st;
          w = with_limiters a key st w
      in if allowed then next ctx w else (Returns (Some (ErrBad ''rate limit exceeded'')), w))"

section \<open>Laws\<close>

lemma Apply_lookup:
  "distinct names \<Longrightarrow> \<forall>n \<in> set names. ToUpper n = n \<Longrightarrow>
   Apply names mw d n = (if n \<in> set names then map_option mw (d n) else d n)"
proof (induction names arbitrary: d)
  case (Cons m names)
  have "Wrap m (\<lambda>h. mw h) d = d(m := map_option mw (d m))"
    using Cons.prems by (auto simp: Wrap_def split: option.split)
  then have "Apply (m # names) mw d = Apply names mw (d(m := map_option mw (d m)))" by (simp add: Apply_def)
  with Cons show ?case by auto
qed (simp add: Apply_def)

text \<open>A chain wraps every handler once, in the order of the list with the first middleware outermost,
  whatever the order in which the dispatcher lists its commands.\<close>

theorem middleware_applied:
  assumes "distinct names" "set names = dom d" "\<forall>n \<in> dom d. ToUpper n = n"
  shows "ApplyChain names (mws @ mws') d n = map_option (\<lambda>h. Chain mws (Chain mws' h)) (d n)"
  using assms Apply_lookup [of names "Chain (mws @ mws')" d n] by (auto simp: ApplyChain_def Chain_def [abs_def])

theorem middleware_applied_witness:
  "ApplyChain [''NOOP''] ([Recovery] @ [Timeout None]) [''NOOP'' \<mapsto> (\<lambda>ctx w. (Never, w))] ''NOOP'' =
     map_option (\<lambda>h. Chain [Recovery] (Chain [Timeout None] h)) ([''NOOP'' \<mapsto> (\<lambda>ctx w. (Never, w))] ''NOOP'')"
proof -
  have "ToUpper ''NOOP'' = ''NOOP''" by code_simp
  then show ?thesis
    by (intro middleware_applied) simp_all
qed

text \<open>Commands one after the other on one connection.\<close>

fun serve_all :: "'w action \<Rightarrow> command_context list \<Rightarrow> 'w \<Rightarrow> outcome list \<times> 'w" where
  "serve_all h [] w = ([], w)"
| "serve_all h (ctx # ctxs) w =
     (case h ctx w of (r, w1) \<Rightarrow> (case serve_all h ctxs w1 of (rs, w2) \<Rightarrow> (r # rs, w2)))"

definition returned :: "outcome \<Rightarrow> bool" where
  "returned r = (case r of Returns _ \<Rightarrow> True | _ \<Rightarrow> False)"

definition failed :: "outcome \<Rightarrow> bool" where
  "failed r = (case r of Returns (Some _) \<Rightarrow> True | _ \<Rightarrow> False)"

lemma count_start_simps [simp]:
  "CommandsTotal (count_start name m) = CommandsTotal m + 1" "CommandErrors (count_start name m) = CommandErrors m"
  "ActiveCommands (count_start name m) = ActiveCommands m + 1"
  "CommandCount (count_start name m) n = CommandCount m n + (if n = name then 1 else 0)"
  by (simp_all add: count_start_def getCounter_def CommandCount_def Let_def split: option.split)

lemma count_end_simps [simp]:
  "CommandsTotal (count_end name d e m) = CommandsTotal m"
  "CommandErrors (count_end name d e m) = CommandErrors m + (if e = None then 0 else 1)"
  "ActiveCommands (count_end name d e m) = ActiveCommands m - 1" "CommandCount (count_end name d e m) n = CommandCount m n"
  by (simp_all add: count_end_def getDuration_def CommandCount_def Let_def split: option.split)

lemma metrics_step:
  assumes "\<And>ctx w. mw_metrics (snd (next ctx w)) a = mw_metrics w a" "MetricsMiddleware a next ctx w = (r, w')"
  shows "CommandsTotal (mw_metrics w' a) = CommandsTotal (mw_metrics w a) + 1 \<and>
    CommandErrors (mw_metrics w' a) = CommandErrors (mw_metrics w a) + (if failed r then 1 else 0) \<and>
    ActiveCommands (mw_metrics w' a) = ActiveCommands (mw_metrics w a) + (if returned r then 0 else 1) \<and>
    CommandCount (mw_metrics w' a) n = CommandCount (mw_metrics w a) n + (if n = cx_Name ctx then 1 else 0)"
proof -
  let ?w = "snd (Now (with_metrics a (count_start (cx_Name ctx)) w))"
  obtain r1 w1 where n: "next ctx ?w = (r1, w1)" by (cases "next ctx ?w")
  have "mw_metrics ?w a = count_start (cx_Name ctx) (mw_metrics w a)" by (simp add: Now_def with_metrics_def)
  then have m: "mw_metrics w1 a = count_start (cx_Name ctx) (mw_metrics w a)" using assms(1) [of ctx ?w] n by simp
  show ?thesis
  proof (cases r1)
    case (Returns e)
    then have "r = r1" "mw_metrics w' a = count_end (cx_Name ctx) (fst (Now w1) - fst (Now (with_metrics a (count_start (cx_Name ctx)) w))) e (mw_metrics w1 a)"
      using assms(2) n by (auto simp: MetricsMiddleware_def Let_def Now_def with_metrics_def)
    then show ?thesis using Returns m by (auto simp: returned_def failed_def split: option.split)
  qed (use assms(2) n m in \<open>auto simp: MetricsMiddleware_def Let_def Now_def returned_def failed_def\<close>)
qed

text \<open>C32. The counters are exact, up to the width of the integers: after any sequence of commands the
  total, the count of each command and the number of errors have grown by what happened. The
  number of active commands returns to what it was only if every handler returned: each handler
  that panicked stays counted as active for ever.\<close>

theorem metrics_exact:
  assumes "\<And>ctx w. mw_metrics (snd (next ctx w)) a = mw_metrics w a" "serve_all (MetricsMiddleware a next) ctxs w = (rs, w')"
  shows "CommandsTotal (mw_metrics w' a) = CommandsTotal (mw_metrics w a) + of_nat (length ctxs) \<and>
    CommandCount (mw_metrics w' a) n = CommandCount (mw_metrics w a) n + of_nat (length (filter (\<lambda>ctx. cx_Name ctx = n) ctxs)) \<and>
    CommandErrors (mw_metrics w' a) = CommandErrors (mw_metrics w a) + of_nat (length (filter failed rs)) \<and>
    ActiveCommands (mw_metrics w' a) = ActiveCommands (mw_metrics w a) + of_nat (length (filter (\<lambda>r. \<not> returned r) rs))"
  using assms(2)
proof (induction ctxs arbitrary: w rs)
  case (Cons ctx ctxs)
  obtain r w1 where s: "MetricsMiddleware a next ctx w = (r, w1)" by (cases "MetricsMiddleware a next ctx w")
  obtain rs1 where rs: "serve_all (MetricsMiddleware a next) ctxs w1 = (rs1, w')" "rs = r # rs1"
    using Cons.prems s by (auto split: prod.splits)
  show ?case using Cons.IH [OF rs(1)] metrics_step [OF assms(1) s, of n] by (simp add: rs(2))
qed simp

definition example_world :: "string mw_world" where
  "example_world = \<lparr>mw_conn = ''10.0.0.1:993'', mw_clock = (\<lambda>_. 0), mw_reads = 0, mw_log = [], mw_metrics = (\<lambda>_. NewMetrics),
     mw_limiters = (\<lambda>_. Map.empty)\<rparr>"

definition example_command :: "string \<Rightarrow> command_context" where
  "example_command name = \<lparr>cx_Tag = ''a1'', cx_Name = name, cx_NumKind = NumKindSeq, cx_Decoder = None\<rparr>"

definition crashing :: "string mw_world action" where
  "crashing ctx w = (if cx_Name ctx = ''SORT'' then (Panics NilDereference, w) else (Returns None, w))"

theorem metrics_exact_witness:
  "ActiveCommands (mw_metrics (snd (serve_all (MetricsMiddleware 0 crashing) [example_command ''NOOP'', example_command ''SORT''] example_world)) 0) = 1"
proof -
  obtain rs w' where run: "serve_all (MetricsMiddleware 0 crashing) [example_command ''NOOP'', example_command ''SORT''] example_world = (rs, w')"
    by (cases "serve_all (MetricsMiddleware 0 crashing) [example_command ''NOOP'', example_command ''SORT''] example_world")
  have "rs = [Returns None, Panics NilDereference]"
    using run by (auto simp: MetricsMiddleware_def crashing_def example_command_def Let_def Now_def)
  then show ?thesis
    using metrics_exact [OF _ run, of "''NOOP''"] run by (simp add: crashing_def returned_def example_world_def NewMetrics_def)
qed

text \<open>A panic is turned into one NO response by \<open>Recovery\<close> around the handler, but not by \<open>Recovery\<close>
  around \<open>Timeout\<close>: there the handler runs in a goroutine of its own and its panic ends the whole
  process.\<close>

theorem recovery_lost_under_timeout:
  assumes "h ctx w = (Panics p, w')"
  shows "fst (Chain [Timeout None, Recovery] h ctx w) = Returns (Some (ErrNo ''internal server error'')) \<and>
    fst (Chain [Recovery, Timeout None] h ctx w) = Exits"
  using assms by (simp add: Chain_def Recovery_def Timeout_def)

theorem recovery_lost_under_timeout_witness:
  "fst (Chain [Recovery, Timeout None] crashing (example_command ''SORT'') example_world) = Exits"
  using recovery_lost_under_timeout [of crashing "example_command ''SORT''" example_world NilDereference example_world]
  by (simp add: crashing_def example_command_def)

subsection \<open>The rate limit\<close>

text \<open>What is needed of the rounding of \<open>float64\<close>: it keeps the integers of 53 bits.\<close>

definition float_rounding :: "(real \<Rightarrow> float64) \<Rightarrow> bool" where
  "float_rounding rnd \<longleftrightarrow> (\<forall>k. \<bar>k\<bar> \<le> 2 ^ 53 \<longrightarrow> rnd (of_int k) = Fin (of_int k))"

lemma rounded_int: "float_rounding rnd \<Longrightarrow> \<bar>k\<bar> \<le> 2 ^ 53 \<Longrightarrow> rnd (of_int k) = Fin (of_int k)"
  by (simp add: float_rounding_def)

lemma rounded_0: "float_rounding rnd \<Longrightarrow> rnd 0 = Fin 0"
  using rounded_int [of rnd 0] by simp

lemma fl_NaN: "\<not> fl_less x NaN" "fl_add rnd x NaN = NaN"
  by (cases x; simp)+

lemma Seconds_0: "float_rounding rnd \<Longrightarrow> Seconds rnd (Sub t t) = Fin 0"
  by (simp add: Seconds_def Sub_def rounded_0)

text \<open>The rates that limit: all but infinity and NaN, of which neither is less than or equal to 0.\<close>

definition limiting :: "rate_config \<Rightarrow> bool" where
  "limiting config \<longleftrightarrow> MaxCommandsPerSecond config \<noteq> PInf \<and> MaxCommandsPerSecond config \<noteq> NaN"

lemma limiting_defaults:
  "limiting config \<Longrightarrow> \<exists>x. MaxCommandsPerSecond (rate_defaults config) = Fin x"
  "\<not> limiting config \<Longrightarrow> MaxCommandsPerSecond (rate_defaults config) \<in> {PInf, NaN}"
  by (cases "MaxCommandsPerSecond config"; auto simp: limiting_def rate_defaults_def Let_def fl_le_def)+

text \<open>The tokens that are left when k remain: without a limiting rate the count is NaN after the first
  command.\<close>

definition left :: "rate_config \<Rightarrow> int \<Rightarrow> float64" where
  "left config k = (if limiting config then Fin (of_int k) else NaN)"

lemma take_token_same_time:
  assumes rnd: "float_rounding rnd" and k: "0 \<le> k" "k \<le> BurstSize (rate_defaults config)" "BurstSize (rate_defaults config) \<le> 2 ^ 53"
    and x: "x = Fin (of_int k) \<or> x = left config k"
  shows "take_token rnd (rate_defaults config) t \<lparr>tokens = x, lastCheck = t\<rparr> =
    (limiting config \<longrightarrow> 0 < k, \<lparr>tokens = left config (if 0 < k then k - 1 else 0), lastCheck = t\<rparr>)"
proof (cases "limiting config")
  case True
  then obtain y where y: "MaxCommandsPerSecond (rate_defaults config) = Fin y" using limiting_defaults(1) by blast
  have i: "rnd (of_int (BurstSize (rate_defaults config))) = Fin (of_int (BurstSize (rate_defaults config)))" "rnd (of_int k) = Fin (of_int k)"
    using rounded_int [OF rnd] k by simp_all
  have "rnd (of_int k - 1) = Fin (of_int (k - 1))" if "0 < k" using rounded_int [OF rnd, of "k - 1"] k that by simp
  then show ?thesis
    using k x True by (auto simp: take_token_def Let_def Seconds_0 [OF rnd] rounded_0 [OF rnd] i y left_def)
next
  case False
  then have "fl_mul rnd (Fin 0) (MaxCommandsPerSecond (rate_defaults config)) = NaN"
    using limiting_defaults(2) [OF False] by (auto simp: fl_inf_def)
  then show ?thesis
    using x False by (auto simp: take_token_def Let_def Seconds_0 [OF rnd] left_def fl_NaN)
qed

definition refused :: outcome where
  "refused = Returns (Some (ErrBad ''rate limit exceeded''))"

text \<open>A handler that stays on its connection, does not touch the limiters and does not answer as the
  limit does.\<close>

definition plain_handler :: "('c \<Rightarrow> string) \<Rightarrow> nat \<Rightarrow> 'c mw_world action \<Rightarrow> bool" where
  "plain_handler addr a next \<longleftrightarrow>
     (\<forall>ctx w. fst (next ctx w) \<noteq> refused \<and> mw_limiters (snd (next ctx w)) a = mw_limiters w a \<and>
        mw_clock (snd (next ctx w)) = mw_clock w \<and> addr (mw_conn (snd (next ctx w))) = addr (mw_conn w))"

lemma RateLimit_step:
  assumes rnd: "float_rounding rnd" and b: "BurstSize (rate_defaults config) \<le> 2 ^ 53" and k: "0 \<le> k" "k \<le> BurstSize (rate_defaults config)"
    and lim: "mw_limiters w a (addr (mw_conn w)) = Some \<lparr>tokens = left config k, lastCheck = t\<rparr> \<or>
      mw_limiters w a (addr (mw_conn w)) = None \<and> k = BurstSize (rate_defaults config)"
    and clock: "\<forall>i. mw_clock w i = t" and plain: "plain_handler addr a next"
  obtains r w' where "RateLimit rnd addr a config next ctx w = (r, w')" "r = refused \<longleftrightarrow> limiting config \<and> k = 0"
    "mw_limiters w' a (addr (mw_conn w')) = Some \<lparr>tokens = left config (if 0 < k then k - 1 else 0), lastCheck = t\<rparr>"
    "\<forall>i. mw_clock w' i = t" "addr (mw_conn w') = addr (mw_conn w)"
proof -
  let ?cfg = "rate_defaults config" and ?key = "addr (mw_conn w)"
  have ib: "rnd (of_int (BurstSize ?cfg)) = Fin (of_int (BurstSize ?cfg))" using rounded_int [OF rnd] k b by simp
  let ?st = "\<lparr>tokens = left config (if 0 < k then k - 1 else 0), lastCheck = t\<rparr> :: limiterState"
  note tok = take_token_same_time [OF rnd k b, of _ t]
  obtain reads where run: "RateLimit rnd addr a config next ctx w =
      (let w1 = with_limiters a ?key ?st (w\<lparr>mw_reads := reads\<rparr>)
       in if limiting config \<longrightarrow> 0 < k then next ctx w1 else (refused, w1))"
    using lim
  proof (elim disjE conjE)
    assume "mw_limiters w a ?key = Some \<lparr>tokens = left config k, lastCheck = t\<rparr>"
    then show thesis
      using that [of "mw_reads w + 1"] clock by (simp add: RateLimit_def Let_def Now_def tok refused_def)
  next
    assume "mw_limiters w a ?key = None" "k = BurstSize ?cfg"
    then show thesis
      using that [of "mw_reads w + 1 + 1"] clock tok by (simp add: RateLimit_def Let_def Now_def ib refused_def)
  qed
  let ?w1 = "with_limiters a ?key ?st (w\<lparr>mw_reads := reads\<rparr>)"
  have w1: "mw_limiters ?w1 a ?key = Some ?st" "mw_clock ?w1 = mw_clock w" "mw_conn ?w1 = mw_conn w"
    by (simp_all add: with_limiters_def)
  show thesis
  proof (cases "limiting config \<longrightarrow> 0 < k")
    case True
    then show ?thesis
      using that [of "fst (next ctx ?w1)" "snd (next ctx ?w1)"] run w1 clock plain unfolding plain_handler_def Let_def by auto
  next
    case False
    then show ?thesis
      using that [of refused ?w1] run w1 clock k unfolding Let_def by simp
  qed
qed

lemma rate_limit_run:
  assumes rnd: "float_rounding rnd" and b: "BurstSize (rate_defaults config) \<le> 2 ^ 53" and plain: "plain_handler addr a next"
  shows "0 \<le> k \<Longrightarrow> k \<le> BurstSize (rate_defaults config) \<Longrightarrow>
    mw_limiters w a (addr (mw_conn w)) = Some \<lparr>tokens = left config k, lastCheck = t\<rparr> \<or>
      mw_limiters w a (addr (mw_conn w)) = None \<and> k = BurstSize (rate_defaults config) \<Longrightarrow>
    \<forall>i. mw_clock w i = t \<Longrightarrow>
    map (\<lambda>r. r = refused) (fst (serve_all (RateLimit rnd addr a config next) ctxs w)) =
      map (\<lambda>i. limiting config \<and> int i \<ge> k) [0..<length ctxs]"
proof (induction ctxs arbitrary: w k)
  case (Cons ctx ctxs)
  obtain r w' where s: "RateLimit rnd addr a config next ctx w = (r, w')" "r = refused \<longleftrightarrow> limiting config \<and> k = 0"
    "mw_limiters w' a (addr (mw_conn w')) = Some \<lparr>tokens = left config (if 0 < k then k - 1 else 0), lastCheck = t\<rparr>"
    "\<forall>i. mw_clock w' i = t"
    using RateLimit_step [OF rnd b Cons.prems(1-4) plain] by metis
  let ?k = "if 0 < k then k - 1 else 0"
  have "map (\<lambda>r. r = refused) (fst (serve_all (RateLimit rnd addr a config next) ctxs w')) = map (\<lambda>i. limiting config \<and> int i \<ge> ?k) [0..<length ctxs]"
    using Cons.prems(1,2) s(3,4) by (intro Cons.IH) auto
  moreover have "map (\<lambda>i. limiting config \<and> int i \<ge> k) [0..<length (ctx # ctxs)] =
      (limiting config \<and> k = 0) # map (\<lambda>i. limiting config \<and> int i \<ge> ?k) [0..<length ctxs]"
    using Cons.prems(1) by (simp only: length_Cons upt_conv_Cons map_Suc_upt [symmetric]) (auto simp del: upt_Suc simp: upt_rec [of 0])
  moreover have "fst (serve_all (RateLimit rnd addr a config next) (ctx # ctxs) w) =
      r # fst (serve_all (RateLimit rnd addr a config next) ctxs w')"
    using s(1) by (simp split: prod.split)
  ultimately show ?case using s(2) by (simp only: list.map)
qed simp

text \<open>C31. The rate limit lets a burst through and no more: of the commands that a new connection sends at
  one moment, the first \<open>BurstSize\<close> (10 if it is not positive) reach the handler and every later
  one is refused, with the rounding of floating-point numbers. The exceptions are the rates infinity
  and NaN, with which no command is refused at all, since 0 times either of them is NaN.\<close>

theorem rate_limit_burst:
  assumes "float_rounding rnd" "BurstSize config \<le> 2 ^ 53" "plain_handler addr a next"
    and "mw_limiters w a (addr (mw_conn w)) = None" "\<forall>i j. mw_clock w i = mw_clock w j"
  shows "map (\<lambda>r. r = refused) (fst (serve_all (RateLimit rnd addr a config next) ctxs w)) =
    map (\<lambda>i. limiting config \<and> int i \<ge> (if BurstSize config \<le> 0 then 10 else BurstSize config)) [0..<length ctxs]"
proof -
  let ?b = "if BurstSize config \<le> 0 then 10 else BurstSize config"
  have b: "BurstSize (rate_defaults config) = ?b" by (simp add: rate_defaults_def Let_def)
  then have "BurstSize (rate_defaults config) \<le> 2 ^ 53" "0 \<le> ?b" "?b \<le> BurstSize (rate_defaults config)"
    using assms(2) by simp_all
  moreover have "\<forall>i. mw_clock w i = mw_clock w 0" using assms(5) by blast
  ultimately show ?thesis
    using rate_limit_run [OF assms(1) _ assms(3), of config ?b w "mw_clock w 0" ctxs] assms(4) b by simp
qed

theorem rate_limit_burst_witness:
  "map (\<lambda>r. r = refused) (fst (serve_all (RateLimit Fin (\<lambda>c. c) 0 \<lparr>MaxCommandsPerSecond = Fin 5, BurstSize = 2\<rparr> crashing)
     [example_command ''NOOP'', example_command ''NOOP'', example_command ''NOOP''] example_world)) = [False, False, True]"
proof -
  have "float_rounding Fin" by (simp add: float_rounding_def)
  moreover have "plain_handler (\<lambda>c. c) 0 crashing" by (simp add: plain_handler_def crashing_def refused_def)
  ultimately show ?thesis
    using rate_limit_burst [of Fin "\<lparr>MaxCommandsPerSecond = Fin 5, BurstSize = 2\<rparr>" "\<lambda>c. c" 0 crashing example_world
        "[example_command ''NOOP'', example_command ''NOOP'', example_command ''NOOP'']"]
    by (simp add: example_world_def upt_rec limiting_def)
qed

end
