(* ===== verification/Spec2Isabelle.thy ===== *)
theory Spec2Isabelle
  imports NumSet WireCodec ConnState Message MailboxLaws MemLaws Writers Registry Utf7 Tracker MemBackend ParserLaws AuthLaws
    ClientLaws ExtProps Shipped Middleware
begin

text \<open>
  Verification of the IMAP library \<open>imap-go\<close>: the wire protocol, the server with its built-in
  command handlers, the in-memory backend, the authentication mechanisms, the client, and the
  extensions.

  \<^bold>\<open>How the parts interact.\<close> A connection (\<open>server/conn.go\<close>, \<open>server/server.go\<close>) reads a line, the
  dispatcher (\<open>server/dispatch.go\<close>) splits it, asks the state machine (\<open>state\<close>) whether the command
  is allowed and calls the handler registered for it (\<open>server/commands\<close>, \<open>extensions\<close>). The handler
  parses its arguments with the decoder (\<open>wire\<close>), calls the backend through the interface
  \<open>Session\<close> and writes a tagged response; an error it returns becomes the tagged response.
  \<open>server/memserver\<close> is the backend the library ships. The client writes commands, and its reader
  goroutine turns the lines of the server into results of pending commands. An extension adds
  handlers or wraps the ones that are there. Middleware wraps handlers too.

  \<^bold>\<open>Theories.\<close> In the order of their dependencies:

  \<^item> \<open>Prelude\<close>: what the sources use of Go and its library (strings, numbers as text, slices), and
    the locale \<open>transition_system\<close> for invariants of step relations.
  \<^item> \<open>NumSet\<close> (\<open>numset.go\<close>), \<open>Wire\<close> and \<open>WireCodec\<close> (\<open>wire/encoder.go\<close>, \<open>wire/decoder.go\<close>), \<open>Utf7\<close>
    (\<open>wire/utf7\<close>), \<open>CapSet\<close> (\<open>capability.go\<close>, \<open>response.go\<close>), \<open>Types\<close> (the option and data
    structures of the root package), \<open>ConnState\<close> (\<open>state\<close>, the states of \<open>imap.go\<close>).
  \<^item> \<open>Message\<close>, \<open>Mailbox\<close>, \<open>MailboxLaws\<close>, \<open>MemStore\<close>, \<open>MemSession\<close>, \<open>MemSystem\<close>, \<open>MemLaws\<close>:
    \<open>server/memserver\<close>, from a message to several sessions on one store. Pointers to mailboxes and
    user data are addresses of a heap, because sessions share them.
  \<^item> \<open>Writers\<close> (\<open>server/writers.go\<close>) and \<open>Tracker\<close> (\<open>server/tracker.go\<close>, with the lock operations of
    each method).
  \<^item> \<open>Server\<close> (the rest of \<open>server\<close>), \<open>Parsers\<close> and \<open>Commands\<close> (\<open>server/commands\<close>): a connection is a
    record of unread input, written responses, session, state machine and the fields of \<open>Conn\<close>;
    a handler is a function on it whose result is an error or none, a panic, or no return.
  \<^item> \<open>ServerLaws\<close>, \<open>ReplyLaws\<close>, \<open>CallLaws\<close>, \<open>ParserLaws\<close>: laws of the server for any backend;
    \<open>MemBackend\<close>: the sessions of \<open>memserver\<close> as such a backend, and the whole system.
  \<^item> \<open>Middleware\<close> (\<open>middleware\<close>): chains of wrappers around a handler.
  \<^item> \<open>Auth\<close> and \<open>AuthLaws\<close> (\<open>auth\<close>), \<open>Client\<close> and \<open>ClientLaws\<close> (\<open>client\<close>).
  \<^item> \<open>Registry\<close> (\<open>extension\<close>) and \<open>Shipped\<close> (what each package under \<open>extensions\<close> registers);
    \<open>Extensions\<close>, \<open>ExtMessages\<close>, \<open>ExtSearch\<close>, \<open>ExtMailboxes\<close>: the handlers of the packages, those
    with commands of their own and those that wrap SELECT, FETCH, STORE, COPY, EXPUNGE, CREATE and
    ENABLE, then SEARCH and SORT, then APPEND and LIST; \<open>ExtLaws\<close> and \<open>ExtProps\<close>: their laws.

  \<^bold>\<open>Interfaces.\<close> Locales state what one part relies on of another, and each is interpreted on the
  model: \<open>range_set\<close> (sequence and UID sets), \<open>item_codec\<close> (what a list element must satisfy to be
  read back; strings, numbers, atoms, the pairs of ID), \<open>directory\<close> (the mailboxes of a user),
  \<open>transition_system\<close> (the state machine, mailboxes, the system of sessions, trackers, pending
  commands, the TLS guard), \<open>conn_invariant\<close> and its extension to state changes (what every handler
  keeps), \<open>backend_contract\<close> and \<open>extension_contract\<close> (a session writes untagged responses only and
  does not end the connection), both shown for \<open>memserver\<close>.

  \<^bold>\<open>What is shown.\<close>

  \<^item> Wire: strings, sets, lists, ID data and mailbox names survive encoding and decoding, with the
    exact exceptions; decoders only consume.
  \<^item> Backend: the invariant of the reachable systems (pointers valid, UIDs unique and ascending,
    each mailbox of one user); UIDs are not reused before \<open>2 ^ 32 - 1\<close> messages have arrived;
    EXPUNGE, STORE, COPY, SEARCH and the LIST patterns do what they promise; EXAMINE protects a
    mailbox from FETCH and STORE.
  \<^item> Server: commands run only in their states; LOGIN needs TLS; every command is answered by one
    tagged response, also with any extensions installed in any order, under conditions that three
    wrapped handlers need; the connection loop ends;
    which commands return; every step over the wire is a step of the backend's system, so that
    its invariant and the isolation of users hold for clients.
  \<^item> Client: every command is answered exactly once; LOGIN and SELECT end to end with the server.
    Authentication: client and server agree, and no success without the authenticator's.
  \<^item> Extensions: the shipped ones resolve in every order; UIDONLY refuses sequence numbers in seven
    commands. Middleware: the metrics count and the rate limit stops what they should.
  \<^item> Where the code fails its purpose, theorems state the failing case: loops that do not return,
    a deadlock of the trackers, responses that are missing or doubled, arguments that inject a
    command, commands that run before login.

  \<^bold>\<open>Bounds and non-termination.\<close> There is no fuel. A loop that may not return is a
  \<open>partial_function\<close> whose value is then \<open>None\<close>, and that it returns is a theorem where it is true.
  \<open>uint32\<close> is a 32-bit word that wraps around; the theorems on fresh UIDs assume room below
  \<open>2 ^ 32\<close>, as the steps of sessions and of the wire do for APPEND and COPY, and say so. \<open>float64\<close> has
  its infinities and NaN, with the rounding as an argument. Memory is unlimited: a literal whose
  size no slice can have panics in Go and is the end of the input here. The input of a connection is finite and ends with \<open>io.EOF\<close>. The order in which Go
  iterates over a map is an argument.

  \<^bold>\<open>Parameters.\<close> What the code takes from outside the repository and what is not text processing is
  an argument: reading MIME headers, parsing and formatting times, the clock, the texts of errors,
  the TLS handshake, HMAC-MD5, the authenticator, and the sessions of an application.

  \<^bold>\<open>Not modelled.\<close> Listening sockets, accept loops, deadlines and dialling (\<open>server/server.go\<close>,
  \<open>client/client.go\<close>) are operating system I/O; \<open>wire/literal.go\<close> counts bytes around readers and
  writers; the compressed stream of COMPRESS lives in the session; \<open>command.go\<close> has constants only;
  \<open>imaptest\<close> is test support and \<open>examples\<close> are programs that call the library. Goroutines appear
  where their interleaving matters (trackers, the reader of the client); elsewhere the lock of a
  structure makes each of its methods one step.
\<close>

end
